(* ===== verification/Prelude.thy ===== *)
theory Prelude
  imports Complex_Main "HOL-Library.AList" "HOL-Library.Sublist"
begin

text \<open>
  What every component of the development shares: Python dictionaries as association
  lists in insertion order, the string operations the sources use, rational time and
  money with Python's rounding, and the collections of rewrite rules the component proofs
  are built from. A Python float is a rational here (\<open>rat\<close>), so arithmetic is exact
  and rounding errors of binary floating point are outside the model; the special values
  (NaN and the infinities) are kept where the code meets them, see theory PyValue. A
  string is a list of ASCII characters.
\<close>

named_theorems dict_simps "reading a dictionary after an update"
named_theorems value_simps "evaluation of dynamic values"
named_theorems frame_simps "fields a step leaves alone"

section \<open>Dictionaries\<close>

text \<open>
  A Python dict keeps its insertion order: assignment replaces the value of a present key
  in place and appends a new key at the end, which is what \<open>AList.update\<close> does.
\<close>

type_synonym ('k, 'v) dict = "('k \<times> 'v) list"

definition dget :: "('k, 'v) dict \<Rightarrow> 'k \<Rightarrow> 'v option" where
  "dget d k = map_of d k"

definition dget_or :: "('k, 'v) dict \<Rightarrow> 'k \<Rightarrow> 'v \<Rightarrow> 'v" where
  "dget_or d k v = (case map_of d k of None \<Rightarrow> v | Some w \<Rightarrow> w)"

definition dset :: "'k \<Rightarrow> 'v \<Rightarrow> ('k, 'v) dict \<Rightarrow> ('k, 'v) dict" where
  "dset k v d = AList.update k v d"

definition dpop :: "'k \<Rightarrow> ('k, 'v) dict \<Rightarrow> ('k, 'v) dict" where
  "dpop k d = filter (\<lambda>(k', _). k' \<noteq> k) d"

definition dkeys :: "('k, 'v) dict \<Rightarrow> 'k list" where
  "dkeys d = map fst d"

definition has_key :: "('k, 'v) dict \<Rightarrow> 'k \<Rightarrow> bool" where
  "has_key d k = (map_of d k \<noteq> None)"

lemma dget_dset [simp, dict_simps]: "dget (dset k v d) k' = (if k' = k then Some v else dget d k')"
  by (simp add: dget_def dset_def update_conv')

lemma dget_or_dset [simp, dict_simps]: "dget_or (dset k v d) k' w = (if k' = k then v else dget_or d k' w)"
  by (simp add: dget_or_def dset_def update_conv')

lemma dget_or_dget: "dget_or d k v = (case dget d k of None \<Rightarrow> v | Some w \<Rightarrow> w)"
  by (simp add: dget_or_def dget_def)

lemma has_key_dget: "has_key d k \<longleftrightarrow> dget d k \<noteq> None"
  by (simp add: has_key_def dget_def)

lemma dget_dpop [simp, dict_simps]: "dget (dpop k d) k' = (if k' = k then None else dget d k')"
  by (induction d) (auto simp: dget_def dpop_def)

lemma dget_Nil [simp]: "dget [] k = None"
  by (simp add: dget_def)

lemma dget_Cons [simp]: "dget ((k', v) # d) k = (if k = k' then Some v else dget d k)"
  by (simp add: dget_def)

lemma dget_or_Nil [simp]: "dget_or [] k v = v"
  by (simp add: dget_or_def)

lemma dget_or_Cons [simp]: "dget_or ((k', w) # d) k v = (if k = k' then w else dget_or d k v)"
  by (simp add: dget_or_def)

lemma dget_SomeD: "dget d k = Some v \<Longrightarrow> (k, v) \<in> set d"
  by (simp add: dget_def map_of_SomeD)

lemma dset_set: "set (dset k v d) \<subseteq> insert (k, v) (set d)"
  by (induction d) (auto simp: dset_def)

lemma distinct_dset [simp]: "distinct (dkeys (dset k v d)) \<longleftrightarrow> distinct (dkeys d)"
proof
  show "distinct (dkeys d) \<Longrightarrow> distinct (dkeys (dset k v d))"
    unfolding dkeys_def dset_def by (rule distinct_update)
  show "distinct (dkeys (dset k v d)) \<Longrightarrow> distinct (dkeys d)"
    unfolding dkeys_def dset_def by (induction d) (auto simp: update_keys split: if_splits)
qed

lemma set_dkeys_dset [simp]: "set (dkeys (dset k v d)) = insert k (set (dkeys d))"
  by (auto simp: dkeys_def dset_def update_keys)

lemma set_dkeys_dpop [simp]: "set (dkeys (dpop k d)) = set (dkeys d) - {k}"
  by (auto simp: dkeys_def dpop_def)

lemma distinct_dpop [simp]: "distinct (dkeys d) \<Longrightarrow> distinct (dkeys (dpop k d))"
  unfolding dkeys_def dpop_def
  by (induction d) (auto simp: case_prod_beta)

lemma dget_None_iff: "dget d k = None \<longleftrightarrow> k \<notin> set (dkeys d)"
  by (auto simp: dget_def dkeys_def map_of_eq_None_iff)

section \<open>Strings\<close>

text \<open>\<open>str.strip\<close>, \<open>str.lower\<close>, \<open>str.startswith\<close>, \<open>str.endswith\<close> and the
  \<open>in\<close> test on ASCII text. Python strips the control characters 28 to 31 as well.\<close>

definition is_space :: "char \<Rightarrow> bool" where
  "is_space c = (let n = (of_char c :: nat) in (9 \<le> n \<and> n \<le> 13) \<or> (28 \<le> n \<and> n \<le> 32))"

definition str_rstrip :: "string \<Rightarrow> string" where
  "str_rstrip s = rev (dropWhile is_space (rev s))"

definition str_strip :: "string \<Rightarrow> string" where
  "str_strip s = str_rstrip (dropWhile is_space s)"

definition lower_char :: "char \<Rightarrow> char" where
  "lower_char c = (let n = (of_char c :: nat) in if 65 \<le> n \<and> n \<le> 90 then char_of (n + 32) else c)"

definition str_lower :: "string \<Rightarrow> string" where
  "str_lower s = map lower_char s"

definition upper_char :: "char \<Rightarrow> char" where
  "upper_char c = (let n = (of_char c :: nat) in if 97 \<le> n \<and> n \<le> 122 then char_of (n - 32) else c)"

definition str_upper :: "string \<Rightarrow> string" where
  "str_upper s = map upper_char s"

definition str_startswith :: "string \<Rightarrow> string \<Rightarrow> bool" where
  "str_startswith s p = prefix p s"

definition str_endswith :: "string \<Rightarrow> string \<Rightarrow> bool" where
  "str_endswith s p = suffix p s"

definition str_contains :: "string \<Rightarrow> string \<Rightarrow> bool" where
  "str_contains s p = sublist p s"

text \<open>\<open>str.rstrip\<close> of one character\<close>

definition rstrip_char :: "char \<Rightarrow> string \<Rightarrow> string" where
  "rstrip_char c s = rev (dropWhile (\<lambda>x. x = c) (rev s))"

lemma str_contains_append [intro]:
  "str_contains s p \<Longrightarrow> str_contains (s @ t) p" "str_contains t p \<Longrightarrow> str_contains (s @ t) p"
  unfolding str_contains_def by (metis sublist_append)+

lemma str_rstrip_idem [simp]: "str_rstrip (str_rstrip s) = str_rstrip s"
  by (simp add: str_rstrip_def dropWhile_idem)

lemma str_rstrip_prefix: "prefix (str_rstrip s) s"
  unfolding str_rstrip_def
  by (metis rev_rev_ident suffix_dropWhile suffix_to_prefix)

lemma length_str_rstrip: "length (str_rstrip s) \<le> length s"
  using length_dropWhile_le [of is_space "rev s"] by (simp add: str_rstrip_def)

section \<open>Lists, options and errors\<close>

text \<open>Python's \<open>dict.fromkeys\<close>-style deduplication loop: keep the first occurrence.\<close>

fun keep_first :: "'a list \<Rightarrow> 'a list \<Rightarrow> 'a list" where
  "keep_first seen [] = []"
| "keep_first seen (x # xs) =
     (if x \<in> set seen then keep_first seen xs else x # keep_first (x # seen) xs)"

lemma set_keep_first [simp]: "set (keep_first seen xs) = set xs - set seen"
  by (induction seen xs rule: keep_first.induct) auto

lemma distinct_keep_first [simp]: "distinct (keep_first seen xs)"
  by (induction seen xs rule: keep_first.induct) auto

lemma length_keep_first: "length (keep_first seen xs) \<le> length xs"
  by (induction seen xs rule: keep_first.induct) auto

lemma subseq_keep_first: "subseq (keep_first seen xs) xs"
  by (induction seen xs rule: keep_first.induct) (auto intro: list_emb_Cons)

text \<open>Sequencing of results that may be errors (\<open>Inl\<close>), the model of \<open>raise\<close>.\<close>

definition bind_res :: "'e + 'a \<Rightarrow> ('a \<Rightarrow> 'e + 'b) \<Rightarrow> 'e + 'b" where
  "bind_res r f = (case r of Inl e \<Rightarrow> Inl e | Inr x \<Rightarrow> f x)"

lemma bind_res_simps [simp]: "bind_res (Inl e) f = Inl e" "bind_res (Inr x) f = f x"
  by (simp_all add: bind_res_def)

lemma bind_res_Inr_iff: "bind_res r f = Inr y \<longleftrightarrow> (\<exists>x. r = Inr x \<and> f x = Inr y)"
  by (cases r) auto

fun map_res :: "('a \<Rightarrow> 'e + 'b) \<Rightarrow> 'a list \<Rightarrow> 'e + 'b list" where
  "map_res f [] = Inr []"
| "map_res f (x # xs) =
     bind_res (f x) (\<lambda>y. bind_res (map_res f xs) (\<lambda>ys. Inr (y # ys)))"

lemma map_res_Inr: "map_res f xs = Inr ys \<Longrightarrow> list_all2 (\<lambda>x y. f x = Inr y) xs ys"
  by (induction xs arbitrary: ys) (auto simp: bind_res_Inr_iff)

text \<open>Adding the elements of a list one by one to a store, stopping at the first refusal.\<close>

fun add_all :: "('v \<Rightarrow> 's \<Rightarrow> 'e + 's) \<Rightarrow> 'v list \<Rightarrow> 's \<Rightarrow> 'e + 's" where
  "add_all add [] s = Inr s"
| "add_all add (x # xs) s = bind_res (add x s) (add_all add xs)"

section \<open>Rounding\<close>

text \<open>Python's \<open>round(x, n)\<close>: to the nearest multiple of \<open>10^-n\<close>, ties to even.\<close>

definition round_half_even :: "rat \<Rightarrow> int" where
  "round_half_even x =
     (let f = \<lfloor>x\<rfloor>; r = x - of_int f
      in if r < 1 / 2 then f else if r > 1 / 2 then f + 1
         else if even f then f else f + 1)"

definition py_round :: "rat \<Rightarrow> nat \<Rightarrow> rat" where
  "py_round x n = of_int (round_half_even (x * 10 ^ n)) / 10 ^ n"

lemma round_half_even_of_int [simp]: "round_half_even (of_int k) = k"
  by (simp add: round_half_even_def Let_def)

lemma round_half_even_mono: "x \<le> y \<Longrightarrow> round_half_even x \<le> round_half_even y"
proof -
  assume le: "x \<le> y"
  then have fl: "\<lfloor>x\<rfloor> \<le> \<lfloor>y\<rfloor>" by (rule floor_mono)
  show ?thesis
  proof (cases "\<lfloor>x\<rfloor> = \<lfloor>y\<rfloor>")
    case True
    with le show ?thesis by (auto simp: round_half_even_def Let_def)
  next
    case False
    with fl have "\<lfloor>x\<rfloor> + 1 \<le> \<lfloor>y\<rfloor>" by simp
    moreover have "round_half_even x \<le> \<lfloor>x\<rfloor> + 1" "\<lfloor>y\<rfloor> \<le> round_half_even y"
      by (auto simp: round_half_even_def Let_def)
    ultimately show ?thesis by linarith
  qed
qed

lemma py_round_mono: "x \<le> y \<Longrightarrow> py_round x n \<le> py_round y n"
  unfolding py_round_def
  by (intro divide_right_mono) (auto intro!: round_half_even_mono mult_right_mono)

lemma py_round_0 [simp]: "py_round 0 n = 0"
  using round_half_even_of_int [of 0] by (simp add: py_round_def)

lemma py_round_nonneg: "0 \<le> x \<Longrightarrow> 0 \<le> py_round x n"
  using py_round_mono [of 0 x n] by simp

end
