(* ===== verification/PyValue.thy ===== *)
theory PyValue
  imports Prelude "HOL-Library.Char_ord" "HOL-Library.List_Lexorder"
begin

text \<open>
  The dynamic values the sources handle: JSON-like data, plus objects read by attribute
  (LiteLLM responses, registry tools) and bytes. \<open>isinstance\<close> tests are matches on
  the constructor (a bool is an int in Python, so \<open>PBool\<close> passes an int test), and
  \<open>bool(x)\<close>, \<open>int(x)\<close>, \<open>float(x)\<close>, \<open>str(x)\<close> and \<open>==\<close> are functions. What
  \<open>repr\<close> prints for floats and containers is the argument \<open>rp\<close> of \<open>py_str\<close>.
\<close>

datatype pyfloat = Fin rat | PosInf | NegInf | NaN

datatype pyval =
    PNone
  | PBool bool
  | PInt int
  | PFloat pyfloat
  | PStr string
  | PBytes string
  | PList "pyval list"
  | PDict "(string \<times> pyval) list"
  | PObj "(string \<times> pyval) list"

type_synonym pydict = "(string \<times> pyval) list"

text \<open>The exceptions of the standard library the sources raise or catch by name.\<close>

datatype py_error =
    ValueError string
  | TypeError string
  | OverflowError string
  | KeyError string
  | AttributeError string
  | RuntimeError string
  | TimeoutError string
  | PermissionError string
  | ConnectionError string
  | OtherError string

section \<open>Floats\<close>

text \<open>Comparisons with NaN are false, as in IEEE arithmetic.\<close>

fun pf_le :: "pyfloat \<Rightarrow> pyfloat \<Rightarrow> bool" where
  "pf_le NaN _ = False"
| "pf_le _ NaN = False"
| "pf_le NegInf _ = True"
| "pf_le _ PosInf = True"
| "pf_le (Fin x) (Fin y) = (x \<le> y)"
| "pf_le _ _ = False"

fun pf_lt :: "pyfloat \<Rightarrow> pyfloat \<Rightarrow> bool" where
  "pf_lt NaN _ = False"
| "pf_lt _ NaN = False"
| "pf_lt (Fin x) (Fin y) = (x < y)"
| "pf_lt NegInf NegInf = False"
| "pf_lt NegInf _ = True"
| "pf_lt PosInf _ = False"
| "pf_lt _ PosInf = True"
| "pf_lt _ NegInf = False"

fun pf_eq :: "pyfloat \<Rightarrow> pyfloat \<Rightarrow> bool" where
  "pf_eq NaN _ = False"
| "pf_eq _ NaN = False"
| "pf_eq x y = (x = y)"

fun pf_sub :: "pyfloat \<Rightarrow> pyfloat \<Rightarrow> pyfloat" where
  "pf_sub (Fin x) (Fin y) = Fin (x - y)"
| "pf_sub NaN _ = NaN"
| "pf_sub _ NaN = NaN"
| "pf_sub PosInf PosInf = NaN"
| "pf_sub NegInf NegInf = NaN"
| "pf_sub PosInf _ = PosInf"
| "pf_sub NegInf _ = NegInf"
| "pf_sub (Fin _) PosInf = NegInf"
| "pf_sub (Fin _) NegInf = PosInf"

lemma pf_lt_not_le: "pf_lt x y \<Longrightarrow> \<not> pf_le y x"
  by (cases x; cases y) auto

lemma pf_le_Fin_iff: "pf_le (Fin a) x \<and> pf_le x (Fin b) \<longleftrightarrow> (\<exists>q. x = Fin q \<and> a \<le> q \<and> q \<le> b)"
  by (cases x) auto

section \<open>Numbers in text\<close>

definition is_digit :: "char \<Rightarrow> bool" where
  "is_digit c = (let n = (of_char c :: nat) in 48 \<le> n \<and> n \<le> 57)"

definition digit_val :: "char \<Rightarrow> nat" where
  "digit_val c = of_char c - 48"

text \<open>A non-empty run of digits, single underscores allowed between two digits; the second
  argument says whether the last character was a digit.\<close>

fun digits_value :: "nat \<Rightarrow> bool \<Rightarrow> string \<Rightarrow> nat option" where
  "digits_value acc prev [] = (if prev then Some acc else None)"
| "digits_value acc prev (c # cs) =
     (if is_digit c then digits_value (10 * acc + digit_val c) True cs
      else if c = CHR ''_'' \<and> prev then digits_value acc False cs
      else None)"

fun split_sign :: "string \<Rightarrow> bool \<times> string" where
  "split_sign [] = (False, [])"
| "split_sign (c # cs) =
     (if c = CHR ''-'' then (True, cs) else if c = CHR ''+'' then (False, cs) else (False, c # cs))"

text \<open>\<open>int(text, 10)\<close>\<close>

definition int_of_text :: "string \<Rightarrow> int option" where
  "int_of_text s =
     (let (neg, body) = split_sign (str_strip s)
      in map_option (\<lambda>n. if neg then - int n else int n) (digits_value 0 False body))"

definition exponent_of :: "string \<Rightarrow> int option" where
  "exponent_of e =
     (let (neg, body) = split_sign e
      in map_option (\<lambda>n. if neg then - int n else int n) (digits_value 0 False body))"

text \<open>The part before and the part after the first occurrence of a character.\<close>

definition split_once :: "char \<Rightarrow> string \<Rightarrow> string \<times> string option" where
  "split_once c s =
     (case dropWhile (\<lambda>x. x \<noteq> c) s of [] \<Rightarrow> (s, None)
      | _ # rest \<Rightarrow> (takeWhile (\<lambda>x. x \<noteq> c) s, Some rest))"

text \<open>\<open>text.split(c)\<close>\<close>

fun split_at :: "char \<Rightarrow> string \<Rightarrow> string list" where
  "split_at c [] = [[]]"
| "split_at c (x # xs) =
     (if x = c then [] # split_at c xs
      else case split_at c xs of y # ys \<Rightarrow> (x # y) # ys | [] \<Rightarrow> [[x]])"

lemma length_split_at: "length (split_at c s) = Suc (length (filter (\<lambda>x. x = c) s))"
  by (induction s) (auto split: list.splits)

lemma split_at_not_Nil: "split_at c s \<noteq> []"
  by (induction s) (auto split: list.splits)

lemma split_at_append: "split_at c (a @ c # b) = split_at c a @ split_at c b"
  using split_at_not_Nil by (induction a) (auto split: list.splits)

lemma split_once_append: "c \<notin> set a \<Longrightarrow> split_once c (a @ c # b) = (a, Some b)"
proof -
  assume "c \<notin> set a"
  then have "x \<noteq> c" if "x \<in> set a" for x using that by auto
  then show ?thesis by (simp add: split_once_def dropWhile_append2 takeWhile_append2)
qed

definition digits_or_empty :: "string \<Rightarrow> nat option" where
  "digits_or_empty s = (if s = [] then Some 0 else digits_value 0 False s)"

definition mantissa_of :: "string \<Rightarrow> rat option" where
  "mantissa_of m =
     (let (whole, frac) = split_once (CHR ''.'') m;
          f = (case frac of None \<Rightarrow> [] | Some f \<Rightarrow> f)
      in if whole = [] \<and> f = [] then None
         else case (digits_or_empty whole, digits_or_empty f) of
                (Some a, Some b) \<Rightarrow> Some (of_nat a + of_nat b / 10 ^ length (filter is_digit f))
              | _ \<Rightarrow> None)"

definition scale10 :: "rat \<Rightarrow> int \<Rightarrow> rat" where
  "scale10 q e = (if 0 \<le> e then q * 10 ^ nat e else q / 10 ^ nat (- e))"

text \<open>\<open>float(text)\<close>; the value is exact rather than rounded to a double.\<close>

definition float_of_text :: "string \<Rightarrow> pyfloat option" where
  "float_of_text s =
     (let (neg, body) = split_sign (str_lower (str_strip s))
      in if body = ''inf'' \<or> body = ''infinity'' then Some (if neg then NegInf else PosInf)
         else if body = ''nan'' then Some NaN
         else let (m, e) = split_once (CHR ''e'') body
              in case (mantissa_of m, case e of None \<Rightarrow> Some 0 | Some e' \<Rightarrow> exponent_of e') of
                   (Some q, Some k) \<Rightarrow> Some (Fin (let v = scale10 q k in if neg then - v else v))
                 | _ \<Rightarrow> None)"

lemma int_of_text_ex:
  "int_of_text '' 42 '' = Some 42" "int_of_text ''-1_0'' = Some (-10)"
  "int_of_text ''4.0'' = None" "int_of_text '''' = None"
  by code_simp+

lemma float_of_text_ex:
  "float_of_text ''0.75'' = Some (Fin (3 / 4))" "float_of_text ''1e-2'' = Some (Fin (1 / 100))"
  "float_of_text '' -Inf '' = Some NegInf" "float_of_text ''high'' = None"
  by code_simp+

section \<open>Conversions and tests\<close>

definition get_attr :: "pyval \<Rightarrow> string \<Rightarrow> pyval option" where
  "get_attr v k = (case v of PObj fs \<Rightarrow> map_of fs k | _ \<Rightarrow> None)"

fun is_mapping :: "pyval \<Rightarrow> bool" where
  "is_mapping (PDict _) = True"
| "is_mapping _ = False"

text \<open>\<open>isinstance(v, Sequence) and not isinstance(v, (str, bytes, bytearray))\<close>\<close>

fun is_sequence :: "pyval \<Rightarrow> bool" where
  "is_sequence (PList _) = True"
| "is_sequence _ = False"

fun truthy :: "pyval \<Rightarrow> bool" where
  "truthy PNone = False"
| "truthy (PBool b) = b"
| "truthy (PInt i) = (i \<noteq> 0)"
| "truthy (PFloat x) = (x \<noteq> Fin 0)"
| "truthy (PStr s) = (s \<noteq> [])"
| "truthy (PBytes s) = (s \<noteq> [])"
| "truthy (PList xs) = (xs \<noteq> [])"
| "truthy (PDict d) = (d \<noteq> [])"
| "truthy (PObj _) = True"

text \<open>\<open>x or y\<close>\<close>

definition py_or :: "pyval \<Rightarrow> pyval \<Rightarrow> pyval" where
  "py_or x y = (if truthy x then x else y)"

definition py_float :: "pyval \<Rightarrow> py_error + pyfloat" where
  "py_float v =
     (case v of
        PBool b \<Rightarrow> Inr (Fin (if b then 1 else 0))
      | PInt i \<Rightarrow> Inr (Fin (of_int i))
      | PFloat x \<Rightarrow> Inr x
      | PStr s \<Rightarrow> (case float_of_text s of None \<Rightarrow> Inl (ValueError ''could not convert string to float'')
                  | Some x \<Rightarrow> Inr x)
      | PBytes s \<Rightarrow> (case float_of_text s of None \<Rightarrow> Inl (ValueError ''could not convert string to float'')
                    | Some x \<Rightarrow> Inr x)
      | _ \<Rightarrow> Inl (TypeError ''float() argument must be a string or a real number''))"

definition trunc_rat :: "rat \<Rightarrow> int" where
  "trunc_rat q = (if 0 \<le> q then \<lfloor>q\<rfloor> else - \<lfloor>- q\<rfloor>)"

definition py_int :: "pyval \<Rightarrow> py_error + int" where
  "py_int v =
     (case v of
        PBool b \<Rightarrow> Inr (if b then 1 else 0)
      | PInt i \<Rightarrow> Inr i
      | PFloat (Fin q) \<Rightarrow> Inr (trunc_rat q)
      | PFloat NaN \<Rightarrow> Inl (ValueError ''cannot convert float NaN to integer'')
      | PFloat _ \<Rightarrow> Inl (OverflowError ''cannot convert float infinity to integer'')
      | PStr s \<Rightarrow> (case int_of_text s of None \<Rightarrow> Inl (ValueError ''invalid literal for int()'') | Some i \<Rightarrow> Inr i)
      | PBytes s \<Rightarrow> (case int_of_text s of None \<Rightarrow> Inl (ValueError ''invalid literal for int()'') | Some i \<Rightarrow> Inr i)
      | _ \<Rightarrow> Inl (TypeError ''int() argument must be a string or a real number''))"

fun show_nat :: "nat \<Rightarrow> string" where
  "show_nat n = (if n < 10 then [char_of (48 + n)] else show_nat (n div 10) @ [char_of (48 + n mod 10)])"

declare show_nat.simps [simp del]

definition show_int :: "int \<Rightarrow> string" where
  "show_int i = (if i < 0 then CHR ''-'' # show_nat (nat (- i)) else show_nat (nat i))"

definition py_str :: "(pyval \<Rightarrow> string) \<Rightarrow> pyval \<Rightarrow> string" where
  "py_str rp v =
     (case v of
        PNone \<Rightarrow> ''None''
      | PBool b \<Rightarrow> (if b then ''True'' else ''False'')
      | PInt i \<Rightarrow> show_int i
      | PStr s \<Rightarrow> s
      | _ \<Rightarrow> rp v)"

lemma py_str_PStr [simp]: "py_str rp (PStr s) = s"
  by (simp add: py_str_def)

text \<open>\<open>repr\<close> of a string: double quotes only when the text has a single quote and no
  double quote; quotes, backslashes and control characters escaped.\<close>

definition hex_digit :: "nat \<Rightarrow> char" where
  "hex_digit n = (if n < 10 then char_of (48 + n) else char_of (87 + n))"

definition hex_value :: "char \<Rightarrow> nat option" where
  "hex_value c =
     (let n = of_char c
      in if 48 \<le> n \<and> n \<le> 57 then Some (n - 48) else if 97 \<le> n \<and> n \<le> 102 then Some (n - 87)
         else if 65 \<le> n \<and> n \<le> 70 then Some (n - 55) else None)"

lemma hex_digits:
  assumes "n < 16"
  shows "hex_value (hex_digit n) = Some n" "(of_char (hex_digit n) :: nat) \<in> {48..57} \<union> {97..102}"
  using assms by (auto simp: hex_value_def hex_digit_def Let_def)

definition repr_char :: "char \<Rightarrow> char \<Rightarrow> string" where
  "repr_char q c =
     (let n = (of_char c :: nat)
      in if c = q \<or> n = 92 then [char_of (92 :: nat), c]
         else if n = 10 then [char_of (92 :: nat), CHR ''n'']
         else if n = 13 then [char_of (92 :: nat), CHR ''r'']
         else if n = 9 then [char_of (92 :: nat), CHR ''t'']
         else if n < 32 \<or> n = 127
              then [char_of (92 :: nat), CHR ''x'', hex_digit (n div 16), hex_digit (n mod 16)]
         else [c])"

definition repr_str :: "string \<Rightarrow> string" where
  "repr_str s =
     (let q = (if CHR 0x27 \<in> set s \<and> CHR 0x22 \<notin> set s then CHR 0x22 else CHR 0x27)
      in q # concat (map (repr_char q) s) @ [q])"

fun str_join :: "string \<Rightarrow> string list \<Rightarrow> string" where
  "str_join sep [] = []"
| "str_join sep [x] = x"
| "str_join sep (x # y # xs) = x @ sep @ str_join sep (y # xs)"

definition repr_strs :: "string list \<Rightarrow> string" where
  "repr_strs xs = ''['' @ str_join '', '' (map repr_str xs) @ '']''"

text \<open>\<open>!r\<close>: \<open>rp\<close> prints floats, bytes, containers and objects.\<close>

definition py_repr :: "(pyval \<Rightarrow> string) \<Rightarrow> pyval \<Rightarrow> string" where
  "py_repr rp v = (case v of PStr s \<Rightarrow> repr_str s | _ \<Rightarrow> py_str rp v)"

lemma repr_strs_ex: "repr_strs [''sre'', ''a'' @ [CHR 0x27]] = ''['' @ [CHR 0x27] @ ''sre'' @ [CHR 0x27] @ '', '' @ [CHR 0x22] @ ''a'' @ [CHR 0x27, CHR 0x22] @ '']''"
  by code_simp

text \<open>\<open>==\<close>: numbers compare by value across bool, int and float; dicts ignore order.\<close>

fun num_of :: "pyval \<Rightarrow> pyfloat option" where
  "num_of (PBool b) = Some (Fin (if b then 1 else 0))"
| "num_of (PInt i) = Some (Fin (of_int i))"
| "num_of (PFloat x) = Some x"
| "num_of _ = None"

lemma size_in_list: "(x :: pyval) \<in> set xs \<Longrightarrow> size x < Suc (size_list size xs)"
  by (induction xs) auto

lemma size_in_dict: "(k, v :: pyval) \<in> set d \<Longrightarrow> size v < Suc (size_list (size_prod (\<lambda>_. 0) size) d)"
  by (induction d) auto

function py_eq :: "pyval \<Rightarrow> pyval \<Rightarrow> bool" where
  "py_eq a b =
     (case (num_of a, num_of b) of
        (Some x, Some y) \<Rightarrow> pf_eq x y
      | _ \<Rightarrow>
        (case a of
           PList xs \<Rightarrow> (case b of PList ys \<Rightarrow>
               length xs = length ys \<and> (\<forall>(x, y) \<in> set (zip xs ys). py_eq x y) | _ \<Rightarrow> False)
         | PDict d \<Rightarrow> (case b of PDict e \<Rightarrow>
               length d = length e \<and>
               (\<forall>(k, v) \<in> set d. case map_of e k of None \<Rightarrow> False | Some w \<Rightarrow> py_eq v w) | _ \<Rightarrow> False)
         | PStr s \<Rightarrow> b = PStr s
         | PBytes s \<Rightarrow> b = PBytes s
         | PNone \<Rightarrow> b = PNone
         | _ \<Rightarrow> a = b))"
  by pat_completeness auto
termination
  by (relation "measure (\<lambda>(a, _). size a)") (auto dest: set_zip_leftD size_in_list size_in_dict)

declare py_eq.simps [simp del]

lemma py_eq_PStr [simp]: "py_eq (PStr s) (PStr t) \<longleftrightarrow> t = s"
  by (simp add: py_eq.simps)

section \<open>Printed numbers\<close>

text \<open>The longest prefix of characters of a kind and what follows; the number a run of digits names.\<close>

definition span_of :: "(char \<Rightarrow> bool) \<Rightarrow> string \<Rightarrow> string \<times> string" where
  "span_of P s = (takeWhile P s, dropWhile P s)"

definition nat_of_digits :: "string \<Rightarrow> nat" where
  "nat_of_digits ds = foldl (\<lambda>n c. 10 * n + digit_val c) 0 ds"

lemma digit_char: "d < 10 \<Longrightarrow> is_digit (char_of (48 + d)) \<and> digit_val (char_of (48 + d)) = d"
  by (simp add: is_digit_def digit_val_def Let_def)

lemma show_nat_digits: "list_all is_digit (show_nat n)"
proof (induction n rule: show_nat.induct)
  case (1 n)
  have "is_digit (char_of (48 + n mod 10))" using digit_char [of "n mod 10"] by simp
  then show ?case using 1 digit_char [of n] by (subst show_nat.simps) auto
qed

lemma show_nat_not_Nil [simp]: "show_nat n \<noteq> []"
  by (subst show_nat.simps) auto

lemma nat_of_digits_snoc: "nat_of_digits (ds @ [c]) = 10 * nat_of_digits ds + digit_val c"
  by (simp add: nat_of_digits_def)

lemma nat_of_digits_show [simp]: "nat_of_digits (show_nat n) = n"
proof (induction n rule: show_nat.induct)
  case (1 n)
  show ?case
  proof (cases "n < 10")
    case True
    then show ?thesis
      using digit_char [of n] by (subst show_nat.simps) (simp add: nat_of_digits_def)
  next
    case False
    have "digit_val (char_of (48 + n mod 10)) = n mod 10" using digit_char [of "n mod 10"] by simp
    then show ?thesis using 1 False by (subst show_nat.simps) (simp add: nat_of_digits_snoc)
  qed
qed

lemma no_space_strip: "list_all (\<lambda>c. \<not> is_space c) s \<Longrightarrow> str_strip s = s"
proof -
  assume s: "list_all (\<lambda>c. \<not> is_space c) s"
  have noop: "dropWhile is_space t = t" if "list_all (\<lambda>c. \<not> is_space c) t" for t
    using that by (cases t) auto
  have "list_all (\<lambda>c. \<not> is_space c) (rev s)" using s by (simp add: list_all_iff)
  then show ?thesis using s by (simp add: str_strip_def str_rstrip_def noop)
qed

lemma digit_facts: "is_digit c \<Longrightarrow> \<not> is_space c \<and> c \<noteq> CHR ''-'' \<and> c \<noteq> CHR ''+'' \<and> c \<noteq> CHR ''.''"
  by (auto simp: is_digit_def is_space_def Let_def)

lemma digits_value_digits:
  "list_all is_digit ds \<Longrightarrow> digits_value n p ds = (if ds = [] \<and> \<not> p then None else Some (foldl (\<lambda>n c. 10 * n + digit_val c) n ds))"
  by (induction ds arbitrary: n p) auto

lemma show_nat_no_space: "list_all (\<lambda>c. \<not> is_space c) (show_nat n)"
  using show_nat_digits [of n] by (auto simp: list_all_iff dest: digit_facts)

lemma int_of_text_show_nat: "int_of_text (show_nat n) = Some (int n)"
proof -
  have "str_strip (show_nat n) = show_nat n" using show_nat_no_space by (rule no_space_strip)
  moreover have "split_sign (show_nat n) = (False, show_nat n)"
    using show_nat_digits [of n] by (cases "show_nat n") (auto dest: digit_facts)
  ultimately show ?thesis
    using nat_of_digits_show [of n] show_nat_digits [of n]
    by (simp add: int_of_text_def digits_value_digits nat_of_digits_def)
qed

text \<open>\<open>int(str(i)) = i\<close>\<close>

lemma int_of_text_show_int [simp]: "int_of_text (show_int i) = Some i"
proof (cases "i < 0")
  case True
  let ?s = "show_nat (nat (- i))"
  have "\<not> is_space (CHR ''-'')" by (simp add: is_space_def)
  then have "list_all (\<lambda>c. \<not> is_space c) (CHR ''-'' # ?s)" using show_nat_no_space by simp
  then have "str_strip (CHR ''-'' # ?s) = CHR ''-'' # ?s" by (rule no_space_strip)
  then show ?thesis
    using True nat_of_digits_show [of "nat (- i)"] show_nat_digits [of "nat (- i)"]
    by (simp add: int_of_text_def show_int_def digits_value_digits nat_of_digits_def)
next
  case False
  then show ?thesis by (simp add: show_int_def int_of_text_show_nat)
qed

end
