(* ===== verification/Policy.thy ===== *)
theory Policy
  imports PyValue
begin

text \<open>
  The risk-tier policy engine, \<^verbatim>\<open>safety/policy.py\<close>: the tiers, the decision and
  its rejection (an \<open>Inl\<close>), the argument predicates the built-in rules use, the
  validation of custom rules, the engine's construction and \<open>classify\<close>. A rule's
  matcher is a function on the arguments; the engine's namespace allowlist, a frozenset,
  is a list. The locale \<open>policy_gate\<close> is what the executor relies on; \<open>classify\<close> is
  shown to meet it.
\<close>

section \<open>Tiers and decisions\<close>

datatype risk_tier =
    OBSERVE | REVERSIBLE_LOW | REVERSIBLE_HIGH | IRREVERSIBLE_BOUNDED | PROHIBITED

fun tier_num :: "risk_tier \<Rightarrow> nat" where
  "tier_num OBSERVE = 0"
| "tier_num REVERSIBLE_LOW = 1"
| "tier_num REVERSIBLE_HIGH = 2"
| "tier_num IRREVERSIBLE_BOUNDED = 3"
| "tier_num PROHIBITED = 4"

lemma tier_num_inj: "tier_num s = tier_num t \<Longrightarrow> s = t"
  by (cases s; cases t) auto

instantiation risk_tier :: linorder
begin

definition less_eq_risk_tier :: "risk_tier \<Rightarrow> risk_tier \<Rightarrow> bool" where
  "less_eq_risk_tier s t = (tier_num s \<le> tier_num t)"

definition less_risk_tier :: "risk_tier \<Rightarrow> risk_tier \<Rightarrow> bool" where
  "less_risk_tier s t = (tier_num s < tier_num t)"

instance
  by standard (auto simp: less_eq_risk_tier_def less_risk_tier_def intro: tier_num_inj)

end

lemma tier_less_num [simp]: "s < t \<longleftrightarrow> tier_num s < tier_num t" for s t :: risk_tier
  by (rule less_risk_tier_def)

lemma tier_le_num [simp]: "s \<le> t \<longleftrightarrow> tier_num s \<le> tier_num t" for s t :: risk_tier
  by (rule less_eq_risk_tier_def)

text \<open>\<open>RiskTier(v)\<close>: an enum is looked up by value, so any number equal to one of the five
  values is accepted (a bool and an integral float as well).\<close>

definition risk_tier_of :: "pyval \<Rightarrow> risk_tier option" where
  "risk_tier_of v =
     (case num_of v of
        Some (Fin q) \<Rightarrow>
          (if q = 0 then Some OBSERVE else if q = 1 then Some REVERSIBLE_LOW
           else if q = 2 then Some REVERSIBLE_HIGH else if q = 3 then Some IRREVERSIBLE_BOUNDED
           else if q = 4 then Some PROHIBITED else None)
      | _ \<Rightarrow> None)"

lemma risk_tier_of_num [simp]: "risk_tier_of (PInt (int (tier_num t))) = Some t"
  by (cases t) (auto simp: risk_tier_of_def)

record policy_decision =
  allowed :: bool
  risk_tier :: risk_tier
  requires_approval :: bool
  reason :: string

definition reject :: "string \<Rightarrow> policy_decision" where
  "reject r = \<lparr>allowed = False, risk_tier = PROHIBITED, requires_approval = False, reason = r\<rparr>"

section \<open>Argument predicates\<close>

definition glob_chars :: "char list" where
  "glob_chars = ''*?[]''"

definition has_glob :: "string \<Rightarrow> bool" where
  "has_glob s = list_ex (\<lambda>c. c \<in> set s) glob_chars"

fun contains_wildcard :: "pyval \<Rightarrow> bool" where
  "contains_wildcard (PStr s) = has_glob s"
| "contains_wildcard (PDict d) = list_ex (\<lambda>(k, v). has_glob k \<or> contains_wildcard v) d"
| "contains_wildcard (PList xs) = list_ex contains_wildcard xs"
| "contains_wildcard _ = False"

definition has_wildcard_arguments :: "pydict \<Rightarrow> bool" where
  "has_wildcard_arguments args = list_ex (\<lambda>(k, v). contains_wildcard v) args"

definition arg_get :: "pydict \<Rightarrow> string \<Rightarrow> pyval" where
  "arg_get d k = dget_or d k PNone"

definition parse_replicas :: "pyval \<Rightarrow> int option" where
  "parse_replicas v =
     (case v of
        PBool _ \<Rightarrow> None
      | PInt i \<Rightarrow> Some i
      | PStr s \<Rightarrow> (if str_strip s = [] then None else int_of_text (str_strip s))
      | _ \<Rightarrow> None)"

definition is_invalid_scale :: "pydict \<Rightarrow> bool" where
  "is_invalid_scale args =
     (case parse_replicas (arg_get args ''replicas'') of None \<Rightarrow> True | Some n \<Rightarrow> n < 0)"

definition is_scale_to_zero :: "pydict \<Rightarrow> bool" where
  "is_scale_to_zero args = (parse_replicas (arg_get args ''replicas'') = Some 0)"

definition is_scale_positive :: "pydict \<Rightarrow> bool" where
  "is_scale_positive args =
     (case parse_replicas (arg_get args ''replicas'') of None \<Rightarrow> False | Some n \<Rightarrow> 0 < n)"

definition system_namespaces :: "string list" where
  "system_namespaces = [''kube-system'', ''kube-public'', ''kube-node-lease'', ''cert-manager'']"

definition is_system_namespace :: "pydict \<Rightarrow> bool" where
  "is_system_namespace args =
     (case arg_get args ''namespace'' of PStr ns \<Rightarrow> ns \<in> set system_namespaces | _ \<Rightarrow> False)"

section \<open>Rules\<close>

record rule =
  r_tool :: string
  r_match :: "(pydict \<Rightarrow> bool) option"
  r_tier :: risk_tier
  r_reason :: "string option"

definition default_rules :: "rule list" where
  "default_rules =
    [\<lparr>r_tool = ''delete_namespace'', r_match = None, r_tier = PROHIBITED,
      r_reason = Some (''Namespace deletion is prohibited: it destroys every resource ''
        @ ''inside the namespace and is not reversible.'')\<rparr>,
     \<lparr>r_tool = ''drop_table'', r_match = None, r_tier = PROHIBITED,
      r_reason = Some ''Table drop is prohibited: it destroys all rows permanently.''\<rparr>,
     \<lparr>r_tool = ''*'', r_match = Some is_system_namespace, r_tier = PROHIBITED,
      r_reason = Some (''Actions targeting system namespaces (kube-system, kube-public, ''
        @ ''kube-node-lease, cert-manager) are prohibited.'')\<rparr>,
     \<lparr>r_tool = ''delete_database_row'', r_match = None, r_tier = IRREVERSIBLE_BOUNDED,
      r_reason = Some (''Row deletion is irreversible; requires human approval even ''
        @ ''though the blast radius is bounded to one row.'')\<rparr>,
     \<lparr>r_tool = ''scale_deployment'', r_match = Some is_scale_to_zero, r_tier = REVERSIBLE_HIGH,
      r_reason = Some (''Scaling a deployment to zero replicas takes the service offline; ''
        @ ''requires human approval.'')\<rparr>,
     \<lparr>r_tool = ''set_feature_flag'', r_match = None, r_tier = REVERSIBLE_HIGH,
      r_reason = Some ''Feature flag changes can affect many requests; requires human approval.''\<rparr>,
     \<lparr>r_tool = ''scale_deployment'', r_match = Some is_scale_positive, r_tier = REVERSIBLE_LOW,
      r_reason = Some ''Scaling to a positive replica count is reversible with a bounded blast radius.''\<rparr>,
     \<lparr>r_tool = ''restart_deployment'', r_match = None, r_tier = REVERSIBLE_LOW,
      r_reason = Some ''Rollout restart is reversible with low blast radius.''\<rparr>,
     \<lparr>r_tool = ''terminate_backend'', r_match = None, r_tier = REVERSIBLE_LOW,
      r_reason = Some (''Terminating a single Postgres backend is bounded and reversible ''
        @ ''because the client can reconnect.'')\<rparr>,
     \<lparr>r_tool = ''delete_valkey_key'', r_match = None, r_tier = REVERSIBLE_LOW,
      r_reason = Some ''Deleting one exact cache key is bounded and reversible.''\<rparr>]"

text \<open>A rule as a caller supplies it: any value, and for a dict its four keys as read by
  \<open>rule.get\<close>; the matcher may be absent, a function or something that is not callable.\<close>

datatype raw_match = NoMatch | NotCallable | Matcher "pydict \<Rightarrow> bool"

datatype raw_rule =
    NotADict
  | RawRule (raw_tool: pyval) (raw_tier: "pyval option") (raw_match: raw_match) (raw_reason: pyval)

definition validate_rule :: "nat \<Rightarrow> raw_rule \<Rightarrow> py_error + rule" where
  "validate_rule i raw =
     (case raw of
        NotADict \<Rightarrow> Inl (TypeError (''policy rule '' @ show_nat i @ '' must be a dict''))
      | RawRule tool tier m rsn \<Rightarrow>
        (case tool of
           PStr (c # cs) \<Rightarrow>
             (case Option.bind tier risk_tier_of of
                None \<Rightarrow> Inl (ValueError (''policy rule '' @ show_nat i @ '' has an invalid tier''))
              | Some t \<Rightarrow>
                (case m of
                   NotCallable \<Rightarrow> Inl (TypeError (''policy rule '' @ show_nat i @ '' match must be callable''))
                 | _ \<Rightarrow>
                   (let f = (case m of Matcher g \<Rightarrow> Some g | _ \<Rightarrow> None)
                    in case rsn of
                      PNone \<Rightarrow> Inr \<lparr>r_tool = c # cs, r_match = f, r_tier = t, r_reason = None\<rparr>
                    | PStr s \<Rightarrow> Inr \<lparr>r_tool = c # cs, r_match = f, r_tier = t, r_reason = Some s\<rparr>
                    | _ \<Rightarrow> Inl (TypeError (''policy rule '' @ show_nat i @ '' reason must be a string'')))))
         | _ \<Rightarrow> Inl (ValueError (''policy rule '' @ show_nat i @ '' has an invalid tool''))))"

fun validate_rules :: "nat \<Rightarrow> raw_rule list \<Rightarrow> py_error + rule list" where
  "validate_rules i [] = Inr []"
| "validate_rules i (x # xs) =
     bind_res (validate_rule i x) (\<lambda>r. bind_res (validate_rules (Suc i) xs) (\<lambda>rs. Inr (r # rs)))"

record engine =
  e_max :: risk_tier
  e_namespaces :: "string list"
  e_rules :: "rule list"

definition nonempty_str :: "pyval \<Rightarrow> bool" where
  "nonempty_str v = (case v of PStr s \<Rightarrow> s \<noteq> [] | _ \<Rightarrow> False)"

definition str_of :: "pyval \<Rightarrow> string" where
  "str_of v = (case v of PStr s \<Rightarrow> s | _ \<Rightarrow> [])"

definition make_engine ::
  "(pyval \<Rightarrow> string) \<Rightarrow> raw_rule list option \<Rightarrow> pyval \<Rightarrow> pyval list option \<Rightarrow> py_error + engine" where
  "make_engine rp rules max_tier namespaces =
     (case risk_tier_of max_tier of
        None \<Rightarrow> Inl (ValueError (''invalid max_autonomous_tier: '' @ py_repr rp max_tier))
      | Some m \<Rightarrow>
        (let ns = (case namespaces of None \<Rightarrow> [PStr ''rivulet'', PStr ''sre''] | Some ns \<Rightarrow> ns)
         in if list_ex (\<lambda>v. \<not> nonempty_str v) ns
            then Inl (ValueError ''allowed_namespaces must contain non-empty strings'')
            else bind_res (case rules of None \<Rightarrow> Inr default_rules | Some rs \<Rightarrow> validate_rules 0 rs)
                   (\<lambda>rs. Inr \<lparr>e_max = m, e_namespaces = map str_of ns, e_rules = rs\<rparr>)))"

section \<open>Classification\<close>

definition build_decision :: "engine \<Rightarrow> risk_tier \<Rightarrow> string \<Rightarrow> policy_decision" where
  "build_decision eng t r =
     (if t = PROHIBITED
      then \<lparr>allowed = False, risk_tier = t, requires_approval = False, reason = r\<rparr>
      else \<lparr>allowed = True, risk_tier = t, requires_approval = t > e_max eng, reason = r\<rparr>)"

definition raise_if_blocked :: "policy_decision \<Rightarrow> policy_decision + policy_decision" where
  "raise_if_blocked d = (if \<not> allowed d then Inl d else Inr d)"

definition rule_matches :: "string \<Rightarrow> pydict \<Rightarrow> rule \<Rightarrow> bool" where
  "rule_matches t args r =
     (if r_tool r \<noteq> ''*'' \<and> r_tool r \<noteq> t then False
      else case r_match r of None \<Rightarrow> True | Some f \<Rightarrow> f args)"

definition rule_reason :: "rule \<Rightarrow> string" where
  "rule_reason r =
     (case r_reason r of None \<Rightarrow> ''classified by policy rule''
      | Some s \<Rightarrow> if s = [] then ''classified by policy rule'' else s)"

definition declared_reason :: "risk_tier \<Rightarrow> string" where
  "declared_reason t =
     ''no rule matched; using tool'' @ [CHR 0x27] @ ''s declared tier '' @ show_nat (tier_num t)"

fun eval_rules ::
  "engine \<Rightarrow> string \<Rightarrow> pydict \<Rightarrow> risk_tier \<Rightarrow> rule list \<Rightarrow> policy_decision + policy_decision" where
  "eval_rules eng t args base [] =
     raise_if_blocked (build_decision eng base (declared_reason base))"
| "eval_rules eng t args base (r # rs) =
     (if rule_matches t args r
      then raise_if_blocked (build_decision eng (r_tier r) (rule_reason r))
      else eval_rules eng t args base rs)"

definition hard_blocked_reasons :: "(string, string) dict" where
  "hard_blocked_reasons =
    [(''delete_namespace'', ''Namespace deletion is prohibited: it destroys every ''
        @ ''resource inside the namespace and is not reversible.''),
     (''drop_table'', ''Table drop is prohibited: it destroys all rows permanently.'')]"

text \<open>The namespace checks: \<open>Some\<close> reason when the argument is refused.\<close>

definition namespace_refusal :: "engine \<Rightarrow> pydict \<Rightarrow> string option" where
  "namespace_refusal eng args =
     (case arg_get args ''namespace'' of
        PNone \<Rightarrow> None
      | PStr ns \<Rightarrow>
          (if ns = [] then Some ''namespace must be non-empty when provided''
           else if ns \<notin> set (e_namespaces eng)
           then Some (''namespace '' @ [CHR 0x27] @ ns @ [CHR 0x27] @ '' is not in allowed set ''
                       @ repr_strs (sort (remdups (e_namespaces eng))))
           else None)
      | _ \<Rightarrow> Some ''namespace must be a string when provided'')"

definition classify ::
  "(pyval \<Rightarrow> string) \<Rightarrow> engine \<Rightarrow> pyval \<Rightarrow> pyval \<Rightarrow> pyval \<Rightarrow> policy_decision + policy_decision" where
  "classify rp eng tool_name args base_tier =
     (case tool_name of
        PStr (c # cs) \<Rightarrow>
         (let t = c # cs in
          case args of
            PDict kw \<Rightarrow>
             (case risk_tier_of base_tier of
                None \<Rightarrow> Inl (reject (''invalid declared tool risk tier: '' @ py_repr rp base_tier))
              | Some base \<Rightarrow>
                (case namespace_refusal eng kw of
                   Some why \<Rightarrow> Inl (reject why)
                 | None \<Rightarrow>
                   if has_wildcard_arguments kw
                   then Inl (reject ''wildcard or glob characters (*, ?, []) are not permitted in action arguments'')
                   else case dget hard_blocked_reasons t of
                     Some why \<Rightarrow> Inl (reject why)
                   | None \<Rightarrow>
                     if t = ''scale_deployment'' \<and> is_invalid_scale kw
                     then Inl (reject (''scale_deployment requires a non-negative integer ''
                               @ [CHR 0x27] @ ''replicas'' @ [CHR 0x27] @ '' argument''))
                     else eval_rules eng t kw base (e_rules eng)))
          | _ \<Rightarrow> Inl (reject ''tool arguments must be a dictionary''))
      | _ \<Rightarrow> Inl (reject ''tool name must be a non-empty string''))"

section \<open>Wildcards at any depth\<close>

text \<open>A string occurs in a value: the value itself, a key or a member of a container, to any
  depth. This is what the wildcard scan is meant to cover.\<close>

inductive occurs_in :: "string \<Rightarrow> pyval \<Rightarrow> bool" where
  occurs_str: "occurs_in s (PStr s)"
| occurs_key: "(s, v) \<in> set d \<Longrightarrow> occurs_in s (PDict d)"
| occurs_val: "(k, v) \<in> set d \<Longrightarrow> occurs_in s v \<Longrightarrow> occurs_in s (PDict d)"
| occurs_item: "v \<in> set xs \<Longrightarrow> occurs_in s v \<Longrightarrow> occurs_in s (PList xs)"

inductive_simps occurs_in_simps [simp]:
  "occurs_in s PNone" "occurs_in s (PBool b)" "occurs_in s (PInt i)" "occurs_in s (PFloat x)"
  "occurs_in s (PStr t)" "occurs_in s (PBytes t)" "occurs_in s (PList xs)" "occurs_in s (PDict d)"
  "occurs_in s (PObj fs)"

lemma contains_wildcard_iff: "contains_wildcard v \<longleftrightarrow> (\<exists>s. occurs_in s v \<and> has_glob s)"
proof (induction v rule: contains_wildcard.induct)
  case (2 d)
  then show ?case by (auto simp: list_ex_iff split: prod.splits) blast+
next
  case (3 xs)
  then show ?case by (auto simp: list_ex_iff)
qed auto

section \<open>What acceptance means\<close>

definition first_match :: "rule list \<Rightarrow> string \<Rightarrow> pydict \<Rightarrow> rule option" where
  "first_match rs t args = List.find (rule_matches t args) rs"

definition effective_tier :: "engine \<Rightarrow> string \<Rightarrow> pydict \<Rightarrow> risk_tier \<Rightarrow> risk_tier" where
  "effective_tier eng t args base =
     (case first_match (e_rules eng) t args of None \<Rightarrow> base | Some r \<Rightarrow> r_tier r)"

definition hard_blocked :: "string \<Rightarrow> bool" where
  "hard_blocked t = (t = ''delete_namespace'' \<or> t = ''drop_table'')"

lemma raise_if_blocked_Inr:
  "raise_if_blocked (build_decision eng t r) = Inr d \<longleftrightarrow>
     t \<noteq> PROHIBITED \<and> allowed d \<and> risk_tier d = t \<and> (requires_approval d \<longleftrightarrow> t > e_max eng) \<and> reason d = r"
  by (cases d) (auto simp: raise_if_blocked_def build_decision_def)

lemma eval_rules_Inr:
  "eval_rules eng t args base rs = Inr d \<longleftrightarrow>
     (let tier = (case first_match rs t args of None \<Rightarrow> base | Some r \<Rightarrow> r_tier r)
      in tier \<noteq> PROHIBITED \<and> allowed d \<and> risk_tier d = tier \<and> (requires_approval d \<longleftrightarrow> tier > e_max eng)
         \<and> reason d = (case first_match rs t args of Some r \<Rightarrow> rule_reason r | None \<Rightarrow> declared_reason base))"
  by (induction rs) (auto simp: first_match_def raise_if_blocked_Inr Let_def)

lemma eval_rules_accept:
  assumes "effective_tier eng t args base \<noteq> PROHIBITED"
  obtains d where "eval_rules eng t args base (e_rules eng) = Inr d"
    "risk_tier d = effective_tier eng t args base"
    "requires_approval d \<longleftrightarrow> effective_tier eng t args base > e_max eng"
proof -
  let ?t = "effective_tier eng t args base"
  let ?d = "\<lparr>allowed = True, risk_tier = ?t, requires_approval = ?t > e_max eng,
     reason = (case first_match (e_rules eng) t args of Some r \<Rightarrow> rule_reason r | None \<Rightarrow> declared_reason base)\<rparr>"
  have "eval_rules eng t args base (e_rules eng) = Inr ?d"
    using assms by (simp add: eval_rules_Inr effective_tier_def Let_def)
  then show thesis by (rule that) simp_all
qed

lemma namespace_refusal_None:
  "namespace_refusal eng args = None \<longleftrightarrow>
     arg_get args ''namespace'' = PNone \<or>
     (\<exists>ns. arg_get args ''namespace'' = PStr ns \<and> ns \<noteq> [] \<and> ns \<in> set (e_namespaces eng))"
  by (auto simp: namespace_refusal_def split: pyval.splits if_splits)

lemma hard_blocked_reasons_None: "dget hard_blocked_reasons t = None \<longleftrightarrow> \<not> hard_blocked t"
  by (auto simp: hard_blocked_reasons_def hard_blocked_def)

lemma classify_Inr_cases:
  assumes "classify rp eng tn a b = Inr d"
  obtains c cs kw base where "tn = PStr (c # cs)" "a = PDict kw" "risk_tier_of b = Some base"
    "namespace_refusal eng kw = None" "\<not> has_wildcard_arguments kw" "\<not> hard_blocked (c # cs)"
    "\<not> (c # cs = ''scale_deployment'' \<and> is_invalid_scale kw)"
    "eval_rules eng (c # cs) kw base (e_rules eng) = Inr d"
  using assms unfolding classify_def Let_def
  by (auto split: pyval.splits list.splits option.splits if_splits simp: hard_blocked_reasons_None)

lemma classify_InrI:
  "classify rp eng (PStr t) (PDict kw) b = Inr d"
  if "t \<noteq> []" "risk_tier_of b = Some base" "namespace_refusal eng kw = None"
     "\<not> has_wildcard_arguments kw" "\<not> hard_blocked t"
     "\<not> (t = ''scale_deployment'' \<and> is_invalid_scale kw)"
     "eval_rules eng t kw base (e_rules eng) = Inr d"
  using that unfolding classify_def Let_def
  by (cases t) (auto simp: hard_blocked_reasons_None [symmetric])

section \<open>The gate the executor relies on\<close>

text \<open>A policy seen from outside: a function that refuses with a decision or accepts with
  one, the highest tier it lets run unattended, and what both outcomes guarantee.\<close>

locale policy_gate =
  fixes gate :: "pyval \<Rightarrow> pyval \<Rightarrow> pyval \<Rightarrow> policy_decision + policy_decision"
    and max_tier :: risk_tier
  assumes refused: "gate t a b = Inl d \<Longrightarrow> \<not> allowed d \<and> risk_tier d = PROHIBITED"
    and accepted: "gate t a b = Inr d \<Longrightarrow> allowed d \<and> risk_tier d \<noteq> PROHIBITED"
    and approval: "gate t a b = Inr d \<Longrightarrow> requires_approval d \<longleftrightarrow> risk_tier d > max_tier"
    and named: "gate t a b = Inr d \<Longrightarrow> \<exists>s kw. t = PStr s \<and> s \<noteq> [] \<and> a = PDict kw"
    and unglobbed: "gate t (PDict kw) b = Inr d \<Longrightarrow> (k, v) \<in> set kw \<Longrightarrow> \<not> contains_wildcard v"
begin

lemma tier_bound: "gate t a b = Inr d \<Longrightarrow> tier_num (risk_tier d) \<le> 3"
  using accepted [of t a b d] by (cases "risk_tier d") auto

lemma unattended: "gate t a b = Inr d \<Longrightarrow> \<not> requires_approval d \<Longrightarrow> risk_tier d \<le> max_tier"
  using approval [of t a b d] by auto

lemma no_glob_anywhere:
  "gate t (PDict kw) b = Inr d \<Longrightarrow> (k, v) \<in> set kw \<Longrightarrow> occurs_in s v \<Longrightarrow> \<not> has_glob s"
  using unglobbed [of t kw b d k v] by (auto simp: contains_wildcard_iff)

end

lemma eval_rules_Inl:
  "eval_rules eng t args base rs = Inl d \<Longrightarrow> \<not> allowed d \<and> risk_tier d = PROHIBITED"
  by (induction rs)
     (auto simp: raise_if_blocked_def build_decision_def split: if_splits)

lemma reject_fields [simp]: "allowed (reject r) = False" "risk_tier (reject r) = PROHIBITED"
  by (simp_all add: reject_def)

lemma has_wildcard_iff:
  "has_wildcard_arguments kw \<longleftrightarrow> (\<exists>k v. (k, v) \<in> set kw \<and> contains_wildcard v)"
  by (auto simp: has_wildcard_arguments_def list_ex_iff)

lemma classify_unglobbed: "classify rp eng t (PDict kw) b = Inr d \<Longrightarrow> \<not> has_wildcard_arguments kw"
  by (elim classify_Inr_cases) simp

interpretation engine_gate: policy_gate "classify rp eng" "e_max eng" for rp eng
proof unfold_locales
  fix t a b d
  assume "classify rp eng t a b = Inl d"
  then show "\<not> allowed d \<and> risk_tier d = PROHIBITED"
    unfolding classify_def Let_def
    by (auto split: pyval.splits list.splits option.splits if_splits dest: eval_rules_Inl)
next
  fix t a b d
  assume acc: "classify rp eng t a b = Inr d"
  then show "allowed d \<and> risk_tier d \<noteq> PROHIBITED"
    by (elim classify_Inr_cases) (auto simp: eval_rules_Inr Let_def)
  from acc show "requires_approval d \<longleftrightarrow> risk_tier d > e_max eng"
    by (elim classify_Inr_cases) (auto simp: eval_rules_Inr Let_def)
  from acc show "\<exists>s kw. t = PStr s \<and> s \<noteq> [] \<and> a = PDict kw"
    by (elim classify_Inr_cases) auto
next
  fix t kw b d k v
  assume "classify rp eng t (PDict kw) b = Inr d" "(k, v) \<in> set kw"
  then show "\<not> contains_wildcard v"
    by (elim classify_Inr_cases) (auto simp: has_wildcard_iff)
qed

section \<open>Properties\<close>

text \<open>C8: classification accepts exactly the calls it should, and the decision is what the rules
  say. A call is accepted iff the name is non-empty, the declared tier is one of the five,
  the namespace is absent or on the allowlist, no string at any depth of the arguments has a
  wildcard, the tool is not hard-blocked (whatever the rules are), a scale request has a
  non-negative count and the effective tier is not Tier 4; then the decision has that tier and
  asks for approval iff the tier is above the autonomous limit.\<close>

theorem classify_accepts_iff:
  "classify rp eng (PStr t) (PDict kw) b = Inr d \<longleftrightarrow>
     t \<noteq> [] \<and>
     (\<exists>base. risk_tier_of b = Some base \<and> risk_tier d = effective_tier eng t kw base \<and>
        reason d = (case first_match (e_rules eng) t kw of Some r \<Rightarrow> rule_reason r | None \<Rightarrow> declared_reason base)) \<and>
     (arg_get kw ''namespace'' = PNone \<or>
      (\<exists>ns. arg_get kw ''namespace'' = PStr ns \<and> ns \<noteq> [] \<and> ns \<in> set (e_namespaces eng))) \<and>
     \<not> (\<exists>k v s. (k, v) \<in> set kw \<and> occurs_in s v \<and> has_glob s) \<and>
     \<not> hard_blocked t \<and>
     \<not> (t = ''scale_deployment'' \<and> is_invalid_scale kw) \<and>
     risk_tier d \<noteq> PROHIBITED \<and> allowed d \<and> (requires_approval d \<longleftrightarrow> risk_tier d > e_max eng)"
  (is "?acc \<longleftrightarrow> ?spec")
proof
  have wild: "has_wildcard_arguments kw \<longleftrightarrow> (\<exists>k v s. (k, v) \<in> set kw \<and> occurs_in s v \<and> has_glob s)"
    by (auto simp: has_wildcard_iff contains_wildcard_iff)
  show "?acc \<Longrightarrow> ?spec"
    using classify_unglobbed [of rp eng "PStr t" kw b d] wild
    by (elim classify_Inr_cases)
       (auto simp: namespace_refusal_None eval_rules_Inr effective_tier_def Let_def)
  show "?spec \<Longrightarrow> ?acc"
    by (elim conjE exE, rule classify_InrI)
       (simp_all only: wild [symmetric] namespace_refusal_None eval_rules_Inr effective_tier_def Let_def simp_thms not_False_eq_True)
qed

definition default_engine :: engine where
  "default_engine = \<lparr>e_max = REVERSIBLE_LOW, e_namespaces = [''rivulet'', ''sre''], e_rules = default_rules\<rparr>"

text \<open>The built-in policy. The engine built with no arguments is the default one, and its
  effective tier for every tool is this table: the two hard-blocked tools and system
  namespaces are Tier 4, row deletion Tier 3, feature flags and scaling to zero Tier 2, the
  four bounded operations Tier 1, and any other tool keeps its declared tier.\<close>

lemma default_policy_table:
  "make_engine rp None (PInt 1) None = Inr default_engine \<and>
   effective_tier default_engine t kw base =
     (if t = ''delete_namespace'' \<or> t = ''drop_table'' \<or> is_system_namespace kw then PROHIBITED
      else if t = ''delete_database_row'' then IRREVERSIBLE_BOUNDED
      else if t = ''set_feature_flag'' \<or> (t = ''scale_deployment'' \<and> is_scale_to_zero kw) then REVERSIBLE_HIGH
      else if t \<in> {''restart_deployment'', ''terminate_backend'', ''delete_valkey_key''} \<or>
              (t = ''scale_deployment'' \<and> is_scale_positive kw) then REVERSIBLE_LOW
      else base)"
  by (auto simp: make_engine_def default_engine_def risk_tier_of_def nonempty_str_def str_of_def
       effective_tier_def first_match_def default_rules_def rule_matches_def)

text \<open>A matching rule replaces the declared tier even downwards. Scaling to a positive count is
  accepted by the default engine as Tier 1 with no approval although the tool is registered
  at Tier 2, for every deployment name without a wildcard and every positive count.\<close>

lemma scale_positive_downgrades:
  "(\<exists>d. classify rp default_engine (PStr ''scale_deployment'')
       (PDict [(''namespace'', PStr ''rivulet''), (''name'', PStr dep), (''replicas'', PInt (1 + int n))])
       (PInt (int (tier_num REVERSIBLE_HIGH))) = Inr d \<and>
     risk_tier d = REVERSIBLE_LOW \<and> \<not> requires_approval d) \<longleftrightarrow> \<not> has_glob dep"
proof -
  let ?kw = "[(''namespace'', PStr ''rivulet''), (''name'', PStr dep), (''replicas'', PInt (1 + int n))]"
  have eff: "effective_tier default_engine ''scale_deployment'' ?kw REVERSIBLE_HIGH = REVERSIBLE_LOW"
    by (simp add: effective_tier_def first_match_def default_engine_def default_rules_def rule_matches_def
      is_system_namespace_def system_namespaces_def is_scale_to_zero_def is_scale_positive_def arg_get_def
      parse_replicas_def)
  have ok: "arg_get ?kw ''namespace'' = PStr ''rivulet''" "\<not> is_invalid_scale ?kw"
    "''rivulet'' \<in> set (e_namespaces default_engine)" "e_max default_engine = REVERSIBLE_LOW"
    by (simp_all add: arg_get_def is_invalid_scale_def parse_replicas_def default_engine_def)
  have wild: "has_wildcard_arguments ?kw \<longleftrightarrow> has_glob dep"
    by (simp add: has_wildcard_arguments_def has_glob_def glob_chars_def)
  show ?thesis (is "(\<exists>d. ?P d) \<longleftrightarrow> _")
  proof
    show "\<exists>d. ?P d \<Longrightarrow> \<not> has_glob dep"
      using classify_unglobbed wild by blast
    assume "\<not> has_glob dep"
    then have "classify rp default_engine (PStr ''scale_deployment'') (PDict ?kw) (PInt (int (tier_num REVERSIBLE_HIGH)))
       = eval_rules default_engine ''scale_deployment'' ?kw REVERSIBLE_HIGH (e_rules default_engine)"
      using ok wild by (simp add: classify_def namespace_refusal_def hard_blocked_reasons_def del: tier_num.simps)
    moreover obtain d where
      "eval_rules default_engine ''scale_deployment'' ?kw REVERSIBLE_HIGH (e_rules default_engine) = Inr d"
      "risk_tier d = REVERSIBLE_LOW" "\<not> requires_approval d"
      using eval_rules_accept [of default_engine "''scale_deployment''" ?kw REVERSIBLE_HIGH] eff ok by auto
    ultimately show "\<exists>d. ?P d" by auto
  qed
qed

end
