(* ===== verification/Actions.thy ===== *)
theory Actions
  imports PyValue
begin

text \<open>
  The wire-format models and the run-scoped counters of \<^verbatim>\<open>core/state.py\<close>:
  incident metadata, proposed and executed actions with the bounds their fields declare, and
  \<open>RunMetrics\<close> with its recording operations. The exceptions that cross component
  boundaries are the constructors of \<open>exn\<close>; \<open>CancelledError\<close> and \<open>SystemExit\<close> are
  the two that \<open>except Exception\<close> does not catch.
\<close>

section \<open>Exceptions\<close>

datatype exn =
    PyError py_error
  | ToolExecutionError string exn
  | ToolNotFoundError string
  | ToolError string
  | ValidationError string
  | PolicyRejection string
  | JSONDecodeError string
  | CancelledError
  | SystemExit

definition caught_by_exception :: "exn \<Rightarrow> bool" where
  "caught_by_exception e = (e \<noteq> CancelledError \<and> e \<noteq> SystemExit)"

definition is_timeout :: "exn \<Rightarrow> bool" where
  "is_timeout e = (case e of PyError (TimeoutError _) \<Rightarrow> True | _ \<Rightarrow> False)"

text \<open>How a call into code outside the component ended.\<close>

datatype outcome = Returned pyval | Raised exn

section \<open>Incident, proposal and execution records\<close>

record incident_metadata =
  im_incident_id :: string
  im_alert_name :: string
  im_service :: string
  im_namespace :: string
  im_severity :: string
  im_started_at :: string
  im_fingerprint :: string
  im_description :: string
  im_labels :: "(string, string) dict"
  im_annotations :: "(string, string) dict"

text \<open>\<open>model_dump\<close>\<close>

definition dump_metadata :: "incident_metadata \<Rightarrow> pydict" where
  "dump_metadata m =
    [(''incident_id'', PStr (im_incident_id m)), (''alert_name'', PStr (im_alert_name m)),
     (''service'', PStr (im_service m)), (''namespace'', PStr (im_namespace m)),
     (''severity'', PStr (im_severity m)), (''started_at'', PStr (im_started_at m)),
     (''fingerprint'', PStr (im_fingerprint m)), (''description'', PStr (im_description m)),
     (''labels'', PDict (map (\<lambda>(k, v). (k, PStr v)) (im_labels m))),
     (''annotations'', PDict (map (\<lambda>(k, v). (k, PStr v)) (im_annotations m)))]"

record proposed_action =
  pa_tool_name :: string
  pa_tool_args :: pydict
  pa_risk_tier :: int
  pa_rationale :: string
  pa_requires_approval :: bool

text \<open>The constructor call: \<open>risk_tier\<close> is declared between 0 and 4.\<close>

definition make_proposed ::
  "string \<Rightarrow> pydict \<Rightarrow> int \<Rightarrow> string \<Rightarrow> bool \<Rightarrow> exn + proposed_action" where
  "make_proposed t args tier why appr =
     (if 0 \<le> tier \<and> tier \<le> 4
      then Inr \<lparr>pa_tool_name = t, pa_tool_args = args, pa_risk_tier = tier, pa_rationale = why,
                pa_requires_approval = appr\<rparr>
      else Inl (ValidationError ''risk_tier''))"

record executed_action =
  ea_tool_name :: string
  ea_tool_args :: pydict
  ea_tool_call_id :: string
  ea_result :: pydict
  ea_success :: bool
  ea_executed_at :: string
  ea_verification_passed :: "bool option"

definition opt_value :: "('a \<Rightarrow> pyval) \<Rightarrow> 'a option \<Rightarrow> pyval" where
  "opt_value f x = (case x of None \<Rightarrow> PNone | Some y \<Rightarrow> f y)"

definition dump_executed :: "executed_action \<Rightarrow> pydict" where
  "dump_executed e =
     [(''tool_name'', PStr (ea_tool_name e)), (''tool_args'', PDict (ea_tool_args e)),
      (''tool_call_id'', PStr (ea_tool_call_id e)), (''result'', PDict (ea_result e)),
      (''success'', PBool (ea_success e)), (''executed_at'', PStr (ea_executed_at e)),
      (''verification_passed'', opt_value PBool (ea_verification_passed e))]"

section \<open>Run metrics\<close>

record run_metrics =
  rm_backoff_seconds :: rat
  rm_approval_wait_seconds :: rat
  rm_llm_latency_seconds :: rat
  rm_llm_call_count :: nat
  rm_llm_retry_count :: nat
  rm_llm_consecutive_failures :: nat

definition zero_metrics :: run_metrics where
  "zero_metrics = \<lparr>rm_backoff_seconds = 0, rm_approval_wait_seconds = 0, rm_llm_latency_seconds = 0,
     rm_llm_call_count = 0, rm_llm_retry_count = 0, rm_llm_consecutive_failures = 0\<rparr>"

definition record_backoff :: "rat \<Rightarrow> run_metrics \<Rightarrow> run_metrics" where
  "record_backoff s m = (if s > 0 then m\<lparr>rm_backoff_seconds := rm_backoff_seconds m + s\<rparr> else m)"

definition record_approval_wait :: "rat \<Rightarrow> run_metrics \<Rightarrow> run_metrics" where
  "record_approval_wait s m =
     (if s > 0 then m\<lparr>rm_approval_wait_seconds := rm_approval_wait_seconds m + s\<rparr> else m)"

definition record_llm_latency :: "rat \<Rightarrow> run_metrics \<Rightarrow> run_metrics" where
  "record_llm_latency s m =
     (if s > 0 then m\<lparr>rm_llm_latency_seconds := rm_llm_latency_seconds m + s\<rparr> else m)"

definition record_llm_call :: "run_metrics \<Rightarrow> run_metrics" where
  "record_llm_call m = m\<lparr>rm_llm_call_count := Suc (rm_llm_call_count m)\<rparr>"

definition record_llm_success :: "run_metrics \<Rightarrow> run_metrics" where
  "record_llm_success m = m\<lparr>rm_llm_consecutive_failures := 0\<rparr>"

definition record_llm_failure :: "run_metrics \<Rightarrow> run_metrics" where
  "record_llm_failure m = m\<lparr>rm_llm_consecutive_failures := Suc (rm_llm_consecutive_failures m)\<rparr>"

definition reset_metrics :: "run_metrics \<Rightarrow> run_metrics" where
  "reset_metrics m = m\<lparr>rm_backoff_seconds := 0, rm_approval_wait_seconds := 0,
     rm_llm_latency_seconds := 0, rm_llm_call_count := 0, rm_llm_retry_count := 0,
     rm_llm_consecutive_failures := 0\<rparr>"

lemma reset_metrics_zero [simp]: "reset_metrics m = zero_metrics"
  by (simp add: reset_metrics_def zero_metrics_def)

definition metrics_ok :: "run_metrics \<Rightarrow> bool" where
  "metrics_ok m = (0 \<le> rm_backoff_seconds m \<and> 0 \<le> rm_approval_wait_seconds m
     \<and> 0 \<le> rm_llm_latency_seconds m \<and> rm_llm_consecutive_failures m \<le> rm_llm_call_count m)"

lemma metrics_ok_zero [simp, intro]: "metrics_ok zero_metrics"
  by (simp add: metrics_ok_def zero_metrics_def)

lemma metrics_ok_record [intro]:
  "metrics_ok m \<Longrightarrow> metrics_ok (record_backoff s m)"
  "metrics_ok m \<Longrightarrow> metrics_ok (record_approval_wait s m)"
  "metrics_ok m \<Longrightarrow> metrics_ok (record_llm_latency s m)"
  "metrics_ok m \<Longrightarrow> metrics_ok (record_llm_call m)"
  "metrics_ok m \<Longrightarrow> metrics_ok (record_llm_success m)"
  "metrics_ok m \<Longrightarrow> metrics_ok (record_llm_failure (record_llm_call m))"
  by (auto simp: metrics_ok_def record_backoff_def record_approval_wait_def record_llm_latency_def
      record_llm_call_def record_llm_success_def record_llm_failure_def)

lemma metrics_frame [frame_simps]:
  "rm_llm_call_count (record_backoff s m) = rm_llm_call_count m"
  "rm_llm_call_count (record_llm_latency s m) = rm_llm_call_count m"
  "rm_llm_call_count (record_llm_success m) = rm_llm_call_count m"
  "rm_llm_call_count (record_llm_failure m) = rm_llm_call_count m"
  "rm_llm_call_count (record_llm_call m) = Suc (rm_llm_call_count m)"
  by (simp_all add: record_backoff_def record_llm_latency_def record_llm_success_def
      record_llm_failure_def record_llm_call_def)

end
