(* ===== verification/Registry.thy ===== *)
theory Registry
  imports Actions
begin

text \<open>
  The tool registry, \<^verbatim>\<open>tools/registry.py\<close>: construction of a tool with its checks,
  the registry's operations on a dictionary of tools, the schema export, redaction of secrets,
  and the validated dispatch \<open>execute\<close>. A pydantic model class is the function its
  \<open>model_validate\<close> computes (an error or the validated value), an argument of the tool; so
  are the handler and the schema text. The tracing span is the list of what is written to it.
\<close>

section \<open>Tools\<close>

record tool =
  t_name :: string
  t_description :: string
  t_input_model :: "pyval \<Rightarrow> exn + pyval"
  t_output_model :: "pyval \<Rightarrow> exn + pyval"
  t_handler :: "pyval \<Rightarrow> outcome"
  t_risk_tier :: int
  t_strict :: bool
  t_schema :: pydict

definition name_char :: "char \<Rightarrow> bool" where
  "name_char c = (let n = (of_char c :: nat)
     in (65 \<le> n \<and> n \<le> 90) \<or> (97 \<le> n \<and> n \<le> 122) \<or> (48 \<le> n \<and> n \<le> 57) \<or> n = 95 \<or> n = 45)"

definition tool_name_ok :: "string \<Rightarrow> bool" where
  "tool_name_ok s = (1 \<le> length s \<and> length s \<le> 64 \<and> list_all name_char s)"

text \<open>The fields as the caller passes them; a model or handler of the wrong kind is \<open>None\<close>.\<close>

record raw_tool =
  raw_name :: pyval
  raw_description :: pyval
  raw_input_model :: "((pyval \<Rightarrow> exn + pyval) \<times> pydict) option"
  raw_output_model :: "(pyval \<Rightarrow> exn + pyval) option"
  raw_handler :: "(pyval \<Rightarrow> outcome) option"
  raw_risk_tier :: pyval
  raw_strict :: pyval

definition quoted :: "string \<Rightarrow> string" where
  "quoted s = CHR 0x27 # s @ [CHR 0x27]"

definition make_tool :: "raw_tool \<Rightarrow> py_error + tool" where
  "make_tool r =
     (case raw_name r of
        PStr nm \<Rightarrow>
         (case raw_description r of
            PStr ds \<Rightarrow>
             (case raw_strict r of
                PBool st \<Rightarrow>
                 (let name = str_strip nm; description = str_strip ds
                  in if \<not> tool_name_ok name
                     then Inl (ValueError (''tool name must contain only letters, digits, '' @ quoted ''_''
                            @ '' or '' @ quoted ''-'' @ '' and be at most 64 characters''))
                     else if description = []
                     then Inl (ValueError (''tool '' @ quoted name @ '' description must not be empty''))
                     else case raw_risk_tier r of
                       PInt tier \<Rightarrow>
                         (if \<not> (0 \<le> tier \<and> tier \<le> 4)
                          then Inl (ValueError (''tool '' @ quoted name @ '' risk_tier must be between 0 and 4''))
                          else case raw_input_model r of
                            None \<Rightarrow> Inl (TypeError (''tool '' @ quoted name @ '' input_model must be a Pydantic model''))
                          | Some (inp, schema) \<Rightarrow>
                           (case raw_output_model r of
                              None \<Rightarrow> Inl (TypeError (''tool '' @ quoted name @ '' output_model must be a Pydantic model''))
                            | Some outp \<Rightarrow>
                             (case raw_handler r of
                                None \<Rightarrow> Inl (TypeError (''tool '' @ quoted name @ '' handler must be callable''))
                              | Some h \<Rightarrow>
                                Inr \<lparr>t_name = name, t_description = description, t_input_model = inp,
                                     t_output_model = outp, t_handler = h, t_risk_tier = tier,
                                     t_strict = st, t_schema = schema\<rparr>)))
                     | _ \<Rightarrow> Inl (TypeError (''tool '' @ quoted name @ '' risk_tier must be an integer'')))
              | _ \<Rightarrow> Inl (TypeError (''tool '' @ quoted nm @ '' strict must be a boolean'')))
          | _ \<Rightarrow> Inl (TypeError (''tool '' @ quoted nm @ '' description must be a string'')))
      | _ \<Rightarrow> Inl (TypeError ''tool name must be a string''))"

definition tool_wf :: "tool \<Rightarrow> bool" where
  "tool_wf t = (tool_name_ok (t_name t) \<and> t_description t \<noteq> [] \<and> 0 \<le> t_risk_tier t \<and> t_risk_tier t \<le> 4)"

lemma make_tool_wf: "make_tool r = Inr t \<Longrightarrow> tool_wf t"
  by (auto simp: make_tool_def tool_wf_def Let_def split: pyval.splits if_splits option.splits)

definition schema_body :: "pydict \<Rightarrow> pydict" where
  "schema_body s =
     (let s1 = dpop ''title'' s
      in if truthy (dget_or s1 ''$defs'' PNone) then s1 else dpop ''$defs'' s1)"

definition to_openai_schema :: "tool \<Rightarrow> pyval" where
  "to_openai_schema t =
     (let fn = [(''name'', PStr (t_name t)), (''description'', PStr (t_description t)),
                (''parameters'', PDict (schema_body (t_schema t)))]
      in PDict [(''type'', PStr ''function''),
                (''function'', PDict (if t_strict t then fn @ [(''strict'', PBool True)] else fn))])"

section \<open>Redaction\<close>

definition sensitive_keys :: "string list" where
  "sensitive_keys =
    [''password'', ''passwd'', ''secret'', ''token'', ''access_token'', ''refresh_token'', ''id_token'',
     ''api_key'', ''apikey'', ''authorization'', ''proxy_authorization'', ''cookie'', ''set_cookie'',
     ''private_key'', ''client_secret'', ''access_key'', ''secret_key'', ''credential'', ''credentials'']"

definition is_sensitive_key :: "string \<Rightarrow> bool" where
  "is_sensitive_key k =
     (map (\<lambda>c. if c = CHR ''-'' then CHR ''_'' else c) (str_lower (str_strip k)) \<in> set sensitive_keys)"

definition redacted :: pyval where
  "redacted = PStr ''[REDACTED]''"

fun scrub_sensitive :: "pyval \<Rightarrow> pyval" where
  "scrub_sensitive (PDict d) =
     PDict (map (\<lambda>(k, v). (k, if is_sensitive_key k then redacted else scrub_sensitive v)) d)"
| "scrub_sensitive (PList xs) = PList (map scrub_sensitive xs)"
| "scrub_sensitive v = v"

text \<open>Every entry with a sensitive key, at any depth of containers, is the marker.\<close>

fun scrubbed :: "pyval \<Rightarrow> bool" where
  "scrubbed (PDict d) = list_all (\<lambda>(k, v). if is_sensitive_key k then v = redacted else scrubbed v) d"
| "scrubbed (PList xs) = list_all scrubbed xs"
| "scrubbed _ = True"

lemma scrubbed_scrub [simp]: "scrubbed (scrub_sensitive v)"
  by (induction v rule: scrub_sensitive.induct) (auto simp: list_all_iff)

lemma scrub_idem: "scrubbed v \<Longrightarrow> scrub_sensitive v = v"
proof (induction v rule: scrub_sensitive.induct)
  case (1 d)
  have "(k, if is_sensitive_key k then redacted else scrub_sensitive w) = (k, w)" if "(k, w) \<in> set d" for k w
    using 1 that by (auto simp: list_all_iff)
  then show ?case by (simp add: map_idI split_beta)
next
  case (2 xs)
  then show ?case by (auto simp: list_all_iff intro!: map_idI)
qed auto

text \<open>\<open>json.dumps\<close> is the argument \<open>dumps\<close> (\<open>None\<close> when it raises the type or value error
  the code catches), \<open>repr\<close> is \<open>rp\<close>.\<close>

definition stable_json :: "(pyval \<Rightarrow> string option) \<Rightarrow> (pyval \<Rightarrow> string) \<Rightarrow> pyval \<Rightarrow> string" where
  "stable_json dumps rp v =
     (case dumps (scrub_sensitive v) of Some s \<Rightarrow> s | None \<Rightarrow> rp (scrub_sensitive v))"

section \<open>The registry\<close>

type_synonym tools = "(string, tool) dict"

definition empty_registry :: tools where
  "empty_registry = []"

definition register :: "tool \<Rightarrow> tools \<Rightarrow> exn + tools" where
  "register t reg =
     (if has_key reg (t_name t)
      then Inl (ToolError (''Tool '' @ quoted (t_name t) @ '' is already registered; tool names must be unique''))
      else Inr (dset (t_name t) t reg))"

definition unregister :: "string \<Rightarrow> tools \<Rightarrow> tools" where
  "unregister name reg = dpop name reg"

definition contains :: "tools \<Rightarrow> string \<Rightarrow> bool" where
  "contains reg name = has_key reg name"

definition len_registry :: "tools \<Rightarrow> nat" where
  "len_registry reg = length reg"

definition get_tool :: "tools \<Rightarrow> string \<Rightarrow> exn + tool" where
  "get_tool reg name =
     (case dget reg name of
        None \<Rightarrow> Inl (ToolNotFoundError (''Tool '' @ quoted name @ '' is not registered''))
      | Some t \<Rightarrow> Inr t)"

definition list_tools :: "tools \<Rightarrow> tool list" where
  "list_tools reg = map snd reg"

definition schemas :: "tools \<Rightarrow> pyval list" where
  "schemas reg = map (\<lambda>n. to_openai_schema (the (dget reg n))) (sort (dkeys reg))"

section \<open>Dispatch\<close>

datatype span_event = SpanAttr string string | SpanException exn | SpanStatus bool string

text \<open>\<open>execute\<close>: validate the arguments, call the handler, validate the output. The second
  component says whether the handler was called; \<open>er\<close> prints an exception for the span. The error of
  an input or output model is its ValidationError: an exception of a model's own code that pydantic
  does not turn into one, which the source lets through, is not modelled.\<close>

definition run_tool ::
  "(pyval \<Rightarrow> string) \<Rightarrow> (exn \<Rightarrow> string) \<Rightarrow> string \<Rightarrow> tool \<Rightarrow> pyval \<Rightarrow>
     span_event list \<times> bool \<times> (exn + pyval)" where
  "run_tool js er name t args =
     (case t_input_model t args of
        Inl e \<Rightarrow> ([SpanException e, SpanAttr ''tool.validation_error'' (er e),
                  SpanStatus False ''input validation failed''], False, Inl (ToolExecutionError name e))
      | Inr inp \<Rightarrow>
       (case t_handler t inp of
          Raised e \<Rightarrow>
            (case e of
               ToolExecutionError n e' \<Rightarrow>
                 ([SpanException e, SpanAttr ''tool.error'' (er e'),
                   SpanStatus False ''tool rejected execution''], True, Inl e)
             | _ \<Rightarrow>
               (if caught_by_exception e
                then ([SpanException e, SpanAttr ''tool.error'' (er e), SpanStatus False ''tool handler failed''],
                      True, Inl (ToolExecutionError name e))
                else ([], True, Inl e)))
        | Returned out \<Rightarrow>
           (case t_output_model t out of
              Inl e \<Rightarrow> ([SpanException e, SpanAttr ''tool.output_validation_error'' (er e),
                        SpanStatus False ''output validation failed''], True, Inl (ToolExecutionError name e))
            | Inr v \<Rightarrow> ([SpanAttr ''output.value'' (js v), SpanAttr ''output.mime_type'' ''application/json'',
                        SpanStatus True []], True, Inr v))))"

definition registry_execute ::
  "(pyval \<Rightarrow> string) \<Rightarrow> (exn \<Rightarrow> string) \<Rightarrow> tools \<Rightarrow> string \<Rightarrow> pyval \<Rightarrow>
     span_event list \<times> bool \<times> (exn + pyval)" where
  "registry_execute js er reg name raw =
     (case get_tool reg name of
        Inl e \<Rightarrow> ([], False, Inl e)
      | Inr t \<Rightarrow>
       (case raw of
          PDict d \<Rightarrow>
            (let (ev, called, r) = run_tool js er name t (PDict d)
             in (SpanAttr ''openinference.span.kind'' ''TOOL'' # SpanAttr ''tool.name'' name
                 # SpanAttr ''tool.parameters'' (js (PDict d)) # ev, called, r))
        | _ \<Rightarrow> ([], False, Inl (ToolExecutionError name (PyError (TypeError ''tool arguments must be a mapping''))))))"

section \<open>The registry as a store\<close>

text \<open>What the clients of a registry use: named entries added once, looked up and removed.\<close>

locale named_store =
  fixes inv :: "'s \<Rightarrow> bool"
    and lookup :: "'s \<Rightarrow> string \<Rightarrow> 'v option"
    and add :: "'v \<Rightarrow> 's \<Rightarrow> 'e + 's"
    and remove :: "string \<Rightarrow> 's \<Rightarrow> 's"
    and name_of :: "'v \<Rightarrow> string"
  assumes add_Inr: "inv s \<Longrightarrow> (\<exists>s'. add v s = Inr s') \<longleftrightarrow> lookup s (name_of v) = None"
    and add_inv: "inv s \<Longrightarrow> add v s = Inr s' \<Longrightarrow> inv s'"
    and lookup_add: "inv s \<Longrightarrow> add v s = Inr s' \<Longrightarrow> lookup s' n = (if n = name_of v then Some v else lookup s n)"
    and remove_inv: "inv s \<Longrightarrow> inv (remove n s)"
    and lookup_remove: "inv s \<Longrightarrow> lookup (remove n s) m = (if m = n then None else lookup s m)"
    and lookup_name: "inv s \<Longrightarrow> lookup s n = Some v \<Longrightarrow> name_of v = n"
begin

lemma add_all_inv: "inv s \<Longrightarrow> add_all add vs s = Inr s' \<Longrightarrow> inv s'"
  by (induction vs arbitrary: s) (auto simp: bind_res_Inr_iff dest: add_inv)

lemma add_all_ok:
  "inv s \<Longrightarrow> (\<exists>s'. add_all add vs s = Inr s') \<longleftrightarrow>
     distinct (map name_of vs) \<and> (\<forall>v \<in> set vs. lookup s (name_of v) = None)"
proof (induction vs arbitrary: s)
  case (Cons v vs)
  show ?case
  proof (cases "lookup s (name_of v) = None")
    case True
    with add_Inr [OF Cons.prems] obtain t where t: "add v s = Inr t" by blast
    with Cons.prems have inv: "inv t" by (rule add_inv)
    have eq: "add_all add (v # vs) s = add_all add vs t" using t by simp
    show ?thesis
      unfolding eq Cons.IH [OF inv] using True lookup_add [OF Cons.prems t]
      by (auto simp: image_iff)
  next
    case False
    with add_Inr [OF Cons.prems, of v] obtain e where "add v s = Inl e" by (cases "add v s") auto
    with False show ?thesis by auto
  qed
qed simp

lemma lookup_add_all:
  "inv s \<Longrightarrow> add_all add vs s = Inr s' \<Longrightarrow>
     lookup s' n = (case List.find (\<lambda>v. name_of v = n) vs of Some v \<Rightarrow> Some v | None \<Rightarrow> lookup s n)"
proof (induction vs arbitrary: s)
  case (Cons v vs)
  then obtain t where t: "add v s = Inr t" "add_all add vs t = Inr s'"
    by (auto simp: bind_res_Inr_iff)
  with Cons.prems have inv: "inv t" by (auto intro: add_inv)
  from add_all_ok [OF Cons.prems(1), of "v # vs"] Cons.prems(2)
  have "name_of v \<notin> name_of ` set vs" by auto
  then have "List.find (\<lambda>w. name_of w = name_of v) vs = None"
    by (simp add: find_None_iff image_iff) metis
  with Cons.IH [OF inv t(2)] lookup_add [OF Cons.prems(1) t(1)] show ?case
    by (auto split: option.splits)
qed simp

lemma add_remove: "inv s \<Longrightarrow> add v (remove (name_of v) s) = Inr s' \<Longrightarrow> lookup s' (name_of v) = Some v"
  using lookup_add [where v = v and n = "name_of v"] remove_inv by fastforce

end

text \<open>Every entry stands under its own name and names are distinct.\<close>

definition registry_inv :: "tools \<Rightarrow> bool" where
  "registry_inv reg = (distinct (dkeys reg) \<and> list_all (\<lambda>(n, t). t_name t = n) reg)"

lemma registry_inv_empty [simp]: "registry_inv empty_registry"
  by (simp add: registry_inv_def empty_registry_def dkeys_def)

lemma dget_empty_registry [simp]: "dget empty_registry n = None"
  by (simp add: empty_registry_def)

lemma registry_inv_name: "registry_inv reg \<Longrightarrow> dget reg n = Some t \<Longrightarrow> t_name t = n"
  by (auto simp: registry_inv_def list_all_iff dest!: dget_SomeD)

interpretation registry: named_store registry_inv dget register unregister t_name
proof unfold_locales
  fix s :: tools and v s' n m
  assume inv: "registry_inv s"
  show "(\<exists>s'. register v s = Inr s') \<longleftrightarrow> dget s (t_name v) = None"
    by (simp add: register_def has_key_dget)
  show "dget s n = Some v \<Longrightarrow> t_name v = n"
    using inv by (rule registry_inv_name)
  show "registry_inv (unregister n s)"
    using inv by (auto simp: registry_inv_def unregister_def list_all_iff dpop_def dkeys_def
        distinct_map inj_on_def)
  show "dget (unregister n s) m = (if m = n then None else dget s m)"
    by (simp add: unregister_def)
  assume add: "register v s = Inr s'"
  then have s': "s' = dset (t_name v) v s" by (auto simp: register_def split: if_splits)
  then show "dget s' n = (if n = t_name v then Some v else dget s n)" by simp
  show "registry_inv s'"
    using inv dset_set [of "t_name v" v s] by (auto simp: s' registry_inv_def list_all_iff)
qed

definition schema_name :: "pyval \<Rightarrow> string" where
  "schema_name v =
     (case v of PDict d \<Rightarrow>
        (case dget_or d ''function'' PNone of PDict f \<Rightarrow>
           (case dget_or f ''name'' PNone of PStr s \<Rightarrow> s | _ \<Rightarrow> []) | _ \<Rightarrow> []) | _ \<Rightarrow> [])"

lemma schema_name_to [simp]: "schema_name (to_openai_schema t) = t_name t"
  by (simp add: schema_name_def to_openai_schema_def Let_def)

lemma schema_names:
  assumes "registry_inv reg" shows "map schema_name (schemas reg) = sort (dkeys reg)"
proof -
  have "t_name (the (dget reg n)) = n" if "n \<in> set (dkeys reg)" for n
    using that assms registry_inv_name by (cases "dget reg n") (auto simp: dget_None_iff)
  then show ?thesis by (auto simp: schemas_def comp_def intro!: map_idI)
qed

section \<open>Dispatch, case by case\<close>

lemma get_tool_Inr: "get_tool reg n = Inr t \<longleftrightarrow> dget reg n = Some t"
  by (auto simp: get_tool_def split: option.splits)

lemma get_tool_Inl: "(\<exists>e. get_tool reg n = Inl e) \<longleftrightarrow> dget reg n = None"
  by (auto simp: get_tool_def split: option.splits)

lemma run_tool_Inr:
  "run_tool js er n t a = (ev, called, Inr v) \<longleftrightarrow>
     called \<and> ev = [SpanAttr ''output.value'' (js v), SpanAttr ''output.mime_type'' ''application/json'', SpanStatus True []]
     \<and> (\<exists>inp out. t_input_model t a = Inr inp \<and> t_handler t inp = Returned out \<and> t_output_model t out = Inr v)"
  by (auto simp: run_tool_def split: sum.splits outcome.splits exn.splits)

lemma run_tool_called:
  "fst (snd (run_tool js er n t a)) \<longleftrightarrow> (\<exists>inp. t_input_model t a = Inr inp)"
  by (auto simp: run_tool_def split: sum.splits outcome.splits exn.splits)

section \<open>Properties\<close>

text \<open>C15: dispatch through the registry is validated on both sides. A call returns a value iff
  the tool is registered, its arguments are a mapping the input model accepts, the handler
  returns and the output model accepts what it returned; the handler is called iff the
  arguments were accepted, so invalid arguments never reach it.\<close>

theorem registry_execute_validated:
  "((\<exists>ev called. registry_execute js er reg name raw = (ev, called, Inr v)) \<longleftrightarrow>
     (\<exists>t d inp out. dget reg name = Some t \<and> raw = PDict d \<and> t_input_model t raw = Inr inp \<and>
        t_handler t inp = Returned out \<and> t_output_model t out = Inr v)) \<and>
   (fst (snd (registry_execute js er reg name raw)) \<longleftrightarrow>
     (\<exists>t d inp. dget reg name = Some t \<and> raw = PDict d \<and> t_input_model t raw = Inr inp))"
proof -
  have "(\<exists>ev called. registry_execute js er reg name raw = (ev, called, Inr v)) \<longleftrightarrow>
     (\<exists>t d ev called. dget reg name = Some t \<and> raw = PDict d \<and> run_tool js er name t raw = (ev, called, Inr v))"
    by (auto simp: registry_execute_def get_tool_def split: option.splits pyval.splits prod.splits)
  moreover have "fst (snd (registry_execute js er reg name raw)) \<longleftrightarrow>
     (\<exists>t d. dget reg name = Some t \<and> raw = PDict d \<and> fst (snd (run_tool js er name t raw)))"
    by (auto simp: registry_execute_def get_tool_def split: option.splits pyval.splits prod.splits)
  ultimately show ?thesis by (auto simp: run_tool_Inr run_tool_called)
qed

section \<open>What redaction keeps and what it hides\<close>

text \<open>A reference reading of a secret's name: one of the names, in any case and with hyphens for
  underscores, with any white space around it.\<close>

fun spells :: "string \<Rightarrow> string \<Rightarrow> bool" where
  "spells [] [] = True"
| "spells (c # cs) (w # ws) = ((lower_char c = w \<or> c = CHR ''-'' \<and> w = CHR ''_'') \<and> spells cs ws)"
| "spells _ _ = False"

definition names_secret :: "string \<Rightarrow> bool" where
  "names_secret k =
     (\<exists>a b c. k = a @ b @ c \<and> list_all is_space a \<and> list_all is_space c \<and>
        list_ex (spells b)
          [''password'', ''passwd'', ''secret'', ''token'', ''access_token'', ''refresh_token'', ''id_token'',
           ''api_key'', ''apikey'', ''authorization'', ''proxy_authorization'', ''cookie'', ''set_cookie'',
           ''private_key'', ''client_secret'', ''access_key'', ''secret_key'', ''credential'', ''credentials''])"

lemma strip_trims:
  assumes "list_all is_space a" "list_all is_space c" "b \<noteq> []" "\<not> list_ex is_space b"
  shows "str_strip (a @ b @ c) = b"
proof -
  have noop: "dropWhile is_space (xs @ ys) = xs @ ys" if "xs \<noteq> []" "\<not> list_ex is_space xs" for xs ys
    using that by (cases xs) auto
  have skip: "dropWhile is_space (xs @ ys) = dropWhile is_space ys" if "list_all is_space xs" for xs ys
    using that by (auto simp: list_all_iff intro: dropWhile_append2)
  have "dropWhile is_space (a @ b @ c) = b @ c" using assms skip noop by metis
  moreover have "dropWhile is_space (rev c @ rev b) = rev b"
    using skip [of "rev c" "rev b"] noop [of "rev b" "[]"] assms by (auto simp: list_all_iff list_ex_iff)
  ultimately show ?thesis by (simp add: str_strip_def str_rstrip_def)
qed

lemma strip_splits: "\<exists>a c. k = a @ str_strip k @ c \<and> list_all is_space a \<and> list_all is_space c"
proof -
  let ?d = "dropWhile is_space k"
  have "rev ?d = takeWhile is_space (rev ?d) @ dropWhile is_space (rev ?d)" by simp
  then have "?d = str_strip k @ rev (takeWhile is_space (rev ?d))"
    by (metis rev_append rev_rev_ident str_rstrip_def str_strip_def)
  then have "k = takeWhile is_space k @ str_strip k @ rev (takeWhile is_space (rev ?d))"
    by (metis takeWhile_dropWhile_id)
  moreover have "list_all is_space (takeWhile is_space k)" "list_all is_space (rev (takeWhile is_space (rev ?d)))"
    by (auto simp: list_all_iff dest: set_takeWhileD)
  ultimately show ?thesis by blast
qed

lemma lower_char_facts:
  "is_space c \<Longrightarrow> lower_char c = c" "lower_char c = CHR ''-'' \<longleftrightarrow> c = CHR ''-''"
  "lower_char CHR ''-'' = CHR ''-''" "\<not> is_space CHR ''-''"
proof -
  show "lower_char CHR ''-'' = CHR ''-''" "\<not> is_space CHR ''-''" by code_simp+
  show "is_space c \<Longrightarrow> lower_char c = c" by (auto simp: is_space_def lower_char_def Let_def)
  have "(of_char (char_of (n + 32) :: char) :: nat) \<noteq> 45" if "65 \<le> n" "n \<le> 90" for n :: nat
    using that by (simp add: of_char_of)
  then show "lower_char c = CHR ''-'' \<longleftrightarrow> c = CHR ''-''"
    by (cases "65 \<le> (of_char c :: nat) \<and> (of_char c :: nat) \<le> 90")
      (auto simp: lower_char_def Let_def dest: arg_cong [of _ _ "of_char :: char \<Rightarrow> nat"])
qed

lemma spells_normal:
  "CHR ''-'' \<notin> set w \<Longrightarrow>
     spells b w \<longleftrightarrow> map (\<lambda>c. if c = CHR ''-'' then CHR ''_'' else c) (str_lower b) = w"
  by (induction b w rule: spells.induct) (auto simp: str_lower_def lower_char_facts)

lemma spells_unspaced: "spells b w \<Longrightarrow> \<not> list_ex is_space w \<Longrightarrow> \<not> list_ex is_space b"
  by (induction b w rule: spells.induct) (auto simp: lower_char_facts)

lemma sensitive_names: "list_all (\<lambda>w. w \<noteq> [] \<and> CHR ''-'' \<notin> set w \<and> \<not> list_ex is_space w) sensitive_keys"
  by code_simp

lemma names_secret_iff: "names_secret k \<longleftrightarrow> is_sensitive_key k"
proof
  assume "names_secret k"
  then obtain a b c w where k: "k = a @ b @ c" "list_all is_space a" "list_all is_space c"
      and w: "w \<in> set sensitive_keys" "spells b w"
    by (auto simp: names_secret_def list_ex_iff sensitive_keys_def)
  with sensitive_names have ok: "w \<noteq> []" "CHR ''-'' \<notin> set w" "\<not> list_ex is_space w" by (auto simp: list_all_iff)
  with w(2) have "b \<noteq> []" by (cases b; cases w) auto
  with k spells_unspaced [OF w(2) ok(3)] have "str_strip k = b" by (simp add: strip_trims)
  with spells_normal [OF ok(2)] w show "is_sensitive_key k" by (simp add: is_sensitive_key_def)
next
  assume "is_sensitive_key k"
  then have w: "map (\<lambda>c. if c = CHR ''-'' then CHR ''_'' else c) (str_lower (str_strip k)) \<in> set sensitive_keys"
    by (simp add: is_sensitive_key_def)
  with sensitive_names spells_normal have "list_ex (spells (str_strip k)) sensitive_keys"
    by (auto simp: list_all_iff list_ex_iff)
  with strip_splits [of k] show "names_secret k" unfolding names_secret_def sensitive_keys_def by blast
qed

text \<open>The value at a path of positions, with the keys on the way.\<close>

fun at_path :: "pyval \<Rightarrow> nat list \<Rightarrow> (string list \<times> pyval) option" where
  "at_path v [] = Some ([], v)"
| "at_path (PDict d) (i # p) =
     (if i < length d then map_option (\<lambda>(ks, w). (fst (d ! i) # ks, w)) (at_path (snd (d ! i)) p) else None)"
| "at_path (PList xs) (i # p) = (if i < length xs then at_path (xs ! i) p else None)"
| "at_path _ (i # p) = None"

text \<open>Two values alike at their top: the same keys, the same length or the same value.\<close>

fun same_top :: "pyval \<Rightarrow> pyval \<Rightarrow> bool" where
  "same_top (PDict d) u = (case u of PDict e \<Rightarrow> map fst e = map fst d | _ \<Rightarrow> False)"
| "same_top (PList xs) u = (case u of PList ys \<Rightarrow> length ys = length xs | _ \<Rightarrow> False)"
| "same_top w u = (u = w)"

lemma at_path_redacted: "at_path redacted p = (if p = [] then Some ([], redacted) else None)"
  by (cases p) (simp_all add: redacted_def)

lemma scrub_at_path:
  "case at_path v p of
     None \<Rightarrow> at_path (scrub_sensitive v) p = None
   | Some (ks, w) \<Rightarrow>
       (if list_ex names_secret ks
        then at_path (scrub_sensitive v) p \<in> {None, Some (ks, redacted)}
        else (case at_path (scrub_sensitive v) p of
                Some (ks', u) \<Rightarrow> ks' = ks \<and> same_top w u | None \<Rightarrow> False))"
proof (induction v p rule: at_path.induct)
  case (1 v)
  then show ?case by (cases v) (auto simp: comp_def split_beta)
next
  case (2 d i p)
  show ?case
  proof (cases "i < length d")
    case True
    obtain k w where kw: "d ! i = (k, w)" by fastforce
    show ?thesis
    proof (cases "is_sensitive_key k")
      case True
      with kw \<open>i < length d\<close> show ?thesis
        by (cases p; cases "at_path w p") (auto simp: at_path_redacted names_secret_iff)
    next
      case False
      from 2 [OF \<open>i < length d\<close>] kw False \<open>i < length d\<close> show ?thesis
        by (cases "at_path w p"; cases "at_path (scrub_sensitive w) p")
          (auto simp: names_secret_iff split: if_splits)
    qed
  qed simp
next
  case (3 xs i p)
  show ?case
  proof (cases "i < length xs")
    case True
    then have "at_path (PList xs) (i # p) = at_path (xs ! i) p"
      "at_path (scrub_sensitive (PList xs)) (i # p) = at_path (scrub_sensitive (xs ! i)) p" by simp_all
    with 3 [OF True] show ?thesis by (simp only:)
  qed simp
qed auto

text \<open>C20: redaction before tracing. Whatever value is serialised for a span, at every path of it:
  where no key on the way names a secret, the redacted value has the same entry, a dict with the
  same keys, a list of the same length or the very same value; below a key that names a secret (in
  any case, with hyphens or underscores and with white space around it) there is only the marker.
  It has no other paths, and a second redaction changes nothing.\<close>

theorem scrub_sensitive_complete:
  "(\<forall>p. case at_path v p of
       None \<Rightarrow> at_path (scrub_sensitive v) p = None
     | Some (ks, w) \<Rightarrow>
         (if list_ex names_secret ks
          then at_path (scrub_sensitive v) p \<in> {None, Some (ks, PStr ''[REDACTED]'')}
          else (case at_path (scrub_sensitive v) p of
                  Some (ks', u) \<Rightarrow> ks' = ks \<and> same_top w u | None \<Rightarrow> False))) \<and>
   scrub_sensitive (scrub_sensitive v) = scrub_sensitive v"
  by (intro conjI allI scrub_at_path [unfolded redacted_def] scrub_idem scrubbed_scrub)

end
