(* ===== verification/Executor.thy ===== *)
theory Executor
  imports Policy Registry
begin

text \<open>
  The dispatch boundary, \<^verbatim>\<open>safety/executor.py\<close>: \<open>SafeExecutor.execute\<close> as a
  function of the executor's parts (registry, policy and the injected handlers) and of what
  the clocks read, giving the events in the order they happen, and either the result or the
  exception that leaves the method. The policy is the function \<open>x_policy\<close>, so what is
  proved in the context of \<open>policy_gate\<close> holds for any engine that meets its laws. A
  handler's call is an \<open>outcome\<close>; under \<open>asyncio.wait_for\<close> an expired timeout is a
  \<open>TimeoutError\<close> raised at the call. Cancellation at a handler is \<open>Raised CancelledError\<close>,
  which \<open>except Exception\<close> does not catch.
\<close>

section \<open>Data\<close>

datatype execution_status =
    rejected | approval_required | not_dispatched | snapshot_failed
  | succeeded | verified_ok | verification_failed | failed

record execution_result =
  x_action :: proposed_action
  x_decision :: policy_decision
  x_status :: execution_status
  x_executed :: bool
  x_verified :: "bool option"
  x_rolled_back :: bool
  x_cancelled :: bool
  x_error :: "exn option"
  x_output :: "pydict option"
  x_snapshot :: "pydict option"
  x_executed_at :: "string option"
  x_duration_ms :: "int option"

definition fresh_result :: "proposed_action \<Rightarrow> policy_decision \<Rightarrow> execution_result" where
  "fresh_result a d = \<lparr>x_action = a, x_decision = d, x_status = not_dispatched, x_executed = False,
     x_verified = None, x_rolled_back = False, x_cancelled = False, x_error = None, x_output = None,
     x_snapshot = None, x_executed_at = None, x_duration_ms = None\<rparr>"

definition result_dispatched :: "execution_result \<Rightarrow> bool" where
  "result_dispatched r = x_executed r"

definition result_succeeded :: "execution_result \<Rightarrow> bool" where
  "result_succeeded r = (x_status r = succeeded \<or> x_status r = verified_ok)"

definition fully_verified :: "execution_result \<Rightarrow> bool" where
  "fully_verified r = (x_status r = verified_ok)"

text \<open>\<open>to_executed_action\<close>; the current time and the generated id are arguments.\<close>

definition to_executed_action :: "string \<Rightarrow> string \<Rightarrow> execution_result \<Rightarrow> executed_action" where
  "to_executed_action now call_id r =
     \<lparr>ea_tool_name = pa_tool_name (x_action r), ea_tool_args = pa_tool_args (x_action r),
      ea_tool_call_id = call_id,
      ea_result = (case x_output r of None \<Rightarrow> [] | Some d \<Rightarrow> d),
      ea_success = (x_executed r \<and> x_error r = None \<and> x_verified r \<noteq> Some False),
      ea_executed_at = (case x_executed_at r of None \<Rightarrow> now | Some s \<Rightarrow> if s = [] then now else s),
      ea_verification_passed = x_verified r\<rparr>"

text \<open>One audit entry; the hash of the arguments is a function of them (\<open>x_hash\<close>).\<close>

record audit_record =
  au_incident :: "string option"
  au_tool_name :: string
  au_args_hash :: string
  au_risk_tier :: int
  au_reason :: string
  au_status :: execution_status
  au_executed :: bool
  au_verified :: "bool option"
  au_rolled_back :: bool
  au_duration_ms :: "int option"
  au_error :: "exn option"

datatype event =
    Audit audit_record
  | Snapshot string pydict
  | Dispatch string pydict
  | Verify string pydict "pydict option"
  | Rollback string pydict pydict

datatype exec_error =
    Rejected policy_decision
  | NeedsApproval policy_decision proposed_action
  | Escaped exn

record executor =
  x_registry :: tools
  x_policy :: "pyval \<Rightarrow> pyval \<Rightarrow> pyval \<Rightarrow> policy_decision + policy_decision"
  x_snapshots :: "(string, pydict \<Rightarrow> outcome) dict"
  x_verifiers :: "(string, pydict \<Rightarrow> pydict option \<Rightarrow> outcome) dict"
  x_rollbacks :: "(string, pydict \<Rightarrow> pydict \<Rightarrow> outcome) dict"
  x_audit_hook :: bool
  x_hash :: "pydict \<Rightarrow> string"
  x_json :: "pyval \<Rightarrow> string"
  x_show_exn :: "exn \<Rightarrow> string"

text \<open>The readings of the clocks during a call: wall-clock text at dispatch, monotonic seconds
  at dispatch and at the end.\<close>

record clock =
  ck_utc :: string
  ck_start :: rat
  ck_end :: rat

definition elapsed_ms :: "clock \<Rightarrow> int" where
  "elapsed_ms ck = trunc_rat ((ck_end ck - ck_start ck) * 1000)"

section \<open>Construction\<close>

definition make_executor ::
  "executor \<Rightarrow> rat \<Rightarrow> py_error + executor" where
  "make_executor x handler_timeout =
     (if handler_timeout \<le> 0 then Inl (ValueError ''handler_timeout must be greater than zero'') else Inr x)"

section \<open>Audit and rollback\<close>

text \<open>\<open>_safe_audit\<close>: nothing without a hook, and a failing hook changes nothing. The
  cancellation of a hook, which is no \<open>Exception\<close> and would pass through, is not modelled.\<close>

definition safe_audit :: "executor \<Rightarrow> audit_record \<Rightarrow> event list" where
  "safe_audit x a = (if x_audit_hook x then [Audit a] else [])"

definition audit_of :: "executor \<Rightarrow> string option \<Rightarrow> pydict \<Rightarrow> execution_result \<Rightarrow> audit_record" where
  "audit_of x inc args r =
     \<lparr>au_incident = inc, au_tool_name = pa_tool_name (x_action r), au_args_hash = x_hash x args,
      au_risk_tier = int (tier_num (risk_tier (x_decision r))), au_reason = reason (x_decision r),
      au_status = x_status r, au_executed = x_executed r, au_verified = x_verified r,
      au_rolled_back = x_rolled_back r, au_duration_ms = x_duration_ms r, au_error = x_error r\<rparr>"

definition audit_result :: "executor \<Rightarrow> string option \<Rightarrow> pydict \<Rightarrow> execution_result \<Rightarrow> event list" where
  "audit_result x inc args r = safe_audit x (audit_of x inc args r)"

definition audit_refusal ::
  "executor \<Rightarrow> string option \<Rightarrow> string \<Rightarrow> pydict \<Rightarrow> risk_tier \<Rightarrow> string \<Rightarrow> execution_status \<Rightarrow>
     exn option \<Rightarrow> event list" where
  "audit_refusal x inc t args tier why st err =
     safe_audit x \<lparr>au_incident = inc, au_tool_name = t, au_args_hash = x_hash x args,
       au_risk_tier = int (tier_num tier), au_reason = why, au_status = st, au_executed = False,
       au_verified = None, au_rolled_back = False, au_duration_ms = None, au_error = err\<rparr>"

definition set_error_if_none :: "exn \<Rightarrow> execution_result \<Rightarrow> execution_result" where
  "set_error_if_none e r = (case x_error r of None \<Rightarrow> r\<lparr>x_error := Some e\<rparr> | Some _ \<Rightarrow> r)"

text \<open>\<open>_maybe_rollback\<close>: an exception other than cancellation is recorded, not raised.\<close>

definition maybe_rollback ::
  "executor \<Rightarrow> string \<Rightarrow> pydict \<Rightarrow> execution_result \<Rightarrow> event list \<times> (exn + execution_result)" where
  "maybe_rollback x t args r =
     (if x_rolled_back r then ([], Inr r)
      else case (dget (x_rollbacks x) t, x_snapshot r) of
        (Some f, Some snap) \<Rightarrow>
          ([Rollback t args snap],
           case f args snap of
             Returned (PBool b) \<Rightarrow> Inr (r\<lparr>x_rolled_back := b\<rparr>)
           | Returned _ \<Rightarrow>
               Inr (set_error_if_none (PyError (TypeError ''rollback handler must return bool''))
                     (r\<lparr>x_rolled_back := False\<rparr>))
           | Raised e \<Rightarrow>
               (if caught_by_exception e then Inr (set_error_if_none e (r\<lparr>x_rolled_back := False\<rparr>))
                else Inl e))
      | _ \<Rightarrow> ([], Inr r))"

text \<open>The tail of every path after dispatch: rollback where the path asks for one, the
  duration, the audit entry.\<close>

definition finish ::
  "executor \<Rightarrow> clock \<Rightarrow> string option \<Rightarrow> string \<Rightarrow> pydict \<Rightarrow> bool \<Rightarrow> execution_result \<Rightarrow>
     event list \<times> (exec_error + execution_result)" where
  "finish x ck inc t args roll r =
     (case (if roll then maybe_rollback x t args r else ([], Inr r)) of
        (ev, Inl e) \<Rightarrow> (ev, Inl (Escaped e))
      | (ev, Inr r') \<Rightarrow>
          (let r2 = r'\<lparr>x_duration_ms := Some (elapsed_ms ck)\<rparr>
           in (ev @ audit_result x inc args r2, Inr r2)))"

section \<open>The pipeline\<close>

text \<open>An event before what a later step does.\<close>

definition after :: "event \<Rightarrow> event list \<times> 'r \<Rightarrow> event list \<times> 'r" where
  "after e p = (e # fst p, snd p)"

lemma after_simps [simp]: "fst (after e p) = e # fst p" "snd (after e p) = snd p"
  by (simp_all add: after_def)

text \<open>Step 9: verification of a successful dispatch.\<close>

definition verified_result :: "exn option \<Rightarrow> bool \<Rightarrow> execution_result \<Rightarrow> execution_result" where
  "verified_result err b r =
     (let r' = r\<lparr>x_verified := Some b, x_status := if b then verified_ok else verification_failed\<rparr>
      in case err of None \<Rightarrow> r' | Some e \<Rightarrow> r'\<lparr>x_error := Some e\<rparr>)"

definition verify_step ::
  "executor \<Rightarrow> clock \<Rightarrow> string option \<Rightarrow> string \<Rightarrow> pydict \<Rightarrow> execution_result \<Rightarrow>
     event list \<times> (exec_error + execution_result)" where
  "verify_step x ck inc t args r =
     (case dget (x_verifiers x) t of
        None \<Rightarrow> finish x ck inc t args False r
      | Some f \<Rightarrow>
         after (Verify t args (x_snapshot r))
           (case f args (x_snapshot r) of
              Raised e \<Rightarrow>
                (if caught_by_exception e
                 then finish x ck inc t args True (verified_result (Some e) False r)
                 else ([], Inl (Escaped e)))
            | Returned v \<Rightarrow>
                (case v of
                   PBool b \<Rightarrow> finish x ck inc t args (\<not> b) (verified_result None b r)
                 | _ \<Rightarrow>
                     finish x ck inc t args True
                       (verified_result (Some (PyError (TypeError ''verifier must return bool''))) False r))))"

text \<open>Step 8: dispatch. The result is marked executed before the registry is called; after a
  cancellation the rollback and the audit run and the cancellation is raised again.\<close>

definition reraise :: "exn \<Rightarrow> event list \<times> (exec_error + execution_result) \<Rightarrow> event list \<times> (exec_error + execution_result)" where
  "reraise e p = (fst p, case snd p of Inl e' \<Rightarrow> Inl e' | Inr _ \<Rightarrow> Inl (Escaped e))"

definition failed_result :: "exn \<Rightarrow> execution_result \<Rightarrow> execution_result" where
  "failed_result e r = r\<lparr>x_status := failed, x_error := Some e, x_cancelled := (e = CancelledError)\<rparr>"

definition dispatch_step ::
  "executor \<Rightarrow> clock \<Rightarrow> string option \<Rightarrow> string \<Rightarrow> pydict \<Rightarrow> execution_result \<Rightarrow>
     event list \<times> (exec_error + execution_result)" where
  "dispatch_step x ck inc t args r0 =
     (let r = r0\<lparr>x_executed := True, x_executed_at := Some (ck_utc ck)\<rparr>
      in after (Dispatch t args)
           (case snd (snd (registry_execute (x_json x) (x_show_exn x) (x_registry x) t (PDict args))) of
              Inr v \<Rightarrow>
                (case v of
                   PDict d \<Rightarrow> verify_step x ck inc t args (r\<lparr>x_output := Some d, x_status := succeeded\<rparr>)
                 | _ \<Rightarrow> finish x ck inc t args True
                          (failed_result (PyError (TypeError ''tool registry must return a dict output'')) r))
            | Inl e \<Rightarrow>
                (if e = CancelledError
                 then reraise e (finish x ck inc t args True (failed_result e r))
                 else if caught_by_exception e
                 then finish x ck inc t args True (failed_result e r)
                 else ([], Inl (Escaped e)))))"

text \<open>Step 7: capture of the state before the change; any failure ends the call undispatched.\<close>

definition snapshot_failure ::
  "executor \<Rightarrow> string option \<Rightarrow> pydict \<Rightarrow> exn \<Rightarrow> execution_result \<Rightarrow>
     event list \<times> (exec_error + execution_result)" where
  "snapshot_failure x inc args e r =
     (let r' = r\<lparr>x_status := snapshot_failed, x_error := Some e\<rparr> in (audit_result x inc args r', Inr r'))"

definition snapshot_step ::
  "executor \<Rightarrow> clock \<Rightarrow> string option \<Rightarrow> string \<Rightarrow> pydict \<Rightarrow> execution_result \<Rightarrow>
     event list \<times> (exec_error + execution_result)" where
  "snapshot_step x ck inc t args r =
     (case dget (x_snapshots x) t of
        None \<Rightarrow> dispatch_step x ck inc t args r
      | Some f \<Rightarrow>
         after (Snapshot t args)
           (case f args of
              Raised e \<Rightarrow>
                (if caught_by_exception e then snapshot_failure x inc args e r
                 else ([], Inl (Escaped e)))
            | Returned v \<Rightarrow>
                (case v of
                   PDict snap \<Rightarrow> dispatch_step x ck inc t args (r\<lparr>x_snapshot := Some snap\<rparr>)
                 | _ \<Rightarrow> snapshot_failure x inc args
                          (PyError (TypeError ''snapshot handler must return a dict'')) r)))"

text \<open>Step 4: the proposal's approval flag against the decision's.\<close>

definition reconcile :: "proposed_action \<Rightarrow> policy_decision \<Rightarrow> policy_decision" where
  "reconcile a d =
     (if pa_requires_approval a \<and> \<not> requires_approval d
      then d\<lparr>requires_approval := True, reason := reason d @ ''; proposal explicitly requires approval''\<rparr>
      else if \<not> pa_requires_approval a \<and> requires_approval d
      then d\<lparr>requires_approval := False, reason := reason d @ ''; approval previously obtained by graph''\<rparr>
      else d)"

definition execute ::
  "executor \<Rightarrow> clock \<Rightarrow> string option \<Rightarrow> proposed_action \<Rightarrow> event list \<times> (exec_error + execution_result)" where
  "execute x ck inc a =
     (let t = pa_tool_name a; args = pa_tool_args a
      in case get_tool (x_registry x) t of
        Inl e \<Rightarrow>
          (audit_refusal x inc t args PROHIBITED (''tool '' @ quoted t @ '' is not registered'') not_dispatched (Some e),
           Inl (Rejected (reject (''tool '' @ quoted t @ '' is not registered and cannot be executed''))))
      | Inr tool \<Rightarrow>
       (case (risk_tier_of (PInt (t_risk_tier tool)), risk_tier_of (PInt (pa_risk_tier a))) of
          (Some registered, Some proposed) \<Rightarrow>
           (case x_policy x (PStr t) (PDict args) (PInt (int (tier_num (max registered proposed)))) of
              Inl d \<Rightarrow>
                (audit_refusal x inc t args (risk_tier d) (reason d) rejected (Some (PolicyRejection (reason d))),
                 Inl (Rejected d))
            | Inr d0 \<Rightarrow>
               (let d = reconcile a d0; r = fresh_result a d
                in if \<not> allowed d
                   then (audit_refusal x inc t args (risk_tier d) (reason d) rejected None, Inl (Rejected d))
                   else if requires_approval d
                   then (audit_refusal x inc t args (risk_tier d) (reason d) approval_required None,
                         Inl (NeedsApproval d a))
                   else snapshot_step x ck inc t args r))
        | _ \<Rightarrow>
          (audit_refusal x inc t args PROHIBITED ''invalid risk tier metadata'' not_dispatched
             (Some (PyError (ValueError ''invalid risk tier''))),
           Inl (Rejected (reject (''invalid risk tier metadata for tool '' @ quoted t))))))"

section \<open>Order of the events\<close>

fun event_rank :: "event \<Rightarrow> nat" where
  "event_rank (Snapshot _ _) = 0"
| "event_rank (Dispatch _ _) = 1"
| "event_rank (Verify _ _ _) = 2"
| "event_rank (Rollback _ _ _) = 3"
| "event_rank (Audit _) = 4"

definition ranked :: "nat \<Rightarrow> event list \<Rightarrow> bool" where
  "ranked n ev = (sorted_wrt (<) (map event_rank ev) \<and> (\<forall>e \<in> set ev. n \<le> event_rank e))"

lemma ranked_Nil [simp]: "ranked n []"
  by (simp add: ranked_def)

lemma ranked_Cons [simp]: "ranked n (e # ev) \<longleftrightarrow> n \<le> event_rank e \<and> ranked (Suc (event_rank e)) ev"
  by (auto simp: ranked_def Suc_le_eq)

lemma ranked_mono: "ranked m ev \<Longrightarrow> n \<le> m \<Longrightarrow> ranked n ev"
  by (auto simp: ranked_def)

lemma ranked_audit [simp]: "n \<le> 4 \<Longrightarrow> ranked n (safe_audit x a)"
  by (simp add: safe_audit_def)

lemma ranked_refusal [simp]: "n \<le> 4 \<Longrightarrow> ranked n (audit_refusal x inc t args tier why st err)"
  by (simp add: audit_refusal_def)

lemma ranked_result [simp]: "n \<le> 4 \<Longrightarrow> ranked n (audit_result x inc args r)"
  by (simp add: audit_result_def)

lemma rollback_events:
  "fst (maybe_rollback x t args r) = [] \<or>
   (\<exists>snap. x_snapshot r = Some snap \<and> fst (maybe_rollback x t args r) = [Rollback t args snap])"
  by (auto simp: maybe_rollback_def split: option.splits)

lemma finish_events:
  "fst (finish x ck inc t args roll r) =
     (if roll then fst (maybe_rollback x t args r) else []) @
     (case if roll then snd (maybe_rollback x t args r) else Inr r of
        Inl _ \<Rightarrow> [] | Inr r' \<Rightarrow> audit_result x inc args (r'\<lparr>x_duration_ms := Some (elapsed_ms ck)\<rparr>))"
  by (auto simp: finish_def Let_def split: prod.splits sum.splits)

lemma ranked_finish: "n \<le> 3 \<Longrightarrow> ranked n (fst (finish x ck inc t args roll r))"
  using rollback_events [of x t args r]
  by (auto simp: finish_events split: sum.splits)

lemma ranked_verify: "n \<le> 2 \<Longrightarrow> ranked n (fst (verify_step x ck inc t args r))"
  by (auto simp: verify_step_def intro!: ranked_finish split: option.splits outcome.splits pyval.splits)

lemma ranked_dispatch: "n \<le> 1 \<Longrightarrow> ranked n (fst (dispatch_step x ck inc t args r))"
  by (auto simp: dispatch_step_def Let_def reraise_def intro!: ranked_finish ranked_verify
      split: sum.splits pyval.splits)

lemma ranked_snapshot: "ranked 0 (fst (snapshot_step x ck inc t args r))"
  by (auto simp: snapshot_step_def snapshot_failure_def Let_def intro!: ranked_dispatch
      split: option.splits outcome.splits pyval.splits)

lemma ranked_execute: "ranked 0 (fst (execute x ck inc a))"
  by (auto simp: execute_def Let_def intro!: ranked_snapshot split: sum.splits option.splits)

section \<open>When a tool is dispatched\<close>

fun is_dispatch :: "event \<Rightarrow> bool" where
  "is_dispatch (Dispatch _ _) = True"
| "is_dispatch _ = False"

fun is_audit :: "event \<Rightarrow> bool" where
  "is_audit (Audit _) = True"
| "is_audit _ = False"

definition dispatched_in :: "event list \<Rightarrow> bool" where
  "dispatched_in ev = list_ex is_dispatch ev"

lemma dispatched_in_simps [simp]:
  "dispatched_in [] = False" "dispatched_in (e # ev) = (is_dispatch e \<or> dispatched_in ev)"
  "dispatched_in (ev @ ev') = (dispatched_in ev \<or> dispatched_in ev')"
  by (auto simp: dispatched_in_def)

lemma no_dispatch_audit [simp]:
  "\<not> dispatched_in (safe_audit x au)" "\<not> dispatched_in (audit_refusal x inc t args tier why st err)"
  "\<not> dispatched_in (audit_result x inc args r)"
  by (simp_all add: safe_audit_def audit_refusal_def audit_result_def)

lemma dispatch_step_dispatches [simp]: "dispatched_in (fst (dispatch_step x ck inc t args r))"
  by (simp add: dispatch_step_def Let_def)

text \<open>Capture of the state before the change succeeds: no handler, or it returns a dict.\<close>

definition snapshot_captured :: "executor \<Rightarrow> string \<Rightarrow> pydict \<Rightarrow> bool" where
  "snapshot_captured x t args =
     (case dget (x_snapshots x) t of None \<Rightarrow> True | Some f \<Rightarrow> (\<exists>s. f args = Returned (PDict s)))"

lemma snapshot_step_dispatches:
  "dispatched_in (fst (snapshot_step x ck inc t args r)) \<longleftrightarrow> snapshot_captured x t args"
  by (auto simp: snapshot_step_def snapshot_failure_def snapshot_captured_def Let_def
      split: option.splits outcome.splits pyval.splits)

lemma reconcile_fields [simp]:
  "allowed (reconcile a d) = allowed d" "risk_tier (reconcile a d) = risk_tier d"
  "requires_approval (reconcile a d) = pa_requires_approval a"
  by (auto simp: reconcile_def)

text \<open>What the policy said of the action, at the higher of the registered and declared tier.\<close>

definition policy_verdict :: "executor \<Rightarrow> proposed_action \<Rightarrow> (policy_decision + policy_decision) option" where
  "policy_verdict x a =
     (case dget (x_registry x) (pa_tool_name a) of
        None \<Rightarrow> None
      | Some u \<Rightarrow>
         (case (risk_tier_of (PInt (t_risk_tier u)), risk_tier_of (PInt (pa_risk_tier a))) of
            (Some r, Some p) \<Rightarrow>
              Some (x_policy x (PStr (pa_tool_name a)) (PDict (pa_tool_args a)) (PInt (int (tier_num (max r p)))))
          | _ \<Rightarrow> None))"

lemma execute_refused:
  "policy_verdict x a = Some (Inl d) \<Longrightarrow> execute x ck inc a =
     (audit_refusal x inc (pa_tool_name a) (pa_tool_args a) (risk_tier d) (reason d) rejected
        (Some (PolicyRejection (reason d))), Inl (Rejected d))"
  by (auto simp: policy_verdict_def execute_def Let_def get_tool_def split: option.splits sum.splits)

lemma execute_accepted:
  "policy_verdict x a = Some (Inr d0) \<Longrightarrow> execute x ck inc a =
     (let t = pa_tool_name a; args = pa_tool_args a; d = reconcile a d0
      in if \<not> allowed d0 then (audit_refusal x inc t args (risk_tier d) (reason d) rejected None, Inl (Rejected d))
         else if pa_requires_approval a
         then (audit_refusal x inc t args (risk_tier d) (reason d) approval_required None, Inl (NeedsApproval d a))
         else snapshot_step x ck inc t args (fresh_result a d))"
  by (auto simp: policy_verdict_def execute_def Let_def get_tool_def split: option.splits sum.splits)

lemma verdict_cases:
  obtains (none) "policy_verdict x a = None" | (refuse) d where "policy_verdict x a = Some (Inl d)"
    | (accept) d where "policy_verdict x a = Some (Inr d)"
  by (metis option.exhaust old.sum.exhaust)

lemma execute_no_verdict:
  assumes "policy_verdict x a = None"
  obtains why tag err where "execute x ck inc a =
     (audit_refusal x inc (pa_tool_name a) (pa_tool_args a) PROHIBITED tag not_dispatched (Some err),
      Inl (Rejected (reject why)))"
  using assms that
  by (auto simp: policy_verdict_def execute_def Let_def get_tool_def split: option.splits sum.splits)

lemma execute_dispatches:
  "dispatched_in (fst (execute x ck inc a)) \<longleftrightarrow>
     (\<exists>d. policy_verdict x a = Some (Inr d) \<and> allowed d) \<and> \<not> pa_requires_approval a \<and>
     snapshot_captured x (pa_tool_name a) (pa_tool_args a)"
proof (cases "policy_verdict x a")
  case None
  then show ?thesis by (rule execute_no_verdict [where ck = ck and inc = inc]) (simp add: None)
next
  case (Some v)
  then show ?thesis
    by (cases v) (auto simp: execute_refused execute_accepted Let_def snapshot_step_dispatches)
qed

text \<open>The same seen by a client that only knows the laws of the policy.\<close>

context policy_gate
begin

lemma dispatched_not_prohibited:
  assumes "x_policy x = gate" "dispatched_in (fst (execute x ck inc a))"
  shows "\<exists>d. policy_verdict x a = Some (Inr d) \<and> risk_tier d \<noteq> PROHIBITED \<and> tier_num (risk_tier d) \<le> 3"
proof -
  from assms(2) obtain d where d: "policy_verdict x a = Some (Inr d)"
    by (auto simp: execute_dispatches)
  then obtain b where "gate (PStr (pa_tool_name a)) (PDict (pa_tool_args a)) b = Inr d"
    using assms(1) by (auto simp: policy_verdict_def split: option.splits)
  with d accepted tier_bound show ?thesis by blast
qed

lemma dispatched_unglobbed:
  assumes "x_policy x = gate" "dispatched_in (fst (execute x ck inc a))" "(k, v) \<in> set (pa_tool_args a)" "occurs_in s v"
  shows "\<not> has_glob s"
proof -
  from assms(2) obtain d where d: "policy_verdict x a = Some (Inr d)"
    by (auto simp: execute_dispatches)
  then obtain b where "gate (PStr (pa_tool_name a)) (PDict (pa_tool_args a)) b = Inr d"
    using assms(1) by (auto simp: policy_verdict_def split: option.splits)
  with assms no_glob_anywhere show ?thesis by blast
qed

end

section \<open>What a returned result says\<close>

text \<open>The relation between the fields of a terminal result.\<close>

definition result_ok :: "execution_result \<Rightarrow> bool" where
  "result_ok r =
     ((x_executed r \<longleftrightarrow> x_status r \<noteq> snapshot_failed) \<and>
      x_status r \<in> {snapshot_failed, succeeded, verified_ok, verification_failed, failed} \<and>
      (x_status r = verified_ok \<longleftrightarrow> x_verified r = Some True) \<and>
      (x_status r = verification_failed \<longleftrightarrow> x_verified r = Some False) \<and>
      (x_status r \<in> {succeeded, verified_ok} \<longrightarrow> x_error r = None) \<and>
      (x_status r \<in> {snapshot_failed, failed} \<longrightarrow> x_error r \<noteq> None) \<and>
      (x_rolled_back r \<longrightarrow> x_status r \<in> {failed, verification_failed} \<and> x_snapshot r \<noteq> None))"

text \<open>What every path hands to \<open>finish\<close>.\<close>

definition ready :: "bool \<Rightarrow> execution_result \<Rightarrow> bool" where
  "ready roll r =
     (x_executed r \<and> \<not> x_rolled_back r \<and>
      (if roll
       then (x_status r = verification_failed \<and> x_verified r = Some False) \<or>
            (x_status r = failed \<and> x_verified r = None \<and> x_error r \<noteq> None)
       else x_error r = None \<and>
            ((x_status r = succeeded \<and> x_verified r = None) \<or>
             (x_status r = verified_ok \<and> x_verified r = Some True))))"

lemma rollback_result:
  "snd (maybe_rollback x t args r) = Inr r1 \<Longrightarrow>
     \<exists>b e. r1 = r\<lparr>x_rolled_back := b, x_error := e\<rparr> \<and> (b \<longrightarrow> x_rolled_back r \<or> x_snapshot r \<noteq> None)
      \<and> (x_error r \<noteq> None \<longrightarrow> e = x_error r)"
  unfolding maybe_rollback_def set_error_if_none_def
  by (cases r) (auto split: if_splits option.splits outcome.splits pyval.splits)

lemma finish_ok:
  assumes "ready roll r" and fin: "snd (finish x ck inc t args roll r) = Inr r'"
  shows "result_ok r'"
proof (cases roll)
  case False
  with fin have "r' = r\<lparr>x_duration_ms := Some (elapsed_ms ck)\<rparr>" by (auto simp: finish_def Let_def)
  with assms False show ?thesis by (auto simp: ready_def result_ok_def)
next
  case True
  with fin obtain r1 where r1: "snd (maybe_rollback x t args r) = Inr r1"
    and r': "r' = r1\<lparr>x_duration_ms := Some (elapsed_ms ck)\<rparr>"
    by (auto simp: finish_def Let_def split: prod.splits sum.splits)
  with rollback_result [OF r1] assms(1) True r' show ?thesis by (auto simp: ready_def result_ok_def)
qed

lemma finish_not_Inl: "snd (finish x ck inc t args roll r) = Inl e \<Longrightarrow> \<exists>e'. e = Escaped e'"
  by (auto simp: finish_def Let_def split: prod.splits sum.splits)

lemma verify_step_ok:
  assumes "ready False r" "x_status r = succeeded" "snd (verify_step x ck inc t args r) = Inr r'"
  shows "result_ok r'"
proof (cases "dget (x_verifiers x) t")
  case None
  with assms finish_ok show ?thesis by (auto simp: verify_step_def)
next
  case (Some f)
  have ready: "ready True (verified_result e False r)" "ready False (verified_result None True r)" for e
    using assms(1) by (auto simp: ready_def verified_result_def Let_def split: option.splits)
  show ?thesis
  proof (cases "f args (x_snapshot r)")
    case (Raised e)
    with Some assms(3) show ?thesis
      by (auto simp: verify_step_def split: if_splits intro: finish_ok [OF ready(1)])
  next
    case (Returned v)
    with Some assms(3) show ?thesis
      by (cases v; cases "v = PBool True")
         (auto simp: verify_step_def intro: finish_ok [OF ready(1)] finish_ok [OF ready(2)])
  qed
qed

lemma dispatch_step_ok:
  assumes "x_verified r = None" "x_error r = None" "\<not> x_rolled_back r"
    and "snd (dispatch_step x ck inc t args r) = Inr r'"
  shows "result_ok r'"
proof -
  let ?r = "r\<lparr>x_executed := True, x_executed_at := Some (ck_utc ck)\<rparr>"
  have bad: "ready True (failed_result e ?r)" for e
    using assms by (simp add: ready_def failed_result_def)
  have good: "ready False (?r\<lparr>x_output := Some d, x_status := succeeded\<rparr>)" for d
    using assms by (simp add: ready_def)
  show ?thesis
  proof (cases "snd (snd (registry_execute (x_json x) (x_show_exn x) (x_registry x) t (PDict args)))")
    case (Inl e)
    with assms(4) show ?thesis
      by (auto simp: dispatch_step_def Let_def reraise_def split: if_splits sum.splits intro: finish_ok [OF bad])
  next
    case (Inr v)
    show ?thesis
    proof (cases "\<exists>d. v = PDict d")
      case True
      then obtain d where "v = PDict d" ..
      with Inr assms(4) show ?thesis
        by (intro verify_step_ok [OF good [of d]]) (auto simp: dispatch_step_def Let_def)
    next
      case False
      with Inr assms(4) show ?thesis
        by (cases v) (auto simp: dispatch_step_def Let_def intro: finish_ok [OF bad])
    qed
  qed
qed

lemma snapshot_step_ok:
  assumes "snd (snapshot_step x ck inc t args (fresh_result a d)) = Inr r'"
  shows "result_ok r'"
proof -
  have ok: "snd (dispatch_step x ck inc t args (fresh_result a d)) = Inr r' \<Longrightarrow> result_ok r'"
    "snd (dispatch_step x ck inc t args (fresh_result a d\<lparr>x_snapshot := Some s\<rparr>)) = Inr r' \<Longrightarrow> result_ok r'" for s
    by (rule dispatch_step_ok; simp add: fresh_result_def)+
  have bad: "snd (snapshot_failure x inc args e (fresh_result a d)) = Inr r' \<Longrightarrow> result_ok r'" for e
    by (auto simp: snapshot_failure_def Let_def fresh_result_def result_ok_def)
  from assms ok bad show ?thesis
    by (cases "dget (x_snapshots x) t")
       (auto simp: snapshot_step_def split: outcome.splits pyval.splits if_splits)
qed

lemma execute_result_ok: "snd (execute x ck inc a) = Inr r \<Longrightarrow> result_ok r"
proof (cases x a rule: verdict_cases)
  case none
  then show "snd (execute x ck inc a) = Inr r \<Longrightarrow> result_ok r"
    by (rule execute_no_verdict [where ck = ck and inc = inc]) simp
qed (auto simp: execute_refused execute_accepted Let_def split: if_splits dest: snapshot_step_ok)

section \<open>The audit trail\<close>

definition audits :: "event list \<Rightarrow> event list" where
  "audits ev = filter is_audit ev"

lemma audits_simps [simp]:
  "audits [] = []" "audits (e # ev) = (if is_audit e then e # audits ev else audits ev)"
  "audits (ev @ ev') = audits ev @ audits ev'"
  "audits (safe_audit x au) = safe_audit x au"
  by (auto simp: audits_def safe_audit_def)

lemma audits_result [simp]:
  "audits (audit_result x inc args r) = safe_audit x (audit_of x inc args r)"
  "audits (audit_refusal x inc t args tier why st err) = audit_refusal x inc t args tier why st err"
  by (simp_all add: audit_result_def audit_refusal_def)

text \<open>What the trail of a call with this action must be: with a hook the one entry, without one
  nothing. The entry names the incident, the tool and the hash of its arguments.\<close>

definition recorded :: "executor \<Rightarrow> event list \<Rightarrow> audit_record \<Rightarrow> bool" where
  "recorded x ev e \<longleftrightarrow> filter is_audit ev = (if x_audit_hook x then [Audit e] else [])"

definition entry_for ::
  "executor \<Rightarrow> string option \<Rightarrow> proposed_action \<Rightarrow> risk_tier \<Rightarrow> string \<Rightarrow> execution_status \<Rightarrow> bool \<Rightarrow>
     bool option \<Rightarrow> bool \<Rightarrow> int option \<Rightarrow> exn option \<Rightarrow> audit_record" where
  "entry_for x inc a tier why st executed verified rolled ms err =
     \<lparr>au_incident = inc, au_tool_name = pa_tool_name a, au_args_hash = x_hash x (pa_tool_args a),
      au_risk_tier = int (tier_num tier), au_reason = why, au_status = st, au_executed = executed,
      au_verified = verified, au_rolled_back = rolled, au_duration_ms = ms, au_error = err\<rparr>"

definition outcome_entry :: "executor \<Rightarrow> string option \<Rightarrow> proposed_action \<Rightarrow> execution_result \<Rightarrow> audit_record" where
  "outcome_entry x inc a r =
     entry_for x inc a (risk_tier (x_decision r)) (reason (x_decision r)) (x_status r) (x_executed r) (x_verified r)
       (x_rolled_back r) (x_duration_ms r) (x_error r)"

text \<open>The steps after the decision: a result is recorded as it is; a call that a cancellation cuts
  short leaves no entry or, when the handler was cancelled, the entry of the failure.\<close>

definition audited ::
  "executor \<Rightarrow> string option \<Rightarrow> proposed_action \<Rightarrow> policy_decision \<Rightarrow> event list \<times> (exec_error + execution_result) \<Rightarrow>
     bool" where
  "audited x inc a d p =
     (case snd p of
        Inr r \<Rightarrow> x_action r = a \<and> x_decision r = d \<and> recorded x (fst p) (outcome_entry x inc a r)
      | Inl (Escaped e) \<Rightarrow> \<not> caught_by_exception e \<and>
          (audits (fst p) = [] \<or>
           (\<exists>rolled ms. e = CancelledError \<and> recorded x (fst p) (entry_for x inc a (risk_tier d) (reason d) failed True None
              rolled ms (Some CancelledError))))
      | Inl _ \<Rightarrow> False)"

lemma recorded_audits: "recorded x ev e \<longleftrightarrow> audits ev = safe_audit x e"
  by (simp add: recorded_def audits_def safe_audit_def)

lemma audit_of_entry [simp]: "x_action r = a \<Longrightarrow> audit_of x inc (pa_tool_args a) r = outcome_entry x inc a r"
  by (simp add: audit_of_def outcome_entry_def entry_for_def)

lemma audited_after [simp]: "\<not> is_audit e \<Longrightarrow> audited x inc a d (after e p) = audited x inc a d p"
  by (auto simp: audited_def recorded_def split: sum.splits exec_error.splits)

lemma rollback_frame:
  "snd (maybe_rollback x t args r) = Inr r1 \<Longrightarrow>
     x_action r1 = x_action r \<and> x_decision r1 = x_decision r \<and> x_status r1 = x_status r \<and>
     x_executed r1 = x_executed r \<and> x_verified r1 = x_verified r \<and> (x_error r \<noteq> None \<longrightarrow> x_error r1 = x_error r)"
  using rollback_result [of x t args r r1] by auto

lemma rollback_escapes:
  "snd (maybe_rollback x t args r) = Inl e \<Longrightarrow> \<not> caught_by_exception e"
  by (auto simp: maybe_rollback_def split: if_splits option.splits outcome.splits pyval.splits)

lemma rollback_silent [simp]: "audits (fst (maybe_rollback x t args r)) = []"
  using rollback_events [of x t args r] by auto

text \<open>The tail of a path: either the rollback was cut short and nothing is recorded, or the result
  is, with the rest of the fields the path gave it.\<close>

lemma finish_cases:
  obtains (escaped) e where "snd (finish x ck inc t args roll r) = Inl (Escaped e)" "\<not> caught_by_exception e"
      "audits (fst (finish x ck inc t args roll r)) = []"
  | (finished) r2 where "snd (finish x ck inc t args roll r) = Inr r2"
      "audits (fst (finish x ck inc t args roll r)) = safe_audit x (audit_of x inc args r2)"
      "x_action r2 = x_action r" "x_decision r2 = x_decision r" "x_status r2 = x_status r"
      "x_executed r2 = x_executed r" "x_verified r2 = x_verified r" "x_error r \<noteq> None \<Longrightarrow> x_error r2 = x_error r"
proof -
  let ?p = "if roll then maybe_rollback x t args r else ([], Inr r)"
  have silent: "audits (fst ?p) = []" by simp
  show thesis
  proof (cases "snd ?p")
    case (Inl e)
    then have "\<not> caught_by_exception e" by (auto dest: rollback_escapes split: if_splits)
    moreover have "finish x ck inc t args roll r = (fst ?p, Inl (Escaped e))"
      using Inl by (auto simp: finish_def split: prod.splits)
    ultimately show thesis using escaped silent by auto
  next
    case (Inr r1)
    let ?r2 = "r1\<lparr>x_duration_ms := Some (elapsed_ms ck)\<rparr>"
    have "finish x ck inc t args roll r = (fst ?p @ audit_result x inc args ?r2, Inr ?r2)"
      using Inr by (auto simp: finish_def Let_def split: prod.splits)
    moreover have "x_action r1 = x_action r \<and> x_decision r1 = x_decision r \<and> x_status r1 = x_status r \<and>
        x_executed r1 = x_executed r \<and> x_verified r1 = x_verified r \<and> (x_error r \<noteq> None \<longrightarrow> x_error r1 = x_error r)"
      using Inr by (cases roll) (auto dest: rollback_frame)
    ultimately show thesis using silent by (intro finished [of ?r2]) simp_all
  qed
qed

lemma audited_finish:
  "x_action r = a \<Longrightarrow> x_decision r = d \<Longrightarrow> audited x inc a d (finish x ck inc t (pa_tool_args a) roll r)"
  by (cases rule: finish_cases [of x ck inc t "pa_tool_args a" roll r])
    (auto simp: audited_def recorded_audits)

lemma audited_escape: "\<not> caught_by_exception e \<Longrightarrow> audited x inc a d ([], Inl (Escaped e))"
  by (simp add: audited_def)

text \<open>The cancelled handler: the failure is recorded, then the cancellation goes on.\<close>

lemma audited_reraise:
  assumes "x_action r = a" "x_decision r = d" "x_executed r" "x_verified r = None"
  shows "audited x inc a d (reraise CancelledError (finish x ck inc t (pa_tool_args a) True (failed_result CancelledError r)))"
proof (cases rule: finish_cases [of x ck inc t "pa_tool_args a" True "failed_result CancelledError r"])
  case (escaped e)
  then show ?thesis by (auto simp: audited_def reraise_def)
next
  case (finished r2)
  then have "audit_of x inc (pa_tool_args a) r2 =
      entry_for x inc a (risk_tier d) (reason d) failed True None (x_rolled_back r2) (x_duration_ms r2) (Some CancelledError)"
    using assms by (simp add: failed_result_def outcome_entry_def)
  with finished show ?thesis by (auto simp: audited_def reraise_def recorded_audits caught_by_exception_def)
qed

lemma verified_result_frame [simp]:
  "x_action (verified_result e b r) = x_action r" "x_decision (verified_result e b r) = x_decision r"
  by (simp_all add: verified_result_def Let_def split: option.splits)

lemma audited_verify:
  "x_action r = a \<Longrightarrow> x_decision r = d \<Longrightarrow> audited x inc a d (verify_step x ck inc t (pa_tool_args a) r)"
  by (auto simp: verify_step_def intro!: audited_finish audited_escape split: option.splits outcome.splits pyval.splits)

lemma audited_dispatch:
  assumes "x_action r = a" "x_decision r = d" "x_verified r = None"
  shows "audited x inc a d (dispatch_step x ck inc t (pa_tool_args a) r)"
proof -
  have frame: "x_action (failed_result e r) = x_action r" "x_decision (failed_result e r) = x_decision r" for e r
    by (simp_all add: failed_result_def)
  show ?thesis
    using assms
    by (auto simp: dispatch_step_def Let_def frame intro!: audited_finish audited_verify audited_escape audited_reraise
        split: sum.splits pyval.splits)
qed

lemma audited_snapshot:
  "audited x inc a d (snapshot_step x ck inc t (pa_tool_args a) (fresh_result a d))"
proof -
  have failure: "audited x inc a d (snapshot_failure x inc (pa_tool_args a) e (fresh_result a d))" for e
    by (simp add: audited_def snapshot_failure_def Let_def fresh_result_def recorded_audits)
  show ?thesis
    by (auto simp: snapshot_step_def fresh_result_def intro!: failure [unfolded fresh_result_def] audited_dispatch
        audited_escape split: option.splits outcome.splits pyval.splits)
qed

section \<open>Properties\<close>

text \<open>C3: what reaches a tool. The executor dispatches an action iff the tool is registered and
  both tiers are valid, the policy accepts the call at the higher of the two tiers with an
  allowing decision, the proposal does not ask for approval, and the capture of the state before
  the change succeeds where one is registered. So an unregistered tool, a prohibited call or a
  failed snapshot never reaches a tool; the policy's own request for approval is not among the
  conditions, the approval gate depends on the proposal's flag alone.\<close>

theorem execute_dispatch_gate:
  "dispatched_in (fst (execute x ck inc a)) \<longleftrightarrow>
     (\<exists>tool r p d. dget (x_registry x) (pa_tool_name a) = Some tool \<and>
        risk_tier_of (PInt (t_risk_tier tool)) = Some r \<and> risk_tier_of (PInt (pa_risk_tier a)) = Some p \<and>
        x_policy x (PStr (pa_tool_name a)) (PDict (pa_tool_args a)) (PInt (int (tier_num (max r p)))) = Inr d \<and>
        allowed d) \<and>
     \<not> pa_requires_approval a \<and>
     snapshot_captured x (pa_tool_name a) (pa_tool_args a)"
  unfolding execute_dispatches by (auto simp: policy_verdict_def split: option.splits)

text \<open>C9: the order of effects. In every call the events come in the order snapshot, dispatch,
  verification, rollback, audit, each at most once; so nothing is dispatched before the state
  is captured, and rollback runs at most once and never before dispatch.\<close>

theorem execute_event_order:
  "sorted_wrt (<) (map event_rank (fst (execute x ck inc a)))"
  using ranked_execute [of x ck inc a] by (simp add: ranked_def)

text \<open>The terminal status agrees with the other fields. A returned result was dispatched iff
  its status is not a failed snapshot; verified and verification-failed mean the verifier said
  so, an error is recorded exactly as the status says, a rollback happened only after a failure
  and with captured state; and the action written to the graph state is a success iff the
  status is succeeded or verified.\<close>

lemma execute_terminal_status:
  "case snd (execute x ck inc a) of
     Inl _ \<Rightarrow> True
   | Inr r \<Rightarrow> result_ok r \<and> (ea_success (to_executed_action now cid r) \<longleftrightarrow> result_succeeded r)"
proof (cases "snd (execute x ck inc a)")
  case (Inr r)
  then have ok: "result_ok r" by (rule execute_result_ok)
  then have "ea_success (to_executed_action now cid r) \<longleftrightarrow> result_succeeded r"
    by (auto simp: to_executed_action_def result_ok_def result_succeeded_def)
  with Inr ok show ?thesis by simp
qed simp

text \<open>C10: the audit trail. With a hook, every call that returns or is refused leaves exactly one
  entry, which names the incident, the tool and the hash of the arguments and is the record of what
  became of it. A returned result has the status, the flags, the duration and the error of the
  result, under the tier and reason of its decision. An unregistered tool or an invalid tier is
  recorded as not dispatched under the prohibited tier, a refusal of the policy as rejected and a
  missing approval as such, under the tier and reason of the policy's decision; none of them as
  executed, verified or rolled back, and the decision that is raised is the recorded one. A call
  that a cancellation cuts short leaves no entry, or the one of a failed execution when the tool was
  what was cancelled. (A hook that fails is ignored; one that is itself cancelled is outside the
  model.)\<close>

theorem execute_audited:
  "case execute x ck inc a of (ev, out) \<Rightarrow> (case out of
      Inr r \<Rightarrow> x_action r = a \<and> (\<exists>d. policy_verdict x a = Some (Inr d) \<and> x_decision r = reconcile a d) \<and>
        recorded x ev (entry_for x inc a (risk_tier (x_decision r)) (reason (x_decision r)) (x_status r)
          (x_executed r) (x_verified r) (x_rolled_back r) (x_duration_ms r) (x_error r))
    | Inl (Rejected d) \<Rightarrow>
        (case policy_verdict x a of
           None \<Rightarrow> risk_tier d = PROHIBITED \<and>
             (if dget (x_registry x) (pa_tool_name a) = None
              then recorded x ev (entry_for x inc a PROHIBITED (''tool '' @ quoted (pa_tool_name a) @ '' is not registered'')
                not_dispatched False None False None 
                  (Some (ToolNotFoundError (''Tool '' @ quoted (pa_tool_name a) @ '' is not registered''))))
              else recorded x ev (entry_for x inc a PROHIBITED ''invalid risk tier metadata''
                not_dispatched False None False None (Some (PyError (ValueError ''invalid risk tier'')))))
         | Some (Inl d') \<Rightarrow> d = d' \<and> recorded x ev (entry_for x inc a (risk_tier d) (reason d) rejected False None False None
             (Some (PolicyRejection (reason d))))
         | Some (Inr d') \<Rightarrow> d = reconcile a d' \<and> \<not> allowed d' \<and>
             recorded x ev (entry_for x inc a (risk_tier d) (reason d) rejected False None False None None))
    | Inl (NeedsApproval d b) \<Rightarrow> b = a \<and> pa_requires_approval a \<and>
        (\<exists>d'. policy_verdict x a = Some (Inr d') \<and> allowed d' \<and> d = reconcile a d') \<and>
        recorded x ev (entry_for x inc a (risk_tier d) (reason d) approval_required False None False None None)
    | Inl (Escaped e) \<Rightarrow> \<not> caught_by_exception e \<and>
        (\<exists>d'. policy_verdict x a = Some (Inr d') \<and>
          (filter is_audit ev = [] \<or>
           (\<exists>rolled ms. e = CancelledError \<and> recorded x ev (entry_for x inc a (risk_tier d') (reason (reconcile a d'))
              failed True None rolled ms (Some CancelledError))))))"
proof (cases x a rule: verdict_cases)
  case none
  then show ?thesis
    by (auto simp: policy_verdict_def execute_def Let_def get_tool_def audit_refusal_def recorded_audits entry_for_def
        reject_def split: option.splits)
next
  case (refuse d)
  then show ?thesis using execute_refused [OF refuse, of ck inc]
    by (auto simp: audit_refusal_def recorded_audits entry_for_def)
next
  case (accept d)
  show ?thesis
  proof (cases "allowed d \<and> \<not> pa_requires_approval a")
    case True
    then have "execute x ck inc a =
        snapshot_step x ck inc (pa_tool_name a) (pa_tool_args a) (fresh_result a (reconcile a d))"
      using execute_accepted [OF accept, of ck inc] by (simp add: Let_def)
    with audited_snapshot [of x inc a "reconcile a d" ck "pa_tool_name a"]
    have "audited x inc a (reconcile a d) (execute x ck inc a)" by simp
    then show ?thesis
      using accept
      by (auto simp: audited_def audits_def outcome_entry_def split: sum.splits exec_error.splits prod.splits) blast
  next
    case False
    then show ?thesis
      using execute_accepted [OF accept, of ck inc] accept
      by (auto simp: Let_def audit_refusal_def recorded_audits entry_for_def split: if_splits)
  qed
qed

end
