(* ===== verification/Tools.thy ===== *)
theory Tools
  imports Registry
begin

text \<open>
  The built-in tools: their input models as the fields declared in
  \<^verbatim>\<open>tools/k8s.py\<close>, \<^verbatim>\<open>tools/postgres.py\<close>, \<^verbatim>\<open>tools/valkey.py\<close> and
  \<^verbatim>\<open>tools/observability.py\<close> (names, bounds, defaults, blank checks), their names,
  descriptions and registered tiers, and \<open>build_default_registry\<close>. Handlers, output models,
  generated JSON schemas and the function pydantic derives from an input model are arguments
  (record \<open>tool_env\<close>); \<open>args_ok\<close> is what the field declarations say about arguments
  under \<open>strict=True\<close> and \<open>extra="forbid"\<close>. An em dash in a description is its three
  UTF-8 bytes.
\<close>

section \<open>Field declarations\<close>

datatype kind =
    KStr nat nat
  | KStrOrNone nat nat
  | KInt "int option" "int option"
  | KIntOrNone "int option" "int option"
  | KBool

record field_spec =
  fs_name :: string
  fs_kind :: kind
  fs_default :: "pyval option"
  fs_strip :: bool

definition fld :: "string \<Rightarrow> kind \<Rightarrow> pyval option \<Rightarrow> bool \<Rightarrow> field_spec" where
  "fld n k d s = \<lparr>fs_name = n, fs_kind = k, fs_default = d, fs_strip = s\<rparr>"

definition in_bounds :: "int option \<Rightarrow> int option \<Rightarrow> int \<Rightarrow> bool" where
  "in_bounds lo hi i =
     ((case lo of None \<Rightarrow> True | Some l \<Rightarrow> l \<le> i) \<and> (case hi of None \<Rightarrow> True | Some h \<Rightarrow> i \<le> h))"

fun kind_ok :: "kind \<Rightarrow> pyval \<Rightarrow> bool" where
  "kind_ok (KStr lo hi) (PStr s) = (lo \<le> length s \<and> length s \<le> hi)"
| "kind_ok (KStrOrNone lo hi) (PStr s) = (lo \<le> length s \<and> length s \<le> hi)"
| "kind_ok (KStrOrNone lo hi) PNone = True"
| "kind_ok (KInt lo hi) (PInt i) = in_bounds lo hi i"
| "kind_ok (KIntOrNone lo hi) (PInt i) = in_bounds lo hi i"
| "kind_ok (KIntOrNone lo hi) PNone = True"
| "kind_ok KBool (PBool b) = True"
| "kind_ok _ _ = False"

definition value_ok :: "field_spec \<Rightarrow> pyval \<Rightarrow> bool" where
  "value_ok f v = (kind_ok (fs_kind f) v \<and> (if fs_strip f then str_strip (case v of PStr s \<Rightarrow> s | _ \<Rightarrow> []) \<noteq> [] else True))"

definition field_ok :: "pydict \<Rightarrow> field_spec \<Rightarrow> bool" where
  "field_ok args f =
     (case dget args (fs_name f) of None \<Rightarrow> fs_default f \<noteq> None | Some v \<Rightarrow> value_ok f v)"

text \<open>What the declarations accept: no unknown argument, every field present or defaulted, and
  every present one of its type and within its bounds.\<close>

definition args_ok :: "field_spec list \<Rightarrow> pydict \<Rightarrow> bool" where
  "args_ok fs args =
     (list_all (\<lambda>k. k \<in> set (map fs_name fs)) (dkeys args) \<and> list_all (field_ok args) fs)"

section \<open>The tool tables\<close>

record tool_spec =
  ts_name :: string
  ts_description :: string
  ts_risk_tier :: int
  ts_fields :: "field_spec list"

definition list_pods_input :: "field_spec list" where
  "list_pods_input = [fld ''namespace'' (KStr 1 253) None False,
     fld ''label_selector'' (KStr 0 500) (Some (PStr [])) False]"

definition get_pod_events_input :: "field_spec list" where
  "get_pod_events_input = [fld ''namespace'' (KStr 1 253) None False,
     fld ''pod_name'' (KStr 1 253) None False,
     fld ''limit'' (KInt (Some 1) (Some 200)) (Some (PInt 50)) False]"

definition get_pod_logs_input :: "field_spec list" where
  "get_pod_logs_input = [fld ''namespace'' (KStr 1 253) None False,
     fld ''pod_name'' (KStr 1 253) None False,
     fld ''container'' (KStrOrNone 1 253) (Some (PNone)) False,
     fld ''tail_lines'' (KInt (Some 1) (Some 1000)) (Some (PInt 100)) False,
     fld ''previous'' (KBool) (Some (PBool False)) False]"

definition get_deployment_status_input :: "field_spec list" where
  "get_deployment_status_input = [fld ''namespace'' (KStr 1 253) None False,
     fld ''name'' (KStr 1 253) None False]"

definition get_pod_metrics_input :: "field_spec list" where
  "get_pod_metrics_input = [fld ''namespace'' (KStr 1 253) None False,
     fld ''label_selector'' (KStr 0 500) (Some (PStr [])) False]"

definition restart_deployment_input :: "field_spec list" where
  "restart_deployment_input = [fld ''namespace'' (KStr 1 253) None False,
     fld ''name'' (KStr 1 253) None False,
     fld ''reason'' (KStr 1 500) None False]"

definition delete_pod_input :: "field_spec list" where
  "delete_pod_input = [fld ''namespace'' (KStr 1 253) None False,
     fld ''name'' (KStr 1 253) None False,
     fld ''grace_period_seconds'' (KInt (Some 0) (Some 300)) (Some (PInt 0)) False,
     fld ''reason'' (KStr 1 500) None False]"

definition scale_deployment_input :: "field_spec list" where
  "scale_deployment_input = [fld ''namespace'' (KStr 1 253) None False,
     fld ''name'' (KStr 1 253) None False,
     fld ''replicas'' (KInt (Some 0) (Some 50)) None False,
     fld ''reason'' (KStr 1 500) None False]"

definition k8s_tools :: "tool_spec list" where
  "k8s_tools =
    [\<lparr>ts_name = ''list_pods'',
      ts_description = ''List pods in a namespace with status, restart count, age, and node assignment'',
      ts_risk_tier = 0, ts_fields = list_pods_input\<rparr>,
     \<lparr>ts_name = ''get_pod_events'',
      ts_description = ''Get Kubernetes events for a specific pod, including CrashLoopBackOff, ''
         @ ''OOMKilled, and scheduling events'',
      ts_risk_tier = 0, ts_fields = get_pod_events_input\<rparr>,
     \<lparr>ts_name = ''get_pod_logs'',
      ts_description = ''Get recent log lines from a pod. Use previous=True to get logs from the ''
         @ ''last crashed container'',
      ts_risk_tier = 0, ts_fields = get_pod_logs_input\<rparr>,
     \<lparr>ts_name = ''get_deployment_status'',
      ts_description = ''Get deployment replica counts and conditions (ready, updated, available)'',
      ts_risk_tier = 0, ts_fields = get_deployment_status_input\<rparr>,
     \<lparr>ts_name = ''get_pod_metrics'',
      ts_description = ''Get CPU (millicores) and memory (MiB) usage for pods. Returns empty with ''
         @ ''reason if metrics-server is unavailable'',
      ts_risk_tier = 0, ts_fields = get_pod_metrics_input\<rparr>,
     \<lparr>ts_name = ''restart_deployment'',
      ts_description = ''Restart a deployment by patching the restartedAt annotation (rolling restart)'',
      ts_risk_tier = 1, ts_fields = restart_deployment_input\<rparr>,
     \<lparr>ts_name = ''delete_pod'',
      ts_description = ''Delete a pod. Use grace_period_seconds=0 to force delete stuck Terminating ''
         @ ''pods'',
      ts_risk_tier = 1, ts_fields = delete_pod_input\<rparr>,
     \<lparr>ts_name = ''scale_deployment'',
      ts_description = ''Scale a deployment to a target replica count. Requires human approval ''
         @ ''before execution'',
      ts_risk_tier = 2, ts_fields = scale_deployment_input\<rparr>]"

definition get_active_queries_input :: "field_spec list" where
  "get_active_queries_input = [fld ''min_duration_seconds'' (KInt (Some 0) None) (Some (PInt 0)) False,
     fld ''limit'' (KInt (Some 1) (Some 200)) (Some (PInt 25)) False,
     fld ''exclude_idle'' (KBool) (Some (PBool True)) False]"

definition get_lock_waits_input :: "field_spec list" where
  "get_lock_waits_input = [fld ''limit'' (KInt (Some 1) (Some 200)) (Some (PInt 25)) False]"

definition get_connection_stats_input :: "field_spec list" where
  "get_connection_stats_input = []"

definition terminate_backend_input :: "field_spec list" where
  "terminate_backend_input = [fld ''pid'' (KIntOrNone (Some 1) None) (Some (PNone)) False,
     fld ''reason'' (KStr 1 500) None True]"

definition postgres_tools :: "tool_spec list" where
  "postgres_tools =
    [\<lparr>ts_name = ''get_active_queries'',
      ts_description = ''List PostgreSQL sessions with active-query age and wait information; filters ''
         @ ''out idle states by default.'',
      ts_risk_tier = 0, ts_fields = get_active_queries_input\<rparr>,
     \<lparr>ts_name = ''get_lock_waits'',
      ts_description = ''Return the current PostgreSQL lock-wait graph: blocked PID, blocking PID, ''
         @ ''queries, and wait duration.'',
      ts_risk_tier = 0, ts_fields = get_lock_waits_input\<rparr>,
     \<lparr>ts_name = ''get_connection_stats'',
      ts_description = ''Return PostgreSQL client connection counts and utilisation against max_connections.'',
      ts_risk_tier = 0, ts_fields = get_connection_stats_input\<rparr>,
     \<lparr>ts_name = ''terminate_backend'',
      ts_description = ''Terminate PostgreSQL backend(s) with pg_terminate_backend. Pass pid to ''
         @ ''terminate one specific backend (refuses superuser, self, and role-less ''
         @ ''backends). Omit pid to auto-discover and terminate ALL idle-in-transaction ''
         @ ''client backends ''
         @ [CHR 0xE2, CHR 0x80, CHR 0x94]
         @ '' use this for connection pool exhaustion.'',
      ts_risk_tier = 1, ts_fields = terminate_backend_input\<rparr>]"

definition query_openobserve_input :: "field_spec list" where
  "query_openobserve_input = [fld ''query'' (KStr 1 5000) None False,
     fld ''stream'' (KStr 1 200) (Some (PStr ''app_logs'')) False,
     fld ''time_range_minutes'' (KInt (Some 1) (Some 1440)) (Some (PInt 30)) False,
     fld ''limit'' (KInt (Some 1) (Some 500)) (Some (PInt 50)) False]"

definition observability_tools :: "tool_spec list" where
  "observability_tools =
    [\<lparr>ts_name = ''query_openobserve'',
      ts_description = ''Run a SQL-compatible query against an OpenObserve stream within the configured ''
         @ ''lookback window. The default stream is ''
         @ [CHR 0x27]
         @ ''app_logs''
         @ [CHR 0x27]
         @ '' which receives rivulet application logs via OTel.'',
      ts_risk_tier = 0, ts_fields = query_openobserve_input\<rparr>]"

definition get_valkey_stats_input :: "field_spec list" where
  "get_valkey_stats_input = []"

definition get_valkey_stream_info_input :: "field_spec list" where
  "get_valkey_stream_info_input = [fld ''stream_key'' (KStr 1 500) None True]"

definition delete_valkey_key_input :: "field_spec list" where
  "delete_valkey_key_input = [fld ''key'' (KStr 1 500) None True,
     fld ''reason'' (KStr 1 500) None True]"

definition flush_all_input :: "field_spec list" where
  "flush_all_input = [fld ''reason'' (KStr 1 500) None False]"

definition valkey_tools :: "tool_spec list" where
  "valkey_tools =
    [\<lparr>ts_name = ''get_valkey_stats'',
      ts_description = ''Get Valkey memory usage, key count, hit rate, connected clients, and eviction ''
         @ ''count.'',
      ts_risk_tier = 0, ts_fields = get_valkey_stats_input\<rparr>,
     \<lparr>ts_name = ''get_valkey_stream_info'',
      ts_description = ''Get Valkey stream length plus consumer-group pending entries and server-reported ''
         @ ''lag. Useful for detecting consumer stalls.'',
      ts_risk_tier = 0, ts_fields = get_valkey_stream_info_input\<rparr>,
     \<lparr>ts_name = ''delete_valkey_key'',
      ts_description = ''Delete one specific Valkey key. Use for cache poisoning where the exact ''
         @ ''bad key is known. Do NOT use for eviction storms ''
         @ [CHR 0xE2, CHR 0x80, CHR 0x94]
         @ '' use flush_all instead.'',
      ts_risk_tier = 1, ts_fields = delete_valkey_key_input\<rparr>,
     \<lparr>ts_name = ''flush_all'',
      ts_description = ''Flush ALL keys from Valkey. DESTRUCTIVE ''
         @ [CHR 0xE2, CHR 0x80, CHR 0x94]
         @ '' requires human approval. Use only for cache eviction storms where targeted ''
         @ ''deletion is impractical.'',
      ts_risk_tier = 2, ts_fields = flush_all_input\<rparr>]"

section \<open>The default registry\<close>

record tool_env =
  te_input :: "string \<Rightarrow> pyval \<Rightarrow> exn + pyval"
  te_output :: "string \<Rightarrow> pyval \<Rightarrow> exn + pyval"
  te_handler :: "string \<Rightarrow> pyval \<Rightarrow> outcome"
  te_schema :: "string \<Rightarrow> pydict"

definition raw_of_spec :: "tool_env \<Rightarrow> tool_spec \<Rightarrow> raw_tool" where
  "raw_of_spec E s =
     \<lparr>raw_name = PStr (ts_name s), raw_description = PStr (ts_description s),
      raw_input_model = Some (te_input E (ts_name s), te_schema E (ts_name s)),
      raw_output_model = Some (te_output E (ts_name s)),
      raw_handler = Some (te_handler E (ts_name s)),
      raw_risk_tier = PInt (ts_risk_tier s), raw_strict = PBool False\<rparr>"

definition register_spec :: "tool_env \<Rightarrow> tool_spec \<Rightarrow> tools \<Rightarrow> exn + tools" where
  "register_spec E s reg =
     (case make_tool (raw_of_spec E s) of Inl e \<Rightarrow> Inl (PyError e) | Inr t \<Rightarrow> register t reg)"

definition build_default_registry :: "tool_env \<Rightarrow> exn + tools" where
  "build_default_registry E =
     bind_res (add_all (register_spec E) k8s_tools empty_registry) (\<lambda>r1.
     bind_res (add_all (register_spec E) postgres_tools r1) (\<lambda>r2.
     bind_res (add_all (register_spec E) observability_tools r2) (\<lambda>r3.
     add_all (register_spec E) valkey_tools r3)))"


section \<open>What the default registry holds\<close>

definition default_tool_specs :: "tool_spec list" where
  "default_tool_specs = k8s_tools @ postgres_tools @ observability_tools @ valkey_tools"

definition tool_of_spec :: "tool_env \<Rightarrow> tool_spec \<Rightarrow> tool" where
  "tool_of_spec E s =
     \<lparr>t_name = ts_name s, t_description = ts_description s, t_input_model = te_input E (ts_name s),
      t_output_model = te_output E (ts_name s), t_handler = te_handler E (ts_name s),
      t_risk_tier = ts_risk_tier s, t_strict = False, t_schema = te_schema E (ts_name s)\<rparr>"

definition spec_ok :: "tool_spec \<Rightarrow> bool" where
  "spec_ok s = (str_strip (ts_name s) = ts_name s \<and> tool_name_ok (ts_name s)
     \<and> str_strip (ts_description s) = ts_description s \<and> ts_description s \<noteq> []
     \<and> 0 \<le> ts_risk_tier s \<and> ts_risk_tier s \<le> 4)"

lemma register_spec_ok: "spec_ok s \<Longrightarrow> register_spec E s reg = register (tool_of_spec E s) reg"
  by (simp add: register_spec_def make_tool_def raw_of_spec_def spec_ok_def tool_of_spec_def Let_def)

lemma add_all_append: "add_all add (xs @ ys) s = bind_res (add_all add xs s) (add_all add ys)"
  by (induction xs arbitrary: s) (auto simp: bind_res_def split: sum.splits)

lemma add_all_register_specs:
  "list_all spec_ok ss \<Longrightarrow> distinct (dkeys reg @ map ts_name ss) \<Longrightarrow>
     add_all (register_spec E) ss reg = Inr (reg @ map (\<lambda>s. (ts_name s, tool_of_spec E s)) ss)"
proof (induction ss arbitrary: reg)
  case (Cons s ss)
  have fresh: "dget reg (ts_name s) = None" using Cons.prems by (auto simp: dget_None_iff)
  then have "dset (ts_name s) t reg = reg @ [(ts_name s, t)]" for t :: tool
    unfolding dset_def dget_def by (induction reg) auto
  with fresh Cons show ?case
    by (simp add: register_spec_ok register_def has_key_dget tool_of_spec_def dkeys_def)
qed simp

lemma default_specs_ok: "list_all spec_ok default_tool_specs"
  by code_simp

lemma default_specs_distinct: "distinct (map ts_name default_tool_specs)"
  by code_simp

lemma build_default_registry_eq:
  "build_default_registry E = Inr (map (\<lambda>s. (ts_name s, tool_of_spec E s)) default_tool_specs)"
proof -
  have "build_default_registry E = add_all (register_spec E) default_tool_specs empty_registry"
    by (simp add: build_default_registry_def default_tool_specs_def add_all_append bind_res_def
        split: sum.splits)
  then show ?thesis
    using add_all_register_specs [OF default_specs_ok, of empty_registry E] default_specs_distinct
    by (simp add: empty_registry_def dkeys_def)
qed

text \<open>The default registry. Building it succeeds whatever the handlers and models are; it holds
  seventeen tools under their own distinct names with the tiers the sources declare (flushing
  the cache and scaling are the only Tier-2 tools and nothing is registered above), and the
  schema export lists every tool once in alphabetical order.\<close>

lemma default_registry_table:
  "\<exists>reg. build_default_registry E = Inr reg \<and> registry_inv reg \<and>
     map (\<lambda>(n, t). (n, t_risk_tier t)) reg =
       [(''list_pods'', 0), (''get_pod_events'', 0), (''get_pod_logs'', 0), (''get_deployment_status'', 0),
        (''get_pod_metrics'', 0), (''restart_deployment'', 1), (''delete_pod'', 1), (''scale_deployment'', 2),
        (''get_active_queries'', 0), (''get_lock_waits'', 0), (''get_connection_stats'', 0),
        (''terminate_backend'', 1), (''query_openobserve'', 0), (''get_valkey_stats'', 0),
        (''get_valkey_stream_info'', 0), (''delete_valkey_key'', 1), (''flush_all'', 2)] \<and>
     map schema_name (schemas reg) = sort (dkeys reg)"
proof -
  let ?reg = "map (\<lambda>s. (ts_name s, tool_of_spec E s)) default_tool_specs"
  have inv: "registry_inv ?reg"
    using default_specs_distinct
    by (auto simp: registry_inv_def dkeys_def comp_def list_all_iff tool_of_spec_def)
  have "map (\<lambda>(n, t). (n, t_risk_tier t)) ?reg = map (\<lambda>s. (ts_name s, ts_risk_tier s)) default_tool_specs"
    by (simp add: tool_of_spec_def)
  also have "\<dots> = [(''list_pods'', 0), (''get_pod_events'', 0), (''get_pod_logs'', 0), (''get_deployment_status'', 0),
        (''get_pod_metrics'', 0), (''restart_deployment'', 1), (''delete_pod'', 1), (''scale_deployment'', 2),
        (''get_active_queries'', 0), (''get_lock_waits'', 0), (''get_connection_stats'', 0),
        (''terminate_backend'', 1), (''query_openobserve'', 0), (''get_valkey_stats'', 0),
        (''get_valkey_stream_info'', 0), (''delete_valkey_key'', 1), (''flush_all'', 2)]"
    by code_simp
  finally show ?thesis
    using inv schema_names [OF inv] build_default_registry_eq [of E] by auto
qed

end
