(* ===== verification/Json.thy ===== *)
theory Json
  imports PyValue
begin

text \<open>
  What the sources use of Python's \<open>json\<close>: \<open>dumps\<close> with its default separators, an indentation, sorted
  keys, given separators or a \<open>default\<close>, and \<open>loads\<close>. A text is a list of code points up to 255 (the
  reader refuses an escape beyond); \<open>repr\<close> of a finite float is the argument \<open>rp\<close> (and \<open>default=str\<close>
  is \<open>py_str rp\<close>); a number read from text is exact. Python's limits on the digits of an integer and on the
  depth of nesting are not modelled. The rest of the library uses the
  round trip (\<open>json_roundtrip\<close>) and the locale \<open>written_text\<close> at the end.
\<close>

section \<open>Text literals\<close>

definition json_char :: "char \<Rightarrow> string" where
  "json_char c =
     (let n = (of_char c :: nat)
      in if n = 34 \<or> n = 92 then [CHR 0x5C, c]
         else if n = 10 then [CHR 0x5C, CHR ''n'']
         else if n = 13 then [CHR 0x5C, CHR ''r'']
         else if n = 9 then [CHR 0x5C, CHR ''t'']
         else if n = 12 then [CHR 0x5C, CHR ''f'']
         else if n = 8 then [CHR 0x5C, CHR ''b'']
         else if n < 32 \<or> 126 < n
              then [CHR 0x5C, CHR ''u'', CHR ''0'', CHR ''0'', hex_digit (n div 16), hex_digit (n mod 16)]
         else [c])"

definition json_text :: "string \<Rightarrow> string" where
  "json_text s = CHR 0x22 # concat (map json_char s) @ [CHR 0x22]"


text \<open>Reading a JSON text literal, a character at a time; \<open>read_text\<close> starts after the opening quote.\<close>

fun unescape :: "char \<Rightarrow> char option" where
  "unescape c =
     (if c = CHR 0x22 \<or> c = CHR 0x5C \<or> c = CHR ''/'' then Some c
      else if c = CHR ''n'' then Some (char_of (10 :: nat))
      else if c = CHR ''r'' then Some (char_of (13 :: nat))
      else if c = CHR ''t'' then Some (char_of (9 :: nat))
      else if c = CHR ''f'' then Some (char_of (12 :: nat))
      else if c = CHR ''b'' then Some (char_of (8 :: nat))
      else None)"

definition read_hex :: "string \<Rightarrow> (char \<times> string) option" where
  "read_hex s =
     (case s of
        a # b # x # y # rest \<Rightarrow>
          if a = CHR ''0'' \<and> b = CHR ''0''
          then (case (hex_value x, hex_value y) of
                  (Some m, Some n) \<Rightarrow> Some (char_of (16 * m + n), rest) | _ \<Rightarrow> None)
          else None
      | _ \<Rightarrow> None)"

definition read_one :: "string \<Rightarrow> (char \<times> string) option" where
  "read_one s =
     (case s of
        [] \<Rightarrow> None
      | c # cs \<Rightarrow>
          if c = CHR 0x5C
          then (case cs of
                  [] \<Rightarrow> None
                | e # ds \<Rightarrow> if e = CHR ''u'' then read_hex ds else map_option (\<lambda>u. (u, ds)) (unescape e))
          else if (of_char c :: nat) < 32 then None else Some (c, cs))"

lemma read_one_shorter: "read_one s = Some (c, t) \<Longrightarrow> length t < length s"
  by (auto simp: read_one_def read_hex_def split: list.splits if_splits option.splits)

function read_text :: "string \<Rightarrow> (string \<times> string) option" where
  "read_text s =
     (if s \<noteq> [] \<and> hd s = CHR 0x22 then Some ([], tl s)
      else case read_one s of None \<Rightarrow> None
           | Some (c, t) \<Rightarrow> map_option (\<lambda>(a, b). (c # a, b)) (read_text t))"
  by auto
termination
  by (relation "measure length") (auto dest: read_one_shorter)

declare read_text.simps [simp del]


lemma char_codes:
  "c = CHR ''<'' \<longleftrightarrow> (of_char c :: nat) = 60"
  "c = CHR ''>'' \<longleftrightarrow> (of_char c :: nat) = 62"
  "c = CHR ''&'' \<longleftrightarrow> (of_char c :: nat) = 38"
  "c = CHR 0x22 \<longleftrightarrow> (of_char c :: nat) = 34"
  "c = CHR 0x5C \<longleftrightarrow> (of_char c :: nat) = 92"
  "c = CHR 0x0A \<longleftrightarrow> (of_char c :: nat) = 10"
  "c = CHR 0x0D \<longleftrightarrow> (of_char c :: nat) = 13"
  "c = CHR 0x09 \<longleftrightarrow> (of_char c :: nat) = 9"
  "c = CHR 0x0C \<longleftrightarrow> (of_char c :: nat) = 12"
  "c = CHR 0x08 \<longleftrightarrow> (of_char c :: nat) = 8"
  by (simp_all flip: of_char_eq_iff [where 'a = nat])


lemma read_hex_append: "read_hex s = Some (c, []) \<Longrightarrow> read_hex (s @ t) = Some (c, t)"
  unfolding read_hex_def by (auto split: list.split_asm if_split_asm option.split_asm)

lemma read_one_append:
  assumes "read_one s = Some (c, [])"
  shows "read_one (s @ t) = Some (c, t)"
proof -
  from assms obtain c0 cs where s: "s = c0 # cs" by (cases s) (auto simp: read_one_def)
  show ?thesis
  proof (cases "c0 = CHR 0x5C")
    case False
    with assms show ?thesis by (simp add: s read_one_def split: if_split_asm)
  next
    case True
    with assms obtain e ds where cs: "cs = e # ds" by (cases cs) (auto simp: s read_one_def)
    show ?thesis
    proof (cases "e = CHR ''u''")
      case True
      with assms \<open>c0 = CHR 0x5C\<close> show ?thesis by (simp add: s cs read_one_def read_hex_append)
    next
      case False
      with assms \<open>c0 = CHR 0x5C\<close> show ?thesis
        unfolding s cs read_one_def by (cases "unescape e") (simp_all del: unescape.simps)
    qed
  qed
qed

section \<open>Writing\<close>

text \<open>The arguments of a call: \<open>indent\<close>, \<open>separators\<close>, \<open>sort_keys\<close>, \<open>ensure_ascii\<close> and whether \<open>default=str\<close> is given.\<close>

record json_style =
  jy_indent :: "nat option"
  jy_item :: string
  jy_key :: string
  jy_sort :: bool
  jy_ascii :: bool
  jy_str :: bool

definition plain_style :: json_style where
  "plain_style = \<lparr>jy_indent = None, jy_item = '', '', jy_key = '': '', jy_sort = False, jy_ascii = True, jy_str = False\<rparr>"

definition indented_style :: "nat \<Rightarrow> json_style" where
  "indented_style n = plain_style\<lparr>jy_indent := Some n, jy_item := '',''\<rparr>"

definition compact_style :: json_style where
  "compact_style = plain_style\<lparr>jy_item := '','', jy_key := '':''\<rparr>"

text \<open>With \<open>ensure_ascii=False\<close> only quotes, backslashes and control characters are escaped.\<close>

definition raw_char :: "char \<Rightarrow> string" where
  "raw_char c = (let n = (of_char c :: nat) in if n < 32 \<or> n = 34 \<or> n = 92 then json_char c else [c])"

definition literal_char :: "json_style \<Rightarrow> char \<Rightarrow> string" where
  "literal_char y = (if jy_ascii y then json_char else raw_char)"

definition json_literal :: "json_style \<Rightarrow> string \<Rightarrow> string" where
  "json_literal y s = CHR 0x22 # concat (map (literal_char y) s) @ [CHR 0x22]"

definition line_break :: "json_style \<Rightarrow> nat \<Rightarrow> string" where
  "line_break y level =
     (case jy_indent y of None \<Rightarrow> [] | Some n \<Rightarrow> CHR 0x0A # replicate (n * level) (CHR '' ''))"

definition bracketed :: "json_style \<Rightarrow> nat \<Rightarrow> char \<Rightarrow> char \<Rightarrow> string list \<Rightarrow> string" where
  "bracketed y level op cl parts =
     (if parts = [] then [op, cl]
      else op # line_break y (Suc level) @ str_join (jy_item y @ line_break y (Suc level)) parts
             @ line_break y level @ [cl])"

definition in_order :: "json_style \<Rightarrow> (string \<times> 'a) list \<Rightarrow> (string \<times> 'a) list" where
  "in_order y d = (if jy_sort y then sort_key fst d else d)"

definition json_float :: "(pyval \<Rightarrow> string) \<Rightarrow> pyfloat \<Rightarrow> string" where
  "json_float rp x =
     (case x of Fin q \<Rightarrow> rp (PFloat x) | PosInf \<Rightarrow> ''Infinity'' | NegInf \<Rightarrow> ''-Infinity'' | NaN \<Rightarrow> ''NaN'')"

text \<open>With \<open>default=str\<close>, bytes and objects are written as the text \<open>str\<close> gives.\<close>

fun json_value :: "(pyval \<Rightarrow> string) \<Rightarrow> json_style \<Rightarrow> nat \<Rightarrow> pyval \<Rightarrow> string" where
  "json_value rp y level PNone = ''null''"
| "json_value rp y level (PBool b) = (if b then ''true'' else ''false'')"
| "json_value rp y level (PInt i) = show_int i"
| "json_value rp y level (PFloat x) = json_float rp x"
| "json_value rp y level (PStr s) = json_literal y s"
| "json_value rp y level (PList xs) =
     bracketed y level (CHR ''['') (CHR '']'') (map (json_value rp y (Suc level)) xs)"
| "json_value rp y level (PDict d) =
     bracketed y level (CHR ''{'') (CHR ''}'')
       (map (\<lambda>(k, t). json_literal y k @ jy_key y @ t) (in_order y (map (\<lambda>(k, v). (k, json_value rp y (Suc level) v)) d)))"
| "json_value rp y level v = json_literal y (py_str rp v)"

fun serialisable :: "pyval \<Rightarrow> bool" where
  "serialisable (PList xs) = list_all serialisable xs"
| "serialisable (PDict d) = list_all (\<lambda>(k, v). serialisable v) d"
| "serialisable (PBytes s) = False"
| "serialisable (PObj d) = False"
| "serialisable v = True"

definition json_dumps :: "(pyval \<Rightarrow> string) \<Rightarrow> json_style \<Rightarrow> pyval \<Rightarrow> py_error + string" where
  "json_dumps rp y v =
     (if jy_str y \<or> serialisable v then Inr (json_value rp y 0 v)
      else Inl (TypeError ''Object is not JSON serializable''))"

section \<open>Reading\<close>

definition json_space :: "char \<Rightarrow> bool" where
  "json_space c \<longleftrightarrow> c = CHR '' '' \<or> c = CHR 0x0A \<or> c = CHR 0x0D \<or> c = CHR 0x09"

definition skip_space :: "string \<Rightarrow> string" where
  "skip_space s = dropWhile json_space s"

definition read_fraction :: "string \<Rightarrow> string \<times> string" where
  "read_fraction s =
     (case s of
        [] \<Rightarrow> ([], [])
      | c # cs \<Rightarrow>
          (let (ds, rest) = span_of is_digit cs
           in if c = CHR ''.'' \<and> ds \<noteq> [] then (c # ds, rest) else ([], s)))"

definition read_exponent :: "string \<Rightarrow> string \<times> string" where
  "read_exponent s =
     (case s of
        [] \<Rightarrow> ([], [])
      | c # cs \<Rightarrow>
          (let (sign, body) = (case cs of d # ds \<Rightarrow> if d = CHR ''-'' \<or> d = CHR ''+'' then ([d], ds) else ([], cs) | [] \<Rightarrow> ([], []));
               (ds, rest) = span_of is_digit body
           in if (c = CHR ''e'' \<or> c = CHR ''E'') \<and> ds \<noteq> [] then (c # sign @ ds, rest) else ([], s)))"

text \<open>\<open>(-?(?:0|[1-9][0-9]*))(\.[0-9]+)?([eE][-+]?[0-9]+)?\<close>\<close>

definition split_minus :: "string \<Rightarrow> string \<times> string" where
  "split_minus s = (case s of c # cs \<Rightarrow> if c = CHR ''-'' then ([c], cs) else ([], s) | [] \<Rightarrow> ([], []))"

definition number_value :: "string \<Rightarrow> string \<Rightarrow> string \<Rightarrow> (pyval \<times> string) option" where
  "number_value sign whole rest =
     (let (fraction, rest1) = read_fraction rest; (exponent, rest2) = read_exponent rest1
      in if fraction = [] \<and> exponent = []
         then map_option (\<lambda>i. (PInt i, rest)) (int_of_text (sign @ whole))
         else map_option (\<lambda>x. (PFloat x, rest2)) (float_of_text (sign @ whole @ fraction @ exponent)))"

definition read_number :: "string \<Rightarrow> (pyval \<times> string) option" where
  "read_number s =
     (let (sign, body) = split_minus s; ds = takeWhile is_digit body
      in if ds = [] then None
         else let whole = (if hd ds = CHR ''0'' then ''0'' else ds)
              in number_value sign whole (drop (length whole) body))"

definition read_word :: "string \<Rightarrow> pyval \<Rightarrow> string \<Rightarrow> (pyval \<times> string) option" where
  "read_word w v s = (if prefix w s then Some (v, drop (length w) s) else None)"

fun first_of :: "'a option list \<Rightarrow> 'a option" where
  "first_of [] = None"
| "first_of (x # xs) = (case x of Some v \<Rightarrow> Some v | None \<Rightarrow> first_of xs)"

definition read_scalar :: "string \<Rightarrow> (pyval \<times> string) option" where
  "read_scalar s =
     first_of [read_word ''null'' PNone s, read_word ''true'' (PBool True) s, read_word ''false'' (PBool False) s,
       read_number s, read_word ''NaN'' (PFloat NaN) s, read_word ''Infinity'' (PFloat PosInf) s,
       read_word ''-Infinity'' (PFloat NegInf) s]"

text \<open>\<open>dict(pairs)\<close>\<close>

definition dict_of :: "(string \<times> 'a) list \<Rightarrow> (string, 'a) dict" where
  "dict_of ps = fold (\<lambda>(k, v) d. dset k v d) ps []"

lemma read_text_shorter: "read_text s = Some (a, t) \<Longrightarrow> length t < length s"
proof (induction s arbitrary: a t rule: read_text.induct)
  case (1 s)
  show ?case
  proof (cases "s \<noteq> [] \<and> hd s = CHR 0x22")
    case True
    with "1.prems" show ?thesis by (cases s) (auto simp: read_text.simps)
  next
    case False
    with "1.prems" obtain c u b where "read_one s = Some (c, u)" "read_text u = Some (b, t)"
      by (subst (asm) read_text.simps) (auto split: option.splits if_splits)
    with "1.IH" False show ?thesis by (fastforce dest: read_one_shorter)
  qed
qed

lemma skip_space_le: "length (skip_space s) \<le> length s"
  by (simp add: skip_space_def length_dropWhile_le)

lemma skip_space_less: "length s < n \<Longrightarrow> length (skip_space s) < n"
  using skip_space_le [of s] by simp

lemma skip_space_Cons: "skip_space s = c # r \<Longrightarrow> Suc (length r) \<le> length s"
  using skip_space_le [of s] by simp

text \<open>
  The value at the start of a text and what follows; the elements of an array after its bracket and
  the members of an object after its brace, up to the closing one. Every value that is read
  takes a character, so the two comparisons of lengths, which make the recursion end, always hold
  (\<open>read_value_shorter\<close> below).
\<close>

function read_value :: "string \<Rightarrow> (pyval \<times> string) option"
  and read_items :: "string \<Rightarrow> (pyval list \<times> string) option"
  and read_members :: "string \<Rightarrow> ((string \<times> pyval) list \<times> string) option" where
  "read_value s =
     (case s of
        [] \<Rightarrow> None
      | c # cs \<Rightarrow>
          if c = CHR 0x22 then map_option (\<lambda>(t, r). (PStr t, r)) (read_text cs)
          else if c = CHR ''{'' then
            (case skip_space cs of
               [] \<Rightarrow> None
             | d # r \<Rightarrow> if d = CHR ''}'' then Some (PDict [], r)
                       else map_option (\<lambda>(ms, t). (PDict (dict_of ms), t)) (read_members (d # r)))
          else if c = CHR ''['' then
            (case skip_space cs of
               [] \<Rightarrow> None
             | d # r \<Rightarrow> if d = CHR '']'' then Some (PList [], r)
                       else map_option (\<lambda>(xs, t). (PList xs, t)) (read_items (d # r)))
          else read_scalar s)"
| "read_items s =
     (case read_value s of
        None \<Rightarrow> None
      | Some (v, r) \<Rightarrow>
          if length r < length s then
            (case skip_space r of
               [] \<Rightarrow> None
             | d # t \<Rightarrow> if d = CHR '']'' then Some ([v], t)
                       else if d = CHR '','' then map_option (\<lambda>(vs, u). (v # vs, u)) (read_items (skip_space t))
                       else None)
          else None)"
| "read_members s =
     (case s of
        [] \<Rightarrow> None
      | q # cs \<Rightarrow>
          if q \<noteq> CHR 0x22 then None
          else (case read_text cs of
            None \<Rightarrow> None
          | Some (k, r) \<Rightarrow>
              (case skip_space r of
                 [] \<Rightarrow> None
               | d # t \<Rightarrow>
                   if d \<noteq> CHR '':'' then None
                   else (case read_value (skip_space t) of
                     None \<Rightarrow> None
                   | Some (v, u) \<Rightarrow>
                       if length u < length s then
                         (case skip_space u of
                            [] \<Rightarrow> None
                          | e # w \<Rightarrow> if e = CHR ''}'' then Some ([(k, v)], w)
                                    else if e = CHR '','' then map_option (\<lambda>(ms, x). ((k, v) # ms, x)) (read_members (skip_space w))
                                    else None)
                       else None))))"
  by pat_completeness auto
termination
proof (relation "measures [case_sum length (case_sum length length), case_sum (\<lambda>_. 0) (\<lambda>_. 1)]", simp_all)
qed (auto dest!: read_text_shorter skip_space_Cons intro!: skip_space_less)

declare read_value.simps [simp del] read_items.simps [simp del] read_members.simps [simp del]

definition json_loads :: "string \<Rightarrow> pyval option" where
  "json_loads s =
     (case read_value (skip_space s) of
        Some (v, r) \<Rightarrow> if skip_space r = [] then Some v else None
      | None \<Rightarrow> None)"

section \<open>Reading back a text\<close>

text \<open>What a character is written as: itself when it is printable and no quote or backslash, else an escape.\<close>

lemma json_char_specials:
  "json_char (CHR 0x22) = [CHR 0x5C, CHR 0x22]"
  "json_char (CHR 0x5C) = [CHR 0x5C, CHR 0x5C]"
  "json_char (CHR 0x0A) = CHR 0x5C # ''n''"
  "json_char (CHR 0x0D) = CHR 0x5C # ''r''"
  "json_char (CHR 0x09) = CHR 0x5C # ''t''"
  "json_char (CHR 0x0C) = CHR 0x5C # ''f''"
  "json_char (CHR 0x08) = CHR 0x5C # ''b''"
  by (simp_all add: json_char_def Let_def)

lemma json_char_cases:
  obtains (special) "c \<in> {CHR 0x22, CHR 0x5C, CHR 0x0A, CHR 0x0D, CHR 0x09, CHR 0x0C, CHR 0x08}"
    | (escaped) x y where "json_char c = [CHR 0x5C, CHR ''u'', CHR ''0'', CHR ''0'', x, y]"
        "hex_value x = Some (of_char c div 16)" "hex_value y = Some (of_char c mod 16)"
        "of_char x \<in> {48..57::nat} \<union> {97..102}" "of_char y \<in> {48..57::nat} \<union> {97..102}"
    | (plain) "json_char c = [c]" "c \<noteq> CHR 0x22" "c \<noteq> CHR 0x5C" "32 \<le> (of_char c :: nat)" "(of_char c :: nat) \<le> 126"
proof -
  define n where "n = (of_char c :: nat)"
  have n: "n < 256" unfolding n_def by (rule nat_of_char_less_256)
  consider "n \<in> {34, 92, 10, 13, 9, 12, 8}" | "n \<notin> {34, 92, 10, 13, 9, 12, 8}" "n < 32 \<or> 126 < n"
    | "n \<notin> {34, 92, 10, 13, 9, 12, 8}" "32 \<le> n" "n \<le> 126"
    by force
  then show thesis
  proof cases
    case 1
    then have "c \<in> {CHR 0x22, CHR 0x5C, CHR 0x0A, CHR 0x0D, CHR 0x09, CHR 0x0C, CHR 0x08}"
      by (simp add: char_codes n_def)
    then show thesis by (rule special)
  next
    case 2
    have half: "n div 16 < 16" using n by linarith
    have "json_char c = [CHR 0x5C, CHR ''u'', CHR ''0'', CHR ''0'', hex_digit (n div 16), hex_digit (n mod 16)]"
      using 2 unfolding json_char_def Let_def n_def [symmetric] by simp
    then show thesis
      using hex_digits [of "n div 16"] hex_digits [of "n mod 16"] half by (intro escaped [of "hex_digit (n div 16)" "hex_digit (n mod 16)"]) (auto simp: n_def)
  next
    case 3
    then have "json_char c = [c]" unfolding json_char_def Let_def n_def [symmetric] by simp
    then show thesis using 3 by (intro plain) (auto simp: n_def char_codes)
  qed
qed

lemma json_char_read: "read_one (json_char c) = Some (c, [])"
  and json_char_start: "json_char c \<noteq> [] \<and> hd (json_char c) \<noteq> CHR 0x22"
proof -
  have "read_one (json_char c) = Some (c, []) \<and> json_char c \<noteq> [] \<and> hd (json_char c) \<noteq> CHR 0x22"
  proof (cases c rule: json_char_cases)
    case special
    then show ?thesis
      by (elim insertE emptyE; hypsubst;
          simp add: json_char_specials read_one_def char_codes flip: of_char_eq_iff [where 'a = nat])
  next
    case (escaped x y)
    have "char_of (16 * (of_char c div 16) + of_char c mod 16 :: nat) = c" by simp
    then show ?thesis using escaped by (simp add: read_one_def read_hex_def)
  next
    case plain
    then show ?thesis by (simp add: read_one_def)
  qed
  then show "read_one (json_char c) = Some (c, [])" "json_char c \<noteq> [] \<and> hd (json_char c) \<noteq> CHR 0x22" by simp_all
qed

text \<open>An escape adds a backslash, digits and lower-case letters only.\<close>

lemma json_char_set:
  assumes "x \<in> set (json_char c)"
  shows "x = c \<and> 32 \<le> (of_char c :: nat) \<and> (of_char c :: nat) \<le> 126 \<or> (of_char x :: nat) \<in> {92} \<union> {48..57} \<union> {97..122}"
proof (cases c rule: json_char_cases)
  case special
  then show ?thesis using assms by (auto simp: json_char_specials)
next
  case (escaped x y)
  then show ?thesis using assms by auto
next
  case plain
  then show ?thesis using assms by simp
qed

lemma read_literal_by:
  assumes "\<And>c. read_one (f c) = Some (c, [])" "\<And>c. f c \<noteq> [] \<and> hd (f c) \<noteq> CHR 0x22"
  shows "read_text (concat (map f s) @ CHR 0x22 # t) = Some (s, t)"
proof (induction s)
  case (Cons c s)
  then show ?case
    using assms(2) [of c] read_one_append [OF assms(1) [of c]] by (subst read_text.simps) (simp add: hd_append)
qed (simp add: read_text.simps)

lemma read_literal: "read_text (concat (map json_char s) @ CHR 0x22 # t) = Some (s, t)"
  by (rule read_literal_by [OF json_char_read json_char_start])

lemma raw_char_read: "read_one (raw_char c) = Some (c, []) \<and> raw_char c \<noteq> [] \<and> hd (raw_char c) \<noteq> CHR 0x22"
  using json_char_read [of c] json_char_start [of c] char_codes(4) [of c] char_codes(5) [of c]
  by (auto simp: raw_char_def Let_def read_one_def)

lemma read_styled: "read_text (concat (map (literal_char y) s) @ CHR 0x22 # t) = Some (s, t)"
  using json_char_read json_char_start raw_char_read by (intro read_literal_by) (auto simp: literal_char_def)

lemma json_literal_ascii: "jy_ascii y \<Longrightarrow> json_literal y s = json_text s"
  by (simp add: json_literal_def json_text_def literal_char_def)

text \<open>A text is one line, of printable ASCII unless \<open>ensure_ascii\<close> is off.\<close>

lemma json_text_printable: "x \<in> set (json_text s) \<Longrightarrow> 32 \<le> (of_char x :: nat) \<and> (of_char x :: nat) \<le> 126"
  by (auto simp: json_text_def dest!: json_char_set)

section \<open>Reading back a value\<close>

text \<open>What may follow a number, and the layouts a reader skips.\<close>

definition number_char :: "char \<Rightarrow> bool" where
  "number_char c \<longleftrightarrow> is_digit c \<or> c = CHR ''.'' \<or> c = CHR ''e'' \<or> c = CHR ''E''"

definition delimited :: "string \<Rightarrow> bool" where
  "delimited t \<longleftrightarrow> (case t of [] \<Rightarrow> True | c # _ \<Rightarrow> \<not> number_char c)"

definition style_ok :: "json_style \<Rightarrow> bool" where
  "style_ok y \<longleftrightarrow>
     jy_item y \<noteq> [] \<and> hd (jy_item y) = CHR '','' \<and> list_all json_space (tl (jy_item y)) \<and>
     jy_key y \<noteq> [] \<and> hd (jy_key y) = CHR '':'' \<and> list_all json_space (tl (jy_key y))"

text \<open>The value a layout denotes: the members of each object in the order they are written.\<close>

fun arranged :: "json_style \<Rightarrow> pyval \<Rightarrow> pyval" where
  "arranged y (PList xs) = PList (map (arranged y) xs)"
| "arranged y (PDict d) = PDict (in_order y (map (\<lambda>(k, v). (k, arranged y v)) d))"
| "arranged y v = v"

text \<open>A value \<open>dumps\<close> writes: its keys are distinct, as in any dictionary, and \<open>repr\<close> of its finite
  floats is the number, as Python's shortest representation is.\<close>

fun json_ok :: "(pyval \<Rightarrow> string) \<Rightarrow> pyval \<Rightarrow> bool" where
  "json_ok rp (PList xs) = list_all (json_ok rp) xs"
| "json_ok rp (PDict d) = (distinct (map fst d) \<and> list_all (\<lambda>(k, v). json_ok rp v) d)"
| "json_ok rp (PFloat (Fin q)) = (read_number (rp (PFloat (Fin q))) = Some (PFloat (Fin q), []))"
| "json_ok rp (PBytes s) = False"
| "json_ok rp (PObj d) = False"
| "json_ok rp v = True"

subsection \<open>Numbers\<close>

lemma delimited_Nil [simp]: "delimited []"
  by (simp add: delimited_def)

lemma delimited_Cons [simp]: "delimited (c # t) \<longleftrightarrow> \<not> number_char c"
  by (simp add: delimited_def)

lemma span_digits_append:
  "delimited t \<Longrightarrow> takeWhile is_digit (s @ t) = takeWhile is_digit s \<and> dropWhile is_digit (s @ t) = dropWhile is_digit s @ t"
  by (induction s) (cases t; auto simp: number_char_def)+

lemma read_fraction_append:
  assumes "delimited t"
  shows "read_fraction (s @ t) = (fst (read_fraction s), snd (read_fraction s) @ t)"
proof (cases s)
  case Nil
  then show ?thesis using assms by (cases t) (auto simp: read_fraction_def number_char_def split: prod.splits)
next
  case (Cons c cs)
  then show ?thesis using span_digits_append [OF assms, of cs] by (simp add: read_fraction_def span_of_def)
qed

lemma read_exponent_append:
  assumes "delimited t" "s = [] \<or> snd (read_exponent s) = []"
  shows "read_exponent (s @ t) = (fst (read_exponent s), snd (read_exponent s) @ t)"
proof (cases s)
  case Nil
  then show ?thesis using assms(1) by (cases t) (auto simp: read_exponent_def number_char_def split: prod.splits)
next
  case (Cons c cs)
  then have full: "snd (read_exponent (c # cs)) = []" using assms(2) by simp
  then obtain d ds where cs: "cs = d # ds" by (cases cs) (auto simp: read_exponent_def span_of_def)
  show ?thesis
    using full span_digits_append [OF assms(1), of ds] span_digits_append [OF assms(1), of "d # ds"]
    by (auto simp: Cons cs read_exponent_def span_of_def Let_def split: if_splits)
qed

lemma number_value_append:
  assumes w: "number_value sign whole rest = Some (v, [])" and t: "delimited t"
  shows "number_value sign whole (rest @ t) = Some (v, t)"
proof -
  obtain fraction rest1 where fraction: "read_fraction rest = (fraction, rest1)" by fastforce
  obtain exponent rest2 where exponent: "read_exponent rest1 = (exponent, rest2)" by fastforce
  have last: "rest1 = [] \<or> snd (read_exponent rest1) = []"
    using w fraction exponent
    by (cases "fraction = [] \<and> exponent = []") (auto simp: number_value_def read_fraction_def)
  show ?thesis
    using w fraction exponent read_fraction_append [OF t, of rest] read_exponent_append [OF t last]
    by (auto simp: number_value_def split: if_splits)
qed

lemma number_value_whole [simp]:
  "number_value sign whole [] = map_option (\<lambda>i. (PInt i, [])) (int_of_text (sign @ whole))"
  by (simp add: number_value_def read_fraction_def read_exponent_def)

lemma read_number_append:
  assumes w: "read_number w = Some (v, [])" and t: "delimited t"
  shows "read_number (w @ t) = Some (v, t)"
proof -
  obtain sign body where minus: "split_minus w = (sign, body)" by fastforce
  define ds where "ds = takeWhile is_digit body"
  define whole where "whole = (if hd ds = CHR ''0'' then ''0'' else ds)"
  have ne: "ds \<noteq> []" using w by (cases "ds = []") (simp_all add: read_number_def minus flip: ds_def)
  have val: "number_value sign whole (drop (length whole) body) = Some (v, [])"
    using w ne by (simp add: read_number_def minus flip: ds_def whole_def)
  have short: "length whole \<le> length body"
    using ne by (cases body) (auto simp: whole_def ds_def length_takeWhile_le split: if_splits)
  have minus': "split_minus (w @ t) = (sign, body @ t)"
    using minus ne by (cases w) (auto simp: split_minus_def ds_def split: if_splits)
  have ds': "takeWhile is_digit (body @ t) = ds" using span_digits_append [OF t, of body] by (simp add: ds_def)
  show ?thesis
    using number_value_append [OF val t] ne short
    by (simp add: read_number_def minus' ds' flip: whole_def)
qed

lemma show_nat_lead: "hd (show_nat n) = CHR ''0'' \<Longrightarrow> show_nat n = ''0''"
proof (induction n rule: show_nat.induct)
  case (1 n)
  show ?case
  proof (cases "n < 10")
    case True
    then show ?thesis using "1.prems" by (subst (asm) show_nat.simps, subst show_nat.simps) simp
  next
    case False
    then have "show_nat n = show_nat (n div 10) @ [char_of (48 + n mod 10)]" by (subst show_nat.simps) simp
    moreover from this have "show_nat (n div 10) = ''0''" using "1.IH" "1.prems" False by simp
    then have "n div 10 = 0" using nat_of_digits_show [of "n div 10"] by (simp add: nat_of_digits_def digit_val_def)
    ultimately show ?thesis using False by simp
  qed
qed

lemma read_show_int: "read_number (show_int i) = Some (PInt i, [])"
proof -
  have digits: "takeWhile is_digit (show_nat n) = show_nat n" for n
    using show_nat_digits [of n] by (simp add: list_all_iff takeWhile_eq_all_conv)
  have minus: "split_minus (show_nat n) = ([], show_nat n)" for n
    using show_nat_digits [of n] by (cases "show_nat n") (auto simp: split_minus_def dest: digit_facts)
  have "split_minus (show_int i) = (if i < 0 then ''-'' else [], show_nat (nat \<bar>i\<bar>))"
    using minus by (simp add: show_int_def split_minus_def)
  moreover have "show_int i = (if i < 0 then ''-'' else []) @ show_nat (nat \<bar>i\<bar>)" by (simp add: show_int_def)
  then have "int_of_text ((if i < 0 then ''-'' else []) @ show_nat (nat \<bar>i\<bar>)) = Some i"
    using int_of_text_show_int [of i] by metis
  ultimately show ?thesis
    using show_nat_lead [of "nat \<bar>i\<bar>"]
    by (cases "hd (show_nat (nat \<bar>i\<bar>)) = CHR ''0''") (simp_all add: read_number_def digits is_digit_def [of "CHR ''0''"] split del: if_split)
qed

lemma read_number_start: "read_number w = Some (v, r) \<Longrightarrow> \<exists>c cs. w = c # cs \<and> (is_digit c \<or> c = CHR ''-'')"
  by (cases w) (auto simp: read_number_def split_minus_def split: if_splits)

subsection \<open>Words and scalars\<close>

lemma read_scalar_words:
  "read_scalar (''null'' @ t) = Some (PNone, t)"
  "read_scalar (''true'' @ t) = Some (PBool True, t)"
  "read_scalar (''false'' @ t) = Some (PBool False, t)"
  "read_scalar (''NaN'' @ t) = Some (PFloat NaN, t)"
  "read_scalar (''Infinity'' @ t) = Some (PFloat PosInf, t)"
  "read_scalar (''-Infinity'' @ t) = Some (PFloat NegInf, t)"
  by (simp_all add: read_scalar_def read_word_def read_number_def split_minus_def is_digit_def Let_def)

lemma read_scalar_number:
  assumes "read_number w = Some (v, [])" "delimited t"
  shows "read_scalar (w @ t) = Some (v, t)"
proof -
  obtain c cs where w: "w = c # cs" "is_digit c \<or> c = CHR ''-''" using read_number_start [OF assms(1)] by blast
  then have "c \<noteq> CHR ''n''" "c \<noteq> CHR ''t''" "c \<noteq> CHR ''f''" by (auto simp: is_digit_def)
  then show ?thesis
    using read_number_append [OF assms] by (simp add: w(1) read_scalar_def read_word_def)
qed

text \<open>A text a value can be read from, whatever follows it.\<close>

definition reads :: "string \<Rightarrow> pyval \<Rightarrow> bool" where
  "reads p v \<longleftrightarrow> p \<noteq> [] \<and> \<not> json_space (hd p) \<and> hd p \<noteq> CHR '']'' \<and> (\<forall>t. delimited t \<longrightarrow> read_value (p @ t) = Some (v, t))"

lemma readsD: "reads p v \<Longrightarrow> delimited t \<Longrightarrow> read_value (p @ t) = Some (v, t)"
  by (simp add: reads_def)

lemma reads_scalar:
  assumes "p \<noteq> []" "hd p \<notin> {CHR '' '', CHR 0x0A, CHR 0x0D, CHR 0x09, CHR '']'', CHR 0x22, CHR ''{'', CHR ''[''}"
    and "\<And>t. delimited t \<Longrightarrow> read_scalar (p @ t) = Some (v, t)"
  shows "reads p v"
  using assms by (cases p) (auto simp: reads_def json_space_def read_value.simps)

lemma reads_number:
  assumes "read_number w = Some (v, [])"
  shows "reads w v"
proof -
  obtain c cs where w: "w = c # cs" "is_digit c \<or> c = CHR ''-''" using read_number_start [OF assms] by blast
  show ?thesis
    by (rule reads_scalar) (use w read_scalar_number [OF assms] in \<open>auto simp: is_digit_def\<close>)
qed

lemma reads_words:
  "reads ''null'' PNone" "reads ''true'' (PBool True)" "reads ''false'' (PBool False)"
  "reads ''NaN'' (PFloat NaN)" "reads ''Infinity'' (PFloat PosInf)" "reads ''-Infinity'' (PFloat NegInf)"
  using read_scalar_words by (auto intro!: reads_scalar)

lemma reads_text: "reads (json_literal y s) (PStr s)"
  using read_styled [of y s] by (simp add: reads_def json_literal_def json_space_def read_value.simps)

subsection \<open>Arrays and objects\<close>

lemma skip_spaces: "list_all json_space ws \<Longrightarrow> skip_space (ws @ s) = skip_space s"
  by (induction ws) (simp_all add: skip_space_def)

lemma skip_none: "p \<noteq> [] \<Longrightarrow> \<not> json_space (hd p) \<Longrightarrow> skip_space (p @ s) = p @ s"
  by (cases p) (simp_all add: skip_space_def)

lemma space_not_number: "json_space c \<Longrightarrow> \<not> number_char c"
  by (auto simp: json_space_def number_char_def is_digit_def)

lemma delimited_space: "list_all json_space ws \<Longrightarrow> delimited t \<Longrightarrow> delimited (ws @ t)"
  by (cases ws) (auto dest: space_not_number)

lemma closers: "\<not> number_char (CHR '']'')" "\<not> number_char (CHR ''}'')" "\<not> number_char (CHR '','')"
    "\<not> json_space (CHR '']'')" "\<not> json_space (CHR ''}'')" "\<not> json_space (CHR '','')"
    "\<not> json_space (CHR '':'')" "\<not> json_space (CHR 0x22)"
  by (simp_all add: number_char_def json_space_def is_digit_def)

lemma skip_closer [simp]: "c \<in> {CHR '']'', CHR ''}'', CHR '','', CHR '':'', CHR 0x22} \<Longrightarrow> skip_space (c # t) = c # t"
  using closers by (auto simp: skip_space_def)

lemma readsE:
  assumes "reads p v"
  obtains "p \<noteq> []" "\<And>s. skip_space (p @ s) = p @ s" "\<And>ws s. list_all json_space ws \<Longrightarrow> skip_space (ws @ p @ s) = p @ s"
    "\<And>t. delimited t \<Longrightarrow> read_value (p @ t) = Some (v, t)"
  using assms by (auto simp: reads_def skip_none skip_spaces)

lemma read_items_join:
  assumes "list_all2 reads parts vs" "parts \<noteq> []" and ws: "list_all json_space ws" "list_all json_space end_ws"
  shows "read_items (str_join (CHR '','' # ws) parts @ end_ws @ CHR '']'' # t) = Some (vs, t)"
  using assms(1, 2)
proof (induction parts vs rule: list_all2_induct)
  case (Cons p ps v vs)
  from Cons(1) show ?case
  proof (rule readsE, goal_cases)
    case here: 1
    show ?case
    proof (cases ps)
      case Nil
      with Cons have "vs = []" by simp
      then show ?thesis
        using here(1, 4) ws(2) by (subst read_items.simps) (simp add: Nil delimited_space closers skip_spaces)
    next
      case more: (Cons q qs)
      then obtain w where w: "reads q w" using Cons by (auto simp: list_all2_Cons1)
      have first: "skip_space (ws @ str_join (CHR '','' # ws) ps @ s) = str_join (CHR '','' # ws) ps @ s" for s
        by (rule readsE [OF w]) (use ws(1) in \<open>cases qs; simp add: more\<close>)
      let ?tail = "str_join (CHR '','' # ws) ps @ end_ws @ CHR '']'' # t"
      have all: "str_join (CHR '','' # ws) (p # ps) @ end_ws @ CHR '']'' # t = p @ CHR '','' # ws @ ?tail"
        by (simp add: more)
      have "read_value (p @ CHR '','' # ws @ ?tail) = Some (v, CHR '','' # ws @ ?tail)"
        by (rule here(4)) (simp add: closers)
      moreover have "read_items ?tail = Some (vs, t)" using Cons.IH more by simp
      ultimately show ?thesis
        unfolding all by (subst read_items.simps) (use here(1) in \<open>simp add: first\<close>)
    qed
  qed
qed simp

lemma read_member:
  assumes "reads p v" "delimited u" "list_all json_space ws"
  shows "read_members (json_literal y k @ CHR '':'' # ws @ p @ u) =
    (case skip_space u of
       [] \<Rightarrow> None
     | e # w \<Rightarrow> if e = CHR ''}'' then Some ([(k, v)], w)
               else if e = CHR '','' then map_option (\<lambda>(ms, x). ((k, v) # ms, x)) (read_members (skip_space w))
               else None)"
proof (rule readsE [OF assms(1)])
  assume "p \<noteq> []" and whole: "\<And>t. delimited t \<Longrightarrow> read_value (p @ t) = Some (v, t)"
    and skip: "\<And>ws s. list_all json_space ws \<Longrightarrow> skip_space (ws @ p @ s) = p @ s"
  have "read_text (concat (map (literal_char y) k) @ CHR 0x22 # CHR '':'' # ws @ p @ u) = Some (k, CHR '':'' # ws @ p @ u)"
    by (rule read_styled)
  then show ?thesis
    using whole [OF assms(2)] skip [OF assms(3)]
    by (subst read_members.simps) (simp add: json_literal_def split: list.split)
qed

lemma read_members_join:
  assumes "list_all2 (\<lambda>(k, p) (k', v). k = k' \<and> reads p v) kps ms" "kps \<noteq> []"
    and ws: "list_all json_space ws" "list_all json_space key_ws" "list_all json_space end_ws"
  shows "read_members (str_join (CHR '','' # ws) (map (\<lambda>(k, p). json_literal y k @ CHR '':'' # key_ws @ p) kps) @ end_ws @ CHR ''}'' # t) =
    Some (ms, t)"
  using assms(1, 2)
proof (induction kps ms rule: list_all2_induct)
  case (Cons kp kps kv ms)
  obtain k p v where kp: "kp = (k, p)" "kv = (k, v)" and p: "reads p v" using Cons(1) by (auto split: prod.splits)
  show ?case
  proof (cases kps)
    case Nil
    with Cons have "ms = []" by simp
    then show ?thesis
      using read_member [OF p _ ws(2), of "end_ws @ CHR ''}'' # t" y k] ws(3)
      by (simp add: kp Nil delimited_space closers skip_spaces)
  next
    case more: (Cons q qs)
    let ?tail = "str_join (CHR '','' # ws) (map (\<lambda>(k, p). json_literal y k @ CHR '':'' # key_ws @ p) kps) @ end_ws @ CHR ''}'' # t"
    obtain k' p' where q: "q = (k', p')" by (cases q)
    have "?tail = CHR 0x22 # tl ?tail" by (cases qs) (simp_all add: more q json_literal_def)
    then have "skip_space ?tail = ?tail" using skip_closer [of "CHR 0x22" "tl ?tail"] by simp
    then have first: "skip_space (ws @ ?tail) = ?tail" using ws(1) by (simp only: skip_spaces)
    have all: "str_join (CHR '','' # ws) (map (\<lambda>(k, p). json_literal y k @ CHR '':'' # key_ws @ p) (kp # kps)) @ end_ws @ CHR ''}'' # t =
        json_literal y k @ CHR '':'' # key_ws @ p @ CHR '','' # ws @ ?tail"
      by (simp add: more kp)
    have "read_members ?tail = Some (ms, t)" using Cons.IH more by simp
    then show ?thesis
      unfolding all by (subst read_member [OF p _ ws(2)]) (simp_all add: kp first closers del: append_assoc)
  qed
qed simp

subsection \<open>The round trip\<close>

lemma dset_new: "k \<notin> set (map fst d) \<Longrightarrow> dset k v d = d @ [(k, v)]"
  by (induction d) (auto simp: dset_def)

lemma dict_of_distinct: "distinct (map fst ps) \<Longrightarrow> dict_of ps = ps"
proof -
  have "fold (\<lambda>(k, v) d. dset k v d) ps d = d @ ps" if "distinct (map fst (d @ ps))" for d
    using that
  proof (induction ps arbitrary: d)
    case (Cons p ps)
    obtain k v where "p = (k, v)" by (cases p)
    with Cons show ?case by (simp add: dset_new)
  qed simp
  from this [of "[]"] show "distinct (map fst ps) \<Longrightarrow> dict_of ps = ps" by (simp add: dict_of_def)
qed

lemma in_order_map: "in_order y (map (\<lambda>(k, v). (k, f v)) d) = map (\<lambda>(k, v). (k, f v)) (in_order y d)"
proof -
  have insort: "insort_key fst (k, f v) (map (\<lambda>(k, v). (k, f v)) d) = map (\<lambda>(k, v). (k, f v)) (insort_key fst (k, v) d)"
    for k :: string and v d by (induction d) auto
  have "sort_key fst (map (\<lambda>(k, v). (k, f v)) d) = map (\<lambda>(k, v). (k, f v)) (sort_key fst d)"
    by (induction d) (auto simp: insort)
  then show ?thesis by (simp add: in_order_def)
qed

lemma in_order_set [simp]: "set (in_order y d) = set d"
  and in_order_Nil [simp]: "in_order y d = [] \<longleftrightarrow> d = []"
  and in_order_distinct [simp]: "distinct (map fst (in_order y d)) = distinct (map fst d)"
proof -
  show "set (in_order y d) = set d" "in_order y d = [] \<longleftrightarrow> d = []"
    by (simp_all add: in_order_def flip: set_empty)
  show "distinct (map fst (in_order y d)) = distinct (map fst d)"
    by (simp add: in_order_def distinct_map)
qed

lemma line_break_space: "list_all json_space (line_break y level)"
  by (auto simp: line_break_def json_space_def list_all_iff split: option.splits)

lemma style_okE:
  assumes "style_ok y"
  obtains ws key_ws where "jy_item y = CHR '','' # ws" "jy_key y = CHR '':'' # key_ws" "list_all json_space ws" "list_all json_space key_ws"
  using assms by (cases "jy_item y"; cases "jy_key y") (auto simp: style_ok_def)

lemma json_value_reads:
  assumes "style_ok y" "json_ok rp v"
  shows "reads (json_value rp y level v) (arranged y v)"
  using assms(2)
proof (induction v arbitrary: level rule: pyval.induct)
  case (PBool b)
  then show ?case using reads_words by (cases b) auto
next
  case (PInt i)
  then show ?case by (simp add: reads_number read_show_int)
next
  case (PFloat x)
  then show ?case using reads_words reads_number by (cases x) (auto simp: json_float_def)
next
  case (PStr s)
  then show ?case by (simp add: reads_text)
next
  case (PList xs)
  let ?parts = "map (json_value rp y (Suc level)) xs"
  obtain ws where item: "jy_item y = CHR '','' # ws" "list_all json_space ws" using style_okE [OF assms(1)] by metis
  have parts: "list_all2 reads ?parts (map (arranged y) xs)"
    using PList by (auto simp: list_all2_map1 list_all2_map2 list_all2_same list_all_iff)
  show ?case
  proof (cases xs)
    case Nil
    then show ?thesis by (simp add: bracketed_def reads_def read_value.simps json_space_def skip_space_def)
  next
    case (Cons x xs')
    have first: "skip_space (line_break y (Suc level) @ str_join sep ?parts @ s) = str_join sep ?parts @ s \<and>
        str_join sep ?parts @ s \<noteq> [] \<and> hd (str_join sep ?parts @ s) \<noteq> CHR '']''" for sep s
    proof -
      have "reads (json_value rp y (Suc level) x) (arranged y x)" using parts by (simp add: Cons)
      then show ?thesis
        using line_break_space [of y "Suc level"] by (cases xs') (auto simp: Cons reads_def skip_spaces skip_none)
    qed
    have items: "read_items (str_join (jy_item y @ line_break y (Suc level)) ?parts @ line_break y level @ CHR '']'' # t) =
        Some (map (arranged y) xs, t)" for t
      using read_items_join [OF parts, of "ws @ line_break y (Suc level)" "line_break y level"] item line_break_space
      by (simp add: Cons)
    have "read_value (json_value rp y level (PList xs) @ t) = Some (arranged y (PList xs), t)" for t
      using items [of t] first [of "jy_item y @ line_break y (Suc level)" "line_break y level @ CHR '']'' # t"]
      by (subst read_value.simps) (auto simp: bracketed_def Cons simp del: str_join.simps split: list.split)
    then show ?thesis by (simp add: reads_def bracketed_def json_space_def)
  qed
next
  case (PDict d)
  let ?kps = "in_order y (map (\<lambda>(k, v). (k, json_value rp y (Suc level) v)) d)"
  let ?ms = "in_order y (map (\<lambda>(k, v). (k, arranged y v)) d)"
  obtain ws key_ws where layout: "jy_item y = CHR '','' # ws" "jy_key y = CHR '':'' # key_ws" "list_all json_space ws"
    "list_all json_space key_ws" by (rule style_okE [OF assms(1)])
  have members: "list_all2 (\<lambda>(k, p) (k', v). k = k' \<and> reads p v) ?kps ?ms"
    using PDict by (auto simp: in_order_map list_all2_map1 list_all2_map2 list_all2_same list_all_iff)
  have distinct: "dict_of ?ms = ?ms" using PDict.prems by (intro dict_of_distinct) (simp add: comp_def case_prod_beta)
  show ?case
  proof (cases "d = []")
    case True
    then show ?thesis
      by (simp add: in_order_def bracketed_def reads_def read_value.simps json_space_def skip_space_def)
  next
    case False
    let ?parts = "map (\<lambda>(k, p). json_literal y k @ jy_key y @ p) ?kps"
    obtain k p kps where kps: "?kps = (k, p) # kps" using False by (cases ?kps) auto
    have first: "\<exists>r. str_join sep ?parts @ s = CHR 0x22 # r" for sep s
      unfolding kps by (cases kps) (auto simp: json_literal_def)
    have items: "read_members (str_join (jy_item y @ line_break y (Suc level)) ?parts @ line_break y level @ CHR ''}'' # t) =
        Some (?ms, t)" for t
      using read_members_join [OF members, of "ws @ line_break y (Suc level)" key_ws "line_break y level"]
        layout line_break_space False by simp
    have "read_value (json_value rp y level (PDict d) @ t) = Some (arranged y (PDict d), t)" for t
    proof -
      obtain r where r: "str_join (jy_item y @ line_break y (Suc level)) ?parts @ line_break y level @ CHR ''}'' # t = CHR 0x22 # r"
        using first by blast
      have skip: "skip_space (line_break y (Suc level) @ CHR 0x22 # r) = CHR 0x22 # r"
        using line_break_space by (simp add: skip_spaces)
      have whole: "json_value rp y level (PDict d) @ t = CHR ''{'' # line_break y (Suc level) @ CHR 0x22 # r"
        using False r by (simp add: bracketed_def)
      show ?thesis
        unfolding whole using items [of t] distinct unfolding r by (subst read_value.simps) (simp add: skip)
    qed
    then show ?thesis using False by (simp add: reads_def bracketed_def json_space_def)
  qed
qed (auto simp: reads_words)

text \<open>\<open>json.loads(json.dumps(v)) = v\<close>, with the keys in the order written; white space around the text is skipped.\<close>

lemma json_roundtrip:
  assumes "style_ok y" "json_ok rp v"
  shows "json_loads (json_value rp y level v) = Some (arranged y v)"
proof (rule readsE [OF json_value_reads [OF assms, of level]])
  let ?p = "json_value rp y level v"
  assume skip: "\<And>s. skip_space (?p @ s) = ?p @ s" and "\<And>t. delimited t \<Longrightarrow> read_value (?p @ t) = Some (arranged y v, t)"
  from this(2) [of "[]"] have "read_value ?p = Some (arranged y v, [])" by simp
  then show ?thesis using skip [of "[]"] by (simp add: json_loads_def, simp add: skip_space_def)
qed

subsection \<open>Every value takes a character\<close>

lemma span_shorter: "span_of P s = (a, b) \<Longrightarrow> length b \<le> length s"
  by (auto simp: span_of_def length_dropWhile_le)

lemma number_value_shorter:
  assumes "number_value sign whole rest = Some (v, r)"
  shows "length r \<le> length rest"
proof -
  obtain fraction rest1 where fraction: "read_fraction rest = (fraction, rest1)" by fastforce
  obtain exponent rest2 where exponent: "read_exponent rest1 = (exponent, rest2)" by fastforce
  have "length rest1 \<le> length rest"
    using fraction by (auto simp: read_fraction_def split: list.splits prod.splits if_splits dest!: span_shorter)
  moreover have "length rest2 \<le> length rest1"
    using exponent by (auto simp: read_exponent_def split: list.splits prod.splits if_splits dest!: span_shorter)
  ultimately show ?thesis using assms fraction exponent by (auto simp: number_value_def split: if_splits)
qed

lemma read_number_shorter:
  assumes "read_number s = Some (v, r)"
  shows "length r < length s"
proof -
  obtain sign body where minus: "split_minus s = (sign, body)" by fastforce
  have "length body \<le> length s" using minus by (auto simp: split_minus_def split: list.splits if_splits)
  moreover have "length r < length body"
    using assms by (cases body) (auto simp: read_number_def minus split: if_splits dest!: number_value_shorter)
  ultimately show ?thesis by simp
qed

lemma read_scalar_shorter: "read_scalar s = Some (v, r) \<Longrightarrow> length r < length s"
  by (auto simp: read_scalar_def read_word_def prefix_def split: option.splits if_splits dest: read_number_shorter)

lemma read_items_shorter: "read_items s = Some (vs, r) \<Longrightarrow> length r < length s"
proof (induction s arbitrary: vs r rule: length_induct)
  case (1 s)
  from "1.prems" obtain u d t where t: "length u < length s" "skip_space u = d # t" "r = t \<or> (\<exists>ws. read_items (skip_space t) = Some (ws, r))"
    by (subst (asm) read_items.simps) (auto split: list.split_asm if_split_asm option.split_asm prod.split_asm)
  then have "length t < length s" "length (skip_space t) < length s"
    using skip_space_Cons [of u] skip_space_le [of t] by fastforce+
  with t(3) "1.IH" show ?case by fastforce
qed

lemma read_members_shorter: "read_members s = Some (ms, r) \<Longrightarrow> length r < length s"
proof (induction s arbitrary: ms r rule: length_induct)
  case (1 s)
  from "1.prems" obtain u d t where t: "length u < length s" "skip_space u = d # t" "r = t \<or> (\<exists>ws. read_members (skip_space t) = Some (ws, r))"
    by (subst (asm) read_members.simps) (auto split: list.split_asm if_split_asm option.split_asm prod.split_asm)
  then have "length t < length s" "length (skip_space t) < length s"
    using skip_space_Cons [of u] skip_space_le [of t] by fastforce+
  with t(3) "1.IH" show ?case by fastforce
qed

lemma read_value_shorter:
  assumes "read_value s = Some (v, r)"
  shows "length r < length s"
proof (cases s)
  case Nil
  with assms show ?thesis by (simp add: read_value.simps)
next
  case (Cons c cs)
  consider t where "read_text cs = Some (t, r)" | t where "skip_space cs = t # r"
    | ms where "read_members (skip_space cs) = Some (ms, r)" | vs where "read_items (skip_space cs) = Some (vs, r)"
    | "read_scalar s = Some (v, r)"
    using assms unfolding Cons by (subst (asm) read_value.simps) (auto split: list.split_asm if_split_asm)
  then show ?thesis
    using skip_space_le [of cs]
    by cases (auto simp: Cons dest!: read_text_shorter read_members_shorter read_items_shorter skip_space_Cons read_scalar_shorter)
qed

section \<open>What every part of a written value keeps\<close>

text \<open>The characters of a number.\<close>

lemma number_chars:
  assumes "read_number w = Some (v, [])"
  shows "list_all (\<lambda>c. number_char c \<or> c = CHR ''-'' \<or> c = CHR ''+'') w"
proof -
  define P where "P = (\<lambda>c. number_char c \<or> c = CHR ''-'' \<or> c = CHR ''+'')"
  have digits: "list_all P (takeWhile is_digit s)" for s
    by (auto simp: P_def number_char_def list_all_iff dest: set_takeWhileD)
  obtain sign body where minus: "split_minus w = (sign, body)" by fastforce
  then have w: "w = sign @ body" "list_all P sign"
    by (auto simp: split_minus_def P_def split: list.splits if_splits)
  define whole where "whole = (if hd (takeWhile is_digit body) = CHR ''0'' then ''0'' else takeWhile is_digit body)"
  define rest where "rest = drop (length whole) body"
  have ne: "takeWhile is_digit body \<noteq> []"
    using assms by (cases "takeWhile is_digit body = []") (simp_all add: read_number_def minus)
  then have val: "number_value sign whole rest = Some (v, [])"
    using assms unfolding whole_def rest_def by (simp add: read_number_def minus Let_def split del: if_split)
  obtain c cs where c: "body = c # cs" "is_digit c" using ne by (cases body) (auto split: if_splits)
  have "P (CHR ''0'')" by (simp add: P_def number_char_def is_digit_def)
  then have body: "body = whole @ rest" "list_all P whole"
    using c digits [of body] by (auto simp: whole_def rest_def simp flip: dropWhile_eq_drop)
  obtain fraction rest1 where fraction: "read_fraction rest = (fraction, rest1)" by fastforce
  obtain exponent rest2 where exponent: "read_exponent rest1 = (exponent, rest2)" by fastforce
  have "rest = fraction @ rest1" "list_all P fraction"
    using fraction digits by (auto simp: read_fraction_def span_of_def P_def number_char_def split: list.splits if_splits)
  moreover have "rest1 = exponent @ rest2" "list_all P exponent"
    using exponent digits by (auto simp: read_exponent_def span_of_def P_def number_char_def split: list.splits if_splits)
  moreover have "rest2 = []" 
    using val fraction exponent calculation by (auto simp: number_value_def split: if_splits)
  ultimately show ?thesis using w body by (simp add: P_def)
qed

text \<open>A property of texts that the parts of a style have and that is kept when they are put together.\<close>

locale written_text =
  fixes y :: json_style
    and P :: "string \<Rightarrow> bool"
  assumes no_text: "P []"
    and append: "P p \<Longrightarrow> P q \<Longrightarrow> P (p @ q)"
    and literal: "P (json_literal y s)"
    and number: "read_number w = Some (v, []) \<Longrightarrow> P w"
    and word: "w \<in> {''null'', ''true'', ''false'', ''NaN'', ''Infinity'', ''-Infinity''} \<Longrightarrow> P w"
    and layout: "P (jy_item y @ line_break y level)" "P (jy_key y)" "P (line_break y level)"
    and brackets: "P p \<Longrightarrow> P (CHR ''['' # p @ [CHR '']''])"
    and braces: "P p \<Longrightarrow> P (CHR ''{'' # p @ [CHR ''}''])"
begin

lemma join: "P sep \<Longrightarrow> list_all P parts \<Longrightarrow> P (str_join sep parts)"
  by (induction sep parts rule: str_join.induct) (simp_all add: no_text append)

lemma inside: "list_all P parts \<Longrightarrow> P (line_break y n @ str_join (jy_item y @ line_break y n) parts @ line_break y m)"
  by (intro append join layout)

lemma members:
  assumes "list_all (\<lambda>(k, t). P t) kps"
  shows "list_all P (map (\<lambda>(k, t). json_literal y k @ jy_key y @ t) kps)"
  using assms by (induction kps) (auto intro!: append literal layout)

lemma written:
  assumes "json_ok rp v"
  shows "P (json_value rp y level v)"
  using assms
proof (induction v arbitrary: level rule: pyval.induct)
  case (PBool b)
  then show ?case using word by (cases b) auto
next
  case (PInt i)
  then show ?case using number [OF read_show_int] by simp
next
  case (PFloat x)
  then show ?case using word number by (cases x) (auto simp: json_float_def)
next
  case (PList xs)
  then have "list_all P (map (json_value rp y (Suc level)) xs)" by (auto simp: list_all_iff)
  from brackets [OF inside [OF this]] brackets [OF no_text] show ?case by (simp add: bracketed_def)
next
  case (PDict d)
  then have "list_all (\<lambda>(k, t). P t) (in_order y (map (\<lambda>(k, v). (k, json_value rp y (Suc level) v)) d))"
    by (fastforce simp: list_all_iff)
  from braces [OF inside [OF members [OF this]]] braces [OF no_text] show ?case by (simp add: bracketed_def)
qed (use word literal in auto)

end

text \<open>Without an indentation a value is written on one line.\<close>

definition one_line :: "json_style \<Rightarrow> bool" where
  "one_line y \<longleftrightarrow> style_ok y \<and> jy_indent y = None \<and> CHR 0x0A \<notin> set (jy_item y) \<and> CHR 0x0A \<notin> set (jy_key y)"

lemma literal_no_break: "CHR 0x0A \<notin> set (literal_char y c)"
proof -
  have "CHR 0x0A \<notin> set (json_char c)"
    using json_char_set [of "CHR 0x0A" c] by auto
  then show ?thesis by (auto simp: literal_char_def raw_char_def Let_def)
qed

interpretation unbroken: written_text y "\<lambda>p. one_line y \<longrightarrow> CHR 0x0A \<notin> set p" for y
proof
  show "one_line y \<longrightarrow> CHR 0x0A \<notin> set (json_literal y s)" for s
    using literal_no_break by (auto simp: json_literal_def)
  show "one_line y \<longrightarrow> CHR 0x0A \<notin> set w" if "read_number w = Some (v, [])" for w v
    using number_chars [OF that] by (auto simp: list_all_iff number_char_def is_digit_def)
qed (auto simp: one_line_def line_break_def)

end
