(* ===== verification/Helpers.thy ===== *)
theory Helpers
  imports Executor Tools Json
begin

text \<open>
  The helpers of \<^verbatim>\<open>core/graph_helpers.py\<close>: the phase and tool tables, mutation-aware
  idempotency, reading a model's answer (content extraction, code fences, the string-aware
  balanced scan, the parse cascade), validation of hypotheses and confidences, tool metadata,
  bounded evidence text, ranking and approval parsing. \<open>json.loads\<close>, \<open>json.dumps\<close> and
  \<open>repr\<close> are the fields of \<open>json_lib\<close>; a payload they refuse is \<open>None\<close>. Theory \<open>Answers\<close> gives the fields
  the values of theory \<open>Json\<close>.
\<close>

record json_lib =
  j_loads :: "string \<Rightarrow> pyval option"
  j_dumps :: "json_style \<Rightarrow> pyval \<Rightarrow> string option"
  j_repr :: "pyval \<Rightarrow> string"

text \<open>The styles of \<open>content_to_text\<close> and \<open>safe_json\<close>.\<close>

definition content_style :: json_style where
  "content_style = plain_style\<lparr>jy_ascii := False, jy_str := True\<rparr>"

definition evidence_style :: json_style where
  "evidence_style = content_style\<lparr>jy_sort := True\<rparr>"

section \<open>Tables\<close>

datatype phase = Triage | Investigate | Hypothesize | Propose | Approve | Execute | Verify_Phase | Complete

fun phase_name :: "phase \<Rightarrow> string" where
  "phase_name Triage = ''triage''"
| "phase_name Investigate = ''investigate''"
| "phase_name Hypothesize = ''hypothesize''"
| "phase_name Propose = ''propose''"
| "phase_name Approve = ''approve''"
| "phase_name Execute = ''execute''"
| "phase_name Verify_Phase = ''verify''"
| "phase_name Complete = ''complete''"

definition read_only_tool_names :: "string list" where
  "read_only_tool_names =
    [''get_pod_events'', ''get_pod_logs'', ''get_deployment_status'', ''query_openobserve'',
     ''get_postgres_stats'', ''get_valkey_stats'', ''list_pods'', ''get_active_queries'', ''get_lock_waits'',
     ''get_connection_stats'', ''get_pod_metrics'', ''get_valkey_stream_info'']"

definition mutating_tools :: "string list" where
  "mutating_tools =
    [''restart_deployment'', ''scale_deployment'', ''delete_pod'', ''terminate_backend'',
     ''delete_valkey_key'', ''set_feature_flag'']"

definition remediation_risk_tiers :: "(string, int) dict" where
  "remediation_risk_tiers =
    [(''restart_deployment'', 1), (''terminate_backend'', 1), (''delete_valkey_key'', 1),
     (''scale_deployment'', 2), (''delete_pod'', 1), (''set_feature_flag'', 2)]"

section \<open>Idempotency\<close>

definition is_action_already_executed :: "string \<Rightarrow> pydict \<Rightarrow> executed_action list \<Rightarrow> bool" where
  "is_action_already_executed t args done =
     (if t = [] then False
      else list_ex (\<lambda>a. ea_tool_name a = t \<and>
             (if t \<in> set mutating_tools then True else py_eq (PDict (ea_tool_args a)) (PDict args))) done)"

definition count_action_attempts :: "string \<Rightarrow> executed_action list \<Rightarrow> nat" where
  "count_action_attempts t done =
     (if t = [] then 0 else length (filter (\<lambda>a. ea_tool_name a = t) done))"

section \<open>Reading an answer\<close>

definition mapping_value :: "pyval \<Rightarrow> string \<Rightarrow> pyval \<Rightarrow> pyval" where
  "mapping_value v k d =
     (case v of PDict m \<Rightarrow> dget_or m k d | _ \<Rightarrow> (case get_attr v k of None \<Rightarrow> d | Some w \<Rightarrow> w))"

lemma size_attr: "get_attr v k = Some w \<Longrightarrow> size w < size v"
  by (cases v) (auto simp: get_attr_def dest!: map_of_SomeD size_in_dict)

lemma size_dget: "dget d k = Some w \<Longrightarrow> size w < size (PDict d)"
  by (auto dest!: dget_SomeD size_in_dict)

lemma size_choice: "x \<in> set xs \<Longrightarrow> size x < size (PList xs)"
  by (auto dest: size_in_list)

text \<open>The first element of a choices array, or the error.\<close>

definition first_choice :: "pyval \<Rightarrow> py_error + pyval" where
  "first_choice v =
     (case v of
        PList [] \<Rightarrow> Inl (ValueError ''LLM response contained no choices'')
      | PList (x # xs) \<Rightarrow> Inr x
      | _ \<Rightarrow> Inl (ValueError ''LLM response choices must be an array''))"

lemma first_choice_size: "first_choice v = Inr w \<Longrightarrow> size w < size v"
  by (cases v) (auto simp: first_choice_def split: list.splits)

definition present :: "pyval \<Rightarrow> string \<Rightarrow> pyval option" where
  "present v k = (case get_attr v k of Some w \<Rightarrow> if w = PNone then None else Some w | None \<Rightarrow> None)"

lemma size_present: "present v k = Some w \<Longrightarrow> size w < size v"
  by (auto simp: present_def dest: size_attr split: option.splits if_splits)

function response_content :: "pyval \<Rightarrow> py_error + pyval" where
  "response_content v =
     (case v of
        PDict d \<Rightarrow>
          (case dget d ''choices'' of
             Some c \<Rightarrow> (case first_choice c of Inl e \<Rightarrow> Inl e | Inr x \<Rightarrow> response_content x)
           | None \<Rightarrow>
             (case dget d ''message'' of
                Some m \<Rightarrow> response_content m
              | None \<Rightarrow> (case dget d ''content'' of Some c \<Rightarrow> Inr c | None \<Rightarrow> Inr v)))
      | _ \<Rightarrow>
          (case present v ''choices'' of
             Some c \<Rightarrow> (case first_choice c of Inl e \<Rightarrow> Inl e | Inr x \<Rightarrow> response_content x)
           | None \<Rightarrow>
             (case present v ''message'' of
                Some m \<Rightarrow> response_content m
              | None \<Rightarrow>
                (case present v ''content'' of
                   Some c \<Rightarrow> Inr c
                 | None \<Rightarrow> Inl (ValueError ''Unsupported LLM response type'')))))"
  by pat_completeness auto
termination
  by (relation "measure size") (auto dest!: size_present size_dget first_choice_size)

declare response_content.simps [simp del]

function content_to_text :: "json_lib \<Rightarrow> pyval \<Rightarrow> string" where
  "content_to_text J v =
     (case v of
        PStr s \<Rightarrow> s
      | PBytes s \<Rightarrow> s
      | PDict d \<Rightarrow>
          (if dget_or d ''text'' PNone \<noteq> PNone then py_str (j_repr J) (dget_or d ''text'' PNone)
           else (case dget d ''content'' of
                   Some n \<Rightarrow> (if n \<noteq> PNone then content_to_text J n
                             else case j_dumps J content_style v of Some s \<Rightarrow> s | None \<Rightarrow> [])
                 | None \<Rightarrow> (case j_dumps J content_style v of Some s \<Rightarrow> s | None \<Rightarrow> [])))
      | PList xs \<Rightarrow> concat (map (content_to_text J) xs)
      | _ \<Rightarrow> py_str (j_repr J) v)"
  by pat_completeness auto
termination
  by (relation "measure (\<lambda>(_, v). size v)") (auto dest: size_dget size_in_list)

declare content_to_text.simps [simp del]

section \<open>JSON in text\<close>

definition fence :: string where
  "fence = [CHR 0x60, CHR 0x60, CHR 0x60]"

text \<open>\<open>str.find\<close> and \<open>str.rfind\<close>\<close>

fun find_at :: "nat \<Rightarrow> string \<Rightarrow> string \<Rightarrow> nat option" where
  "find_at i p [] = (if p = [] then Some i else None)"
| "find_at i p (c # cs) = (if prefix p (c # cs) then Some i else find_at (Suc i) p cs)"

fun rfind_at :: "nat \<Rightarrow> string \<Rightarrow> string \<Rightarrow> nat option" where
  "rfind_at i p [] = (if p = [] then Some i else None)"
| "rfind_at i p (c # cs) =
     (case rfind_at (Suc i) p cs of Some k \<Rightarrow> Some k
      | None \<Rightarrow> if prefix p (c # cs) then Some i else None)"

definition strip_code_fence :: "string \<Rightarrow> string" where
  "strip_code_fence text =
     (let stripped = str_strip text
      in case (find_at 0 fence stripped, rfind_at 0 fence stripped) of
           (Some i, Some k) \<Rightarrow>
             (if k \<le> i then stripped
              else let inner = take (k - (i + 3)) (drop (i + 3) stripped);
                       rest = (case split_once (CHR 0x0A) inner of (_, Some r) \<Rightarrow> r | _ \<Rightarrow> inner)
                   in str_strip rest)
         | _ \<Rightarrow> stripped)"

text \<open>The scan from an opener: \<open>taken\<close> is what has been read, in reverse.\<close>

fun scan_loop :: "char \<Rightarrow> char \<Rightarrow> int \<Rightarrow> bool \<Rightarrow> bool \<Rightarrow> string \<Rightarrow> string \<Rightarrow> string option" where
  "scan_loop opener closer depth in_string escape taken [] = None"
| "scan_loop opener closer depth in_string escape taken (c # cs) =
     (if escape then scan_loop opener closer depth in_string False (c # taken) cs
      else if c = CHR 0x5C \<and> in_string then scan_loop opener closer depth in_string True (c # taken) cs
      else if c = CHR 0x22 then scan_loop opener closer depth (\<not> in_string) False (c # taken) cs
      else if in_string then scan_loop opener closer depth in_string False (c # taken) cs
      else if c = opener then scan_loop opener closer (depth + 1) in_string False (c # taken) cs
      else if c = closer
      then (if depth - 1 = 0 then Some (rev (c # taken))
            else scan_loop opener closer (depth - 1) in_string False (c # taken) cs)
      else scan_loop opener closer depth in_string False (c # taken) cs)"

definition balanced_scan :: "string \<Rightarrow> int \<Rightarrow> char \<Rightarrow> char \<Rightarrow> string option" where
  "balanced_scan text start opener closer =
     (if start < 0 \<or> start \<ge> int (length text) \<or> text ! nat start \<noteq> opener then None
      else scan_loop opener closer 0 False False [] (drop (nat start) text))"

fun first_json_from :: "string \<Rightarrow> nat \<Rightarrow> string \<Rightarrow> string option" where
  "first_json_from text i [] = None"
| "first_json_from text i (c # cs) =
     (if c = CHR ''{''
      then (case balanced_scan text (int i) (CHR ''{'') (CHR ''}'') of
              Some r \<Rightarrow> Some r | None \<Rightarrow> first_json_from text (Suc i) cs)
      else if c = CHR ''[''
      then (case balanced_scan text (int i) (CHR ''['') (CHR '']'') of
              Some r \<Rightarrow> Some r | None \<Rightarrow> first_json_from text (Suc i) cs)
      else first_json_from text (Suc i) cs)"

definition first_json_value :: "string \<Rightarrow> string option" where
  "first_json_value text = first_json_from text 0 text"

text \<open>The greedy patterns \<open>\{.*\}\<close> and \<open>\[.*\]\<close>: from the first opener to the last closer.\<close>

definition greedy_match :: "char \<Rightarrow> char \<Rightarrow> string \<Rightarrow> string option" where
  "greedy_match opener closer text =
     (let body = dropWhile (\<lambda>c. c \<noteq> opener) text;
          m = rev (dropWhile (\<lambda>c. c \<noteq> closer) (rev body))
      in if body = [] \<or> m = [] then None else Some m)"

definition try_parse_json :: "json_lib \<Rightarrow> string \<Rightarrow> pyval option" where
  "try_parse_json J text =
     (case j_loads J text of
        Some v \<Rightarrow> Some v
      | None \<Rightarrow>
        (let unfenced = strip_code_fence text
         in case (if unfenced \<noteq> text then j_loads J unfenced else None) of
              Some v \<Rightarrow> Some v
            | None \<Rightarrow>
              (case Option.bind (first_json_value unfenced) (j_loads J) of
                 Some v \<Rightarrow> Some v
               | None \<Rightarrow>
                 (case Option.bind (greedy_match (CHR ''{'') (CHR ''}'') unfenced) (j_loads J) of
                    Some v \<Rightarrow> Some v
                  | None \<Rightarrow> Option.bind (greedy_match (CHR ''['') (CHR '']'') unfenced) (j_loads J)))))"

fun type_name :: "pyval \<Rightarrow> string" where
  "type_name PNone = ''NoneType''"
| "type_name (PBool _) = ''bool''"
| "type_name (PInt _) = ''int''"
| "type_name (PFloat _) = ''float''"
| "type_name (PStr _) = ''str''"
| "type_name (PBytes _) = ''bytes''"
| "type_name (PList _) = ''list''"
| "type_name (PDict _) = ''dict''"
| "type_name (PObj _) = ''object''"

definition parse_json_response :: "json_lib \<Rightarrow> string \<Rightarrow> bool \<Rightarrow> pyval \<Rightarrow> py_error + pydict" where
  "parse_json_response J stage allow_array response =
     bind_res (response_content response) (\<lambda>content.
       case content of
         PDict d \<Rightarrow> Inr d
       | _ \<Rightarrow>
         (let text = str_strip (content_to_text J content)
          in if text = [] then Inl (ValueError (stage @ '' response was empty''))
             else case try_parse_json J text of
               None \<Rightarrow> Inl (ValueError (stage @ '' response was not valid JSON: no valid JSON payload found; got: ''
                        @ repr_str (map (\<lambda>c. if c = CHR 0x0A then CHR '' '' else c) (take 200 text))))
             | Some (PDict d) \<Rightarrow> Inr d
             | Some (PList xs) \<Rightarrow>
                 (if allow_array then Inr [(''items'', PList xs)]
                  else Inl (ValueError (stage @ '' response must be a JSON object, got a list'')))
             | Some v \<Rightarrow> Inl (ValueError (stage @ '' response must be a JSON object, got '' @ type_name v))))"

section \<open>Hypotheses\<close>

definition as_confidence :: "pyval \<Rightarrow> py_error + rat" where
  "as_confidence v =
     (case v of
        PBool _ \<Rightarrow> Inl (ValueError ''confidence must be numeric, not bool'')
      | _ \<Rightarrow>
        (case py_float v of
           Inl _ \<Rightarrow> Inl (ValueError ''confidence must be numeric'')
         | Inr x \<Rightarrow>
           (case x of
              Fin q \<Rightarrow> (if 0 \<le> q \<and> q \<le> 1 then Inr q
                        else Inl (ValueError ''confidence must be between 0 and 1''))
            | _ \<Rightarrow> Inl (ValueError ''confidence must be between 0 and 1''))))"

record hypothesis =
  h_id :: string
  h_description :: string
  h_confidence :: rat
  h_evidence :: "string list"
  h_status :: string

definition dump_hypothesis :: "hypothesis \<Rightarrow> pydict" where
  "dump_hypothesis h =
    [(''id'', PStr (h_id h)), (''description'', PStr (h_description h)),
     (''confidence'', PFloat (Fin (h_confidence h))), (''evidence'', PList (map PStr (h_evidence h))),
     (''status'', PStr (h_status h))]"

definition valid_statuses :: "string list" where
  "valid_statuses = [''proposed'', ''confirmed'', ''rejected'']"

definition normalize_hypothesis :: "json_lib \<Rightarrow> string \<Rightarrow> nat \<Rightarrow> pyval \<Rightarrow> py_error + hypothesis" where
  "normalize_hypothesis J fallback i item =
     (let S = py_str (j_repr J); tag = ''hypothesis '' @ show_nat i
      in case item of
        PDict d \<Rightarrow>
          (let hid = (let v = dget_or d ''id'' PNone in if v = PNone then CHR ''H'' # show_nat i else str_strip (S v));
               descr = (let v = dget_or d ''description'' PNone in if v = PNone then [] else str_strip (S v))
           in if hid = [] \<or> descr = [] then Inl (ValueError (tag @ '' is missing id or description''))
              else case dget_or d ''evidence'' (PList []) of
                PList ev \<Rightarrow>
                  (let raw = str_strip (S (dget_or d ''status'' (PStr fallback)))
                   in bind_res (as_confidence (dget_or d ''confidence'' (PFloat (Fin 0)))) (\<lambda>c.
                        Inr \<lparr>h_id = hid, h_description = descr, h_confidence = c, h_evidence = map S ev,
                             h_status = (if raw \<in> set valid_statuses then raw else fallback)\<rparr>))
              | _ \<Rightarrow> Inl (ValueError (tag @ '' evidence must be an array'')))
      | _ \<Rightarrow> Inl (ValueError (tag @ '' must be an object, got '' @ type_name item)))"

fun normalize_from :: "json_lib \<Rightarrow> string \<Rightarrow> nat \<Rightarrow> pyval list \<Rightarrow> py_error + hypothesis list" where
  "normalize_from J fallback i [] = Inr []"
| "normalize_from J fallback i (x # xs) =
     bind_res (normalize_hypothesis J fallback i x) (\<lambda>h.
     bind_res (normalize_from J fallback (Suc i) xs) (\<lambda>hs. Inr (h # hs)))"

definition normalize_hypotheses :: "json_lib \<Rightarrow> string \<Rightarrow> pyval \<Rightarrow> py_error + hypothesis list" where
  "normalize_hypotheses J default_status raw =
     (case raw of
        PList xs \<Rightarrow>
          (let fallback = (if default_status \<in> set valid_statuses then default_status else ''proposed'')
           in bind_res (normalize_from J fallback 1 xs) (\<lambda>hs.
                if hs = [] then Inl (ValueError ''LLM returned no hypotheses'') else Inr hs))
      | _ \<Rightarrow> Inl (ValueError ''hypotheses must be a JSON array''))"

definition confidence_value :: "pydict \<Rightarrow> rat" where
  "confidence_value h =
     (case as_confidence (dget_or h ''confidence'' (PFloat (Fin 0))) of Inl _ \<Rightarrow> 0 | Inr q \<Rightarrow> q)"

text \<open>\<open>max(hs, key=...)\<close>: the first of the best.\<close>

fun best_of :: "pydict \<Rightarrow> pydict list \<Rightarrow> pydict" where
  "best_of b [] = b"
| "best_of b (h # hs) = best_of (if confidence_value h > confidence_value b then h else b) hs"

definition top_hypothesis :: "pydict list \<Rightarrow> pydict option" where
  "top_hypothesis hs = (case hs of [] \<Rightarrow> None | h # rest \<Rightarrow> Some (best_of h rest))"

section \<open>Tool metadata\<close>

text \<open>\<open>list_tool_specs\<close> on the registry's tools: names are already stripped and non-empty, and
  the schema is the exported one.\<close>

record tool_meta =
  sp_name :: string
  sp_description :: string
  sp_risk_tier :: "int option"
  sp_input_schema :: pydict

definition meta_of :: "tool \<Rightarrow> tool_meta" where
  "meta_of t = \<lparr>sp_name = str_strip (t_name t), sp_description = str_strip (t_description t),
     sp_risk_tier = (if t_risk_tier t \<ge> 0 then Some (t_risk_tier t) else None),
     sp_input_schema = (if schema_body (t_schema t) = [] then t_schema t else schema_body (t_schema t))\<rparr>"

definition list_tool_specs :: "tools \<Rightarrow> tool_meta list" where
  "list_tool_specs reg =
     map meta_of (sort_key (\<lambda>t. str_strip (t_name t)) (filter (\<lambda>t. str_strip (t_name t) \<noteq> []) (list_tools reg)))"

definition find_spec :: "tool_meta list \<Rightarrow> string \<Rightarrow> tool_meta option" where
  "find_spec specs name = List.find (\<lambda>s. sp_name s = name) specs"

definition safe_json :: "json_lib \<Rightarrow> pyval \<Rightarrow> nat \<Rightarrow> string" where
  "safe_json J v max_chars = take max_chars (case j_dumps J evidence_style v of Some s \<Rightarrow> s | None \<Rightarrow> j_repr J v)"

section \<open>Approval\<close>

definition approval_true_strings :: "string list" where
  "approval_true_strings = [''yes'', ''approve'', ''approved'', ''true'']"

definition says_yes :: "json_lib \<Rightarrow> pyval \<Rightarrow> bool" where
  "says_yes J v = (str_lower (str_strip (py_str (j_repr J) v)) \<in> set approval_true_strings)"

definition approval_value_to_bool :: "json_lib \<Rightarrow> pyval \<Rightarrow> bool" where
  "approval_value_to_bool J v =
     (case v of
        PBool b \<Rightarrow> b
      | PDict d \<Rightarrow>
          (case dget d ''approved'' of
             Some (PBool b) \<Rightarrow> b
           | Some w \<Rightarrow> says_yes J w
           | None \<Rightarrow>
             (case dget_or d ''decisions'' PNone of
                PList (PDict f # _) \<Rightarrow>
                  str_lower (str_strip (py_str (j_repr J) (dget_or f ''type'' (PStr [])))) = ''approve''
              | _ \<Rightarrow> False))
      | _ \<Rightarrow> says_yes J v)"

section \<open>The balanced scan\<close>

text \<open>The characters of a text outside its string literals, by the escape rules of JSON.\<close>

fun visible :: "bool \<Rightarrow> bool \<Rightarrow> string \<Rightarrow> string" where
  "visible ins esc [] = []"
| "visible ins esc (c # cs) =
     (if esc then visible ins False cs
      else if c = CHR 0x5C \<and> ins then visible ins True cs
      else if c = CHR 0x22 then visible (\<not> ins) False cs
      else if ins then visible ins False cs
      else c # visible ins False cs)"

definition nesting :: "char \<Rightarrow> char \<Rightarrow> bool \<Rightarrow> bool \<Rightarrow> string \<Rightarrow> int" where
  "nesting op cl ins esc s =
     int (count_list (visible ins esc s) op) - int (count_list (visible ins esc s) cl)"

text \<open>\<open>p\<close> is the shortest prefix of \<open>s\<close> at which the depth \<open>d\<close> is back to zero.\<close>

definition closes :: "char \<Rightarrow> char \<Rightarrow> int \<Rightarrow> bool \<Rightarrow> bool \<Rightarrow> string \<Rightarrow> string \<Rightarrow> bool" where
  "closes op cl d ins esc s p =
     (prefix p s \<and> d + nesting op cl ins esc p = 0 \<and>
      (\<forall>q. strict_prefix q p \<longrightarrow> d + nesting op cl ins esc q > 0))"

lemma strict_prefix_Cons_iff: "strict_prefix q (x # p) \<longleftrightarrow> q = [] \<or> (\<exists>q'. q = x # q' \<and> strict_prefix q' p)"
  by (cases q) auto

lemma closes_Cons:
  assumes d: "d \<ge> 1" and step: "\<And>q. nesting op cl ins esc (x # q) = k + nesting op cl ins' esc' q"
  shows "closes op cl d ins esc (x # s) p \<longleftrightarrow> (\<exists>p'. p = x # p' \<and> closes op cl (d + k) ins' esc' s p')"
proof (cases p)
  case Nil
  with d show ?thesis by (simp add: closes_def nesting_def)
next
  case (Cons y p')
  have "(\<forall>q. strict_prefix q (x # p') \<longrightarrow> d + nesting op cl ins esc q > 0) \<longleftrightarrow>
      (\<forall>q. strict_prefix q p' \<longrightarrow> d + k + nesting op cl ins' esc' q > 0)"
    using d step by (auto simp: strict_prefix_Cons_iff nesting_def add.assoc)
  with Cons d step show ?thesis by (auto simp: closes_def add.assoc)
qed

lemma closes_zero: "closes op cl 0 ins esc s p \<longleftrightarrow> p = []"
proof -
  have "strict_prefix [] p \<longleftrightarrow> p \<noteq> []" by (cases p) auto
  then show ?thesis by (auto simp: closes_def nesting_def)
qed

lemma scan_loop_closes:
  assumes brackets: "op \<noteq> cl" "op \<noteq> CHR 0x22" "cl \<noteq> CHR 0x22"
  shows "d \<ge> 1 \<Longrightarrow> scan_loop op cl d ins esc taken s = Some r \<longleftrightarrow>
     (\<exists>p. r = rev taken @ p \<and> closes op cl d ins esc s p)"
proof (induction s arbitrary: d ins esc taken)
  case Nil
  then show ?case by (auto simp: closes_def nesting_def)
next
  case (Cons x s)
  have go: "(\<exists>p. r = rev taken @ p \<and> closes op cl d ins esc (x # s) p) \<longleftrightarrow>
      (\<exists>p'. r = rev (x # taken) @ p' \<and> closes op cl (d + k) ins' esc' s p')"
    if "\<And>q. nesting op cl ins esc (x # q) = k + nesting op cl ins' esc' q" for k ins' esc'
    using closes_Cons [OF Cons.prems that] by auto
  consider (esc) esc | (bs) "\<not> esc" "x = CHR 0x5C" ins | (quote) "\<not> esc" "x = CHR 0x22"
    | (inside) "\<not> esc" "x \<noteq> CHR 0x5C" "x \<noteq> CHR 0x22" ins
    | (op) "\<not> esc" "\<not> ins" "x = op" | (cl) "\<not> esc" "\<not> ins" "x = cl"
    | (other) "\<not> esc" "\<not> ins" "x \<noteq> CHR 0x22" "x \<noteq> op" "x \<noteq> cl"
    by blast
  then show ?case
  proof cases
    case esc
    with go [of 0 ins False] Cons show ?thesis by (simp add: nesting_def)
  next
    case bs
    with go [of 0 ins True] Cons show ?thesis by (simp add: nesting_def)
  next
    case quote
    with go [of 0 "\<not> ins" False] Cons show ?thesis by (simp add: nesting_def)
  next
    case inside
    with go [of 0 ins False] Cons show ?thesis by (simp add: nesting_def)
  next
    case op
    with go [of 1 ins False] Cons brackets show ?thesis by (simp add: nesting_def)
  next
    case cl
    with brackets have ne: "x \<noteq> op" "x \<noteq> CHR 0x22" by auto
    with cl go [of "-1" ins False] have g: "(\<exists>p. r = rev taken @ p \<and> closes op cl d ins esc (x # s) p) \<longleftrightarrow>
      (\<exists>p'. r = rev (x # taken) @ p' \<and> closes op cl (d - 1) ins False s p')"
      by (simp add: nesting_def)
    show ?thesis
    proof (cases "d = 1")
      case True
      with g cl ne show ?thesis by (auto simp: closes_zero)
    next
      case False
      with g cl ne Cons show ?thesis by simp
    qed
  next
    case other
    with go [of 0 ins False] Cons show ?thesis by (simp add: nesting_def)
  qed
qed

section \<open>Hypotheses are valid\<close>

definition hypothesis_ok :: "hypothesis \<Rightarrow> bool" where
  "hypothesis_ok h = (h_id h \<noteq> [] \<and> h_description h \<noteq> [] \<and> 0 \<le> h_confidence h \<and> h_confidence h \<le> 1
     \<and> h_status h \<in> set valid_statuses)"

lemma as_confidence_range: "as_confidence v = Inr q \<Longrightarrow> 0 \<le> q \<and> q \<le> 1"
  by (auto simp: as_confidence_def split: pyval.splits sum.splits pyfloat.splits if_splits)

lemma as_confidence_Fin: "0 \<le> q \<Longrightarrow> q \<le> 1 \<Longrightarrow> as_confidence (PFloat (Fin q)) = Inr q"
  by (simp add: as_confidence_def py_float_def)

lemma normalize_hypothesis_ok:
  "normalize_hypothesis J fb i v = Inr h \<Longrightarrow> fb \<in> set valid_statuses \<Longrightarrow> hypothesis_ok h"
  by (auto simp: normalize_hypothesis_def hypothesis_ok_def Let_def bind_res_Inr_iff
      dest: as_confidence_range split: pyval.splits if_splits)

lemma normalize_from_ok:
  "normalize_from J fb i xs = Inr hs \<Longrightarrow> fb \<in> set valid_statuses \<Longrightarrow>
     length hs = length xs \<and> list_all hypothesis_ok hs"
  by (induction xs arbitrary: i hs) (auto simp: bind_res_Inr_iff dest: normalize_hypothesis_ok)

lemma dump_confidence: "hypothesis_ok h \<Longrightarrow> confidence_value (dump_hypothesis h) = h_confidence h"
  by (simp add: confidence_value_def dump_hypothesis_def hypothesis_ok_def as_confidence_Fin)

section \<open>The best hypothesis\<close>

lemma confidence_value_range: "0 \<le> confidence_value h" "confidence_value h \<le> 1"
  using as_confidence_range by (auto simp: confidence_value_def split: sum.splits)

lemma best_of_in: "best_of b hs \<in> set (b # hs)"
  by (induction hs arbitrary: b) auto

lemma best_of_max: "h \<in> set (b # hs) \<Longrightarrow> confidence_value h \<le> confidence_value (best_of b hs)"
proof (induction hs arbitrary: b h)
  case (Cons x hs)
  let ?b = "if confidence_value x > confidence_value b then x else b"
  have up: "confidence_value g \<le> confidence_value (best_of ?b hs)" if "g \<in> set (?b # hs)" for g
    using that by (rule Cons.IH)
  have "confidence_value b \<le> confidence_value ?b" "confidence_value x \<le> confidence_value ?b" by auto
  with up [of ?b] up [of h] Cons.prems show ?case by auto
qed simp

section \<open>Properties\<close>

text \<open>The balanced scan finds what it should. From an opening brace or bracket at the given
  position it returns exactly the shortest text that starts there and closes it, counting only
  characters outside JSON string literals (escaped quotes do not end a literal): the nesting
  of the result is zero and positive for every shorter non-empty beginning; nothing is returned
  when there is no such text.\<close>

lemma balanced_scan_shortest:
  assumes "(op, cl) = (CHR ''{'', CHR ''}'') \<or> (op, cl) = (CHR ''['', CHR '']'')"
  shows "balanced_scan text (int i) op cl = Some r \<longleftrightarrow>
    i < length text \<and> text ! i = op \<and> prefix r (drop i text) \<and> r \<noteq> [] \<and>
    nesting op cl False False r = 0 \<and>
    (\<forall>q. strict_prefix q r \<and> q \<noteq> [] \<longrightarrow> nesting op cl False False q > 0)"
proof (cases "i < length text \<and> text ! i = op")
  case True
  have br: "op \<noteq> cl" "op \<noteq> CHR 0x22" "cl \<noteq> CHR 0x22" using assms by auto
  obtain s where s: "drop i text = op # s" using True by (metis Cons_nth_drop_Suc)
  have cons: "nesting op cl False False (op # q) = 1 + nesting op cl False False q" for q
    using br by (simp add: nesting_def)
  have "balanced_scan text (int i) op cl = scan_loop op cl 1 False False [op] s"
    using True s br by (simp add: balanced_scan_def)
  then have "balanced_scan text (int i) op cl = Some r \<longleftrightarrow> (\<exists>p. r = op # p \<and> closes op cl 1 False False s p)"
    using scan_loop_closes [OF br, of 1 False False "[op]" s r] by simp
  also have "\<dots> \<longleftrightarrow> prefix r (drop i text) \<and> r \<noteq> [] \<and> nesting op cl False False r = 0 \<and>
      (\<forall>q. strict_prefix q r \<and> q \<noteq> [] \<longrightarrow> nesting op cl False False q > 0)"
    unfolding s by (cases r) (auto simp: closes_def cons strict_prefix_Cons_iff)
  finally show ?thesis using True by simp
next
  case False
  then show ?thesis by (auto simp: balanced_scan_def)
qed

lemma balanced_scan_shortest_witness:
  "\<exists>r. balanced_scan ''x{a{b}}c}'' (int 1) (CHR ''{'') (CHR ''}'') = Some r \<and> prefix r ''{a{b}}c}''"
proof (intro exI conjI)
  show "balanced_scan ''x{a{b}}c}'' (int 1) (CHR ''{'') (CHR ''}'') = Some ''{a{b}}''" by code_simp
  then show "prefix ''{a{b}}'' ''{a{b}}c}''"
    using balanced_scan_shortest [of "CHR ''{''" "CHR ''}''" "''x{a{b}}c}''" 1 "''{a{b}}''"] by simp
qed

text \<open>Hypotheses that come out of validation are well-formed. Whatever the model sent, validation
  either fails with an error or gives a non-empty list with one entry per element, each with an
  id, a description, a confidence between 0 and 1 and one of the three statuses; stored and
  read back, its confidence is unchanged.\<close>

lemma normalize_hypotheses_valid:
  "case normalize_hypotheses J st raw of
     Inl e \<Rightarrow> (\<exists>msg. e = ValueError msg)
   | Inr hs \<Rightarrow> (\<exists>xs. raw = PList xs \<and> length hs = length xs \<and> hs \<noteq> [] \<and> list_all hypothesis_ok hs \<and>
       map (\<lambda>h. confidence_value (dump_hypothesis h)) hs = map h_confidence hs)"
proof (cases "normalize_hypotheses J st raw")
  case (Inr hs)
  let ?fb = "if st \<in> set valid_statuses then st else ''proposed''"
  have fb: "?fb \<in> set valid_statuses" by (simp add: valid_statuses_def)
  from Inr obtain xs where xs: "raw = PList xs" "normalize_from J ?fb 1 xs = Inr hs" "hs \<noteq> []"
    by (auto simp: normalize_hypotheses_def Let_def bind_res_Inr_iff split: pyval.splits if_splits)
  with normalize_from_ok [OF xs(2) fb] Inr show ?thesis
    by (auto simp: list_all_iff dump_confidence)
next
  case (Inl e)
  have conf: "as_confidence v = Inl x \<Longrightarrow> \<exists>msg. x = ValueError msg" for v x
    by (auto simp: as_confidence_def split: pyval.splits sum.splits pyfloat.splits if_splits)
  have one: "normalize_hypothesis J fb i v = Inl x \<Longrightarrow> \<exists>msg. x = ValueError msg" for fb i v x
    by (auto simp: normalize_hypothesis_def Let_def bind_res_def dest: conf split: pyval.splits if_splits sum.splits)
  have "normalize_from J fb i xs = Inl x \<Longrightarrow> \<exists>msg. x = ValueError msg" for fb i xs x
    by (induction xs arbitrary: i) (auto simp: bind_res_def dest: one split: sum.splits)
  with Inl show ?thesis
    by (auto simp: normalize_hypotheses_def Let_def bind_res_def split: pyval.splits if_splits sum.splits)
qed

text \<open>Ranking: the top hypothesis exists iff there is one, is one of the list, and no other has
  a higher confidence, where an unusable confidence counts as 0.\<close>

lemma top_hypothesis_is_max:
  "(top_hypothesis hs = None \<longleftrightarrow> hs = []) \<and>
   (case top_hypothesis hs of None \<Rightarrow> True
    | Some t \<Rightarrow> t \<in> set hs \<and> confidence_value t = Max (confidence_value ` set hs))"
proof (cases hs)
  case (Cons b rest)
  have "confidence_value (best_of b rest) = Max (confidence_value ` set hs)"
    using best_of_in [of b rest] best_of_max [of _ b rest] Cons by (intro Max_eqI [symmetric]) auto
  with Cons best_of_in [of b rest] show ?thesis by (simp add: top_hypothesis_def)
qed (simp add: top_hypothesis_def)

end
