(* ===== verification/Windows.thy ===== *)
theory Windows
  imports PyValue
begin

text \<open>
  The three components that forget by time: the circuit breaker of \<^verbatim>\<open>core/router.py\<close>,
  and the rate limiter and the fingerprint index of \<^verbatim>\<open>api/routes.py\<close>. Each keeps
  time stamps read from a monotonic clock, an argument of every operation. The locale
  \<open>sliding_window\<close> holds what the first two need of a window; both are interpretations.
\<close>

section \<open>Windows of time stamps\<close>

locale sliding_window =
  fixes inside :: "rat \<Rightarrow> rat \<Rightarrow> bool"
  assumes expires: "now \<le> now' \<Longrightarrow> inside now' ts \<Longrightarrow> inside now ts"
    and newer: "inside now ts \<Longrightarrow> ts \<le> ts' \<Longrightarrow> inside now ts'"
begin

lemma prune_prune: "now \<le> now' \<Longrightarrow> filter (inside now') (filter (inside now) xs) = filter (inside now') xs"
  by (induction xs) (auto dest: expires)

lemma pop_is_prune: "sorted xs \<Longrightarrow> dropWhile (\<lambda>ts. \<not> inside now ts) xs = filter (inside now) xs"
proof (induction xs)
  case (Cons x xs)
  show ?case
  proof (cases "inside now x")
    case True
    with Cons.prems have "\<forall>y \<in> set xs. inside now y" by (auto dest: newer)
    then have "filter (inside now) xs = xs" by (simp add: filter_id_conv)
    with True show ?thesis by simp
  next
    case False
    with Cons show ?thesis by simp
  qed
qed simp

lemma live_shrinks:
  "now \<le> now' \<Longrightarrow> length (filter (inside now') xs) \<le> length (filter (inside now) xs)"
  by (induction xs) (auto dest: expires)

end

definition in_window :: "rat \<Rightarrow> rat \<Rightarrow> rat \<Rightarrow> bool" where
  "in_window w now ts = (ts \<ge> now - w)"

lemma in_window_le: "in_window w now = (\<le>) (now - w)"
  by (auto simp: in_window_def)

interpretation window: sliding_window "in_window w" for w
  by unfold_locales (auto simp: in_window_def)

section \<open>Circuit breaker\<close>

record breaker =
  b_threshold :: int
  b_timeout :: rat
  b_enabled :: bool
  b_failures :: "(string, rat list) dict"

definition make_breaker :: "int \<Rightarrow> rat \<Rightarrow> bool \<Rightarrow> py_error + breaker" where
  "make_breaker threshold timeout enabled =
     (if threshold \<le> 0 then Inl (ValueError ''threshold must be > 0'')
      else if timeout \<le> 0 then Inl (ValueError ''timeout_seconds must be > 0'')
      else Inr \<lparr>b_threshold = threshold, b_timeout = timeout, b_enabled = enabled, b_failures = []\<rparr>)"

definition prune :: "string \<Rightarrow> rat \<Rightarrow> breaker \<Rightarrow> breaker" where
  "prune model now b =
     (case dget (b_failures b) model of
        None \<Rightarrow> b
      | Some ts \<Rightarrow>
          (let keep = filter (\<lambda>t. t \<ge> now - b_timeout b) ts
           in b\<lparr>b_failures := (if keep = [] then dpop model (b_failures b) else dset model keep (b_failures b))\<rparr>))"

definition is_open :: "string \<Rightarrow> rat \<Rightarrow> breaker \<Rightarrow> bool \<times> breaker" where
  "is_open model now b =
     (if \<not> b_enabled b then (False, b)
      else let b' = prune model now b
           in (int (length (dget_or (b_failures b') model [])) \<ge> b_threshold b, b'))"

definition record_failure :: "string \<Rightarrow> rat \<Rightarrow> breaker \<Rightarrow> breaker" where
  "record_failure model now b =
     (if \<not> b_enabled b then b
      else b\<lparr>b_failures := dset model (dget_or (b_failures b) model [] @ [now]) (b_failures b)\<rparr>)"

definition record_success :: "string \<Rightarrow> breaker \<Rightarrow> breaker" where
  "record_success model b = (if \<not> b_enabled b then b else b\<lparr>b_failures := dpop model (b_failures b)\<rparr>)"

definition snapshot_open_circuits :: "rat \<Rightarrow> breaker \<Rightarrow> string list" where
  "snapshot_open_circuits now b =
     (if \<not> b_enabled b then []
      else map fst (filter (\<lambda>(m, ts). list_ex (\<lambda>t. now - t < b_timeout b) ts \<and>
              int (length (filter (\<lambda>t. now - t < b_timeout b) ts)) \<ge> b_threshold b) (b_failures b)))"

text \<open>The failures of a model, what every operation does to them.\<close>

definition failures_of :: "breaker \<Rightarrow> string \<Rightarrow> rat list" where
  "failures_of b m = dget_or (b_failures b) m []"

lemma prune_fields [frame_simps, simp]:
  "b_threshold (prune m now b) = b_threshold b" "b_timeout (prune m now b) = b_timeout b"
  "b_enabled (prune m now b) = b_enabled b"
  by (auto simp: prune_def Let_def split: option.splits)

lemma failures_prune:
  "failures_of (prune m now b) m' =
     (if m' = m then filter (in_window (b_timeout b) now) (failures_of b m) else failures_of b m')"
  by (auto simp: failures_of_def prune_def Let_def dget_or_dget in_window_le split: option.splits)

lemma failures_failure:
  "b_enabled b \<Longrightarrow> failures_of (record_failure m now b) m' =
     (if m' = m then failures_of b m @ [now] else failures_of b m')"
  by (simp add: failures_of_def record_failure_def)

lemma failures_success:
  "b_enabled b \<Longrightarrow> failures_of (record_success m b) m' = (if m' = m then [] else failures_of b m')"
  by (simp add: failures_of_def record_success_def dget_or_dget)

lemma breaker_fields [frame_simps, simp]:
  "b_threshold (record_failure m now b) = b_threshold b" "b_timeout (record_failure m now b) = b_timeout b"
  "b_enabled (record_failure m now b) = b_enabled b"
  "b_threshold (record_success m b) = b_threshold b" "b_timeout (record_success m b) = b_timeout b"
  "b_enabled (record_success m b) = b_enabled b"
  "b_threshold (snd (is_open m now b)) = b_threshold b" "b_timeout (snd (is_open m now b)) = b_timeout b"
  "b_enabled (snd (is_open m now b)) = b_enabled b"
  by (simp_all add: record_failure_def record_success_def is_open_def Let_def)

text \<open>A history of the breaker: what the router reports and asks, with the clock readings.\<close>

datatype breaker_op = Fail string rat | Ok string rat | Ask string rat

fun op_time :: "breaker_op \<Rightarrow> rat" where
  "op_time (Fail _ t) = t"
| "op_time (Ok _ t) = t"
| "op_time (Ask _ t) = t"

fun do_op :: "breaker_op \<Rightarrow> breaker \<Rightarrow> breaker" where
  "do_op (Fail m t) b = record_failure m t b"
| "do_op (Ok m t) b = record_success m b"
| "do_op (Ask m t) b = snd (is_open m t b)"

text \<open>What the window is meant to hold: the failures of the model since its last success.\<close>

fun spec_op :: "string \<Rightarrow> breaker_op \<Rightarrow> rat list \<Rightarrow> rat list" where
  "spec_op m (Fail m' t) xs = (if m' = m then xs @ [t] else xs)"
| "spec_op m (Ok m' t) xs = (if m' = m then [] else xs)"
| "spec_op m (Ask m' t) xs = xs"

definition failures_since_success :: "string \<Rightarrow> breaker_op list \<Rightarrow> rat list" where
  "failures_since_success m ops = fold (spec_op m) ops []"

lemma do_op_fields [simp]:
  "b_threshold (do_op op b) = b_threshold b" "b_timeout (do_op op b) = b_timeout b" "b_enabled (do_op op b) = b_enabled b"
  by (cases op; simp)+

lemma fold_op_fields [simp]:
  "b_threshold (fold do_op ops b) = b_threshold b" "b_timeout (fold do_op ops b) = b_timeout b"
  "b_enabled (fold do_op ops b) = b_enabled b"
  by (induction ops arbitrary: b) auto

lemma breaker_simulation:
  assumes "b_enabled b" "sorted (map op_time ops @ [now])"
    and "\<And>t. t \<ge> hd (map op_time ops @ [now]) \<Longrightarrow>
       filter (in_window (b_timeout b) t) (failures_of b m) = filter (in_window (b_timeout b) t) xs"
  shows "filter (in_window (b_timeout b) now) (failures_of (fold do_op ops b) m) =
         filter (in_window (b_timeout b) now) (fold (spec_op m) ops xs)"
  using assms
proof (induction ops arbitrary: b xs)
  case (Cons op ops)
  let ?w = "in_window (b_timeout b)"
  have later: "op_time op \<le> hd (map op_time ops @ [now])"
    using Cons.prems(2) by (cases ops) auto
  have step: "filter (?w t) (failures_of (do_op op b) m) = filter (?w t) (spec_op m op xs)"
    if t: "t \<ge> hd (map op_time ops @ [now])" for t
  proof -
    from t later have le: "op_time op \<le> t" by simp
    then have old: "filter (?w t) (failures_of b m) = filter (?w t) xs"
      using Cons.prems(3) by simp
    show ?thesis
    proof (cases op)
      case (Fail m' u)
      with old Cons.prems(1) show ?thesis by (simp add: failures_failure)
    next
      case (Ok m' u)
      with old Cons.prems(1) show ?thesis by (simp add: failures_success)
    next
      case (Ask m' u)
      have "failures_of (do_op op b) m =
          (if m = m' then filter (?w u) (failures_of b m) else failures_of b m)"
        using Ask Cons.prems(1) by (simp add: is_open_def Let_def failures_prune)
      with Ask le old show ?thesis by (auto simp: window.prune_prune simp del: filter_filter)
    qed
  qed
  from Cons.IH [of "do_op op b" "spec_op m op xs"] Cons.prems step show ?case by simp
qed simp

lemma is_open_failures:
  "b_enabled b \<Longrightarrow> fst (is_open m now b) \<longleftrightarrow>
     int (length (filter (in_window (b_timeout b) now) (failures_of b m))) \<ge> b_threshold b"
  using failures_prune [of m now b m] by (simp add: is_open_def Let_def failures_of_def)

section \<open>Rate limiter\<close>

record rate_limiter =
  l_max :: int
  l_window :: rat
  l_requests :: "(string, rat list) dict"

definition make_limiter :: "int \<Rightarrow> rat \<Rightarrow> py_error + rate_limiter" where
  "make_limiter mx w =
     (if mx \<le> 0 then Inl (ValueError ''max_requests must be > 0'')
      else if w \<le> 0 then Inl (ValueError ''window_seconds must be > 0'')
      else Inr \<lparr>l_max = mx, l_window = w, l_requests = []\<rparr>)"

definition allow :: "string \<Rightarrow> rat \<Rightarrow> rate_limiter \<Rightarrow> bool \<times> rate_limiter" where
  "allow key now l =
     (let q = dropWhile (\<lambda>t. t < now - l_window l) (dget_or (l_requests l) key [])
      in if int (length q) \<ge> l_max l then (False, l\<lparr>l_requests := dset key q (l_requests l)\<rparr>)
         else (True, l\<lparr>l_requests := dset key (q @ [now]) (l_requests l)\<rparr>))"

definition reset_limiter :: "rate_limiter \<Rightarrow> rate_limiter" where
  "reset_limiter l = l\<lparr>l_requests := []\<rparr>"

text \<open>A run over requests (client, time): the times at which a client was let through.\<close>

fun run_limiter :: "(string \<times> rat) list \<Rightarrow> rate_limiter \<Rightarrow> (string \<times> rat) list" where
  "run_limiter [] l = []"
| "run_limiter ((k, t) # rs) l =
     (case allow k t l of (ok, l') \<Rightarrow> (if ok then [(k, t)] else []) @ run_limiter rs l')"

definition let_through :: "string \<Rightarrow> (string \<times> rat) list \<Rightarrow> rate_limiter \<Rightarrow> rat list" where
  "let_through k rs l = map snd (filter (\<lambda>(k', _). k' = k) (run_limiter rs l))"

definition queue_of :: "rate_limiter \<Rightarrow> string \<Rightarrow> rat list" where
  "queue_of l k = dget_or (l_requests l) k []"

lemma allow_fields [simp]:
  "l_max (snd (allow k t l)) = l_max l" "l_window (snd (allow k t l)) = l_window l"
  by (simp_all add: allow_def Let_def)

lemma queue_allow:
  assumes "sorted (queue_of l k)"
  shows "fst (allow k t l) \<longleftrightarrow> int (length (filter (in_window (l_window l) t) (queue_of l k))) < l_max l"
    and "queue_of (snd (allow k t l)) k' =
       (if k' = k then filter (in_window (l_window l) t) (queue_of l k) @ (if fst (allow k t l) then [t] else [])
        else queue_of l k')"
proof -
  have "(\<lambda>u. u < t - l_window l) = (\<lambda>u. \<not> in_window (l_window l) t u)"
    by (auto simp: in_window_def)
  then have "dropWhile (\<lambda>u. u < t - l_window l) (queue_of l k) = filter (in_window (l_window l) t) (queue_of l k)"
    using window.pop_is_prune [OF assms] by simp
  then show "fst (allow k t l) \<longleftrightarrow> int (length (filter (in_window (l_window l) t) (queue_of l k))) < l_max l"
    "queue_of (snd (allow k t l)) k' =
       (if k' = k then filter (in_window (l_window l) t) (queue_of l k) @ (if fst (allow k t l) then [t] else [])
        else queue_of l k')"
    by (auto simp: allow_def Let_def queue_of_def)
qed

text \<open>The limiter after a run, and the simulation: each queue holds, up to what has expired, the
  times its client was let through.\<close>

definition limiter_after :: "(string \<times> rat) list \<Rightarrow> rate_limiter \<Rightarrow> rate_limiter" where
  "limiter_after rs l = fold (\<lambda>(k, t) l. snd (allow k t l)) rs l"

lemma limiter_after_snoc: "limiter_after (rs @ [(k, t)]) l = snd (allow k t (limiter_after rs l))"
  by (simp add: limiter_after_def)

lemma limiter_after_fields [simp]:
  "l_max (limiter_after rs l) = l_max l" "l_window (limiter_after rs l) = l_window l"
  by (induction rs rule: rev_induct) (auto simp: limiter_after_snoc, simp_all add: limiter_after_def)

lemma run_limiter_snoc:
  "run_limiter (rs @ [(k, t)]) l =
     run_limiter rs l @ (if fst (allow k t (limiter_after rs l)) then [(k, t)] else [])"
  by (induction rs arbitrary: l) (auto simp: limiter_after_def split: prod.splits)

lemma let_through_snoc:
  "let_through k (rs @ [(k', t)]) l =
     let_through k rs l @ (if k' = k \<and> fst (allow k t (limiter_after rs l)) then [t] else [])"
  by (auto simp: let_through_def run_limiter_snoc)

lemma limiter_simulation:
  assumes "l_requests l = []" "sorted (map snd rs)"
  shows "sorted (queue_of (limiter_after rs l) k) \<and>
    (\<forall>u \<in> set (queue_of (limiter_after rs l) k). \<forall>t. (\<forall>r \<in> set rs. snd r \<le> t) \<longrightarrow> u \<le> t) \<and>
    (\<forall>t. (\<forall>r \<in> set rs. snd r \<le> t) \<longrightarrow>
       filter (in_window (l_window l) t) (queue_of (limiter_after rs l) k) =
       filter (in_window (l_window l) t) (let_through k rs l))"
  using assms(2)
proof (induction rs rule: rev_induct)
  case Nil
  show ?case using assms(1) by (simp add: limiter_after_def let_through_def queue_of_def)
next
  case (snoc r rs)
  obtain k' t where r: "r = (k', t)" by fastforce
  let ?l = "limiter_after rs l"
  have bef: "\<forall>r \<in> set rs. snd r \<le> t" and srt: "sorted (map snd rs)"
    using snoc.prems r by (auto simp: sorted_append)
  note IH = snoc.IH [OF srt]
  show ?case
  proof (cases "k' = k")
    case False
    then have "queue_of (limiter_after (rs @ [r]) l) k = queue_of ?l k"
      using r by (simp add: limiter_after_snoc queue_of_def allow_def Let_def)
    with False IH r show ?thesis by (auto simp: let_through_snoc)
  next
    case True
    have q: "queue_of (limiter_after (rs @ [r]) l) k =
        filter (in_window (l_window l) t) (queue_of ?l k) @ (if fst (allow k t ?l) then [t] else [])"
      using queue_allow(2) [of ?l k t k] IH True r by (simp add: limiter_after_snoc)
    have "sorted (queue_of (limiter_after (rs @ [r]) l) k)"
    proof -
      have srt: "sorted (queue_of ?l k)" and up: "\<forall>u \<in> set (queue_of ?l k). u \<le> t"
        using IH bef by blast+
      from srt have "sorted (filter (in_window (l_window l) t) (queue_of ?l k))"
        using sorted_filter [of id] by simp
      with up show ?thesis unfolding q by (auto simp only: sorted_append set_filter) auto
    qed
    moreover have "\<forall>u \<in> set (queue_of (limiter_after (rs @ [r]) l) k). \<forall>v. (\<forall>r' \<in> set (rs @ [r]). snd r' \<le> v) \<longrightarrow> u \<le> v"
      using IH r unfolding q by (simp only: set_append set_filter) auto
    moreover have "filter (in_window (l_window l) v) (queue_of (limiter_after (rs @ [r]) l) k) =
        filter (in_window (l_window l) v) (let_through k (rs @ [r]) l)"
      if v: "\<forall>r' \<in> set (rs @ [r]). snd r' \<le> v" for v
    proof -
      have le: "t \<le> v" using v r by simp
      have "filter (in_window (l_window l) v) (filter (in_window (l_window l) t) (queue_of ?l k)) =
          filter (in_window (l_window l) v) (let_through k rs l)"
        using IH v by (subst window.prune_prune [OF le]) auto
      then show ?thesis unfolding q using True r by (simp add: let_through_snoc del: filter_filter)
    qed
    ultimately show ?thesis by blast
  qed
qed

section \<open>Fingerprint index\<close>

record fingerprint_index =
  f_ttl :: rat
  f_entries :: "(string, string \<times> rat) dict"

definition make_index :: "rat \<Rightarrow> py_error + fingerprint_index" where
  "make_index ttl =
     (if ttl \<le> 0 then Inl (ValueError ''ttl_seconds must be > 0'') else Inr \<lparr>f_ttl = ttl, f_entries = []\<rparr>)"

definition index_lookup :: "string \<Rightarrow> rat \<Rightarrow> fingerprint_index \<Rightarrow> string option \<times> fingerprint_index" where
  "index_lookup fp now ix =
     (if fp = [] then (None, ix)
      else case dget (f_entries ix) fp of
        None \<Rightarrow> (None, ix)
      | Some (inc, seen) \<Rightarrow>
          (if now - seen > f_ttl ix then (None, ix\<lparr>f_entries := dpop fp (f_entries ix)\<rparr>)
           else (Some inc, ix)))"

definition index_reserve :: "string \<Rightarrow> string \<Rightarrow> rat \<Rightarrow> fingerprint_index \<Rightarrow> fingerprint_index" where
  "index_reserve fp inc now ix =
     (if fp = [] then ix else ix\<lparr>f_entries := dset fp (inc, now) (f_entries ix)\<rparr>)"

definition index_reset :: "fingerprint_index \<Rightarrow> fingerprint_index" where
  "index_reset ix = ix\<lparr>f_entries := []\<rparr>"

definition index_size :: "fingerprint_index \<Rightarrow> nat" where
  "index_size ix = length (f_entries ix)"

section \<open>Properties\<close>

text \<open>C18: the circuit breaker implements its sliding window. After any time-ordered history of
  reported failures, successes and questions about any models, the circuit of a model is open
  iff at least the threshold of its failures since its last success are no older than the
  timeout; pruning on a question never changes a later answer.\<close>

theorem circuit_breaker_window:
  assumes "make_breaker th w True = Inr b" "sorted (map op_time ops @ [now])"
  shows "fst (is_open m now (fold do_op ops b)) \<longleftrightarrow>
    int (length (filter (\<lambda>t. t \<ge> now - w) (failures_since_success m ops))) \<ge> th"
proof -
  from assms(1) have b: "b_threshold b = th" "b_timeout b = w" "b_enabled b" "failures_of b m = []"
    by (auto simp: make_breaker_def failures_of_def split: if_splits)
  have "fst (is_open m now (fold do_op ops b)) \<longleftrightarrow>
      int (length (filter (in_window w now) (failures_of (fold do_op ops b) m))) \<ge> th"
    using is_open_failures [of "fold do_op ops b" m now] b by simp
  also have "filter (in_window w now) (failures_of (fold do_op ops b) m) =
      filter (in_window w now) (failures_since_success m ops)"
    using breaker_simulation [of b ops now m "[]"] b assms(2) by (simp add: failures_since_success_def)
  finally show ?thesis by (simp add: in_window_le)
qed

lemma circuit_breaker_window_witness:
  "fst (is_open ''m'' 70 (fold do_op [Fail ''m'' 0, Fail ''m'' 20, Ask ''m'' 65, Fail ''m'' 66]
      \<lparr>b_threshold = 2, b_timeout = 60, b_enabled = True, b_failures = []\<rparr>))"
  by (subst circuit_breaker_window [where th = 2 and w = 60])
     (simp_all add: make_breaker_def failures_since_success_def)

text \<open>C19: the rate limiter lets a request through iff fewer than the maximum of the same client's
  requests were let through within the window before it, whatever other clients do.\<close>

theorem rate_limiter_window:
  assumes "make_limiter mx w = Inr l" "sorted (map snd rs @ [now])"
  shows "fst (allow k now (limiter_after rs l)) \<longleftrightarrow>
      int (length (filter (\<lambda>t. t \<ge> now - w) (let_through k rs l))) < mx"
proof -
  from assms(1) have l: "l_max l = mx" "l_window l = w" "l_requests l = []"
    by (auto simp: make_limiter_def split: if_splits)
  have srt: "sorted (map snd rs)" and bef: "\<forall>r \<in> set rs. snd r \<le> now"
    using assms(2) by (auto simp: sorted_append)
  note sim = limiter_simulation [OF l(3) srt, of k]
  then have "fst (allow k now (limiter_after rs l)) \<longleftrightarrow>
      int (length (filter (in_window w now) (queue_of (limiter_after rs l) k))) < mx"
    using queue_allow(1) [of "limiter_after rs l" k now] l by simp
  also have "filter (in_window w now) (queue_of (limiter_after rs l) k) =
      filter (in_window w now) (let_through k rs l)"
    using sim bef l by auto
  finally show ?thesis by (simp add: in_window_le)
qed

lemma rate_limiter_window_witness:
  "\<not> fst (allow ''a'' 3 (limiter_after [(''a'', 1), (''b'', 2), (''a'', 2)] \<lparr>l_max = 2, l_window = 60, l_requests = []\<rparr>))"
  by (subst rate_limiter_window [where mx = 2 and w = 60])
     (simp_all add: make_limiter_def let_through_def allow_def Let_def)

text \<open>Deduplication by fingerprint. A reservation is found by every lookup within the time to
  live and by none after it, the empty fingerprint never reserves nor finds anything, and a
  reservation leaves the lookups of every other fingerprint unchanged.\<close>

lemma fingerprint_lifetime:
  "fst (index_lookup fp' now (index_reserve fp inc seen ix)) =
     (if fp' = [] then None
      else if fp' = fp then (if now - seen > f_ttl ix then None else Some inc)
      else fst (index_lookup fp' now ix))"
  by (auto simp: index_lookup_def index_reserve_def split: option.splits)

text \<open>The health snapshot uses a strict comparison where the gate uses \<open>>=\<close>: a failure exactly
  as old as the timeout keeps the circuit open but is not reported.\<close>

lemma snapshot_boundary:
  "let b = \<lparr>b_threshold = 1, b_timeout = 60, b_enabled = True, b_failures = [(''m'', [0])]\<rparr>
   in fst (is_open ''m'' 60 b) \<and> snapshot_open_circuits 60 b = []"
  by code_simp

end
