(* ===== verification/Router.thy ===== *)
theory Router
  imports Actions Windows
begin

text \<open>
  The model router, \<^verbatim>\<open>core/router.py\<close>: error taxonomy, backoff, local daily quotas,
  rotation over fallback models, token-based tier selection and the retry loop \<open>_call\<close> with
  the per-incident call budget. The provider (\<open>litellm.acompletion\<close>), the monotonic clock and
  the jitter are functions of the environment record \<open>llm_env\<close>, indexed by how often they
  have been used; the tokenizer, \<open>json.dumps\<close> and \<open>re.search\<close> are fields of the router.
  The field \<open>rs_log\<close> is the list of physical calls, a history the code does not keep.
\<close>

section \<open>Errors\<close>

text \<open>An exception of the provider: its attributes and what \<open>str\<close> prints.\<close>

record llm_error =
  le_value :: pyval
  le_text :: string

datatype category = QUOTA_EXHAUSTED | CAPACITY_EXHAUSTED | TRANSIENT | AUTHENTICATION | VALIDATION

fun category_value :: "category \<Rightarrow> string" where
  "category_value QUOTA_EXHAUSTED = ''quota_exhausted''"
| "category_value CAPACITY_EXHAUSTED = ''capacity_exhausted''"
| "category_value TRANSIENT = ''transient''"
| "category_value AUTHENTICATION = ''authentication''"
| "category_value VALIDATION = ''validation''"

text \<open>\<open>isinstance(x, int)\<close>: a bool is an int.\<close>

definition as_int_instance :: "pyval option \<Rightarrow> int option" where
  "as_int_instance v =
     (case v of Some (PInt i) \<Rightarrow> Some i | Some (PBool b) \<Rightarrow> Some (if b then 1 else 0) | _ \<Rightarrow> None)"

definition attr_or_none :: "pyval \<Rightarrow> string \<Rightarrow> pyval" where
  "attr_or_none v k = (case get_attr v k of None \<Rightarrow> PNone | Some w \<Rightarrow> w)"

definition extract_status_code :: "llm_error \<Rightarrow> int option" where
  "extract_status_code e =
     (case as_int_instance (get_attr (le_value e) ''status_code'') of
        Some i \<Rightarrow> Some i
      | None \<Rightarrow>
          (let r = attr_or_none (le_value e) ''response''
           in if r = PNone then None else as_int_instance (get_attr r ''status_code'')))"

text \<open>\<open>search p s\<close> is a compiled, case-insensitive pattern searched in a text; patterns that do
  not compile are dropped.\<close>

definition compile_patterns :: "(string \<Rightarrow> bool) \<Rightarrow> string list \<Rightarrow> string list" where
  "compile_patterns compiles ps = filter compiles ps"

definition classify_llm_error ::
  "(string \<Rightarrow> string \<Rightarrow> bool) \<Rightarrow> string list \<Rightarrow> string list \<Rightarrow> string list \<Rightarrow> llm_error \<Rightarrow> category" where
  "classify_llm_error search quota_ps capacity_ps auth_ps e =
     (let code = extract_status_code e; hit = (\<lambda>ps. list_ex (\<lambda>p. search p (le_text e)) ps)
      in if code = Some 401 then AUTHENTICATION
         else if code = Some 403 \<and> hit auth_ps then AUTHENTICATION
         else if code = Some 429 \<and> hit quota_ps then QUOTA_EXHAUSTED
         else if code = Some 503 \<and> hit capacity_ps then CAPACITY_EXHAUSTED
         else if code = Some 400 \<or> code = Some 404 then VALIDATION
         else TRANSIENT)"

section \<open>Call metrics\<close>

record llm_call_metrics =
  cm_total_calls :: nat
  cm_successful_calls :: nat
  cm_failed_calls :: nat
  cm_calls_by_model :: "(string, nat) dict"
  cm_errors_by_category :: "(string, nat) dict"
  cm_total_latency :: rat
  cm_total_backoff :: rat
  cm_total_rotations :: nat

definition zero_call_metrics :: llm_call_metrics where
  "zero_call_metrics = \<lparr>cm_total_calls = 0, cm_successful_calls = 0, cm_failed_calls = 0,
     cm_calls_by_model = [], cm_errors_by_category = [], cm_total_latency = 0, cm_total_backoff = 0,
     cm_total_rotations = 0\<rparr>"

definition bump :: "string \<Rightarrow> (string, nat) dict \<Rightarrow> (string, nat) dict" where
  "bump k d = dset k (dget_or d k 0 + 1) d"

definition cm_success :: "string \<Rightarrow> rat \<Rightarrow> llm_call_metrics \<Rightarrow> llm_call_metrics" where
  "cm_success model latency m =
     m\<lparr>cm_total_calls := cm_total_calls m + 1, cm_successful_calls := cm_successful_calls m + 1,
       cm_calls_by_model := bump model (cm_calls_by_model m),
       cm_total_latency := cm_total_latency m + latency\<rparr>"

definition cm_failure :: "string \<Rightarrow> category \<Rightarrow> llm_call_metrics \<Rightarrow> llm_call_metrics" where
  "cm_failure model cat m =
     m\<lparr>cm_total_calls := cm_total_calls m + 1, cm_failed_calls := cm_failed_calls m + 1,
       cm_calls_by_model := bump model (cm_calls_by_model m),
       cm_errors_by_category := bump (category_value cat) (cm_errors_by_category m)\<rparr>"

definition cm_backoff :: "rat \<Rightarrow> llm_call_metrics \<Rightarrow> llm_call_metrics" where
  "cm_backoff s m = m\<lparr>cm_total_backoff := cm_total_backoff m + s\<rparr>"

definition cm_rotation :: "llm_call_metrics \<Rightarrow> llm_call_metrics" where
  "cm_rotation m = m\<lparr>cm_total_rotations := cm_total_rotations m + 1\<rparr>"

definition counts_dict :: "(string, nat) dict \<Rightarrow> pyval" where
  "counts_dict d = PDict (map (\<lambda>(k, n). (k, PInt (int n))) d)"

definition cm_snapshot :: "llm_call_metrics \<Rightarrow> pydict" where
  "cm_snapshot m =
     (let rate = (if cm_total_calls m > 0 then of_nat (cm_successful_calls m) / of_nat (cm_total_calls m) else 0);
          avg = (if cm_successful_calls m > 0 then cm_total_latency m / of_nat (cm_successful_calls m) else 0)
      in [(''total_calls'', PInt (int (cm_total_calls m))),
          (''successful_calls'', PInt (int (cm_successful_calls m))),
          (''failed_calls'', PInt (int (cm_failed_calls m))),
          (''success_rate'', PFloat (Fin (py_round rate 4))),
          (''avg_latency_seconds'', PFloat (Fin (py_round avg 4))),
          (''total_backoff_seconds'', PFloat (Fin (py_round (cm_total_backoff m) 3))),
          (''total_rotations'', PInt (int (cm_total_rotations m))),
          (''calls_by_model'', counts_dict (cm_calls_by_model m)),
          (''errors_by_category'', counts_dict (cm_errors_by_category m))])"

section \<open>The router\<close>

record llm_config =
  lc_model_coordinator :: string
  lc_model_worker :: string
  lc_fallback_models :: pyval
  lc_model_quotas :: "(string \<times> pyval) list option"
  lc_max_retries :: int
  lc_initial_backoff :: rat
  lc_max_backoff :: rat
  lc_absolute_backoff_cap :: rat
  lc_breaker_threshold :: int
  lc_breaker_timeout :: rat
  lc_breaker_enabled :: bool
  lc_quota_patterns :: "string list"
  lc_capacity_patterns :: "string list"
  lc_auth_patterns :: "string list"
  lc_api_key :: pyval
  lc_base_url :: pyval

text \<open>Library functions the router calls.\<close>

record router_lib =
  lib_encode :: "string \<Rightarrow> nat"
  lib_dumps :: "pyval \<Rightarrow> string option"
  lib_repr :: "pyval \<Rightarrow> string"
  lib_search :: "string \<Rightarrow> string \<Rightarrow> bool"
  lib_compiles :: "string \<Rightarrow> bool"

record router =
  r_config :: llm_config
  r_lib :: router_lib
  r_threshold :: int
  r_max_calls :: int
  r_fast :: string
  r_slow :: string
  r_quotas :: "(string, int) dict"
  r_api_key :: "string option"

record router_state =
  rs_usage :: "(string, nat) dict"
  rs_usage_reset :: rat
  rs_breaker :: breaker
  rs_metrics :: llm_call_metrics
  rs_run :: "run_metrics option"
  rs_ticks :: nat
  rs_log :: "(string \<times> (llm_error option)) list"

definition default_model_quotas :: "(string, int) dict" where
  "default_model_quotas =
    [(''gemini/gemini-3.8-flash'', 20), (''gemini/gemini-3.7-flash'', 20), (''gemini/gemini-3.6-flash'', 20),
     (''gemini/gemini-3.5-flash'', 100), (''gemini/gemini-3.5-flash-lite'', 500),
     (''gemini/gemini-2.0-flash'', 1500), (''gemini/gemini-1.5-flash'', 1500), (''gemini/gemini-1.5-pro'', 50)]"

text \<open>One configured quota: what \<open>int\<close> rejects or is not positive is ignored. An infinite
  float makes \<open>int\<close> raise an overflow error, which the code does not catch.\<close>

definition add_quota :: "string \<times> pyval \<Rightarrow> (string, int) dict \<Rightarrow> py_error + (string, int) dict" where
  "add_quota kv qs =
     (case py_int (snd kv) of
        Inr q \<Rightarrow> Inr (if q \<le> 0 then qs else dset (str_strip (fst kv)) q qs)
      | Inl (OverflowError m) \<Rightarrow> Inl (OverflowError m)
      | Inl _ \<Rightarrow> Inr qs)"

definition secret_value :: "router_lib \<Rightarrow> pyval \<Rightarrow> string option" where
  "secret_value L v =
     (let resolved = (case get_attr v ''get_secret_value'' of None \<Rightarrow> v | Some w \<Rightarrow> w)
      in if v = PNone \<or> resolved = PNone then None
         else let t = str_strip (py_str (lib_repr L) resolved) in if t = [] then None else Some t)"

definition make_router ::
  "router_lib \<Rightarrow> llm_config \<Rightarrow> int \<Rightarrow> int \<Rightarrow> rat \<Rightarrow> py_error + router \<times> router_state" where
  "make_router L cfg threshold max_calls now =
     (if threshold \<le> 0 then Inl (ValueError ''threshold_tokens must be greater than zero'')
      else if max_calls \<le> 0 then Inl (ValueError ''max_llm_calls_per_incident must be greater than zero'')
      else let fast = str_strip (lc_model_coordinator cfg); slow = str_strip (lc_model_worker cfg)
           in if fast = [] \<or> slow = [] then Inl (ValueError ''Both coordinator and worker model names are required'')
              else bind_res (case lc_model_quotas cfg of None \<Rightarrow> Inr default_model_quotas
                             | Some kvs \<Rightarrow> add_all add_quota kvs default_model_quotas) (\<lambda>quotas.
                   bind_res (make_breaker (lc_breaker_threshold cfg) (lc_breaker_timeout cfg) (lc_breaker_enabled cfg)) (\<lambda>b.
                   Inr (\<lparr>r_config = cfg, r_lib = L, r_threshold = threshold, r_max_calls = max_calls,
                         r_fast = fast, r_slow = slow, r_quotas = quotas,
                         r_api_key = secret_value L (lc_api_key cfg)\<rparr>,
                        \<lparr>rs_usage = [], rs_usage_reset = now, rs_breaker = b, rs_metrics = zero_call_metrics,
                         rs_run = None, rs_ticks = 0, rs_log = []\<rparr>))))"

section \<open>Model names\<close>

definition model_map :: "router \<Rightarrow> (string, string) dict" where
  "model_map R = [(''coordinator'', r_fast R), (''auto'', r_fast R), (''fast'', r_fast R),
                  (''worker'', r_slow R), (''slow'', r_slow R)]"

definition resolve_model :: "router \<Rightarrow> string \<Rightarrow> string" where
  "resolve_model R m =
     (case dget (model_map R) (str_lower (str_strip m)) of Some x \<Rightarrow> x | None \<Rightarrow> str_strip m)"

definition raw_fallbacks :: "pyval \<Rightarrow> pyval list" where
  "raw_fallbacks v =
     (case v of
        PNone \<Rightarrow> []
      | PStr s \<Rightarrow> [PStr s]
      | PList xs \<Rightarrow> xs
      | PDict d \<Rightarrow> map (\<lambda>(k, _). PStr k) d
      | PBytes s \<Rightarrow> map (\<lambda>c. PInt (of_char c)) s
      | _ \<Rightarrow> [])"

definition configured_fallback_models :: "router \<Rightarrow> string list" where
  "configured_fallback_models R =
     keep_first [] (filter (\<lambda>m. m \<noteq> [])
       (map (\<lambda>v. resolve_model R (py_str (lib_repr (r_lib R)) v))
         (filter (\<lambda>v. v \<noteq> PNone) (raw_fallbacks (lc_fallback_models (r_config R))))))"

definition build_model_rotation :: "router \<Rightarrow> string \<Rightarrow> string list" where
  "build_model_rotation R primary =
     keep_first [] (filter (\<lambda>m. m \<noteq> []) (resolve_model R primary # configured_fallback_models R))"

section \<open>Token counts\<close>

definition count_text :: "router_lib \<Rightarrow> pyval \<Rightarrow> nat" where
  "count_text L v = (if v = PNone then 0 else lib_encode L (py_str (lib_repr L) v))"

definition count_structured :: "router_lib \<Rightarrow> pyval \<Rightarrow> nat" where
  "count_structured L v =
     lib_encode L (case lib_dumps L v of Some s \<Rightarrow> s | None \<Rightarrow> py_str (lib_repr L) v)"

definition count_item :: "router_lib \<Rightarrow> pyval \<Rightarrow> nat" where
  "count_item L item =
     (case item of
        PDict d \<Rightarrow>
          (let ty = str_lower (py_str (lib_repr L) (dget_or d ''type'' (PStr [])))
           in if ty = ''text'' then count_text L (dget_or d ''text'' PNone)
              else if ty = ''image_url'' then 2048
              else count_structured L item)
      | _ \<Rightarrow> count_text L item)"

definition count_content :: "router_lib \<Rightarrow> pyval \<Rightarrow> nat" where
  "count_content L c =
     (case c of
        PNone \<Rightarrow> 0
      | PStr s \<Rightarrow> lib_encode L s
      | PList xs \<Rightarrow> sum_list (map (count_item L) xs)
      | _ \<Rightarrow> count_structured L c)"

definition count_message :: "router_lib \<Rightarrow> pydict \<Rightarrow> nat" where
  "count_message L m =
     4 + count_text L (dget_or m ''role'' PNone) + count_text L (dget_or m ''name'' PNone)
       + count_text L (dget_or m ''tool_call_id'' PNone) + count_content L (dget_or m ''content'' PNone)
       + sum_list (map (\<lambda>k. case dget m k of None \<Rightarrow> 0 | Some v \<Rightarrow> if v = PNone then 0 else count_structured L v)
           [''tool_calls'', ''function_call''])"

definition count_tokens :: "router_lib \<Rightarrow> pydict list \<Rightarrow> pyval \<Rightarrow> pyval \<Rightarrow> nat" where
  "count_tokens L msgs tools tool_choice =
     sum_list (map (count_message L) msgs)
     + (if truthy tools then count_structured L tools else 0)
     + (if tool_choice \<noteq> PNone then count_structured L tool_choice else 0)"

definition select_model :: "router \<Rightarrow> pydict list \<Rightarrow> pyval \<Rightarrow> pyval \<Rightarrow> string" where
  "select_model R msgs tools tool_choice =
     (if int (count_tokens (r_lib R) msgs tools tool_choice) < r_threshold R then r_fast R else r_slow R)"

definition build_call_kwargs :: "router \<Rightarrow> pydict \<Rightarrow> pydict" where
  "build_call_kwargs R kw =
     (let k1 = (if \<not> has_key kw ''api_base'' \<and> has_key kw ''base_url''
                then dset ''api_base'' (dget_or kw ''base_url'' PNone) (dpop ''base_url'' kw) else kw);
          k2 = (case r_api_key R of None \<Rightarrow> k1
                | Some key \<Rightarrow> if has_key k1 ''api_key'' then k1 else dset ''api_key'' (PStr key) k1)
      in if \<not> has_key k2 ''api_base'' \<and> truthy (lc_base_url (r_config R))
         then dset ''api_base'' (lc_base_url (r_config R)) k2 else k2)"

section \<open>Backoff\<close>

definition is_digit_or_dot :: "char \<Rightarrow> bool" where
  "is_digit_or_dot c = (is_digit c \<or> c = CHR ''.'')"

text \<open>The search for \<open>try again in ([\d.]+)\s*s\<close>, case-insensitive: the number at the first
  position where the whole pattern matches.\<close>

definition try_again_at :: "string \<Rightarrow> string option" where
  "try_again_at s =
     (let pre = ''try again in ''
      in if str_startswith (str_lower s) pre
         then (let rest = drop (length pre) s; num = takeWhile is_digit_or_dot rest;
                   aft = dropWhile is_space (dropWhile is_digit_or_dot rest)
               in if num \<noteq> [] \<and> str_startswith (str_lower aft) ''s'' then Some num else None)
         else None)"

fun try_again_in :: "string \<Rightarrow> string option" where
  "try_again_in [] = None"
| "try_again_in (c # cs) = (case try_again_at (c # cs) of Some n \<Rightarrow> Some n | None \<Rightarrow> try_again_in cs)"

definition nonneg_float :: "pyval \<Rightarrow> pyfloat option" where
  "nonneg_float v =
     (case py_float v of Inl _ \<Rightarrow> None | Inr x \<Rightarrow> if pf_le (Fin 0) x then Some x else None)"

definition extract_retry_after :: "llm_error \<Rightarrow> pyfloat option" where
  "extract_retry_after e =
     (let from_text = Option.bind (try_again_in (le_text e)) (\<lambda>n. nonneg_float (PStr n))
      in case attr_or_none (attr_or_none (le_value e) ''response'') ''headers'' of
           PDict h \<Rightarrow>
             (case nonneg_float (py_or (dget_or h ''retry-after'' PNone) (dget_or h ''Retry-After'' PNone)) of
                Some x \<Rightarrow> Some x
              | None \<Rightarrow> from_text)
         | _ \<Rightarrow> from_text)"

definition float_min :: "pyfloat \<Rightarrow> rat \<Rightarrow> rat" where
  "float_min x q = (case x of Fin r \<Rightarrow> min r q | _ \<Rightarrow> q)"

definition backoff_cap :: "router \<Rightarrow> rat" where
  "backoff_cap R = min (lc_max_backoff (r_config R)) (lc_absolute_backoff_cap (r_config R))"

text \<open>\<open>u\<close> is the draw of \<open>random.uniform\<close> as a fraction of its interval.\<close>

definition compute_backoff :: "router \<Rightarrow> nat \<Rightarrow> llm_error \<Rightarrow> rat \<Rightarrow> rat" where
  "compute_backoff R attempt e u =
     (let base = (case extract_retry_after e of
                    Some x \<Rightarrow> float_min x (backoff_cap R)
                  | None \<Rightarrow>
                      min (if attempt < 3 then lc_initial_backoff (r_config R) * of_nat (attempt + 1)
                           else lc_initial_backoff (r_config R) * 2 ^ attempt) (backoff_cap R));
          base' = max 0 base
      in base' + u * (base' * (1 / 10)))"

section \<open>The call loop\<close>

datatype llm_reply = Reply pyval | ErrorReply llm_error | CancelReply

record llm_env =
  env_clock :: "nat \<Rightarrow> rat"
  env_reply :: "nat \<Rightarrow> string \<Rightarrow> pydict list \<Rightarrow> pydict \<Rightarrow> llm_reply"
  env_jitter :: "nat \<Rightarrow> rat"

definition tick :: "llm_env \<Rightarrow> router_state \<Rightarrow> rat \<times> router_state" where
  "tick E s = (env_clock E (rs_ticks s), s\<lparr>rs_ticks := Suc (rs_ticks s)\<rparr>)"

definition check_and_reset :: "llm_env \<Rightarrow> router_state \<Rightarrow> router_state" where
  "check_and_reset E s =
     (let (now, s1) = tick E s
      in if now - rs_usage_reset s1 \<ge> 86400 then s1\<lparr>rs_usage := [], rs_usage_reset := now\<rparr> else s1)"

definition get_model_usage :: "llm_env \<Rightarrow> string \<Rightarrow> router_state \<Rightarrow> nat \<times> router_state" where
  "get_model_usage E m s = (let s1 = check_and_reset E s in (dget_or (rs_usage s1) m 0, s1))"

definition increment_model_usage :: "llm_env \<Rightarrow> string \<Rightarrow> router_state \<Rightarrow> router_state" where
  "increment_model_usage E m s = (let s1 = check_and_reset E s in s1\<lparr>rs_usage := bump m (rs_usage s1)\<rparr>)"

definition is_model_at_quota :: "router \<Rightarrow> llm_env \<Rightarrow> string \<Rightarrow> router_state \<Rightarrow> bool \<times> router_state" where
  "is_model_at_quota R E m s =
     (let (n, s1) = get_model_usage E m s in (int n \<ge> dget_or (r_quotas R) m 100, s1))"

definition breaker_open :: "llm_env \<Rightarrow> string \<Rightarrow> router_state \<Rightarrow> bool \<times> router_state" where
  "breaker_open E m s =
     (if \<not> b_enabled (rs_breaker s) then (False, s)
      else let (now, s1) = tick E s; (op, b) = is_open m now (rs_breaker s1) in (op, s1\<lparr>rs_breaker := b\<rparr>))"

definition breaker_failure :: "llm_env \<Rightarrow> string \<Rightarrow> router_state \<Rightarrow> router_state" where
  "breaker_failure E m s =
     (if \<not> b_enabled (rs_breaker s) then s
      else let (now, s1) = tick E s in s1\<lparr>rs_breaker := record_failure m now (rs_breaker s1)\<rparr>)"

definition breaker_success :: "string \<Rightarrow> router_state \<Rightarrow> router_state" where
  "breaker_success m s = s\<lparr>rs_breaker := record_success m (rs_breaker s)\<rparr>"

definition upd_run :: "(run_metrics \<Rightarrow> run_metrics) \<Rightarrow> router_state \<Rightarrow> router_state" where
  "upd_run f s = s\<lparr>rs_run := map_option f (rs_run s)\<rparr>"

definition upd_metrics :: "(llm_call_metrics \<Rightarrow> llm_call_metrics) \<Rightarrow> router_state \<Rightarrow> router_state" where
  "upd_metrics f s = s\<lparr>rs_metrics := f (rs_metrics s)\<rparr>"

definition classify_error :: "router \<Rightarrow> llm_error \<Rightarrow> category" where
  "classify_error R e =
     (let L = r_lib R; C = r_config R; ok = compile_patterns (lib_compiles L)
      in classify_llm_error (lib_search L) (ok (lc_quota_patterns C)) (ok (lc_capacity_patterns C))
           (ok (lc_auth_patterns C)) e)"

text \<open>What one attempt on a model comes to: the answer, the exhausted incident budget, an error
  that stops everything, an error that gives the model up, one that is retried, a
  cancellation.\<close>

datatype attempt_result =
    Answered pyval | OverBudget string | Fatal string | GiveUp llm_error | Retry llm_error | Aborted

definition over_budget :: "router \<Rightarrow> router_state \<Rightarrow> bool" where
  "over_budget R s =
     (case rs_run s of None \<Rightarrow> False | Some m \<Rightarrow> int (rm_llm_call_count m) \<ge> r_max_calls R)"

definition budget_message :: "router \<Rightarrow> router_state \<Rightarrow> string" where
  "budget_message R s =
     ''Incident budget exhausted: exceeded LLM call budget ('' @
     (case rs_run s of None \<Rightarrow> [] | Some m \<Rightarrow> show_nat (rm_llm_call_count m)) @ ''/'' @ show_int (r_max_calls R)
     @ ''). '' @ ''quota exhausted across all candidates.''"

definition fatal_message :: "category \<Rightarrow> string \<Rightarrow> llm_error \<Rightarrow> string" where
  "fatal_message cat m e =
     ''LLM '' @ category_value cat @ '' error on '' @ m @ '': '' @ le_text e @ ''. ''
     @ ''budget exhausted, quota exhausted.''"

text \<open>The handling of a failed physical call, by category.\<close>

definition on_error ::
  "router \<Rightarrow> llm_env \<Rightarrow> string \<Rightarrow> nat \<Rightarrow> bool \<Rightarrow> rat \<Rightarrow> llm_error \<Rightarrow> router_state \<Rightarrow>
     attempt_result \<times> router_state" where
  "on_error R E model attempt final latency e s =
     (let cat = classify_error R e;
          s1 = upd_metrics (cm_failure model cat)
                 (upd_run (record_llm_latency latency) (upd_run record_llm_failure s))
      in case cat of
           QUOTA_EXHAUSTED \<Rightarrow>
             (GiveUp e, increment_model_usage E model (breaker_failure E model (upd_run (record_backoff latency) s1)))
         | CAPACITY_EXHAUSTED \<Rightarrow>
             (GiveUp e, increment_model_usage E model (breaker_failure E model (upd_run (record_backoff latency) s1)))
         | AUTHENTICATION \<Rightarrow> (Fatal (fatal_message cat model e), s1)
         | VALIDATION \<Rightarrow> (Fatal (fatal_message cat model e), s1)
         | TRANSIENT \<Rightarrow>
             (let s2 = breaker_failure E model s1
              in if final then (GiveUp e, increment_model_usage E model s2)
                 else let w = compute_backoff R attempt e (env_jitter E (length (rs_log s)))
                      in (Retry e, upd_metrics (cm_backoff w) (upd_run (record_backoff w) s2))))"

definition on_success :: "llm_env \<Rightarrow> string \<Rightarrow> rat \<Rightarrow> router_state \<Rightarrow> router_state" where
  "on_success E model latency s =
     increment_model_usage E model
       (upd_metrics (cm_success model latency)
         (breaker_success model (upd_run (record_llm_latency latency) (upd_run record_llm_success s))))"

definition log_call :: "string \<Rightarrow> llm_error option \<Rightarrow> router_state \<Rightarrow> router_state" where
  "log_call m r s = s\<lparr>rs_log := rs_log s @ [(m, r)]\<rparr>"

definition one_attempt ::
  "router \<Rightarrow> llm_env \<Rightarrow> pydict list \<Rightarrow> pydict \<Rightarrow> string \<Rightarrow> nat \<Rightarrow> bool \<Rightarrow> router_state \<Rightarrow>
     attempt_result \<times> router_state" where
  "one_attempt R E msgs kw model attempt final s =
     (if over_budget R s then (OverBudget (budget_message R s), s)
      else let (start, s1) = tick E (upd_run record_llm_call s)
           in case env_reply E (length (rs_log s)) model msgs kw of
                CancelReply \<Rightarrow> (Aborted, log_call model None s1)
              | ErrorReply e \<Rightarrow>
                  (let (stop, s2) = tick E s1
                   in on_error R E model attempt final (stop - start) e (log_call model (Some e) s2))
              | Reply v \<Rightarrow>
                  (let (stop, s2) = tick E s1
                   in (Answered v, on_success E model (stop - start) (log_call model None s2))))"

text \<open>What is left of a model after its attempts.\<close>

datatype model_result =
    Finished pyval | Stopped string | Cancelled | Next bool "llm_error option"

fun try_attempts ::
  "router \<Rightarrow> llm_env \<Rightarrow> pydict list \<Rightarrow> pydict \<Rightarrow> string \<Rightarrow> nat \<Rightarrow> nat \<Rightarrow> llm_error option \<Rightarrow>
     router_state \<Rightarrow> model_result \<times> router_state" where
  "try_attempts R E msgs kw model 0 attempt last_error s = (Next False last_error, s)"
| "try_attempts R E msgs kw model (Suc left) attempt last_error s =
     (case one_attempt R E msgs kw model attempt (left = 0) s of
        (Answered v, s1) \<Rightarrow> (Finished v, s1)
      | (OverBudget msg, s1) \<Rightarrow> (Stopped msg, s1)
      | (Fatal msg, s1) \<Rightarrow> (Stopped msg, s1)
      | (Aborted, s1) \<Rightarrow> (Cancelled, s1)
      | (GiveUp e, s1) \<Rightarrow> (Next True (Some e), s1)
      | (Retry e, s1) \<Rightarrow> try_attempts R E msgs kw model left (Suc attempt) (Some e) s1)"

datatype router_error = LLMBudgetExhausted string | RouterCancelled

definition exhausted_message :: "llm_error option \<Rightarrow> string list \<Rightarrow> string" where
  "exhausted_message last_error skipped =
     (case last_error of
        Some e \<Rightarrow> ''All configured LLM models failed: budget exhausted and ''
                  @ ''quota exhausted across all candidates. Last error: '' @ le_text e
      | None \<Rightarrow>
          if skipped \<noteq> []
          then ''All configured LLM models are at their local daily quotas (quota exhausted) or circuit-broken: ''
               @ str_join '', '' skipped @ ''. '' @ ''budget exhausted '' @ [CHR 0xE2, CHR 0x80, CHR 0x94]
               @ '' no models available.''
          else ''No LLM model was available for the request: budget exhausted, quota exhausted'')"

fun try_models ::
  "router \<Rightarrow> llm_env \<Rightarrow> pydict list \<Rightarrow> pydict \<Rightarrow> string list \<Rightarrow> llm_error option \<Rightarrow> string list \<Rightarrow>
     router_state \<Rightarrow> (router_error + pyval \<times> string) \<times> router_state" where
  "try_models R E msgs kw [] last_error skipped s =
     (Inl (LLMBudgetExhausted (exhausted_message last_error skipped)), s)"
| "try_models R E msgs kw (m # ms) last_error skipped s =
     (let (full, s1) = is_model_at_quota R E m s
      in if full then try_models R E msgs kw ms last_error (skipped @ [m]) s1
         else let (op, s2) = breaker_open E m s1
              in if op then try_models R E msgs kw ms last_error (skipped @ [m]) s2
                 else case try_attempts R E msgs kw m (nat (lc_max_retries (r_config R) + 1)) 0 last_error s2 of
                        (Finished v, s3) \<Rightarrow> (Inr (v, m), s3)
                      | (Stopped msg, s3) \<Rightarrow> (Inl (LLMBudgetExhausted msg), s3)
                      | (Cancelled, s3) \<Rightarrow> (Inl RouterCancelled, s3)
                      | (Next gave_up err, s3) \<Rightarrow>
                          try_models R E msgs kw ms err skipped
                            (if gave_up then upd_metrics cm_rotation s3 else s3))"

definition call_model ::
  "router \<Rightarrow> llm_env \<Rightarrow> string \<Rightarrow> pydict list \<Rightarrow> pydict \<Rightarrow> router_state \<Rightarrow>
     (router_error + pyval \<times> string) \<times> router_state" where
  "call_model R E model msgs kwargs s =
     (let ms = build_model_rotation R model
      in if ms = [] then (Inl (LLMBudgetExhausted ''No LLM models configured: budget exhausted, quota exhausted''), s)
         else try_models R E msgs (build_call_kwargs R kwargs) ms None [] s)"

definition acompletion ::
  "router \<Rightarrow> llm_env \<Rightarrow> pydict list \<Rightarrow> string \<Rightarrow> pydict \<Rightarrow> router_state \<Rightarrow>
     (router_error + pyval \<times> string) \<times> router_state" where
  "acompletion R E msgs model kwargs s =
     (let requested = str_strip model
      in call_model R E
           (if str_lower requested = ''auto''
            then select_model R msgs (dget_or kwargs ''tools'' PNone) (dget_or kwargs ''tool_choice'' PNone)
            else resolve_model R requested) msgs kwargs s)"

definition coordinator_call ::
  "router \<Rightarrow> llm_env \<Rightarrow> pydict list \<Rightarrow> pydict \<Rightarrow> router_state \<Rightarrow>
     (router_error + pyval \<times> string) \<times> router_state" where
  "coordinator_call R E msgs kwargs s = acompletion R E msgs ''coordinator'' kwargs s"

definition worker_call ::
  "router \<Rightarrow> llm_env \<Rightarrow> pydict list \<Rightarrow> pydict \<Rightarrow> router_state \<Rightarrow>
     (router_error + pyval \<times> string) \<times> router_state" where
  "worker_call R E msgs kwargs s = acompletion R E msgs ''worker'' kwargs s"

definition get_metrics :: "rat \<Rightarrow> router_state \<Rightarrow> pydict" where
  "get_metrics now s =
     cm_snapshot (rs_metrics s)
     @ [(''open_circuits'', PList (map PStr (snapshot_open_circuits now (rs_breaker s)))),
        (''model_usage'', counts_dict (rs_usage s))]"

section \<open>What the loop does to the history\<close>

definition calls_of :: "router_state \<Rightarrow> nat option" where
  "calls_of s = map_option rm_llm_call_count (rs_run s)"

text \<open>Steps that leave the history and the incident's call count alone.\<close>

definition quiet :: "router_state \<Rightarrow> router_state \<Rightarrow> bool" where
  "quiet s s' = (rs_log s' = rs_log s \<and> calls_of s' = calls_of s)"

lemma quiet_refl [simp]: "quiet s s"
  by (simp add: quiet_def)

lemma quiet_tick [simp]: "quiet s (snd (tick E s))"
  by (simp add: quiet_def tick_def calls_of_def)

lemma quiet_reset: "quiet s (check_and_reset E s)"
  by (simp add: quiet_def check_and_reset_def tick_def calls_of_def Let_def)

lemma quiet_upd_metrics: "quiet s (upd_metrics f s)"
  by (simp add: quiet_def upd_metrics_def calls_of_def)

lemma quiet_upd_run:
  "(\<And>m. rm_llm_call_count (f m) = rm_llm_call_count m) \<Longrightarrow> quiet s (upd_run f s)"
  by (cases "rs_run s") (simp_all add: quiet_def upd_run_def calls_of_def)

lemma quiet_increment: "quiet s (increment_model_usage E m s)"
  using quiet_reset [of s E] by (simp add: quiet_def increment_model_usage_def calls_of_def Let_def)

lemma quiet_breaker: "quiet s (breaker_failure E m s)" "quiet s (breaker_success m s)"
  by (simp_all add: quiet_def breaker_failure_def breaker_success_def tick_def calls_of_def Let_def)

lemma quiet_trans: "quiet s t \<Longrightarrow> quiet t u \<Longrightarrow> quiet s u"
  by (simp add: quiet_def)

lemmas quiet_steps = quiet_increment quiet_upd_metrics quiet_breaker quiet_upd_run

lemma quiet_on_error: "quiet s (snd (on_error R E model attempt final latency e s))"
  unfolding on_error_def Let_def
  by (cases "classify_error R e")
     (auto intro!: quiet_steps quiet_trans [OF _ quiet_increment] quiet_trans [OF _ quiet_breaker(1)]
        quiet_trans [OF _ quiet_upd_metrics] quiet_trans [OF _ quiet_upd_run] simp: frame_simps)

lemma quiet_on_success: "quiet s (on_success E model latency s)"
  unfolding on_success_def
  by (intro quiet_trans [OF _ quiet_increment] quiet_trans [OF _ quiet_upd_metrics] quiet_trans [OF _ quiet_breaker(2)]
        quiet_trans [OF _ quiet_upd_run] quiet_refl) (simp_all add: frame_simps)

lemma quiet_quota: "quiet s (snd (is_model_at_quota R E m s))"
  using quiet_reset [of s E] by (simp add: is_model_at_quota_def get_model_usage_def Let_def)

lemma quiet_open: "quiet s (snd (breaker_open E m s))"
  by (simp add: breaker_open_def quiet_def tick_def calls_of_def Let_def split: prod.splits)

text \<open>A stretch of the loop with its physical calls: the history grows by them, and the
  incident's counter by their number, never past the budget.\<close>

definition ran :: "router \<Rightarrow> router_state \<Rightarrow> router_state \<Rightarrow> (string \<times> llm_error option) list \<Rightarrow> bool" where
  "ran R s s' new =
     (rs_log s' = rs_log s @ new \<and>
      (\<forall>n. calls_of s = Some n \<longrightarrow>
         calls_of s' = Some (n + length new) \<and> n + length new \<le> max n (nat (r_max_calls R))))"

lemma ran_quiet: "quiet s s' \<Longrightarrow> ran R s s' []"
  by (auto simp: ran_def quiet_def)

lemma ran_trans:
  assumes "ran R s t xs" "ran R t u ys" shows "ran R s u (xs @ ys)"
  using assms unfolding ran_def by fastforce

lemma ran_Nil_trans: "quiet s t \<Longrightarrow> ran R t u ys \<Longrightarrow> ran R s u ys"
  using ran_trans [OF ran_quiet, of s t R u ys] by simp

lemma ran_trans_Nil: "ran R s t xs \<Longrightarrow> quiet t u \<Longrightarrow> ran R s u xs"
  using ran_trans [OF _ ran_quiet, of R s t xs u] by simp

lemma ran_call:
  assumes "\<not> over_budget R s"
  shows "ran R s (log_call m r (snd (tick E (upd_run record_llm_call s)))) [(m, r)]"
  using assms
  by (cases "rs_run s")
     (auto simp: ran_def log_call_def tick_def upd_run_def calls_of_def over_budget_def frame_simps nat_less_iff
       zless_nat_eq_int_zless)

text \<open>Which failures the loop goes on after, and which make it leave the model.\<close>

definition fast_fail :: "router \<Rightarrow> string \<times> llm_error option \<Rightarrow> bool" where
  "fast_fail R c =
     (case snd c of None \<Rightarrow> False | Some e \<Rightarrow> classify_error R e \<in> {QUOTA_EXHAUSTED, CAPACITY_EXHAUSTED})"

definition transient :: "router \<Rightarrow> string \<times> llm_error option \<Rightarrow> bool" where
  "transient R c = (case snd c of None \<Rightarrow> False | Some e \<Rightarrow> classify_error R e = TRANSIENT)"

definition may_continue :: "router \<Rightarrow> string \<times> llm_error option \<Rightarrow> bool" where
  "may_continue R c = (fast_fail R c \<or> transient R c)"

lemma one_attempt_cases:
  obtains (budget) msg where "one_attempt R E msgs kw m a final s = (OverBudget msg, s)"
    | (answered) v s' where "one_attempt R E msgs kw m a final s = (Answered v, s')" "ran R s s' [(m, None)]"
    | (aborted) s' where "one_attempt R E msgs kw m a final s = (Aborted, s')" "ran R s s' [(m, None)]"
    | (fatal) msg e s' where "one_attempt R E msgs kw m a final s = (Fatal msg, s')" "ran R s s' [(m, Some e)]"
    | (give_up) e s' where "one_attempt R E msgs kw m a final s = (GiveUp e, s')" "ran R s s' [(m, Some e)]"
        "may_continue R (m, Some e)"
    | (retry) e s' where "one_attempt R E msgs kw m a final s = (Retry e, s')" "ran R s s' [(m, Some e)]"
        "transient R (m, Some e)" "\<not> final"
proof (cases "over_budget R s")
  case True
  then show thesis using budget by (simp add: one_attempt_def)
next
  case False
  let ?s1 = "snd (tick E (upd_run record_llm_call s))"
  note call = ran_call [OF False, of m _ E]
  have twice: "log_call m r (snd (tick E t)) = snd (tick E (log_call m r t))" for r t
    by (simp add: log_call_def tick_def)
  show thesis
  proof (cases "env_reply E (length (rs_log s)) m msgs kw")
    case (Reply v)
    have "ran R s (on_success E m x (log_call m None (snd (tick E ?s1)))) [(m, None)]" for x
      unfolding twice [of None ?s1] by (rule ran_trans_Nil [OF ran_trans_Nil [OF call quiet_tick] quiet_on_success])
    with Reply False answered show thesis
      by (simp add: one_attempt_def split_beta Let_def)
  next
    case CancelReply
    with False aborted call [of None] show thesis by (simp add: one_attempt_def split_beta)
  next
    case (ErrorReply e)
    have rn: "ran R s (snd (on_error R E m a final x e (log_call m (Some e) (snd (tick E ?s1))))) [(m, Some e)]" for x
      unfolding twice [of "Some e" ?s1] by (rule ran_trans_Nil [OF ran_trans_Nil [OF call quiet_tick] quiet_on_error])
    obtain x where eq: "one_attempt R E msgs kw m a final s =
        on_error R E m a final x e (log_call m (Some e) (snd (tick E ?s1)))"
      using ErrorReply False by (simp add: one_attempt_def split_beta Let_def)
    have fst: "fst (on_error R E m a final x e t) =
        (case classify_error R e of TRANSIENT \<Rightarrow> if final then GiveUp e else Retry e
         | QUOTA_EXHAUSTED \<Rightarrow> GiveUp e | CAPACITY_EXHAUSTED \<Rightarrow> GiveUp e
         | c \<Rightarrow> Fatal (fatal_message c m e))" for t
      by (cases "classify_error R e") (simp_all add: on_error_def Let_def)
    show thesis
      using eq rn [of x] fst give_up retry fatal
      by (cases "classify_error R e"; cases final)
         (auto simp: may_continue_def transient_def fast_fail_def prod_eq_iff)
  qed
qed

lemma sorted_wrt_butlast:
  "(\<And>x. x \<in> set (butlast xs) \<Longrightarrow> \<not> P x) \<Longrightarrow> sorted_wrt (\<lambda>x y. P x \<longrightarrow> Q x y) xs"
proof (induction xs)
  case (Cons x xs)
  then show ?case by (cases "xs = []") auto
qed simp

lemma transient_not_fast [simp]: "transient R c \<Longrightarrow> \<not> fast_fail R c"
  by (auto simp: transient_def fast_fail_def split: option.splits)

text \<open>The history of one model's attempts, and of the rotation.\<close>

definition model_run ::
  "router \<Rightarrow> string \<Rightarrow> nat \<Rightarrow> (string \<times> llm_error option) list \<Rightarrow> model_result \<Rightarrow> bool" where
  "model_run R m n new res =
     (length new \<le> n \<and> (\<forall>c \<in> set new. fst c = m) \<and> (\<forall>c \<in> set (butlast new). transient R c) \<and>
      (case res of Finished v \<Rightarrow> new \<noteq> [] \<and> last new = (m, None)
       | Next _ err \<Rightarrow> (\<forall>c \<in> set new. may_continue R c)
       | _ \<Rightarrow> True))"

lemma model_run_Cons:
  "transient R (m, Some e) \<Longrightarrow> model_run R m n new res \<Longrightarrow> model_run R m (Suc n) ((m, Some e) # new) res"
  by (cases res) (auto simp: model_run_def may_continue_def)

lemma model_run_one:
  "model_run R m (Suc n) [] (Stopped msg)"
  "model_run R m (Suc n) [(m, r)] (Stopped msg)"
  "model_run R m (Suc n) [(m, r)] Cancelled"
  "model_run R m (Suc n) [(m, None)] (Finished v)"
  "may_continue R (m, r) \<Longrightarrow> model_run R m (Suc n) [(m, r)] (Next b err)"
  "model_run R m 0 [] (Next b err)"
  by (simp_all add: model_run_def)

lemma try_attempts_run:
  "try_attempts R E msgs kw m n a err s = (res, s') \<Longrightarrow> \<exists>new. ran R s s' new \<and> model_run R m n new res"
proof (induction n arbitrary: a err s)
  case 0
  then have "res = Next False err" "s' = s" by auto
  with ran_quiet [OF quiet_refl, of R s] model_run_one(6) show ?case by blast
next
  case (Suc n)
  show ?case
  proof (cases R E msgs kw m a "n = 0" s rule: one_attempt_cases)
    case (retry e t)
    with Suc.prems have "try_attempts R E msgs kw m n (Suc a) (Some e) t = (res, s')" by simp
    from Suc.IH [OF this] obtain new where "ran R t s' new" "model_run R m n new res" by blast
    with ran_trans [OF retry(2)] model_run_Cons [OF retry(3)] show ?thesis by fastforce
  qed (use Suc.prems ran_quiet [OF quiet_refl] in \<open>auto intro: model_run_one\<close>)
qed

definition rotation_run ::
  "router \<Rightarrow> string list \<Rightarrow> nat \<Rightarrow> (string \<times> llm_error option) list \<Rightarrow> (router_error + pyval \<times> string) \<Rightarrow> bool" where
  "rotation_run R ms n new res =
     (length new \<le> length ms * n \<and> fst ` set new \<subseteq> set ms \<and> (\<forall>c \<in> set (butlast new). may_continue R c) \<and>
      sorted_wrt (\<lambda>c d. fast_fail R c \<longrightarrow> fst d \<noteq> fst c) new \<and>
      (case res of Inl _ \<Rightarrow> True | Inr (v, m) \<Rightarrow> new \<noteq> [] \<and> last new = (m, None) \<and> m \<in> set ms))"

lemma rotation_run_skip: "rotation_run R ms n new res \<Longrightarrow> rotation_run R (m # ms) n new res"
  by (auto simp: rotation_run_def split: sum.splits)

lemma model_run_sorted: "model_run R m n new res \<Longrightarrow> sorted_wrt (\<lambda>c d. fast_fail R c \<longrightarrow> fst d \<noteq> fst c) new"
  by (rule sorted_wrt_butlast) (auto simp: model_run_def)

lemma rotation_run_stop:
  assumes "model_run R m n new res" "\<And>v. res = Finished v \<Longrightarrow> out = Inr (v, m)"
    "\<And>v. out = Inr v \<Longrightarrow> (\<exists>w. res = Finished w \<and> v = (w, m))"
  shows "rotation_run R (m # ms) n new out"
  using assms model_run_sorted [OF assms(1)]
  by (cases out) (auto simp: rotation_run_def model_run_def may_continue_def)

lemma rotation_run_Cons:
  assumes "model_run R m n xs (Next b err)" "rotation_run R ms n ys out" "m \<notin> set ms"
  shows "rotation_run R (m # ms) n (xs @ ys) out"
proof -
  have "\<forall>c \<in> set xs. \<forall>d \<in> set ys. fst d \<noteq> fst c"
    using assms by (auto simp: model_run_def rotation_run_def)
  with assms model_run_sorted [OF assms(1)] show ?thesis
    by (cases "ys = []")
       (auto simp: rotation_run_def model_run_def sorted_wrt_append butlast_append split: sum.splits
          dest: in_set_butlastD)
qed

lemma try_models_run:
  "distinct ms \<Longrightarrow> try_models R E msgs kw ms err sk s = (out, s') \<Longrightarrow>
     \<exists>new. ran R s s' new \<and> rotation_run R ms (nat (lc_max_retries (r_config R) + 1)) new out"
proof (induction ms arbitrary: err sk s)
  case Nil
  then show ?case using ran_quiet [OF quiet_refl] by (auto simp: rotation_run_def)
next
  case (Cons m ms)
  let ?n = "nat (lc_max_retries (r_config R) + 1)"
  obtain full s1 where q: "is_model_at_quota R E m s = (full, s1)" by fastforce
  obtain op s2 where o: "breaker_open E m s1 = (op, s2)" by fastforce
  have q1: "quiet s s1" and q2: "quiet s s2"
    using quiet_quota [of s R E m] quiet_open [of s1 E m] q o by (auto intro: quiet_trans)
  obtain res s3 where t: "try_attempts R E msgs kw m ?n 0 err s2 = (res, s3)" by fastforce
  have dist: "distinct ms" "m \<notin> set ms" using Cons.prems by auto
  show ?case
  proof (cases "full \<or> op")
    case True
    then obtain sk' sx where "try_models R E msgs kw ms err sk' sx = (out, s')" "quiet s sx"
      using Cons.prems(2) q o q1 q2 by (auto split: if_splits)
    with Cons.IH [OF dist(1)] show ?thesis by (blast intro: ran_Nil_trans rotation_run_skip)
  next
    case False
    from try_attempts_run [OF t] obtain new where new: "ran R s2 s3 new" "model_run R m ?n new res" by blast
    show ?thesis
    proof (cases res)
      case (Next b err')
      let ?s4 = "if b then upd_metrics cm_rotation s3 else s3"
      have "try_models R E msgs kw ms err' sk ?s4 = (out, s')"
        using Cons.prems(2) q o t Next False by simp
      with Cons.IH [OF dist(1)] obtain ys where ys: "ran R ?s4 s' ys" "rotation_run R ms ?n ys out" by blast
      have "quiet s3 ?s4" by (simp add: quiet_upd_metrics)
      with ys new q2 have "ran R s s' (new @ ys)" by (blast intro: ran_Nil_trans ran_trans)
      with rotation_run_Cons [OF _ ys(2) dist(2)] new Next show ?thesis by blast
    qed (use Cons.prems(2) q o t False new q2 in
          \<open>fastforce intro: ran_Nil_trans rotation_run_stop\<close>)+
  qed
qed

lemma rotation_props:
  "distinct (build_model_rotation R p)" "[] \<notin> set (build_model_rotation R p)"
  by (auto simp: build_model_rotation_def)

lemma call_model_run:
  "call_model R E p msgs kw s = (out, s') \<Longrightarrow>
     \<exists>new. ran R s s' new \<and>
       rotation_run R (build_model_rotation R p) (nat (lc_max_retries (r_config R) + 1)) new out"
  using try_models_run [OF rotation_props(1)] ran_quiet [OF quiet_refl, of R s]
  by (auto simp: call_model_def Let_def rotation_run_def split: if_splits)

section \<open>Messages\<close>

definition names_both :: "string \<Rightarrow> bool" where
  "names_both s = (str_contains s ''budget exhausted'' \<and> str_contains s ''quota exhausted'')"

lemma names_both_append [intro]: "names_both t \<Longrightarrow> names_both (s @ t)" "names_both s \<Longrightarrow> names_both (s @ t)"
  by (auto simp: names_both_def)

lemma fatal_names_both: "names_both (fatal_message cat m e)"
proof -
  have "names_both ''budget exhausted, quota exhausted.''" by code_simp
  then show ?thesis unfolding fatal_message_def by (intro names_both_append(1))
qed

lemma budget_names_both: "names_both (budget_message R s)"
proof -
  have "str_contains ''Incident budget exhausted: exceeded LLM call budget ('' ''budget exhausted''"
    "str_contains ''quota exhausted across all candidates.'' ''quota exhausted''" by code_simp+
  then show ?thesis unfolding names_both_def budget_message_def by (meson str_contains_append)
qed

lemma exhausted_names_both: "names_both (exhausted_message err sk)"
proof (cases err)
  case (Some e)
  have "str_contains ''All configured LLM models failed: budget exhausted and '' ''budget exhausted''"
    "str_contains ''quota exhausted across all candidates. Last error: '' ''quota exhausted''" by code_simp+
  with Some show ?thesis unfolding names_both_def exhausted_message_def by (simp del: append.simps) (meson str_contains_append)
next
  case None
  have "names_both ''No LLM model was available for the request: budget exhausted, quota exhausted''"
    "str_contains ''All configured LLM models are at their local daily quotas (quota exhausted) or circuit-broken: '' ''quota exhausted''"
    "str_contains ''budget exhausted '' ''budget exhausted''" by code_simp+
  with None show ?thesis unfolding names_both_def exhausted_message_def
    by (cases "sk = []") (simp_all del: append.simps, meson str_contains_append)
qed

lemma try_attempts_names_both:
  "try_attempts R E msgs kw m n a err s = (Stopped msg, s') \<Longrightarrow> names_both msg"
proof (induction n arbitrary: a err s)
  case (Suc n)
  show ?case
  proof (cases "one_attempt R E msgs kw m a (n = 0) s")
    case (Pair r t)
    have "names_both w" if "r = OverBudget w \<or> r = Fatal w" for w
      using Pair that budget_names_both fatal_names_both
      by (auto simp: one_attempt_def on_error_def Let_def split_beta split: if_splits llm_reply.splits category.splits)
    with Pair Suc show ?thesis by (cases r) auto
  qed
qed simp

lemma try_models_names_both:
  "try_models R E msgs kw ms err sk s = (Inl (LLMBudgetExhausted msg), s') \<Longrightarrow> names_both msg"
proof (induction ms arbitrary: err sk s)
  case (Cons m ms)
  then show ?case
    by (auto simp: Let_def split: prod.splits if_splits model_result.splits dest: try_attempts_names_both)
qed (auto simp: exhausted_names_both)

section \<open>Properties\<close>

text \<open>The model rotation. It starts with the requested model (an alias resolved to its tier),
  then has every configured fallback, resolved, each model once in order of first mention and no
  empty name.\<close>

lemma model_rotation:
  "build_model_rotation R p =
     (if resolve_model R p = [] then configured_fallback_models R
      else resolve_model R p # filter (\<lambda>m. m \<noteq> resolve_model R p) (configured_fallback_models R)) \<and>
   distinct (build_model_rotation R p) \<and> [] \<notin> set (build_model_rotation R p)"
proof -
  have keep: "keep_first seen xs = filter (\<lambda>x. x \<notin> set seen) xs" if "distinct xs" for seen and xs :: "string list"
    using that by (induction xs arbitrary: seen) (auto intro!: filter_cong)
  have "distinct (configured_fallback_models R)" "[] \<notin> set (configured_fallback_models R)"
    by (auto simp: configured_fallback_models_def)
  then have "filter (\<lambda>m. m \<noteq> []) (configured_fallback_models R) = configured_fallback_models R"
    by (auto simp: filter_id_conv)
  with \<open>distinct (configured_fallback_models R)\<close> show ?thesis
    using rotation_props [of R p] by (simp add: build_model_rotation_def keep)
qed

text \<open>C11: the discipline of physical calls. In one routed call the provider is called at most once
  per model of the rotation and allowed retry, only with models of the rotation; every call
  but the last one failed with a quota, capacity or transient error (an authentication or
  validation error, an answer or a cancellation is always the last), and after a quota or
  capacity error the same model is not called again. The incident's counter grows by exactly the
  number of physical calls and never past the incident's budget, and an answer is the one the
  last call gave, reported with the model that gave it.\<close>

theorem router_call_discipline:
  "case call_model R E p msgs kw s of (out, s') \<Rightarrow>
     (\<exists>new. rs_log s' = rs_log s @ new \<and>
        length new \<le> length (build_model_rotation R p) * nat (lc_max_retries (r_config R) + 1) \<and>
        set (map fst new) \<subseteq> set (build_model_rotation R p) \<and>
        list_all (may_continue R) (butlast new) \<and>
        sorted_wrt (\<lambda>c d. \<not> (fast_fail R c \<and> fst d = fst c)) new \<and>
        (case calls_of s of None \<Rightarrow> True
         | Some n \<Rightarrow> calls_of s' = Some (n + length new) \<and> n + length new \<le> max n (nat (r_max_calls R))) \<and>
        (case out of Inl _ \<Rightarrow> True
         | Inr (v, m) \<Rightarrow> new \<noteq> [] \<and> last new = (m, None) \<and> m \<in> set (build_model_rotation R p)))"
proof -
  obtain out s' where eq: "call_model R E p msgs kw s = (out, s')" by fastforce
  from call_model_run [OF eq] obtain new where new: "ran R s s' new"
    "rotation_run R (build_model_rotation R p) (nat (lc_max_retries (r_config R) + 1)) new out" by blast
  have "(\<lambda>c d. \<not> (fast_fail R c \<and> fst d = fst c)) = (\<lambda>c d :: string \<times> llm_error option. fast_fail R c \<longrightarrow> fst d \<noteq> fst c)"
    by auto
  with new eq show ?thesis
    by (auto simp: ran_def rotation_run_def list_all_iff split: option.splits intro!: exI [of _ new])
qed

text \<open>What callers may match on: every budget error a routed call raises, on whichever of its
  paths, says both "budget exhausted" and "quota exhausted".\<close>

lemma budget_error_message:
  "case fst (call_model R E p msgs kw s) of Inl (LLMBudgetExhausted msg) \<Rightarrow> names_both msg | _ \<Rightarrow> True"
proof -
  have "names_both ''No LLM models configured: budget exhausted, quota exhausted''" by code_simp
  moreover have "names_both msg"
    if "fst (try_models R E msgs kw' ms err sk t) = Inl (LLMBudgetExhausted msg)" for kw' ms err sk t msg
    using that try_models_names_both by (metis prod.collapse)
  ultimately show ?thesis
    by (auto simp: call_model_def Let_def split: sum.splits router_error.splits)
qed

text \<open>The length of a backoff. It is never negative and at most one tenth above the smaller of the
  two caps (the jitter is added after capping, so the absolute cap itself can be exceeded), for
  every attempt and every hint of the provider.\<close>

lemma backoff_bounds:
  assumes "0 \<le> u" "u \<le> 1"
  shows "0 \<le> compute_backoff R attempt e u \<and>
    compute_backoff R attempt e u \<le> max 0 (backoff_cap R) * (11 / 10)"
proof -
  define base where "base = max 0 (case extract_retry_after e of
      Some x \<Rightarrow> float_min x (backoff_cap R)
    | None \<Rightarrow> min (if attempt < 3 then lc_initial_backoff (r_config R) * of_nat (attempt + 1)
                else lc_initial_backoff (r_config R) * 2 ^ attempt) (backoff_cap R))"
  have eq: "compute_backoff R attempt e u = base + u * (base * (1 / 10))"
    by (simp add: compute_backoff_def base_def Let_def)
  have lo: "0 \<le> base" by (simp add: base_def)
  have hi: "base \<le> max 0 (backoff_cap R)"
    by (auto simp: base_def float_min_def split: option.splits pyfloat.splits)
  have "u * (base * (1 / 10)) \<le> base * (1 / 10)"
    using assms lo by (simp add: mult_left_le_one_le)
  moreover have "0 \<le> u * (base * (1 / 10))" using assms lo by simp
  ultimately show ?thesis using lo hi unfolding eq by simp
qed

text \<open>The default configuration, with a tokenizer that counts characters and no patterns.\<close>

definition default_config :: llm_config where
  "default_config =
    \<lparr>lc_model_coordinator = ''gemini/gemini-3.8-flash'', lc_model_worker = ''gemini/gemini-3.8-flash'',
     lc_fallback_models = PList [PStr ''gemini/gemini-3.5-flash-lite''], lc_model_quotas = None,
     lc_max_retries = 3, lc_initial_backoff = 1, lc_max_backoff = 30, lc_absolute_backoff_cap = 30,
     lc_breaker_threshold = 5, lc_breaker_timeout = 60, lc_breaker_enabled = True,
     lc_quota_patterns = [], lc_capacity_patterns = [], lc_auth_patterns = [],
     lc_api_key = PStr ''key'', lc_base_url = PNone\<rparr>"

definition example_lib :: router_lib where
  "example_lib = \<lparr>lib_encode = length, lib_dumps = (\<lambda>_. None), lib_repr = (\<lambda>_. []),
     lib_search = (\<lambda>p s. str_contains s p), lib_compiles = (\<lambda>_. True)\<rparr>"

definition default_router :: router where
  "default_router = \<lparr>r_config = default_config, r_lib = example_lib, r_threshold = 6000, r_max_calls = 15,
     r_fast = ''gemini/gemini-3.8-flash'', r_slow = ''gemini/gemini-3.8-flash'',
     r_quotas = default_model_quotas, r_api_key = Some ''key''\<rparr>"

text \<open>At the default configuration the sixth attempt may sleep 33 seconds, over the cap of 30.\<close>

lemma backoff_bounds_witness:
  "compute_backoff default_router 5 \<lparr>le_value = PNone, le_text = []\<rparr> 1 = 33 \<and>
   compute_backoff default_router 5 \<lparr>le_value = PNone, le_text = []\<rparr> 1 \<le> max 0 30 * (11 / 10)"
proof -
  have "compute_backoff default_router 5 \<lparr>le_value = PNone, le_text = []\<rparr> 1 = 33" by code_simp
  moreover have "backoff_cap default_router = 30" by code_simp
  ultimately show ?thesis
    using backoff_bounds [of 1 default_router 5 "\<lparr>le_value = PNone, le_text = []\<rparr>"] by simp
qed

end
