(* ===== verification/Cost.thy ===== *)
theory Cost
  imports PyValue
begin

text \<open>
  Cost accounting, \<^verbatim>\<open>core/cost.py\<close>. LiteLLM's price table is the field
  \<open>ce_litellm\<close> (absent when the package is not installed, \<open>None\<close> when a lookup raises);
  the two environment variables are the pair \<open>ce_env_rates\<close>.
\<close>

record price_config =
  pc_model_coordinator :: string
  pc_input_coordinator :: rat
  pc_output_coordinator :: rat
  pc_input_worker :: rat
  pc_output_worker :: rat

record cost_env =
  ce_litellm :: "(string \<Rightarrow> int \<Rightarrow> int \<Rightarrow> (rat \<times> rat) option) option"
  ce_env_rates :: "rat \<times> rat"

definition usage_value :: "pyval \<Rightarrow> string \<Rightarrow> pyval \<Rightarrow> pyval" where
  "usage_value u name d =
     (case u of PDict m \<Rightarrow> dget_or m name d | _ \<Rightarrow> (case get_attr u name of None \<Rightarrow> d | Some v \<Rightarrow> v))"

definition non_negative_int :: "pyval \<Rightarrow> int" where
  "non_negative_int v =
     (case v of
        PNone \<Rightarrow> 0
      | PBool _ \<Rightarrow> 0
      | _ \<Rightarrow> (case py_int v of Inl _ \<Rightarrow> 0 | Inr i \<Rightarrow> max 0 i))"

definition cached_prompt_tokens :: "pyval \<Rightarrow> int" where
  "cached_prompt_tokens u =
     (let details = usage_value u ''prompt_tokens_details'' PNone
      in if details = PNone then 0 else non_negative_int (usage_value details ''cached_tokens'' (PInt 0)))"

definition canonical_model_id :: "string \<Rightarrow> string" where
  "canonical_model_id m = str_lower (str_strip m)"

text \<open>\<open>s.rsplit("/", 1)[-1]\<close>\<close>

definition after_slash :: "string \<Rightarrow> string" where
  "after_slash s = rev (takeWhile (\<lambda>c. c \<noteq> CHR ''/'') (rev s))"

definition is_coordinator_model :: "string \<Rightarrow> price_config \<Rightarrow> bool" where
  "is_coordinator_model m cfg =
     (let coordinator = canonical_model_id (pc_model_coordinator cfg); resolved = canonical_model_id m
      in if coordinator = [] \<or> resolved = [] then False
         else if resolved = coordinator then True
         else after_slash resolved = after_slash coordinator)"

definition get_rates_from_config :: "string \<Rightarrow> price_config option \<Rightarrow> rat \<times> rat" where
  "get_rates_from_config m cfg =
     (case cfg of
        None \<Rightarrow> (0, 0)
      | Some c \<Rightarrow> if is_coordinator_model m c then (pc_input_coordinator c, pc_output_coordinator c)
                  else (pc_input_worker c, pc_output_worker c))"

definition compute_cost_from_counts :: "int \<Rightarrow> int \<Rightarrow> int \<Rightarrow> rat \<Rightarrow> rat \<Rightarrow> rat" where
  "compute_cost_from_counts prompt completion cached rate_in rate_out =
     (let uncached = max 0 (prompt - cached)
      in py_round (of_int uncached / 1000 * rate_in + of_int cached / 1000 * rate_in
                   + of_int completion / 1000 * rate_out) 6)"

definition content_chars :: "(pyval \<Rightarrow> string) \<Rightarrow> pydict \<Rightarrow> nat" where
  "content_chars rp m =
     (case dget_or m ''content'' (PStr []) of
        PStr s \<Rightarrow> length s
      | PList parts \<Rightarrow>
          sum_list (map (\<lambda>p. case p of PDict d \<Rightarrow> length (py_str rp (dget_or d ''text'' (PStr []))) | _ \<Rightarrow> 0) parts)
      | _ \<Rightarrow> 0)"

definition estimate_tokens_from_messages :: "(pyval \<Rightarrow> string) \<Rightarrow> pydict list \<Rightarrow> int" where
  "estimate_tokens_from_messages rp ms =
     (if ms = [] then 0 else max 1 (int (sum_list (map (content_chars rp) ms) div 4)))"

text \<open>The estimate at local rates: the configuration's, or the environment's when both are zero.\<close>

definition local_estimate :: "cost_env \<Rightarrow> price_config option \<Rightarrow> string \<Rightarrow> int \<Rightarrow> int \<Rightarrow> int \<Rightarrow> rat" where
  "local_estimate ce cfg m prompt completion cached =
     (let (i, out) = get_rates_from_config m cfg
      in if i > 0 \<or> out > 0 then compute_cost_from_counts prompt completion cached i out
         else compute_cost_from_counts prompt completion cached (fst (ce_env_rates ce)) (snd (ce_env_rates ce)))"

definition priced :: "cost_env \<Rightarrow> price_config option \<Rightarrow> string \<Rightarrow> int \<Rightarrow> int \<Rightarrow> int \<Rightarrow> rat \<times> rat" where
  "priced ce cfg m prompt completion cached =
     (case ce_litellm ce of
        None \<Rightarrow> (0, local_estimate ce cfg m prompt completion cached)
      | Some table \<Rightarrow>
         (case table m prompt completion of
            None \<Rightarrow> (0, local_estimate ce cfg m prompt completion cached)
          | Some (p, c) \<Rightarrow>
              if p + c > 0 then (p + c, p + c) else (0, local_estimate ce cfg m prompt completion cached)))"

definition calculate_cost ::
  "cost_env \<Rightarrow> price_config option \<Rightarrow> string \<Rightarrow> pyval \<Rightarrow> int \<times> int \<times> int \<times> rat \<times> rat" where
  "calculate_cost ce cfg m usage =
     (if usage = PNone then (0, 0, 0, 0, 0)
      else let prompt = non_negative_int (usage_value usage ''prompt_tokens'' (PInt 0));
               completion = non_negative_int (usage_value usage ''completion_tokens'' (PInt 0));
               cached = min (cached_prompt_tokens usage) prompt;
               (actual, estimated) = priced ce cfg m prompt completion cached
           in (prompt, completion, cached, actual, estimated))"

definition calculate_cost_from_counts ::
  "cost_env \<Rightarrow> price_config option \<Rightarrow> string \<Rightarrow> int \<Rightarrow> int \<Rightarrow> rat \<times> rat" where
  "calculate_cost_from_counts ce cfg m prompt completion = priced ce cfg m prompt completion 0"

lemma compute_cost_nonneg:
  "0 \<le> prompt \<Longrightarrow> 0 \<le> completion \<Longrightarrow> 0 \<le> cached \<Longrightarrow> 0 \<le> i \<Longrightarrow> 0 \<le> out \<Longrightarrow>
     0 \<le> compute_cost_from_counts prompt completion cached i out"
  unfolding compute_cost_from_counts_def Let_def
  by (intro py_round_nonneg add_nonneg_nonneg mult_nonneg_nonneg divide_nonneg_nonneg) auto

text \<open>Cached tokens are charged at the same rate as the others: the caching discount is not
  modelled by the code, so the count of cached tokens does not change the estimate.\<close>

lemma cached_no_discount:
  "0 \<le> cached \<Longrightarrow> cached \<le> prompt \<Longrightarrow>
     compute_cost_from_counts prompt completion cached i out = compute_cost_from_counts prompt completion 0 i out"
proof -
  assume "0 \<le> cached" "cached \<le> prompt"
  then have "of_int (max 0 (prompt - cached)) / 1000 * i + of_int cached / 1000 * i =
      of_int (max 0 (prompt - 0)) / 1000 * i + of_int 0 / 1000 * i"
    by (simp add: max_def ring_distribs(2) [symmetric] add_divide_distrib [symmetric] flip: of_int_add)
  then show ?thesis unfolding compute_cost_from_counts_def Let_def by (metis (no_types, lifting) add.assoc)
qed

end
