(* ===== verification/State.thy ===== *)
theory State
  imports Helpers Router Cost
begin

text \<open>
  The graph state of \<^verbatim>\<open>core/state.py\<close> and \<open>create_initial_state\<close>, the run-scoped
  \<open>GraphContext\<close>, what one node run reads from outside (the answer of the router to a list of
  messages, the clocks, the run's metrics, a resumed decision) and what it produces, and the
  usage accounting every node shares (\<^verbatim>\<open>_accumulate_usage\<close> in
  \<^verbatim>\<open>core/graph_nodes.py\<close>). A node's partial dict is the state with those fields
  updated. What a node asks is its prompt (\<open>gc_prompt\<close>, the texts of theory \<open>Prompts\<close> in the deployment), or the
  exception its writing raises.
\<close>

record agent_state =
  s_messages :: "pydict list"
  s_metadata :: incident_metadata
  s_hypotheses :: "pydict list"
  s_proposed :: "proposed_action list"
  s_executed :: "executed_action list"
  s_phase :: phase
  s_iteration_count :: int
  s_iteration_budget :: int
  s_last_top_confidence :: pyfloat
  s_stagnation_count :: int
  s_action_attempts :: int
  s_requires_approval :: bool
  s_approval_granted :: "bool option"
  s_approval_comment :: "string option"
  s_approval_requested_at :: "rat option"
  s_tokens_used :: int
  s_prompt_tokens :: int
  s_completion_tokens :: int
  s_cost :: rat
  s_estimated_cost :: rat
  s_model_usage :: "(string, int \<times> int) dict"
  s_wall_clock :: rat
  s_backoff :: rat
  s_active :: rat
  s_approval_wait :: rat
  s_started_at :: rat
  s_status :: string
  s_llm_latency :: "rat option"

definition create_initial_state :: "rat \<Rightarrow> incident_metadata \<Rightarrow> int \<Rightarrow> agent_state" where
  "create_initial_state now m budget =
    \<lparr>s_messages = [], s_metadata = m, s_hypotheses = [], s_proposed = [], s_executed = [],
     s_phase = Triage, s_iteration_count = 0, s_iteration_budget = budget,
     s_last_top_confidence = Fin 0, s_stagnation_count = 0, s_action_attempts = 0,
     s_requires_approval = False, s_approval_granted = None, s_approval_comment = None,
     s_approval_requested_at = None, s_tokens_used = 0, s_prompt_tokens = 0, s_completion_tokens = 0,
     s_cost = 0, s_estimated_cost = 0, s_model_usage = [], s_wall_clock = 0, s_backoff = 0, s_active = 0,
     s_approval_wait = 0, s_started_at = now, s_status = ''running'', s_llm_latency = None\<rparr>"

text \<open>\<open>GraphContext\<close> with the libraries the nodes call; \<open>gc_sre\<close> says whether the run's config
  carries an \<open>SREContext\<close>.\<close>

record graph_context =
  gc_registry :: tools
  gc_executor :: executor
  gc_json :: json_lib
  gc_cost :: cost_env
  gc_prompt :: "phase \<Rightarrow> agent_state \<Rightarrow> py_error + string"
  gc_sre :: bool
  gc_initial_budget :: int
  gc_stagnation_limit :: int
  gc_max_attempts :: int
  gc_confidence_propose :: rat
  gc_confidence_fast_path :: rat
  gc_min_improvement :: rat

text \<open>\<open>_llm_config\<close> reads the attribute \<open>llm_config\<close> of the context, which \<open>GraphContext\<close>
  (a dataclass with slots) does not have, so it is always None.\<close>

definition llm_config_of :: "graph_context \<Rightarrow> price_config option" where
  "llm_config_of cx = None"

text \<open>What a node run is given from outside.\<close>

record node_input =
  ni_ask :: "pydict list \<Rightarrow> router_error + pyval \<times> string"
  ni_now :: rat
  ni_clock :: clock
  ni_timestamp :: string
  ni_call_id :: string
  ni_metrics :: "run_metrics option"
  ni_decision :: "pyval option"

text \<open>What it does to tools: a call through the registry alone, or one through the executor (the
  proposal, the action handed over, the executor's events). A resume is recorded with the decision
  it carries.\<close>

datatype effect =
    RegistryCall pyval pydict bool
  | ExecutorCall proposed_action proposed_action "event list"
  | HumanDecision pyval

datatype node_result = Go agent_state | Pause pydict | Crash exn

section \<open>Usage accounting\<close>

definition add_usage :: "string \<Rightarrow> int \<Rightarrow> (string, int \<times> int) dict \<Rightarrow> (string, int \<times> int) dict" where
  "add_usage m tokens d =
     (if m = [] then d
      else let (calls, toks) = dget_or d m (0, 0) in dset m (calls + 1, toks + tokens) d)"

definition usage_counts :: "graph_context \<Rightarrow> pyval option \<Rightarrow> pydict list \<Rightarrow> py_error + int \<times> int" where
  "usage_counts cx response messages =
     (let usage = (case response of None \<Rightarrow> PNone | Some r \<Rightarrow> (case get_attr r ''usage'' of None \<Rightarrow> PNone | Some u \<Rightarrow> u));
          field = (\<lambda>k. py_int (py_or (usage_value usage k (PInt 0)) (PInt 0)))
      in bind_res (if usage = PNone then Inr 0 else field ''prompt_tokens'') (\<lambda>p.
         bind_res (if usage = PNone then Inr 0 else field ''completion_tokens'') (\<lambda>c.
           if p = 0 \<and> c = 0 \<and> messages \<noteq> []
           then (let p' = estimate_tokens_from_messages (j_repr (gc_json cx)) messages
                 in Inr (p', max 1 (p' div 10)))
           else Inr (p, c))))"

definition usage_model :: "pyval option \<Rightarrow> string \<Rightarrow> string" where
  "usage_model response model_used =
     (if model_used \<noteq> [] then model_used
      else case response of None \<Rightarrow> []
        | Some r \<Rightarrow> (case get_attr r ''model'' of Some (PStr s) \<Rightarrow> s | _ \<Rightarrow> []))"

text \<open>\<open>_accumulate_usage\<close>; \<open>messages = []\<close> is the argument None.\<close>

definition accumulate_usage ::
  "graph_context \<Rightarrow> pyval option \<Rightarrow> pydict list \<Rightarrow> string \<Rightarrow> agent_state \<Rightarrow> py_error + agent_state" where
  "accumulate_usage cx response messages model_used s =
     bind_res (usage_counts cx response messages) (\<lambda>(p, c).
       let m = usage_model response model_used;
           (actual, estimated) = calculate_cost_from_counts (gc_cost cx) (llm_config_of cx) m p c
       in Inr (s\<lparr>s_tokens_used := s_tokens_used s + p + c,
                 s_prompt_tokens := s_prompt_tokens s + p,
                 s_completion_tokens := s_completion_tokens s + c,
                 s_cost := s_cost s + actual,
                 s_estimated_cost := s_estimated_cost s + estimated,
                 s_model_usage := add_usage m (p + c) (s_model_usage s)\<rparr>))"

text \<open>The call without a response cannot fail; the nodes' error paths use it.\<close>

definition usage_without_response :: "graph_context \<Rightarrow> pydict list \<Rightarrow> agent_state \<Rightarrow> agent_state" where
  "usage_without_response cx messages s =
     (case accumulate_usage cx None messages [] s of Inr s' \<Rightarrow> s' | Inl _ \<Rightarrow> s)"

lemma usage_without_response_eq:
  "accumulate_usage cx None messages [] s = Inr (usage_without_response cx messages s)"
  by (simp add: usage_without_response_def accumulate_usage_def usage_counts_def Let_def split_beta)

text \<open>Accounting touches only its own fields.\<close>

definition same_control :: "agent_state \<Rightarrow> agent_state \<Rightarrow> bool" where
  "same_control s s' =
     (s_metadata s' = s_metadata s \<and> s_hypotheses s' = s_hypotheses s \<and> s_proposed s' = s_proposed s \<and>
      s_executed s' = s_executed s \<and> s_phase s' = s_phase s \<and> s_iteration_count s' = s_iteration_count s \<and>
      s_iteration_budget s' = s_iteration_budget s \<and> s_last_top_confidence s' = s_last_top_confidence s \<and>
      s_stagnation_count s' = s_stagnation_count s \<and> s_action_attempts s' = s_action_attempts s \<and>
      s_requires_approval s' = s_requires_approval s \<and> s_approval_granted s' = s_approval_granted s \<and>
      s_approval_requested_at s' = s_approval_requested_at s \<and> s_started_at s' = s_started_at s \<and>
      s_status s' = s_status s \<and> s_active s' = s_active s \<and> s_wall_clock s' = s_wall_clock s)"

lemma accumulate_control: "accumulate_usage cx r ms m s = Inr s' \<Longrightarrow> same_control s s'"
  by (auto simp: accumulate_usage_def bind_res_Inr_iff Let_def same_control_def split_beta)

lemma without_response_control: "same_control s (usage_without_response cx ms s)"
  using usage_without_response_eq accumulate_control by blast

lemma without_response_fields [simp, frame_simps]:
  "s_metadata (usage_without_response cx ms s) = s_metadata s"
  "s_hypotheses (usage_without_response cx ms s) = s_hypotheses s"
  "s_proposed (usage_without_response cx ms s) = s_proposed s"
  "s_executed (usage_without_response cx ms s) = s_executed s"
  "s_phase (usage_without_response cx ms s) = s_phase s"
  "s_iteration_count (usage_without_response cx ms s) = s_iteration_count s"
  "s_iteration_budget (usage_without_response cx ms s) = s_iteration_budget s"
  "s_stagnation_count (usage_without_response cx ms s) = s_stagnation_count s"
  "s_last_top_confidence (usage_without_response cx ms s) = s_last_top_confidence s"
  "s_action_attempts (usage_without_response cx ms s) = s_action_attempts s"
  "s_requires_approval (usage_without_response cx ms s) = s_requires_approval s"
  "s_approval_granted (usage_without_response cx ms s) = s_approval_granted s"
  "s_approval_requested_at (usage_without_response cx ms s) = s_approval_requested_at s"
  "s_started_at (usage_without_response cx ms s) = s_started_at s"
  "s_status (usage_without_response cx ms s) = s_status s"
  "s_active (usage_without_response cx ms s) = s_active s"
  "s_wall_clock (usage_without_response cx ms s) = s_wall_clock s"
  using without_response_control [of s cx ms] by (simp_all add: same_control_def)

section \<open>Properties\<close>

text \<open>Tokens are never lost from the totals. Accounting adds the same counts to the total and to
  the prompt and completion counters, so the total stays their sum; a failed call with messages
  is charged a positive estimate, accounting without a response cannot fail, and nothing but the
  accounting fields changes.\<close>

lemma usage_totals:
  "case accumulate_usage cx response messages m s of
     Inl e \<Rightarrow> response \<noteq> None
   | Inr s' \<Rightarrow>
       s_tokens_used s' - (s_prompt_tokens s' + s_completion_tokens s') =
         s_tokens_used s - (s_prompt_tokens s + s_completion_tokens s) \<and>
       \<not> (response = None \<and> messages \<noteq> [] \<and> s_tokens_used s' \<le> s_tokens_used s) \<and>
       same_control s s'"
proof (cases "accumulate_usage cx response messages m s")
  case (Inl e)
  have "response \<noteq> None"
  proof
    assume "response = None"
    with Inl show False by (simp add: accumulate_usage_def usage_counts_def Let_def split_beta split: if_splits)
  qed
  with Inl show ?thesis by simp
next
  case (Inr s')
  moreover have "s_tokens_used s < s_tokens_used s'" if "response = None" "messages \<noteq> []"
    using that Inr
    by (auto simp: accumulate_usage_def usage_counts_def Let_def split_beta estimate_tokens_from_messages_def)
  moreover have "s_tokens_used s' - (s_prompt_tokens s' + s_completion_tokens s') =
         s_tokens_used s - (s_prompt_tokens s + s_completion_tokens s)"
    using Inr by (auto simp: accumulate_usage_def bind_res_Inr_iff Let_def split_beta)
  ultimately show ?thesis using accumulate_control [OF Inr] by (auto simp: not_le)
qed

end
