(* ===== verification/Grammar.thy ===== *)
theory Grammar
  imports Json
begin

text \<open>
  The grammar of JSON texts, as RFC 8259 gives it, with Python's three words for the special floats: any white
  space, any way to write a character (up to 255) and a number, repeated keys. It says which texts denote a value without
  reference to the reader of theory \<open>Json\<close>; \<open>renders_loads\<close> shows that the reader takes them all.
\<close>

section \<open>The grammar\<close>

text \<open>A character of a literal: itself, after a backslash, or by its code.\<close>

inductive char_text :: "string \<Rightarrow> char \<Rightarrow> bool" where
  itself: "32 \<le> (of_char c :: nat) \<Longrightarrow> c \<noteq> CHR 0x22 \<Longrightarrow> c \<noteq> CHR 0x5C \<Longrightarrow> char_text [c] c"
| short: "(e, c) \<in> {(CHR 0x22, CHR 0x22), (CHR 0x5C, CHR 0x5C), (CHR ''/'', CHR ''/''), (CHR ''n'', CHR 0x0A),
      (CHR ''r'', CHR 0x0D), (CHR ''t'', CHR 0x09), (CHR ''f'', CHR 0x0C), (CHR ''b'', CHR 0x08)}
    \<Longrightarrow> char_text [CHR 0x5C, e] c"
| by_code: "hex_value x = Some m \<Longrightarrow> hex_value y = Some n
    \<Longrightarrow> char_text [CHR 0x5C, CHR ''u'', CHR ''0'', CHR ''0'', x, y] (char_of (16 * m + n))"

inductive literal_text :: "string \<Rightarrow> string \<Rightarrow> bool" where
  quoted: "list_all2 char_text parts s \<Longrightarrow> literal_text (CHR 0x22 # concat parts @ [CHR 0x22]) s"

text \<open>A number: the sign and the whole part, without leading zeros, then a fraction or an exponent, or both.\<close>

definition whole_part :: "string \<Rightarrow> bool" where
  "whole_part w \<longleftrightarrow> w \<noteq> [] \<and> list_all is_digit w \<and> (hd w = CHR ''0'' \<longrightarrow> w = ''0'')"

definition fraction_part :: "string \<Rightarrow> bool" where
  "fraction_part f \<longleftrightarrow> (\<exists>ds. ds \<noteq> [] \<and> list_all is_digit ds \<and> f = CHR ''.'' # ds)"

definition exponent_part :: "string \<Rightarrow> bool" where
  "exponent_part x \<longleftrightarrow>
     (\<exists>e sign ds. e \<in> {CHR ''e'', CHR ''E''} \<and> sign \<in> {[], ''+'', ''-''} \<and> ds \<noteq> [] \<and> list_all is_digit ds \<and> x = e # sign @ ds)"

inductive number_text :: "string \<Rightarrow> pyval \<Rightarrow> bool" where
  integer: "sign \<in> {[], ''-''} \<Longrightarrow> whole_part w \<Longrightarrow> int_of_text (sign @ w) = Some i \<Longrightarrow> number_text (sign @ w) (PInt i)"
| real_number: "sign \<in> {[], ''-''} \<Longrightarrow> whole_part w \<Longrightarrow> f = [] \<or> fraction_part f \<Longrightarrow> x = [] \<or> exponent_part x
    \<Longrightarrow> f \<noteq> [] \<or> x \<noteq> [] \<Longrightarrow> float_of_text (sign @ w @ f @ x) = Some q \<Longrightarrow> number_text (sign @ w @ f @ x) (PFloat q)"

abbreviation blank :: "string \<Rightarrow> bool" where
  "blank ws \<equiv> list_all json_space ws"

text \<open>
  A value, the elements of an array and the members of an object, with any white space the grammar allows.
  Of members with the same key the last one counts.
\<close>

inductive renders :: "string \<Rightarrow> pyval \<Rightarrow> bool"
  and items_text :: "string \<Rightarrow> pyval list \<Rightarrow> bool"
  and members_text :: "string \<Rightarrow> (string \<times> pyval) list \<Rightarrow> bool" where
  word: "(w, v) \<in> {(''null'', PNone), (''true'', PBool True), (''false'', PBool False), (''NaN'', PFloat NaN),
      (''Infinity'', PFloat PosInf), (''-Infinity'', PFloat NegInf)} \<Longrightarrow> renders w v"
| number: "number_text w v \<Longrightarrow> renders w v"
| literal: "literal_text p s \<Longrightarrow> renders p (PStr s)"
| no_items: "blank ws \<Longrightarrow> renders (CHR ''['' # ws @ [CHR '']'']) (PList [])"
| some_items: "items_text p vs \<Longrightarrow> renders (CHR ''['' # p @ [CHR '']'']) (PList vs)"
| no_members: "blank ws \<Longrightarrow> renders (CHR ''{'' # ws @ [CHR ''}'']) (PDict [])"
| some_members: "members_text p ms \<Longrightarrow> renders (CHR ''{'' # p @ [CHR ''}'']) (PDict (dict_of ms))"
| last_item: "blank a \<Longrightarrow> renders p v \<Longrightarrow> blank b \<Longrightarrow> items_text (a @ p @ b) [v]"
| next_item: "blank a \<Longrightarrow> renders p v \<Longrightarrow> blank b \<Longrightarrow> items_text q vs \<Longrightarrow> items_text (a @ p @ b @ CHR '','' # q) (v # vs)"
| last_member: "blank a \<Longrightarrow> literal_text p k \<Longrightarrow> blank b \<Longrightarrow> blank c \<Longrightarrow> renders q v \<Longrightarrow> blank d
    \<Longrightarrow> members_text (a @ p @ b @ CHR '':'' # c @ q @ d) [(k, v)]"
| next_member: "blank a \<Longrightarrow> literal_text p k \<Longrightarrow> blank b \<Longrightarrow> blank c \<Longrightarrow> renders q v \<Longrightarrow> blank d \<Longrightarrow> members_text r ms
    \<Longrightarrow> members_text (a @ p @ b @ CHR '':'' # c @ q @ d @ CHR '','' # r) ((k, v) # ms)"

inductive_cases renders_object: "renders p (PDict d)"

section \<open>A text of the grammar is read\<close>

lemma char_text_read:
  assumes "char_text p c"
  shows "read_one p = Some (c, [])" "p \<noteq> []" "hd p \<noteq> CHR 0x22"
proof -
  have "read_one p = Some (c, []) \<and> p \<noteq> [] \<and> hd p \<noteq> CHR 0x22"
    using assms
  proof cases
    case itself
    then show ?thesis by (simp add: read_one_def)
  next
    case (short e)
    then show ?thesis
      by (elim insertE emptyE Pair_inject; hypsubst; simp add: read_one_def char_codes flip: of_char_eq_iff [where 'a = nat])
  next
    case (by_code x m y n)
    then show ?thesis by (simp add: read_one_def read_hex_def)
  qed
  then show "read_one p = Some (c, [])" "p \<noteq> []" "hd p \<noteq> CHR 0x22" by simp_all
qed

lemma read_parts:
  assumes "list_all2 char_text parts s"
  shows "read_text (concat parts @ CHR 0x22 # t) = Some (s, t)"
  using assms
proof (induction rule: list_all2_induct)
  case (Cons p ps c s)
  then show ?case
    using char_text_read [OF Cons(1)] read_one_append [OF char_text_read(1) [OF Cons(1)]]
    by (subst read_text.simps) (simp add: hd_append)
qed (simp add: read_text.simps)

lemma literal_text_read:
  assumes "literal_text p s"
  obtains p' where "p = CHR 0x22 # p'" "\<And>t. read_text (p' @ t) = Some (s, t)"
  using assms by cases (use read_parts that in auto)

lemma digits_then:
  "list_all is_digit ds \<Longrightarrow> rest = [] \<or> \<not> is_digit (hd rest) \<Longrightarrow> takeWhile is_digit (ds @ rest) = ds \<and> dropWhile is_digit (ds @ rest) = rest"
  by (cases rest) (induction ds; auto)+

lemma exponent_read:
  assumes "x = [] \<or> exponent_part x"
  shows "read_exponent x = (x, [])"
  using assms
proof
  assume "exponent_part x"
  then obtain e sign ds where x: "e \<in> {CHR ''e'', CHR ''E''}" "sign \<in> {[], ''+'', ''-''}" "ds \<noteq> []" "list_all is_digit ds" "x = e # sign @ ds"
    unfolding exponent_part_def by blast
  obtain d ds' where ds: "ds = d # ds'" "is_digit d" using x(3, 4) by (cases ds) auto
  have "d \<noteq> CHR ''-''" "d \<noteq> CHR ''+''" using ds(2) by (auto simp: is_digit_def)
  with x(1, 2, 4) digits_then [of ds "[]"] show ?thesis
    by (auto simp: x(5) ds(1) read_exponent_def span_of_def)
qed (simp add: read_exponent_def)

lemma fraction_read:
  assumes "f = [] \<or> fraction_part f" "x = [] \<or> exponent_part x"
  shows "read_fraction (f @ x) = (f, x)"
proof -
  have x: "x = [] \<or> \<not> is_digit (hd x) \<and> hd x \<noteq> CHR ''.''" using assms(2) by (auto simp: exponent_part_def is_digit_def)
  from assms(1) show ?thesis
  proof
    assume "f = []"
    with x show ?thesis by (cases x) (auto simp: read_fraction_def span_of_def split: prod.splits)
  next
    assume "fraction_part f"
    then obtain ds where "ds \<noteq> []" "list_all is_digit ds" "f = CHR ''.'' # ds" unfolding fraction_part_def by blast
    moreover from this x have "takeWhile is_digit (ds @ x) = ds" "dropWhile is_digit (ds @ x) = x" using digits_then [of ds x] by blast+
    ultimately show ?thesis by (simp add: read_fraction_def span_of_def)
  qed
qed

lemma number_read_parts:
  assumes "sign \<in> {[], ''-''}" "whole_part w" "f = [] \<or> fraction_part f" "x = [] \<or> exponent_part x"
  shows "read_number (sign @ w @ f @ x) = number_value sign w (f @ x)"
proof -
  obtain d ds where w: "w = d # ds" "is_digit d" using assms(2) by (cases w) (auto simp: whole_part_def)
  have "d \<noteq> CHR ''-''" using w(2) by (auto simp: is_digit_def)
  then have minus: "split_minus (sign @ w @ f @ x) = (sign, w @ f @ x)" using assms(1) by (auto simp: split_minus_def w(1))
  have rest: "f @ x = [] \<or> \<not> is_digit (hd (f @ x))"
    using assms(3, 4) by (auto simp: fraction_part_def exponent_part_def is_digit_def)
  have digits: "takeWhile is_digit (w @ f @ x) = w"
    using digits_then [of w "f @ x"] assms(2) rest by (simp add: whole_part_def)
  have "(if hd w = CHR ''0'' then ''0'' else w) = w" using assms(2) by (simp add: whole_part_def)
  moreover have "w \<noteq> []" by (simp add: w(1))
  ultimately show ?thesis by (simp add: read_number_def minus digits split del: if_split)
qed

lemma number_text_read: "number_text w v \<Longrightarrow> read_number w = Some (v, [])"
proof (induction rule: number_text.induct)
  case (integer sign w i)
  then show ?case using number_read_parts [of sign w "[]" "[]"] by simp
next
  case (real_number sign w f x q)
  then show ?case
    using number_read_parts [of sign w f x] fraction_read [of f x] exponent_read [of x] by (auto simp: number_value_def)
qed

lemma reads_skip: "reads p v \<Longrightarrow> blank a \<Longrightarrow> skip_space (a @ p @ s) = p @ s"
  by (erule readsE) simp

lemma reads_start: "reads p v \<Longrightarrow> \<exists>c r. p = c # r \<and> c \<noteq> CHR '']'' \<and> skip_space (c # r @ s) = c # r @ s"
  by (cases p) (auto simp: reads_def skip_space_def)

text \<open>What a reader finds after the bracket of an array and after the brace of an object.\<close>

definition read_as_items :: "string \<Rightarrow> pyval list \<Rightarrow> bool" where
  "read_as_items p vs \<longleftrightarrow>
     (\<forall>t. \<exists>c r. skip_space (p @ CHR '']'' # t) = c # r \<and> c \<noteq> CHR '']'' \<and> read_items (c # r) = Some (vs, t))"

definition read_as_members :: "string \<Rightarrow> (string \<times> pyval) list \<Rightarrow> bool" where
  "read_as_members p ms \<longleftrightarrow>
     (\<forall>t. \<exists>r. skip_space (p @ CHR ''}'' # t) = CHR 0x22 # r \<and> read_members (CHR 0x22 # r) = Some (ms, t))"

lemma read_item:
  assumes "reads p v" "delimited s"
  shows "read_items (p @ s) =
    (case skip_space s of
       [] \<Rightarrow> None
     | d # t \<Rightarrow> if d = CHR '']'' then Some ([v], t)
               else if d = CHR '','' then map_option (\<lambda>(vs, u). (v # vs, u)) (read_items (skip_space t))
               else None)"
  by (rule readsE [OF assms(1)]) (subst read_items.simps, simp add: assms(2))

lemma read_named:
  assumes "literal_text p k" "blank b" "blank c" "reads q v" "delimited s"
  shows "read_members (p @ b @ CHR '':'' # c @ q @ s) =
    (case skip_space s of
       [] \<Rightarrow> None
     | e # w \<Rightarrow> if e = CHR ''}'' then Some ([(k, v)], w)
               else if e = CHR '','' then map_option (\<lambda>(ms, x). ((k, v) # ms, x)) (read_members (skip_space w))
               else None)"
proof (rule literal_text_read [OF assms(1)])
  fix p' assume p: "p = CHR 0x22 # p'" and lit: "\<And>t. read_text (p' @ t) = Some (k, t)"
  show ?thesis
    using readsD [OF assms(4, 5)] reads_skip [OF assms(4, 3), of s]
    by (subst read_members.simps) (simp add: p lit skip_spaces assms(2) split: list.split)
qed

lemma renders_read:
  "renders p v \<Longrightarrow> reads p v"
  "items_text q vs \<Longrightarrow> read_as_items q vs"
  "members_text r ms \<Longrightarrow> read_as_members r ms"
proof (induction rule: renders_items_text_members_text.inducts)
  case (word w v)
  then show ?case using reads_words by auto
next
  case (number w v)
  then show ?case by (intro reads_number number_text_read)
next
  case (literal p s)
  then show ?case
    by (rule literal_text_read) (simp add: reads_def json_space_def read_value.simps)
next
  case (no_items ws)
  then show ?case by (simp add: reads_def json_space_def read_value.simps skip_spaces)
next
  case (some_items p vs)
  have "read_value (CHR ''['' # p @ CHR '']'' # t) = Some (PList vs, t)" for t
  proof -
    obtain c r where "skip_space (p @ CHR '']'' # t) = c # r" "c \<noteq> CHR '']''" "read_items (c # r) = Some (vs, t)"
      using some_items.IH unfolding read_as_items_def by blast
    then show ?thesis by (subst read_value.simps) simp
  qed
  then show ?case by (simp add: reads_def json_space_def)
next
  case (no_members ws)
  then show ?case by (simp add: reads_def json_space_def read_value.simps skip_spaces)
next
  case (some_members p ms)
  have "read_value (CHR ''{'' # p @ CHR ''}'' # t) = Some (PDict (dict_of ms), t)" for t
  proof -
    obtain r where "skip_space (p @ CHR ''}'' # t) = CHR 0x22 # r" "read_members (CHR 0x22 # r) = Some (ms, t)"
      using some_members.IH unfolding read_as_members_def by blast
    then show ?thesis by (subst read_value.simps) simp
  qed
  then show ?case by (simp add: reads_def json_space_def)
next
  case (last_item a p v b)
  show ?case
    unfolding read_as_items_def
  proof (rule allI)
    fix t
    have "delimited (b @ CHR '']'' # t)" using last_item.hyps by (simp add: delimited_space closers)
    then show "\<exists>c r. skip_space ((a @ p @ b) @ CHR '']'' # t) = c # r \<and> c \<noteq> CHR '']'' \<and> read_items (c # r) = Some ([v], t)"
      using reads_start [OF last_item.IH] reads_skip [OF last_item.IH] read_item [OF last_item.IH] last_item.hyps
      by (fastforce simp: skip_spaces)
  qed
next
  case (next_item a p v b q vs)
  show ?case
    unfolding read_as_items_def
  proof (rule allI)
    fix t
    obtain c' r' where rest_read: "skip_space (q @ CHR '']'' # t) = c' # r'" "read_items (c' # r') = Some (vs, t)"
      using next_item.IH(2) unfolding read_as_items_def by blast
    have "delimited (b @ CHR '','' # q @ CHR '']'' # t)" using next_item.hyps by (simp add: delimited_space closers)
    then have "read_items (p @ b @ CHR '','' # q @ CHR '']'' # t) = Some (v # vs, t)"
      using read_item [OF next_item.IH(1)] next_item.hyps rest_read by (simp add: skip_spaces)
    then show "\<exists>c r. skip_space ((a @ p @ b @ CHR '','' # q) @ CHR '']'' # t) = c # r \<and> c \<noteq> CHR '']'' \<and> read_items (c # r) = Some (v # vs, t)"
      using reads_start [OF next_item.IH(1)] reads_skip [OF next_item.IH(1)] next_item.hyps by fastforce
  qed
next
  case (last_member a p k b c q v d)
  obtain p' where p: "p = CHR 0x22 # p'" using last_member.hyps literal_text_read by metis
  have "read_members (p @ b @ CHR '':'' # c @ q @ d @ CHR ''}'' # t) = Some ([(k, v)], t)" for t
    using last_member by (subst read_named) (auto simp: delimited_space closers skip_spaces)
  then show ?case
    using last_member.hyps by (simp add: read_as_members_def skip_spaces p)
next
  case (next_member a p k b c q v d r ms)
  obtain p' where p: "p = CHR 0x22 # p'" using next_member.hyps literal_text_read by metis
  have "read_members (p @ b @ CHR '':'' # c @ q @ d @ CHR '','' # r @ CHR ''}'' # t) = Some ((k, v) # ms, t)" for t
  proof -
    obtain r' where "skip_space (r @ CHR ''}'' # t) = CHR 0x22 # r'" "read_members (CHR 0x22 # r') = Some (ms, t)"
      using next_member.IH(2) unfolding read_as_members_def by blast
    then show ?thesis
      using next_member by (subst read_named) (auto simp: delimited_space closers skip_spaces)
  qed
  then show ?case
    using next_member.hyps by (simp add: read_as_members_def skip_spaces p)
qed

text \<open>Every text of the grammar is loaded as the value it denotes.\<close>

lemma renders_loads:
  assumes "renders p v"
  shows "json_loads p = Some v"
proof (rule readsE [OF renders_read(1) [OF assms]])
  assume skip: "\<And>s. skip_space (p @ s) = p @ s" and whole: "\<And>t. delimited t \<Longrightarrow> read_value (p @ t) = Some (v, t)"
  have "skip_space p = p" "read_value p = Some (v, [])" using skip [of "[]"] whole [of "[]"] by simp_all
  then show ?thesis by (simp add: json_loads_def, simp add: skip_space_def)
qed

end
