(* ===== verification/Answers.thy ===== *)
theory Answers
  imports Helpers Grammar
begin

text \<open>
  The \<open>json\<close> of theory \<open>Json\<close> as the library the graph's helpers call (\<open>std_json\<close>), what reading
  a model's answer gives back (\<^verbatim>\<open>parse_json_response\<close> of \<^verbatim>\<open>core/graph_helpers.py\<close>) and the digest of a
  call's arguments in an audit entry (\<open>_hash_args\<close> of \<^verbatim>\<open>safety/executor.py\<close>).
\<close>

definition std_json :: "(pyval \<Rightarrow> string) \<Rightarrow> json_lib" where
  "std_json rp =
     \<lparr>j_loads = json_loads,
      j_dumps = (\<lambda>y v. case json_dumps rp y v of Inr s \<Rightarrow> Some s | Inl _ \<Rightarrow> None),
      j_repr = rp\<rparr>"

section \<open>The text of an object is balanced\<close>

abbreviation scan_braces :: "int \<Rightarrow> bool \<Rightarrow> string \<Rightarrow> string \<Rightarrow> string option" where
  "scan_braces d in_string taken s \<equiv> scan_loop (CHR ''{'') (CHR ''}'') d in_string False taken s"

text \<open>A text the scan passes over: it ends at the depth it began with, outside any literal.\<close>

definition passes :: "string \<Rightarrow> bool" where
  "passes p \<longleftrightarrow> (\<forall>d taken s. 0 < d \<longrightarrow> scan_braces d False taken (p @ s) = scan_braces d False (rev p @ taken) s)"

lemma passes_Nil [simp]: "passes []"
  by (simp add: passes_def)

lemma passes_append: "passes p \<Longrightarrow> passes q \<Longrightarrow> passes (p @ q)"
  by (simp add: passes_def)

lemma passes_char: "c \<notin> {CHR 0x22, CHR ''{'', CHR ''}''} \<Longrightarrow> passes [c]"
  by (simp add: passes_def)

lemma passes_plain: "list_all (\<lambda>c. c \<notin> {CHR 0x22, CHR ''{'', CHR ''}''}) p \<Longrightarrow> passes p"
proof (induction p)
  case (Cons c p)
  then have "passes ([c] @ p)" by (intro passes_append passes_char) auto
  then show ?case by simp
qed simp

lemma passes_braces: "passes p \<Longrightarrow> passes (CHR ''{'' # p @ [CHR ''}''])"
  by (simp add: passes_def)

lemma scan_char_text:
  assumes "char_text p c"
  shows "scan_braces d True taken (p @ s) = scan_braces d True (rev p @ taken) s"
  using assms
proof cases
  case (by_code x m y n)
  then have "x \<noteq> CHR 0x5C" "y \<noteq> CHR 0x5C" "x \<noteq> CHR 0x22" "y \<noteq> CHR 0x22" by (auto simp: hex_value_def)
  then show ?thesis by (simp add: by_code(1))
qed auto

lemma passes_literal:
  assumes "literal_text p t"
  shows "passes p"
  using assms
proof cases
  case (quoted parts)
  from quoted(2) have "scan_braces d True taken (concat parts @ s) = scan_braces d True (rev (concat parts) @ taken) s" for d taken s
    by (induction arbitrary: taken rule: list_all2_induct) (simp_all add: scan_char_text)
  then show ?thesis by (simp add: passes_def quoted(1))
qed

lemma passes_spaces: "blank ws \<Longrightarrow> passes ws"
  by (rule passes_plain, erule list.pred_mono_strong) (auto simp: json_space_def)

lemma passes_number: "number_text w v \<Longrightarrow> passes w"
  by (rule passes_plain, rule list.pred_mono_strong [OF number_chars [OF number_text_read]])
    (auto simp: number_char_def is_digit_def)

lemma passes_brackets: "passes p \<Longrightarrow> passes (CHR ''['' # p @ [CHR '']''])"
  by (simp add: passes_def)

lemma passes_Cons: "c \<in> {CHR '','', CHR '':''} \<Longrightarrow> passes p \<Longrightarrow> passes (c # p)"
  by (auto simp: passes_def)

lemma renders_passes:
  "renders p v \<Longrightarrow> passes p"
  "items_text q vs \<Longrightarrow> passes q"
  "members_text r ms \<Longrightarrow> passes r"
proof (induction rule: renders_items_text_members_text.inducts)
  case (word w v)
  then show ?case by (intro passes_plain) auto
next
  case (number w v)
  then show ?case by (rule passes_number)
qed (auto intro!: passes_append passes_Cons passes_brackets passes_braces intro: passes_spaces passes_literal)

text \<open>From its brace, the scan takes exactly the object, whatever follows.\<close>

lemma object_shape:
  assumes "renders dump (PDict d)"
  obtains p where "dump = CHR ''{'' # p @ [CHR ''}'']" "passes p"
  by (rule renders_object [OF assms]) (use that renders_passes passes_spaces in \<open>auto dest: passes_number elim: number_text.cases\<close>)

lemma scan_object:
  assumes "renders dump (PDict d)"
  shows "scan_braces 0 False [] (dump @ s) = Some dump"
  by (rule object_shape [OF assms]) (simp add: passes_def)

section \<open>Reading an answer back\<close>

lemma first_value_skip:
  assumes "CHR ''{'' \<notin> set lead" "CHR ''['' \<notin> set lead"
  shows "first_json_from text i (lead @ s) = first_json_from text (i + length lead) s"
  using assms by (induction lead arbitrary: i) auto

lemma first_value_object:
  assumes "renders dump (PDict d)" "CHR ''{'' \<notin> set lead" "CHR ''['' \<notin> set lead"
  shows "first_json_value (lead @ dump @ trail) = Some dump"
proof -
  obtain p where p: "dump = CHR ''{'' # p @ [CHR ''}'']" by (rule object_shape [OF assms(1)])
  have "balanced_scan (lead @ dump @ trail) (int (length lead)) (CHR ''{'') (CHR ''}'') = Some dump"
    using scan_object [OF assms(1), of trail] by (simp add: balanced_scan_def p)
  then show ?thesis
    using first_value_skip [OF assms(2, 3)] by (simp add: first_json_value_def p)
qed

lemma object_strip:
  assumes "renders dump (PDict d)" "list_all is_space a" "list_all is_space b"
  shows "str_strip (a @ dump @ b) = dump"
proof -
  obtain p where p: "dump = CHR ''{'' # p @ [CHR ''}'']" by (rule object_shape [OF assms(1)])
  have braces: "\<not> is_space (CHR ''{'')" "\<not> is_space (CHR ''}'')" by (simp_all add: is_space_def)
  have drop: "dropWhile is_space (us @ s) = dropWhile is_space s" if "list_all is_space us" for us s
    using that by (simp add: dropWhile_append2 list_all_iff)
  have "list_all is_space (rev b)" using assms(3) by (simp add: list_all_iff)
  then show ?thesis
    by (simp add: p str_strip_def str_rstrip_def drop [OF assms(2)] drop braces)
qed

lemma str_strip_idem [simp]: "str_strip (str_strip s) = str_strip s"
proof -
  let ?d = "dropWhile is_space s"
  have "rev ?d = takeWhile is_space (rev ?d) @ dropWhile is_space (rev ?d)" by simp
  then have d: "?d = str_rstrip ?d @ rev (takeWhile is_space (rev ?d))"
    by (metis rev_append rev_rev_ident str_rstrip_def)
  have "dropWhile is_space (str_rstrip ?d) = str_rstrip ?d"
  proof (cases "str_rstrip ?d")
    case (Cons c r)
    with d have "?d = c # r @ rev (takeWhile is_space (rev ?d))" by simp
    then have "\<not> is_space c" unfolding dropWhile_eq_Cons_conv by (rule conjunct2)
    then show ?thesis by (simp add: Cons)
  qed simp
  then show ?thesis by (simp add: str_strip_def)
qed

lemma find_fence: "CHR 0x60 \<notin> set a \<Longrightarrow> find_at i fence (a @ fence @ b) = Some (i + length a)"
  by (induction a arbitrary: i) (auto simp: fence_def)

lemma no_fence: "\<not> sublist fence s \<Longrightarrow> find_at i fence s = None"
  by (induction s arbitrary: i) (auto simp: sublist_Cons_right fence_def)

lemma rfind_fence: "CHR 0x60 \<notin> set b \<Longrightarrow> rfind_at i fence (a @ fence @ b) = Some (i + length a)"
proof (induction a arbitrary: i)
  case Nil
  have none: "rfind_at i fence s = None" if "CHR 0x60 \<notin> set s" for i s
    using that by (induction s arbitrary: i) (auto simp: fence_def)
  show ?case using Nil none by (cases b) (simp_all add: fence_def)
qed simp

lemma strip_fence_object:
  assumes "renders dump (PDict d)" "CHR 0x60 \<notin> set lead" "CHR 0x60 \<notin> set trail" "CHR 0x0A \<notin> set tag"
    and "list_all is_space a" "list_all is_space b"
    and whole: "str_strip s = s" "s = lead @ fence @ tag @ CHR 0x0A # a @ dump @ b @ fence @ trail"
  shows "strip_code_fence s = dump"
proof -
  let ?inner = "tag @ CHR 0x0A # a @ dump @ b"
  have split: "s = lead @ fence @ ?inner @ fence @ trail" "s = (lead @ fence @ ?inner) @ fence @ trail" by (simp_all add: whole(2))
  have "find_at 0 fence s = Some (length lead)" unfolding split(1) using find_fence [OF assms(2), of 0] by simp
  moreover have "rfind_at 0 fence s = Some (length lead + 3 + length ?inner)"
    unfolding split(2) using rfind_fence [OF assms(3), of 0 "lead @ fence @ ?inner"] by (simp add: fence_def)
  moreover have "take (length ?inner) (drop (length lead + 3) s) = ?inner" unfolding split(1) by (simp add: fence_def)
  ultimately show ?thesis
    using split_once_append [OF assms(4), of "a @ dump @ b"] object_strip [OF assms(1, 5, 6)]
    by (simp add: strip_code_fence_def whole(1))
qed

text \<open>
  How a model may present the text of an object: by itself; in a code fence, with a tag or none on the line
  of the opening fence, with prose around the fence; or in prose without a fence and without a bracket before the object. In
  both presentations with prose, the text as a whole is not JSON.
\<close>

inductive wraps :: "string \<Rightarrow> string \<Rightarrow> bool" for dump where
  bare: "wraps dump dump"
| fenced: "CHR 0x60 \<notin> set lead \<Longrightarrow> CHR 0x60 \<notin> set trail \<Longrightarrow> CHR 0x0A \<notin> set tag \<Longrightarrow> list_all is_space a \<Longrightarrow> list_all is_space b
    \<Longrightarrow> lead = [] \<or> json_loads (lead @ fence @ tag @ CHR 0x0A # a @ dump @ b @ fence @ trail) = None
    \<Longrightarrow> wraps dump (lead @ fence @ tag @ CHR 0x0A # a @ dump @ b @ fence @ trail)"
| in_prose: "CHR ''{'' \<notin> set lead \<Longrightarrow> CHR ''['' \<notin> set lead \<Longrightarrow> \<not> sublist fence (lead @ dump @ trail)
    \<Longrightarrow> json_loads (lead @ dump @ trail) = None \<Longrightarrow> wraps dump (lead @ dump @ trail)"

lemma fence_not_json: "json_loads (fence @ s) = None"
  by (simp add: json_loads_def fence_def skip_space_def json_space_def read_value.simps read_scalar_def read_word_def
      read_number_def split_minus_def is_digit_def)

lemma try_parse_wrapped:
  assumes "renders dump (PDict d)" "wraps dump s" "str_strip s = s"
  shows "try_parse_json (std_json rp) s = Some (PDict d)"
proof -
  have loads: "json_loads dump = Some (PDict d)" by (rule renders_loads [OF assms(1)])
  from assms(2) show ?thesis
  proof cases
    case bare
    then show ?thesis using loads by (simp add: try_parse_json_def std_json_def)
  next
    case (fenced lead trail tag a b)
    have "strip_code_fence s = dump"
      by (rule strip_fence_object [OF assms(1) fenced(2-6) assms(3) fenced(1)])
    moreover have "json_loads s = None" using fenced(1, 7) fence_not_json by auto
    moreover from this loads have "dump \<noteq> s" by auto
    ultimately show ?thesis using loads by (simp add: try_parse_json_def std_json_def Let_def)
  next
    case (in_prose lead trail)
    have "first_json_value s = Some dump"
      unfolding in_prose(1) by (rule first_value_object [OF assms(1) in_prose(2, 3)])
    moreover have "strip_code_fence s = s"
      using no_fence in_prose(4) unfolding in_prose(1) [symmetric] by (simp add: strip_code_fence_def assms(3))
    ultimately show ?thesis using in_prose(1, 5) loads by (simp add: try_parse_json_def std_json_def)
  qed
qed

lemma wrapped_nonempty: "renders dump (PDict d) \<Longrightarrow> wraps dump s \<Longrightarrow> s \<noteq> []"
  by (erule wraps.cases, erule object_shape) (auto simp: fence_def elim!: object_shape)


text \<open>An object with spaces inside its braces and before its colon, a key with an escape, and a repeated key.\<close>

definition spaced_object :: string where
  "spaced_object =
     ''{ '' @ [CHR 0x22] @ ''a'' @ [CHR 0x22] @ '' : 1, '' @ [CHR 0x22, CHR 0x5C] @ ''u0061'' @ [CHR 0x22] @ '': [ -2.5,true ] }''"

lemma spaced_object_renders: "renders spaced_object (PDict [(''a'', PList [PFloat (Fin (- 5 / 2)), PBool True])])"
proof -
  let ?q = "[CHR 0x22]"
  have one: "renders ''1'' (PInt 1)"
  proof (rule number)
    have "int_of_text ([] @ ''1'') = Some 1" by code_simp
    from number_text.integer [OF _ _ this] show "number_text ''1'' (PInt 1)" by (simp add: whole_part_def is_digit_def)
  qed
  have half: "renders ''-2.5'' (PFloat (Fin (- 5 / 2)))"
  proof (rule number)
    have "float_of_text (''-'' @ ''2'' @ ''.5'' @ []) = Some (Fin (- 5 / 2))" by code_simp
    from number_text.real_number [OF _ _ _ _ _ this] show "number_text ''-2.5'' (PFloat (Fin (- 5 / 2)))"
      by (simp add: whole_part_def fraction_part_def is_digit_def)
  qed
  have yes: "renders ''true'' (PBool True)" by (rule word) simp
  have key: "literal_text (?q @ ''a'' @ ?q) ''a''"
    using quoted [of "[''a'']" "''a''"] by (simp add: itself)
  have escaped: "literal_text ([CHR 0x22, CHR 0x5C] @ ''u0061'' @ ?q) ''a''"
  proof -
    have "char_text (CHR 0x5C # ''u0061'') (char_of (16 * 6 + 1 :: nat))" by (rule by_code) (simp_all add: hex_value_def)
    also have "char_of (16 * 6 + 1 :: nat) = CHR ''a''" by code_simp
    finally show ?thesis using quoted [of "[CHR 0x5C # ''u0061'']" "''a''"] by simp
  qed
  have spaces: "blank '' ''" "blank []" by (simp_all add: json_space_def)
  have "items_text ('' '' @ ''-2.5'' @ [] @ CHR '','' # [] @ ''true'' @ '' '') [PFloat (Fin (- 5 / 2)), PBool True]"
    by (rule next_item [OF spaces(1) half spaces(2) last_item [OF spaces(2) yes spaces(1)]])
  from some_items [OF this] have list: "renders ''[ -2.5,true ]'' (PList [PFloat (Fin (- 5 / 2)), PBool True])" by simp
  from some_members [OF next_member [OF spaces(1) key spaces(1) spaces(1) one spaces(2)
        last_member [OF spaces(1) escaped spaces(2) spaces(1) list spaces(1)]]]
  show ?thesis by (simp add: spaced_object_def dict_of_def dset_def)
qed


section \<open>The digest of the arguments\<close>

definition audit_style :: json_style where
  "audit_style = compact_style\<lparr>jy_sort := True, jy_str := True\<rparr>"

text \<open>\<open>sha\<close> is \<open>hashlib.sha256(...).hexdigest()\<close> of a text of ASCII characters.\<close>

definition hash_args :: "(string \<Rightarrow> string) \<Rightarrow> (pyval \<Rightarrow> string) \<Rightarrow> pydict \<Rightarrow> string" where
  "hash_args sha rp args = sha (case json_dumps rp audit_style (PDict args) of Inr s \<Rightarrow> s | Inl _ \<Rightarrow> rp (PDict args))"

text \<open>The same JSON value: equal, except for the order of the members of its objects.\<close>

function same_json :: "pyval \<Rightarrow> pyval \<Rightarrow> bool" where
  "same_json a b =
     (case a of
        PList xs \<Rightarrow> (case b of PList ys \<Rightarrow> length xs = length ys \<and> (\<forall>(x, y) \<in> set (zip xs ys). same_json x y) | _ \<Rightarrow> False)
      | PDict d \<Rightarrow>
          (case b of
             PDict e \<Rightarrow> length d = length e \<and> (\<forall>(k, v) \<in> set d. case map_of e k of None \<Rightarrow> False | Some w \<Rightarrow> same_json v w)
           | _ \<Rightarrow> False)
      | _ \<Rightarrow> a = b)"
  by pat_completeness auto
termination
  by (relation "measure (\<lambda>(a, _). size a)") (auto dest: set_zip_leftD size_in_list size_in_dict)

declare same_json.simps [simp del]

lemma sorted_dicts_eq:
  fixes d e :: "(string \<times> 'a) list"
  assumes "distinct (map fst d)" "distinct (map fst e)"
  shows "sort_key fst d = sort_key fst e \<longleftrightarrow> set d = set e"
proof
  assume "set d = set e"
  have inj: "inj_on fst (set d \<union> set e)" using assms \<open>set d = set e\<close> by (simp add: distinct_map)
  have "map fst (sort_key fst d) = map fst (sort_key fst e)"
  proof (rule sorted_distinct_set_unique)
    show "set (map fst (sort_key fst d)) = set (map fst (sort_key fst e))" using \<open>set d = set e\<close> by simp
  qed (use assms in \<open>simp_all add: distinct_map\<close>)
  then show "sort_key fst d = sort_key fst e" by (rule map_inj_on) (use inj in simp)
next
  assume "sort_key fst d = sort_key fst e"
  then have "set (sort_key fst d) = set (sort_key fst e)" by simp
  then show "set d = set e" by simp
qed

lemma set_dict_eq:
  assumes "distinct (map fst d)" "distinct (map fst e)"
  shows "set d = set e \<longleftrightarrow> length d = length e \<and> (\<forall>(k, v) \<in> set d. map_of e k = Some v)"
proof -
  have card: "card (set d) = length d" "card (set e) = length e"
    using assms by (simp_all add: distinct_card distinct_map)
  have "(\<forall>(k, v) \<in> set d. map_of e k = Some v) \<longleftrightarrow> set d \<subseteq> set e" using assms(2) by auto
  moreover have "set d = set e" if "set d \<subseteq> set e" "length d = length e"
    by (rule card_subset_eq) (use that card in simp_all)
  moreover have "length d = length e" if "set d = set e" using card that by simp
  ultimately show ?thesis by blast
qed

lemma arranged_scalar:
  "PNone = arranged y b \<longleftrightarrow> PNone = b"
  "PBool c = arranged y b \<longleftrightarrow> PBool c = b"
  "PInt i = arranged y b \<longleftrightarrow> PInt i = b"
  "PFloat x = arranged y b \<longleftrightarrow> PFloat x = b"
  "PStr s = arranged y b \<longleftrightarrow> PStr s = b"
  by (cases b; simp)+

lemma same_json_arranged:
  assumes "jy_sort y" "json_ok rp a" "json_ok rp b"
  shows "same_json a b \<longleftrightarrow> arranged y a = arranged y b"
  using assms(2, 3)
proof (induction a arbitrary: b rule: pyval.induct)
  case (PList xs)
  show ?case
  proof (cases b)
    case (PList ys)
    have "same_json x z \<longleftrightarrow> arranged y x = arranged y z" if "(x, z) \<in> set (zip xs ys)" for x z
      using PList.IH [of x z] PList.prems that by (auto simp: PList list_all_iff dest: set_zip_leftD set_zip_rightD)
    then show ?thesis
      by (auto simp: PList same_json.simps list_eq_iff_zip_eq zip_map_map)
  qed (simp_all add: same_json.simps)
next
  case (PDict d)
  show ?case
  proof (cases b)
    case (PDict e)
    have keys: "distinct (map fst d)" "distinct (map fst e)" using PDict.prems by (simp_all add: PDict)
    let ?f = "\<lambda>(k, v). (k, arranged y v)"
    have "arranged y (PDict d) = arranged y (PDict e) \<longleftrightarrow> set (map ?f d) = set (map ?f e)"
      using assms(1) keys by (simp add: in_order_def sorted_dicts_eq comp_def case_prod_beta del: set_map)
    also have "\<dots> \<longleftrightarrow> length d = length e \<and> (\<forall>(k, v) \<in> set d. map_of (map ?f e) k = Some (arranged y v))"
      using keys by (subst set_dict_eq) (auto simp: comp_def case_prod_beta)
    also have "\<dots> \<longleftrightarrow> same_json (PDict d) (PDict e)"
    proof -
      have "map_of (map ?f e) k = Some (arranged y v) \<longleftrightarrow> (case map_of e k of None \<Rightarrow> False | Some w \<Rightarrow> same_json v w)"
        if "(k, v) \<in> set d" for k v
      proof (cases "map_of e k")
        case (Some w)
        then have "(k, w) \<in> set e" by (rule map_of_SomeD)
        then have "same_json v w \<longleftrightarrow> arranged y v = arranged y w"
          using PDict.IH that PDict.prems by (fastforce simp: PDict list_all_iff)
        then show ?thesis using Some by (auto simp: map_of_map)
      qed (simp add: map_of_map)
      then show ?thesis by (auto simp: same_json.simps)
    qed
    finally show ?thesis by (simp only: PDict)
  qed (simp_all add: same_json.simps)
qed (simp_all add: same_json.simps arranged_scalar)

lemma in_order_idem [simp]: "in_order y (in_order y d) = in_order y d"
proof -
  have "sort_key fst e = e" if "sorted (map fst e)" for e :: "(string \<times> 'a) list"
    using that by (induction e) (auto simp: insort_is_Cons)
  then show ?thesis by (simp add: in_order_def)
qed

text \<open>The text depends on the value only as far as its objects' members, arranged.\<close>

lemma json_value_arranged: "json_value rp y level (arranged y v) = json_value rp y level v"
proof (induction v arbitrary: level rule: pyval.induct)
  case (PList xs)
  then have "map (json_value rp y (Suc level)) (map (arranged y) xs) = map (json_value rp y (Suc level)) xs" by simp
  then show ?case by (simp del: map_map)
next
  case (PDict d)
  let ?f = "\<lambda>v. json_value rp y (Suc level) v"
  have "map (\<lambda>(k, v). (k, ?f v)) (map (\<lambda>(k, v). (k, arranged y v)) d) = map (\<lambda>(k, v). (k, ?f v)) d"
    using PDict by fastforce
  then have "in_order y (map (\<lambda>(k, v). (k, ?f v)) (in_order y (map (\<lambda>(k, v). (k, arranged y v)) d))) =
      in_order y (map (\<lambda>(k, v). (k, ?f v)) d)"
    by (metis in_order_map in_order_idem)
  then show ?case by simp
qed simp_all

lemma audit_style_ok [simp]: "style_ok audit_style" "jy_sort audit_style" "jy_str audit_style"
  by (simp_all add: audit_style_def compact_style_def plain_style_def style_ok_def)

lemma hash_args_text: "hash_args sha rp args = sha (json_value rp audit_style 0 (PDict args))"
  by (simp add: hash_args_def json_dumps_def)

lemma audit_text_iff:
  assumes "json_ok rp (PDict a)" "json_ok rp (PDict b)"
  shows "json_value rp audit_style 0 (PDict a) = json_value rp audit_style 0 (PDict b) \<longleftrightarrow> same_json (PDict a) (PDict b)"
proof -
  have "json_value rp audit_style 0 (PDict a) = json_value rp audit_style 0 (PDict b) \<longleftrightarrow>
      arranged audit_style (PDict a) = arranged audit_style (PDict b)"
  proof
    assume "json_value rp audit_style 0 (PDict a) = json_value rp audit_style 0 (PDict b)"
    then show "arranged audit_style (PDict a) = arranged audit_style (PDict b)"
      using json_roundtrip [OF audit_style_ok(1) assms(1)] json_roundtrip [OF audit_style_ok(1) assms(2)]
      by (metis option.inject)
  next
    assume "arranged audit_style (PDict a) = arranged audit_style (PDict b)"
    then show "json_value rp audit_style 0 (PDict a) = json_value rp audit_style 0 (PDict b)"
      by (metis json_value_arranged)
  qed
  also have "\<dots> \<longleftrightarrow> same_json (PDict a) (PDict b)"
    using same_json_arranged [OF audit_style_ok(2) assms] by simp
  finally show ?thesis .
qed

text \<open>C24: The digest in an audit entry identifies a call's arguments. Two argument dictionaries have the same digest exactly when they are the same JSON value up to the order of members, at any depth, or their canonical texts are a collision of the hash function.\<close>

theorem audit_hash_identifies:
  assumes "json_ok rp (PDict a)" "json_ok rp (PDict b)"
  shows "hash_args sha rp a = hash_args sha rp b \<longleftrightarrow>
    same_json (PDict a) (PDict b) \<or>
    (let s = json_value rp audit_style 0 (PDict a); t = json_value rp audit_style 0 (PDict b) in s \<noteq> t \<and> sha s = sha t)"
  unfolding hash_args_text Let_def using audit_text_iff [OF assms] by metis

lemma audit_hash_identifies_witness:
  "hash_args (\<lambda>s. s) (\<lambda>_. []) [(''namespace'', PStr ''prod''), (''pod'', PStr ''api'')] =
   hash_args (\<lambda>s. s) (\<lambda>_. []) [(''pod'', PStr ''api''), (''namespace'', PStr ''prod'')]"
proof -
  let ?a = "[(''namespace'', PStr ''prod''), (''pod'', PStr ''api'')]" and ?b = "[(''pod'', PStr ''api''), (''namespace'', PStr ''prod'')]"
  have ok: "json_ok (\<lambda>_. []) (PDict ?a)" "json_ok (\<lambda>_. []) (PDict ?b)" by simp_all
  have "same_json (PDict ?a) (PDict ?b)" by (simp add: same_json.simps)
  then show ?thesis using audit_hash_identifies [OF ok, of "\<lambda>s. s"] by blast
qed

end
