(* ===== verification/Prompts.thy ===== *)
theory Prompts
  imports State Answers
begin

text \<open>
  What the nodes of \<^verbatim>\<open>core/graph_nodes.py\<close> ask a model: the four system prompts, with the tools on
  offer, the hypotheses, the executed actions and the error of the last one written as JSON. A prompt is a
  list of lines; \<open>dq\<close> puts a text in double quotes. \<open>json.dumps\<close> of a value it refuses raises, and the node with it.
\<close>

abbreviation dq :: "string \<Rightarrow> string" where
  "dq s \<equiv> CHR 0x22 # s @ [CHR 0x22]"

definition text_lines :: "string list \<Rightarrow> string" where
  "text_lines ls = str_join [CHR 0x0A] ls"

definition dumps_or_raise :: "json_lib \<Rightarrow> json_style \<Rightarrow> pyval \<Rightarrow> py_error + string" where
  "dumps_or_raise J y v =
     (case j_dumps J y v of Some s \<Rightarrow> Inr s | None \<Rightarrow> Inl (TypeError ''Object is not JSON serializable''))"

definition texts_value :: "(string, string) dict \<Rightarrow> pyval" where
  "texts_value d = PDict (map (\<lambda>(k, v). (k, PStr v)) d)"

section \<open>Triage\<close>

definition triage_rules :: "string list" where
  "triage_rules =
    [''You are an SRE agent investigating a Kubernetes alert.'',
     ''Generate 2-3 plausible root-cause hypotheses based ONLY on the alert metadata.'',
     [],
     ''Return a JSON object with a single top-level key '' @ dq ''hypotheses'' @ ''. Each element'',
     ''must match this schema exactly:'',
     ''{'',
     ''  '' @ dq ''id'' @ '': '' @ dq ''H1'' @ '','',
     ''  '' @ dq ''description'' @ '': '' @ dq ''...'' @ '','',
     ''  '' @ dq ''confidence'' @ '': 0.3,'',
     ''  '' @ dq ''evidence'' @ '': [],'',
     ''  '' @ dq ''status'' @ '': '' @ dq ''proposed'',
     ''}'',
     [],
     ''Rules:'',
     ''- Output valid JSON only. No prose, no markdown fences.'',
     ''- Do NOT invent evidence. Evidence must come from tool outputs only.'',
     ''- Do NOT reference specific PIDs, pod names, or metrics you have not observed.'',
     ''- If alert metadata is insufficient, return 2-3 hypotheses with confidence 0.2.'',
     [],
     ''Alert metadata:'']"

definition triage_facts :: "incident_metadata \<Rightarrow> string \<Rightarrow> string \<Rightarrow> string list" where
  "triage_facts m labels annotations =
     [''- Alert: '' @ im_alert_name m,
      ''- Service: '' @ im_service m @ '' in namespace '' @ im_namespace m,
      ''- Severity: '' @ im_severity m,
      ''- Description: '' @ im_description m,
      ''- Labels: '' @ labels,
      ''- Annotations: '' @ annotations]"

definition triage_prompt :: "json_lib \<Rightarrow> agent_state \<Rightarrow> py_error + string" where
  "triage_prompt J s =
     bind_res (dumps_or_raise J plain_style (texts_value (im_labels (s_metadata s)))) (\<lambda>labels.
     bind_res (dumps_or_raise J plain_style (texts_value (im_annotations (s_metadata s)))) (\<lambda>annotations.
       Inr (text_lines (triage_rules @ triage_facts (s_metadata s) labels annotations))))"

section \<open>Investigate\<close>

definition tool_entry :: "tool \<Rightarrow> pydict" where
  "tool_entry t =
     [(''name'', PStr (t_name t)), (''description'', PStr (t_description t)), (''parameters'', PDict (t_schema t))]"

definition read_only_tools :: "tools \<Rightarrow> tool list" where
  "read_only_tools reg = filter (\<lambda>t. t_risk_tier t = 0) (list_tools reg)"

definition investigate_intro :: "string list" where
  "investigate_intro =
    [''You are an SRE agent investigating an incident. Select the'',
     ''most relevant investigation tools to gather evidence.'',
     []]"

definition read_only_heading :: string where
  "read_only_heading = ''Available tools (all read-only, Tier 0):''"

definition investigate_rest :: "string \<Rightarrow> string list" where
  "investigate_rest hypotheses =
    [[],
     ''Current hypotheses:'',
     hypotheses,
     [],
     ''Rules:'',
     ''- Select 1-5 tools that will best help confirm or reject the top hypothesis.'',
     ''- Return a JSON object with a '' @ dq ''tools'' @ '' array containing tool calls.'',
     ''- Each tool call must have '' @ dq ''name'' @ '' and '' @ dq ''args'' @ '' fields.'',
     ''- Do NOT call tools that were already called with the same arguments.'',
     [],
     ''Return:'',
     ''{'',
     ''  '' @ dq ''tools'' @ '': ['',
     ''    {'' @ dq ''name'' @ '': '' @ dq ''tool_name'' @ '', '' @ dq ''args'' @ '': {...}}'',
     ''  ]'',
     ''}'']"

definition investigate_prompt :: "json_lib \<Rightarrow> tools \<Rightarrow> agent_state \<Rightarrow> py_error + string" where
  "investigate_prompt J reg s =
     bind_res (dumps_or_raise J (indented_style 2) (PList (map (PDict \<circ> tool_entry) (read_only_tools reg)))) (\<lambda>offered.
     bind_res (dumps_or_raise J (indented_style 2) (PList (map PDict (s_hypotheses s)))) (\<lambda>hypotheses.
       Inr (text_lines (investigate_intro @ read_only_heading # offered # investigate_rest hypotheses))))"

section \<open>Hypothesize\<close>

definition hypothesize_rules :: "string list" where
  "hypothesize_rules =
    [''You are an SRE agent refining hypothesis confidence based on evidence.'',
     [],
     ''Rules:'',
     ''- Return valid JSON only. No prose, no markdown fences.'',
     ''- Return a JSON object with a single top-level key '' @ dq ''hypotheses'' @ ''.'',
     ''- Use the SAME hypothesis IDs that were provided. Do not add, remove, or rename.'',
     ''- Only adjust the `confidence` and `status` fields. Do not modify `description` or `evidence`.'',
     ''- Increase confidence ONLY when evidence directly supports the hypothesis.'',
     ''- Decrease confidence ONLY when evidence directly contradicts.'',
     ''- If evidence is ambiguous, leave confidence unchanged.'',
     ''- Use these calibration anchors:'',
     ''    0.2-0.4 = weak/no evidence'',
     ''    0.5-0.6 = some supporting evidence'',
     ''    0.7-0.8 = strong supporting evidence'',
     ''    0.9+    = confirmed with direct evidence'',
     [],
     ''Current hypotheses:'']"

definition hypothesize_prompt :: "json_lib \<Rightarrow> agent_state \<Rightarrow> py_error + string" where
  "hypothesize_prompt J s =
     bind_res (dumps_or_raise J (indented_style 2) (PList (map PDict (s_hypotheses s)))) (\<lambda>hypotheses.
       Inr (text_lines (hypothesize_rules @ [hypotheses])))"

section \<open>Propose\<close>

definition eligible_tools :: "tools \<Rightarrow> tool list" where
  "eligible_tools reg = filter (\<lambda>t. t_risk_tier t \<in> {1, 2}) (list_tools reg)"

definition eligible_entry :: "tool \<Rightarrow> pydict" where
  "eligible_entry t = tool_entry t @ [(''risk_tier'', PInt (t_risk_tier t))]"

definition namespace_hint :: "string \<Rightarrow> string" where
  "namespace_hint ns =
     (if ns = [] then []
      else ''The incident is in namespace '' @ quoted ns @ ''. Always pass namespace='' @ quoted ns @ '' in tool_args.'')"

text \<open>The last action, when it did not succeed.\<close>

definition error_feedback :: "json_lib \<Rightarrow> agent_state \<Rightarrow> py_error + string" where
  "error_feedback J s =
     (if s_executed s = [] \<or> ea_success (last (s_executed s)) then Inr []
      else let a = last (s_executed s);
               e = py_or (dget_or (ea_result a) ''error'' PNone) (PStr ''Unknown error'')
           in bind_res (dumps_or_raise J (plain_style\<lparr>jy_str := True\<rparr>) (PDict (ea_tool_args a))) (\<lambda>args.
                Inr (text_lines
                  [[],
                   ''Previous action did not succeed:'',
                   ''  Tool: '' @ ea_tool_name a,
                   ''  Args: '' @ args,
                   ''  Error: '' @ py_str (j_repr J) e,
                   [],
                   ''If you propose the same tool again, FIX the tool_args to match the schema.'',
                   ''If the same tool cannot succeed, choose a DIFFERENT tool or return '' @ dq ''none'' @ ''.'',
                   []])))"

definition propose_rules :: "string list" where
  "propose_rules =
    [[],
     ''Decision framework for choosing actions:'',
     ''- CPU saturation (high CPU across multiple pods, high RPS): PREFER scale_deployment (Tier 2) over restart. Restarting doesn't add capacity; scaling does.'',
     ''- Memory pressure (OOMKilled, high memory): restart_deployment (Tier 1) is appropriate to reclaim memory.'',
     ''- Pod crash loops: restart_deployment (Tier 1) to clear stuck state.'',
     ''- Database connection exhaustion: terminate_backend (Tier 1) to kill idle-in-tx sessions. Do NOT restart_deployment.'',
     ''- Cache eviction storms: flush_all (Tier 2) to reclaim memory. Do NOT restart_deployment.'',
     ''- Resource quota exceeded: scale_deployment (Tier 2) to reduce replicas. Do NOT restart_deployment.'',
     ''- Cache poisoning: delete_valkey_key (Tier 1) to remove the specific poisoned key.'',
     ''- Network/timeout cascades: restart_deployment (Tier 1) to clear stuck connections.'',
     [],
     ''Key insight: If the root cause is INSUFFICIENT CAPACITY (not a stuck process or resource leak), you MUST choose scale_deployment even though it requires approval.'',
     [],
     ''Rules:'',
     ''- Output valid JSON only. No prose, no markdown fences.'',
     ''- Do NOT propose a tool that was already executed this incident.'',
     ''- Do NOT propose Tier 0 (read-only) tools as remediation.'',
     ''- For CPU saturation with high RPS or traffic: ALWAYS use scale_deployment (Tier 2).'',
     ''- For cache eviction: ALWAYS use flush_all (Tier 2). NEVER use restart_deployment.'',
     ''- For DB connection exhaustion: ALWAYS use terminate_backend (Tier 1). NEVER use restart_deployment.'',
     ''- For resource quota exceeded: ALWAYS use scale_deployment (Tier 2). NEVER use restart_deployment.'',
     ''- For stuck processes or resource leaks: use restart_deployment (Tier 1).'',
     ''- If no remediation tool applies, return tool_name='' @ dq ''none'' @ ''.'']"

definition answer_form :: "string list" where
  "answer_form =
    [[],
     ''Return a JSON object:'',
     ''{'',
     ''  '' @ dq ''tool_name'' @ '': '' @ dq ''...'' @ '','',
     ''  '' @ dq ''tool_args'' @ '': {...},'',
     ''  '' @ dq ''risk_tier'' @ '': 1 or 2,'',
     ''  '' @ dq ''rationale'' @ '': '' @ dq ''...'',
     ''}'',
     [],
     ''Executed actions (DO NOT REPEAT THESE):'']"

definition remediation_heading :: string where
  "remediation_heading = ''Available remediation tools (Tier 1 = reversible, Tier 2 = requires approval):''"

definition propose_intro :: "agent_state \<Rightarrow> string list" where
  "propose_intro s =
     [''You are an SRE agent proposing a remediation action.'', [], namespace_hint (im_namespace (s_metadata s)), []]"

definition propose_rest :: "string \<Rightarrow> string \<Rightarrow> string \<Rightarrow> string list" where
  "propose_rest best feedback executed =
     [[],
      ''Risk tiers:'',
      ''- Tier 1: Reversible (restart, terminate_backend, delete_valkey_key, delete_pod)'',
      ''- Tier 2: Requires approval (scale_deployment, flush_all)'',
      [],
      ''Top hypothesis:'', best] @ propose_rules @ [[], feedback] @ answer_form @ [executed]"

definition propose_prompt :: "json_lib \<Rightarrow> tools \<Rightarrow> agent_state \<Rightarrow> py_error + string" where
  "propose_prompt J reg s =
     bind_res (error_feedback J s) (\<lambda>feedback.
     bind_res (dumps_or_raise J ((indented_style 2)\<lparr>jy_str := True\<rparr>) (PList (map (PDict \<circ> dump_executed) (s_executed s)))) (\<lambda>executed.
     bind_res (dumps_or_raise J (indented_style 2) (PList (map (PDict \<circ> eligible_entry) (eligible_tools reg)))) (\<lambda>offered.
     bind_res (dumps_or_raise J (indented_style 2)
         (case top_hypothesis (s_hypotheses s) of None \<Rightarrow> PNone | Some h \<Rightarrow> PDict h)) (\<lambda>best.
       Inr (text_lines (propose_intro s @ remediation_heading # offered # propose_rest best feedback executed))))))"

text \<open>The context's prompts: a node that asks no model has none.\<close>

definition graph_prompt :: "json_lib \<Rightarrow> tools \<Rightarrow> phase \<Rightarrow> agent_state \<Rightarrow> py_error + string" where
  "graph_prompt J reg p s =
     (case p of
        Triage \<Rightarrow> triage_prompt J s
      | Investigate \<Rightarrow> investigate_prompt J reg s
      | Hypothesize \<Rightarrow> hypothesize_prompt J s
      | Propose \<Rightarrow> propose_prompt J reg s
      | _ \<Rightarrow> Inr [])"

section \<open>What a prompt carries\<close>

lemma std_dumps_or_raise:
  assumes "dumps_or_raise (std_json rp) y v = Inr t"
  shows "t = json_value rp y 0 v"
  using assms by (auto simp: dumps_or_raise_def std_json_def json_dumps_def split: if_splits)

lemma arranged_unsorted [simp]: "\<not> jy_sort y \<Longrightarrow> arranged y v = v"
  by (induction v rule: pyval.induct) (auto simp: in_order_def intro!: map_idI)

lemma plain_style_ok [simp]: "one_line plain_style" "style_ok plain_style" "style_ok (indented_style n)"
    "\<not> jy_sort plain_style" "\<not> jy_sort (indented_style n)"
  by (simp_all add: one_line_def style_ok_def plain_style_def indented_style_def json_space_def)

lemma block_read:
  assumes "dumps_or_raise (std_json rp) (indented_style n) v = Inr t" "json_ok rp v"
  shows "json_loads t = Some v"
  using json_roundtrip [OF plain_style_ok(3) assms(2), of n 0] std_dumps_or_raise [OF assms(1)]
  by (simp only: arranged_unsorted [OF plain_style_ok(5)])

lemma split_at_lines: "ls \<noteq> [] \<Longrightarrow> split_at c (str_join [c] ls) = concat (map (split_at c) ls)"
proof (induction "[c]" ls rule: str_join.induct)
  case (3 x y xs)
  then show ?case using split_at_append [of c x "str_join [c] (y # xs)"] by simp
qed auto

lemma split_at_one: "c \<notin> set s \<Longrightarrow> split_at c s = [s]"
  by (induction s) auto

lemma unbroken_lines:
  assumes "list_all (\<lambda>l. c \<notin> set l) ls"
  shows "concat (map (split_at c) ls) = ls"
  using assms by (induction ls) (auto simp: split_at_one)

lemma rules_unbroken: "list_all (\<lambda>l. CHR 0x0A \<notin> set l) triage_rules"
  by (simp add: triage_rules_def)

definition breaks :: "string \<Rightarrow> nat" where
  "breaks s = length (filter (\<lambda>c. c = CHR 0x0A) s)"

text \<open>A dictionary of texts is always written, on one line, and read back.\<close>

lemma texts_dumped:
  assumes "distinct (dkeys d)"
  obtains t where "dumps_or_raise (std_json rp) plain_style (texts_value d) = Inr t" "CHR 0x0A \<notin> set t" "json_loads t = Some (texts_value d)"
proof -
  have ok: "json_ok rp (texts_value d)" "serialisable (texts_value d)"
    using assms by (auto simp: texts_value_def dkeys_def comp_def case_prod_beta list_all_iff)
  let ?t = "json_value rp plain_style 0 (texts_value d)"
  have "dumps_or_raise (std_json rp) plain_style (texts_value d) = Inr ?t"
    using ok(2) by (simp add: dumps_or_raise_def std_json_def json_dumps_def)
  moreover have "CHR 0x0A \<notin> set ?t" using unbroken.written [OF ok(1), of plain_style 0] by simp
  moreover have "json_loads ?t = Some (texts_value d)" using json_roundtrip [OF plain_style_ok(2) ok(1), of 0] by simp
  ultimately show thesis by (rule that)
qed

text \<open>C22: What an alert can put into the triage prompt. The prompt is always written; its lines are the fixed rules followed by the six facts, in which the labels and the annotations, whatever characters they hold, take exactly one line each, from which they can be read back. The alert's name, service, namespace, severity and description are copied as they are: each line break in them is one more line of the prompt.\<close>

theorem triage_prompt_lines:
  assumes "distinct (dkeys (im_labels (s_metadata s)))" "distinct (dkeys (im_annotations (s_metadata s)))"
  shows "\<exists>t labels annotations. triage_prompt (std_json rp) s = Inr t \<and>
    split_at (CHR 0x0A) t = triage_rules @ concat (map (split_at (CHR 0x0A)) (triage_facts (s_metadata s) labels annotations)) \<and>
    split_at (CHR 0x0A) labels = [labels] \<and> json_loads labels = Some (texts_value (im_labels (s_metadata s))) \<and>
    split_at (CHR 0x0A) annotations = [annotations] \<and> json_loads annotations = Some (texts_value (im_annotations (s_metadata s))) \<and>
    length (split_at (CHR 0x0A) t) = length triage_rules + 6 +
      sum_list (map (\<lambda>f. breaks (f (s_metadata s))) [im_alert_name, im_service, im_namespace, im_severity, im_description])"
proof -
  let ?m = "s_metadata s"
  obtain labels where labels: "dumps_or_raise (std_json rp) plain_style (texts_value (im_labels ?m)) = Inr labels"
      "CHR 0x0A \<notin> set labels" "json_loads labels = Some (texts_value (im_labels ?m))"
    by (rule texts_dumped [OF assms(1)])
  obtain annotations where annotations: "dumps_or_raise (std_json rp) plain_style (texts_value (im_annotations ?m)) = Inr annotations"
      "CHR 0x0A \<notin> set annotations" "json_loads annotations = Some (texts_value (im_annotations ?m))"
    by (rule texts_dumped [OF assms(2)])
  let ?t = "text_lines (triage_rules @ triage_facts ?m labels annotations)"
  have written: "triage_prompt (std_json rp) s = Inr ?t" by (simp add: triage_prompt_def labels annotations)
  have facts: "triage_facts ?m labels annotations \<noteq> []" by (simp add: triage_facts_def)
  have lines: "split_at (CHR 0x0A) ?t = triage_rules @ concat (map (split_at (CHR 0x0A)) (triage_facts ?m labels annotations))"
    using facts unbroken_lines [OF rules_unbroken] by (simp add: text_lines_def split_at_lines)
  have "length (split_at (CHR 0x0A) ?t) = length triage_rules + 6 +
      sum_list (map (\<lambda>f. breaks (f ?m)) [im_alert_name, im_service, im_namespace, im_severity, im_description])"
    unfolding lines using labels(2) annotations(2)
    by (simp add: triage_facts_def length_concat length_split_at breaks_def filter_empty_conv del: split_at.simps) blast
  with written lines labels annotations split_at_one show ?thesis by blast
qed

lemma triage_prompt_lines_witness:
  "\<exists>s t. triage_prompt (std_json (\<lambda>_. [])) s = Inr t \<and> length (split_at (CHR 0x0A) t) = 27 \<and>
     im_labels (s_metadata s) = [([CHR 0x0A], [CHR 0x0A])] \<and> im_description (s_metadata s) = [CHR 0x0A]"
proof -
  define m where "m = \<lparr>im_incident_id = [], im_alert_name = ''a'', im_service = ''s'', im_namespace = ''n'', im_severity = ''low'',
    im_started_at = [], im_fingerprint = [], im_description = [CHR 0x0A], im_labels = [([CHR 0x0A], [CHR 0x0A])], im_annotations = []\<rparr>"
  define s where "s = create_initial_state 0 m 1"
  have m: "s_metadata s = m" by (simp add: s_def create_initial_state_def)
  have "distinct (dkeys (im_labels (s_metadata s)))" "distinct (dkeys (im_annotations (s_metadata s)))"
    by (simp_all add: m m_def dkeys_def)
  from triage_prompt_lines [OF this, of "\<lambda>_. []"] obtain t where "triage_prompt (std_json (\<lambda>_. [])) s = Inr t"
    "length (split_at (CHR 0x0A) t) = length triage_rules + 6 +
      sum_list (map (\<lambda>f. breaks (f (s_metadata s))) [im_alert_name, im_service, im_namespace, im_severity, im_description])"
    by blast
  moreover have "length triage_rules = 20" by (simp add: triage_rules_def)
  ultimately show ?thesis by (intro exI [of _ s] exI [of _ t]) (simp add: m, simp add: m_def breaks_def)
qed

text \<open>A block of a prompt: the line before it and the block, whole.\<close>

lemma join_split: "ys \<noteq> [] \<Longrightarrow> str_join sep (xs @ ys) = concat (map (\<lambda>x. x @ sep) xs) @ str_join sep ys"
proof (induction xs)
  case (Cons x xs)
  then show ?case by (cases "xs @ ys") auto
qed simp

lemma block_of:
  assumes "ys \<noteq> []"
  shows "\<exists>lead trail. text_lines (xs @ h # b # ys) = lead @ h @ CHR 0x0A # b @ CHR 0x0A # trail"
  using join_split [of "h # b # ys" "[CHR 0x0A]" xs] assms by (cases ys) (auto simp: text_lines_def)

definition offered_name :: "pyval \<Rightarrow> string" where
  "offered_name v = (case v of PDict d \<Rightarrow> (case dget d ''name'' of Some (PStr n) \<Rightarrow> n | _ \<Rightarrow> []) | _ \<Rightarrow> [])"

lemma entries_ok:
  assumes "\<And>n. json_ok rp (PDict (te_schema E n))"
  shows "json_ok rp (PList (map (PDict \<circ> tool_entry \<circ> tool_of_spec E) ss))"
    and "json_ok rp (PList (map (PDict \<circ> eligible_entry \<circ> tool_of_spec E) ss))"
  using assms by (auto simp: list_all_iff tool_entry_def eligible_entry_def tool_of_spec_def)

lemma entry_names:
  "map offered_name (map (PDict \<circ> tool_entry \<circ> tool_of_spec E) ss) = map ts_name ss"
  "map offered_name (map (PDict \<circ> eligible_entry \<circ> tool_of_spec E) ss) = map ts_name ss"
  by (simp_all add: offered_name_def tool_entry_def eligible_entry_def tool_of_spec_def)

definition specs_of_tier :: "int set \<Rightarrow> tool_spec list" where
  "specs_of_tier T = filter (\<lambda>s. ts_risk_tier s \<in> T) default_tool_specs"

lemma tools_of_tiers:
  assumes "build_default_registry E = Inr reg"
  shows "read_only_tools reg = map (tool_of_spec E) (specs_of_tier {0})"
    "eligible_tools reg = map (tool_of_spec E) (specs_of_tier {1, 2})"
proof -
  have reg: "reg = map (\<lambda>s. (ts_name s, tool_of_spec E s)) default_tool_specs"
    using assms by (simp add: build_default_registry_eq)
  have tier: "t_risk_tier (tool_of_spec E s) = ts_risk_tier s" for s by (simp add: tool_of_spec_def)
  show "read_only_tools reg = map (tool_of_spec E) (specs_of_tier {0})"
    "eligible_tools reg = map (tool_of_spec E) (specs_of_tier {1, 2})"
    by (simp_all add: read_only_tools_def eligible_tools_def list_tools_def reg comp_def filter_map tier specs_of_tier_def)
qed

lemma propose_prompt_parts:
  assumes "propose_prompt J reg s = Inr u"
  shows "\<exists>offered best feedback executed.
    dumps_or_raise J (indented_style 2) (PList (map (PDict \<circ> eligible_entry) (eligible_tools reg))) = Inr offered \<and>
    u = text_lines (propose_intro s @ remediation_heading # offered # propose_rest best feedback executed)"
proof -
  from assms obtain feedback executed offered best where
    "dumps_or_raise J (indented_style 2) (PList (map (PDict \<circ> eligible_entry) (eligible_tools reg))) = Inr offered"
    "Inr u = (Inr (text_lines (propose_intro s @ remediation_heading # offered # propose_rest best feedback executed)) :: py_error + string)"
    unfolding propose_prompt_def bind_res_Inr_iff by metis
  then show ?thesis by blast
qed

text \<open>C23: What the model is offered. In the deployed registry, whatever the tools' schemas, the investigation prompt lists, as JSON below its heading, exactly the tools registered at Tier 0, and the remediation prompt exactly those at Tier 1 or 2, under their names and in the order of registration; so neither offers a tool of the other kind.\<close>

theorem prompts_offer_tiers:
  assumes "build_default_registry E = Inr reg" "\<And>n. json_ok rp (PDict (te_schema E n))"
  shows "(investigate_prompt (std_json rp) reg s = Inr t \<longrightarrow>
      (\<exists>lead block trail tools. t = lead @ read_only_heading @ CHR 0x0A # block @ CHR 0x0A # trail \<and>
        json_loads block = Some (PList tools) \<and> map offered_name tools = map ts_name (specs_of_tier {0})))
    \<and> (propose_prompt (std_json rp) reg s = Inr u \<longrightarrow>
      (\<exists>lead block trail tools. u = lead @ remediation_heading
          @ CHR 0x0A # block @ CHR 0x0A # trail \<and>
        json_loads block = Some (PList tools) \<and> map offered_name tools = map ts_name (specs_of_tier {1, 2})))"
proof (intro conjI impI)
  assume "investigate_prompt (std_json rp) reg s = Inr t"
  then obtain offered hypotheses where
    offered: "dumps_or_raise (std_json rp) (indented_style 2) (PList (map (PDict \<circ> tool_entry) (read_only_tools reg))) = Inr offered"
    and t: "t = text_lines (investigate_intro @ read_only_heading # offered # investigate_rest hypotheses)"
    by (auto simp: investigate_prompt_def bind_res_Inr_iff)
  have "investigate_rest hypotheses \<noteq> []" by (simp add: investigate_rest_def)
  from block_of [OF this] t obtain lead trail where
    block: "t = lead @ read_only_heading @ CHR 0x0A # offered @ CHR 0x0A # trail" by blast
  let ?tools = "map (PDict \<circ> tool_entry \<circ> tool_of_spec E) (specs_of_tier {0})"
  have "dumps_or_raise (std_json rp) (indented_style 2) (PList ?tools) = Inr offered"
    using offered tools_of_tiers(1) [OF assms(1)] by (simp add: comp_assoc)
  from block_read [OF this entries_ok(1) [OF assms(2)]] have "json_loads offered = Some (PList ?tools)" .
  with block entry_names(1) show "\<exists>lead block trail tools.
      t = lead @ read_only_heading @ CHR 0x0A # block @ CHR 0x0A # trail \<and>
      json_loads block = Some (PList tools) \<and> map offered_name tools = map ts_name (specs_of_tier {0})"
    by blast
next
  assume "propose_prompt (std_json rp) reg s = Inr u"
  from propose_prompt_parts [OF \<open>propose_prompt (std_json rp) reg s = Inr u\<close>] obtain offered best feedback executed where
    offered: "dumps_or_raise (std_json rp) (indented_style 2) (PList (map (PDict \<circ> eligible_entry) (eligible_tools reg))) = Inr offered"
    and u: "u = text_lines (propose_intro s @ remediation_heading # offered # propose_rest best feedback executed)"
    by blast
  have "propose_rest best feedback executed \<noteq> []" by (simp add: propose_rest_def)
  from block_of [OF this] u obtain lead trail where
    block: "u = lead @ remediation_heading @ CHR 0x0A # offered @ CHR 0x0A # trail" by blast
  let ?tools = "map (PDict \<circ> eligible_entry \<circ> tool_of_spec E) (specs_of_tier {1, 2})"
  have "dumps_or_raise (std_json rp) (indented_style 2) (PList ?tools) = Inr offered"
    using offered tools_of_tiers(2) [OF assms(1)] by (simp add: comp_assoc)
  from block_read [OF this entries_ok(2) [OF assms(2)]] have "json_loads offered = Some (PList ?tools)" .
  with block entry_names(2) show "\<exists>lead block trail tools.
      u = lead @ remediation_heading @ CHR 0x0A # block @ CHR 0x0A # trail \<and>
      json_loads block = Some (PList tools) \<and> map offered_name tools = map ts_name (specs_of_tier {1, 2})"
    by blast
qed

lemma prompts_offer_tiers_witness:
  "\<exists>m reg t lead block trail tools. investigate_prompt (std_json (\<lambda>_. [])) reg (create_initial_state 0 m 1) = Inr t \<and>
     t = lead @ read_only_heading @ CHR 0x0A # block @ CHR 0x0A # trail \<and> json_loads block = Some (PList tools) \<and>
     map offered_name tools = map ts_name (specs_of_tier {0})"
proof -
  define m where "m = \<lparr>im_incident_id = [], im_alert_name = a, im_service = s, im_namespace = n, im_severity = low,
    im_started_at = [], im_fingerprint = [], im_description = [], im_labels = [], im_annotations = []\<rparr>"
  define E where "E = \<lparr>te_input = (\<lambda>n. Inr), te_output = (\<lambda>n. Inr), te_handler = (\<lambda>n v. Returned PNone), te_schema = (\<lambda>n. [])\<rparr>"
  obtain reg where reg: "build_default_registry E = Inr reg" by (simp add: build_default_registry_eq)
  have schemas: "json_ok (\<lambda>_. []) (PDict (te_schema E n))" for n by (simp add: E_def)
  have plain: "serialisable (PDict (tool_entry (tool_of_spec E sp)))" for sp
    by (simp add: tool_entry_def tool_of_spec_def E_def)
  have "serialisable (PList (map (PDict \<circ> tool_entry) (read_only_tools reg)))"
    using plain by (simp add: tools_of_tiers(1) [OF reg] list_all_iff del: serialisable.simps(2))
  then obtain t where t: "investigate_prompt (std_json (\<lambda>_. [])) reg (create_initial_state 0 m 1) = Inr t"
    by (simp add: investigate_prompt_def dumps_or_raise_def std_json_def json_dumps_def create_initial_state_def)
  from prompts_offer_tiers [OF reg schemas, where s = "create_initial_state 0 m 1"] t show ?thesis by blast
qed

end
