(* ===== verification/Nodes.thy ===== *)
theory Nodes
  imports Prompts
begin

text \<open>
  The first half of \<^verbatim>\<open>core/graph_nodes.py\<close>: the fallback table, the argument helpers
  (namespace clamp, schema guard, fallback arguments) and the triage, investigate and
  hypothesize nodes. A node maps the graph context, its input and the state to the tool calls it
  made and its result; an exception that leaves it is \<open>Crash\<close>. What a node asks the model is
  \<open>ni_ask\<close> applied to its two messages.
\<close>

section \<open>Fallback actions\<close>

record fallback_action =
  fa_tool_name :: string
  fa_risk_tier :: int
  fa_tool_args :: pydict

definition fallback_actions :: "(string, fallback_action) dict" where
  "fallback_actions =
    [(''webhook_dedup'', \<lparr>fa_tool_name = ''none'', fa_risk_tier = 0,
      fa_tool_args = [(''reason'', PStr ''Duplicate webhook storm; deduplication is working as expected'')]\<rparr>),
     (''false_positive'', \<lparr>fa_tool_name = ''none'', fa_risk_tier = 0,
      fa_tool_args = [(''reason'', PStr ''False positive alert; no remediation needed'')]\<rparr>),
     (''prohibited_action'', \<lparr>fa_tool_name = ''none'', fa_risk_tier = 0,
      fa_tool_args = [(''reason'', PStr (''Prohibited action on system namespace; policy enforcement '' @ [CHR 0xE2, CHR 0x80, CHR 0x94] @ '' no remediation needed''))]\<rparr>),
     (''crash_loop'', \<lparr>fa_tool_name = ''restart_deployment'', fa_risk_tier = 1,
      fa_tool_args = [(''reason'', PStr ''CrashLoopBackOff detected; rolling restart to clear stuck state'')]\<rparr>),
     (''memory_pressure'', \<lparr>fa_tool_name = ''restart_deployment'', fa_risk_tier = 1,
      fa_tool_args = [(''reason'', PStr ''Memory pressure detected; restart to reclaim memory'')]\<rparr>),
     (''pod_oom'', \<lparr>fa_tool_name = ''restart_deployment'', fa_risk_tier = 1,
      fa_tool_args = [(''reason'', PStr ''Container OOMKilled; restart to recover and flag for limit review'')]\<rparr>),
     (''stale_pod'', \<lparr>fa_tool_name = ''restart_deployment'', fa_risk_tier = 1,
      fa_tool_args = [(''reason'', PStr ''Pod stuck in Terminating; rolling restart replaces stuck pod'')]\<rparr>),
     (''image_pull_error'', \<lparr>fa_tool_name = ''restart_deployment'', fa_risk_tier = 1,
      fa_tool_args = [(''reason'', PStr ''ImagePullBackOff detected; restore previous working image tag'')]\<rparr>),
     (''http_errors'', \<lparr>fa_tool_name = ''restart_deployment'', fa_risk_tier = 1,
      fa_tool_args = [(''reason'', PStr ''Upstream timeout cascade; restart to clear stuck connections'')]\<rparr>),
     (''db_connection_exhaustion'', \<lparr>fa_tool_name = ''terminate_backend'', fa_risk_tier = 1,
      fa_tool_args = [(''reason'', PStr ''Connection pool exhaustion; terminate idle-in-transaction backends'')]\<rparr>),
     (''cache_poison_key'', \<lparr>fa_tool_name = ''delete_valkey_key'', fa_risk_tier = 1,
      fa_tool_args = [(''key'', PStr ''poison:session:abc123''),
        (''reason'', PStr ''Cache poisoning detected; delete corrupted key'')]\<rparr>),
     (''consumer_lag'', \<lparr>fa_tool_name = ''restart_deployment'', fa_risk_tier = 1,
      fa_tool_args = [(''reason'', PStr ''Consumer group lag increasing; restart consumers to recover'')]\<rparr>),
     (''cascading_failure'', \<lparr>fa_tool_name = ''restart_deployment'', fa_risk_tier = 1,
      fa_tool_args = [(''reason'', PStr ''Cascading failure; restart primary service to break the chain'')]\<rparr>),
     (''cpu_saturation'', \<lparr>fa_tool_name = ''scale_deployment'', fa_risk_tier = 2,
      fa_tool_args = [(''replicas'', PInt 4),
        (''reason'', PStr ''CPU saturation due to high traffic; horizontal scaling required'')]\<rparr>),
     (''cache_eviction'', \<lparr>fa_tool_name = ''flush_all'', fa_risk_tier = 2,
      fa_tool_args = [(''reason'', PStr ''Valkey eviction under memory pressure; FLUSHALL to reclaim memory'')]\<rparr>),
     (''resource_quota'', \<lparr>fa_tool_name = ''scale_deployment'', fa_risk_tier = 2,
      fa_tool_args = [(''replicas'', PInt 2),
        (''reason'', PStr ''Resource quota exceeded; scale down to fit within quota limits'')]\<rparr>)]"

definition category_forbidden_tools :: "(string, string list) dict" where
  "category_forbidden_tools =
    [(''cache_eviction'', [''restart_deployment'']),
     (''db_connection_exhaustion'', [''restart_deployment'']),
     (''cpu_saturation'', [''restart_deployment'', ''delete_pod'']),
     (''pod_oom'', [''scale_deployment'']),
     (''memory_pressure'', [''scale_deployment''])]"

definition max_tools_per_iteration :: nat where
  "max_tools_per_iteration = 1"

definition category_of :: "agent_state \<Rightarrow> string" where
  "category_of s = dget_or (im_labels (s_metadata s)) ''category'' []"

text \<open>The category's action when it is to do nothing.\<close>

definition no_action_category :: "string \<Rightarrow> bool" where
  "no_action_category cat =
     (case dget fallback_actions cat of None \<Rightarrow> False | Some fb \<Rightarrow> fa_tool_name fb = ''none'')"

section \<open>Argument helpers\<close>

definition coerce_tool_name :: "pyval \<Rightarrow> string option" where
  "coerce_tool_name v =
     (case v of PStr s \<Rightarrow> if str_strip s = [] then None else Some (str_strip s) | _ \<Rightarrow> None)"

definition tools_with_namespace :: "string list" where
  "tools_with_namespace =
    [''list_pods'', ''get_pod_events'', ''get_pod_logs'', ''get_deployment_status'', ''get_pod_metrics'',
     ''restart_deployment'', ''scale_deployment'', ''delete_pod'']"

definition clamp_namespace :: "pydict \<Rightarrow> string option \<Rightarrow> string \<Rightarrow> pydict" where
  "clamp_namespace args ns tool =
     (case ns of
        None \<Rightarrow> args
      | Some n \<Rightarrow> if tool \<notin> set tools_with_namespace then args else dset ''namespace'' (PStr n) args)"

definition args_satisfy_schema :: "tools \<Rightarrow> string \<Rightarrow> pydict \<Rightarrow> bool" where
  "args_satisfy_schema reg t args =
     (case List.find (\<lambda>u. t_name u = t) (list_tools reg) of
        None \<Rightarrow> False
      | Some u \<Rightarrow> (case t_input_model u (PDict args) of Inr _ \<Rightarrow> True | Inl _ \<Rightarrow> False))"

definition pod_name_keys :: "string list" where
  "pod_name_keys = [''pod_name'', ''pod'', ''stuck_pod'', ''target_pod'']"

definition annotated_pod :: "incident_metadata \<Rightarrow> string option" where
  "annotated_pod m =
     (case filter (\<lambda>k. case dget (im_annotations m) k of None \<Rightarrow> False | Some v \<Rightarrow> str_strip v \<noteq> []) pod_name_keys of
        [] \<Rightarrow> None
      | k # _ \<Rightarrow> map_option str_strip (dget (im_annotations m) k))"

definition build_fallback_args :: "fallback_action \<Rightarrow> incident_metadata \<Rightarrow> pydict" where
  "build_fallback_args fb m =
     (let t = fa_tool_name fb; service = str_strip (im_service m); ns = str_strip (im_namespace m);
          a0 = fa_tool_args fb;
          a1 = (if (t = ''restart_deployment'' \<or> t = ''scale_deployment'') \<and> service \<noteq> [] \<and> \<not> has_key a0 ''name''
                then dset ''name'' (PStr service) a0 else a0);
          a2 = (if t = ''delete_pod'' \<and> \<not> has_key a1 ''name''
                then (case annotated_pod m of None \<Rightarrow> a1 | Some p \<Rightarrow> dset ''name'' (PStr p) a1) else a1);
          a3 = (if t \<in> set tools_with_namespace \<and> ns \<noteq> [] then dset ''namespace'' (PStr ns) a2 else a2);
          a4 = (if t = ''scale_deployment'' \<and> \<not> has_key a3 ''replicas'' then dset ''replicas'' (PInt 2) a3 else a3)
      in if \<not> truthy (dget_or a4 ''reason'' PNone)
         then dset ''reason'' (PStr (''Auto-remediation for '' @ t)) a4 else a4)"

definition normalize_hypotheses_safe :: "json_lib \<Rightarrow> pyval \<Rightarrow> pydict list \<Rightarrow> pydict list" where
  "normalize_hypotheses_safe J raw fallback =
     (case raw of
        PList _ \<Rightarrow> (case normalize_hypotheses J ''proposed'' raw of
                     Inl _ \<Rightarrow> fallback | Inr hs \<Rightarrow> map dump_hypothesis hs)
      | _ \<Rightarrow> fallback)"

definition coerce_dict_list :: "pyval \<Rightarrow> pydict list" where
  "coerce_dict_list v =
     (case v of PList xs \<Rightarrow> concat (map (\<lambda>x. case x of PDict d \<Rightarrow> [d] | _ \<Rightarrow> []) xs) | _ \<Rightarrow> [])"

definition chat :: "string \<Rightarrow> string \<Rightarrow> pydict list" where
  "chat prompt request =
     [[(''role'', PStr ''system''), (''content'', PStr prompt)],
      [(''role'', PStr ''user''), (''content'', PStr request)]]"

section \<open>Triage\<close>

definition triage_fallback :: "agent_state \<Rightarrow> pydict" where
  "triage_fallback s =
     [(''id'', PStr ''H1''),
      (''description'', PStr (''Investigate '' @ im_alert_name (s_metadata s) @ '' on '' @ im_service (s_metadata s))),
      (''confidence'', PFloat (Fin (1 / 5))), (''evidence'', PList []), (''status'', PStr ''proposed'')]"

text \<open>The reset of the loop's counters that every exit of the node returns.\<close>

definition triage_reset :: "graph_context \<Rightarrow> pydict list \<Rightarrow> phase \<Rightarrow> agent_state \<Rightarrow> agent_state" where
  "triage_reset cx hs p s =
     s\<lparr>s_hypotheses := hs, s_phase := p, s_iteration_budget := gc_initial_budget cx, s_iteration_count := 0,
       s_last_top_confidence := Fin 0, s_stagnation_count := 0, s_action_attempts := 0\<rparr>"

definition triage_failed :: "graph_context \<Rightarrow> pydict list \<Rightarrow> agent_state \<Rightarrow> agent_state" where
  "triage_failed cx messages s =
     (let u = usage_without_response cx messages s
      in if no_action_category (category_of s)
         then (triage_reset cx [triage_fallback s] Complete u)\<lparr>s_status := ''no_action''\<rparr>
         else triage_reset cx [triage_fallback s] Investigate u)"

definition triage_node :: "graph_context \<Rightarrow> node_input \<Rightarrow> agent_state \<Rightarrow> effect list \<times> node_result" where
  "triage_node cx inp s =
     (if no_action_category (category_of s)
      then ([], Go ((triage_reset cx [] Complete (usage_without_response cx [] s))\<lparr>s_status := ''no_action''\<rparr>))
      else
        (case gc_prompt cx Triage s of
           Inl e \<Rightarrow> ([], Crash (PyError e))
         | Inr prompt \<Rightarrow>
         let messages = chat prompt ''Generate hypotheses.''; fallback = [triage_fallback s]
         in case ni_ask inp messages of
              Inl RouterCancelled \<Rightarrow> ([], Crash CancelledError)
            | Inl (LLMBudgetExhausted _) \<Rightarrow> ([], Go (triage_failed cx messages s))
            | Inr (response, model) \<Rightarrow>
               (case bind_res (parse_json_response (gc_json cx) ''triage'' True response) (\<lambda>parsed.
                      let raw = py_or (py_or (dget_or parsed ''hypotheses'' PNone) (dget_or parsed ''items'' PNone))
                                  (PList (map PDict fallback));
                          hs = normalize_hypotheses_safe (gc_json cx) raw fallback
                      in bind_res (accumulate_usage cx (Some response) messages model s) (\<lambda>u.
                           Inr (triage_reset cx hs Investigate u))) of
                  Inr s' \<Rightarrow> ([], Go s')
                | Inl _ \<Rightarrow> ([], Go (triage_failed cx messages s)))))"

section \<open>Investigate\<close>

definition py_dict_of :: "pyval \<Rightarrow> pydict" where
  "py_dict_of v = (case v of PDict d \<Rightarrow> d | _ \<Rightarrow> [])"

text \<open>The default arguments for a read-only tool, from its JSON schema; a schema of an
  unexpected shape gives none.\<close>

definition default_arg :: "string option \<Rightarrow> string \<Rightarrow> string \<Rightarrow> pydict \<Rightarrow> pydict \<Rightarrow> pydict" where
  "default_arg ns service p ps acc =
     (if p = ''namespace'' \<and> ns \<noteq> None \<and> ns \<noteq> Some [] then dset p (PStr (the ns)) acc
      else if (p = ''name'' \<or> p = ''pod_name'') \<and> service \<noteq> [] then dset p (PStr service) acc
      else if p = ''key'' \<and> service \<noteq> [] then dset p (PStr (service @ '':*'')) acc
      else if p = ''stream_key'' \<and> service \<noteq> [] then dset p (PStr (''rivulet.'' @ service @ ''.in'')) acc
      else case dget ps ''default'' of Some d \<Rightarrow> dset p d acc | None \<Rightarrow> acc)"

definition schema_arg :: "string option \<Rightarrow> string \<Rightarrow> pydict \<Rightarrow> pyval \<Rightarrow> pydict \<Rightarrow> pydict option" where
  "schema_arg ns service props k acc =
     (case k of
        PStr p \<Rightarrow>
          (case dget_or props p (PDict []) of
             PDict ps \<Rightarrow> Some (default_arg ns service p ps acc)
           | _ \<Rightarrow> None)
      | _ \<Rightarrow> None)"

fun default_tool_args :: "string option \<Rightarrow> string \<Rightarrow> pydict \<Rightarrow> pyval list \<Rightarrow> pydict \<Rightarrow> pydict option" where
  "default_tool_args ns service props [] acc = Some acc"
| "default_tool_args ns service props (k # ks) acc =
     Option.bind (schema_arg ns service props k acc) (default_tool_args ns service props ks)"

definition fallback_call :: "agent_state \<Rightarrow> tool \<Rightarrow> pyval" where
  "fallback_call s t =
     (let m = s_metadata s;
          ns = (if im_namespace m = [] then None else Some (im_namespace m));
          args = (case (dget_or (t_schema t) ''required'' (PList []), dget_or (t_schema t) ''properties'' (PDict [])) of
                    (PList req, PDict props) \<Rightarrow>
                      (case default_tool_args ns (str_strip (im_service m)) props req [] of None \<Rightarrow> [] | Some a \<Rightarrow> a)
                  | _ \<Rightarrow> [])
      in PDict [(''name'', PStr (t_name t)), (''args'', PDict args)])"

definition fallback_calls :: "agent_state \<Rightarrow> tool list \<Rightarrow> pyval list" where
  "fallback_calls s ts = map (fallback_call s) (filter (\<lambda>t. t_name t \<noteq> []) ts)"

definition hashable :: "pyval \<Rightarrow> bool" where
  "hashable v = (case v of PList _ \<Rightarrow> False | PDict _ \<Rightarrow> False | _ \<Rightarrow> True)"

definition evidence_line :: "graph_context \<Rightarrow> pyval \<Rightarrow> pydict \<Rightarrow> string \<Rightarrow> string" where
  "evidence_line cx name args outcome =
     ''Tool '' @ py_str (j_repr (gc_json cx)) name @ ''('' @
     (case j_dumps (gc_json cx) plain_style (PDict args) of Some s \<Rightarrow> s | None \<Rightarrow> []) @ '') '' @ outcome"

text \<open>One selected call: the clamped arguments, the call through the registry when there is a
  context, the evidence line. A name that cannot be hashed makes the clamp raise.\<close>

definition call_outcome :: "graph_context \<Rightarrow> pyval \<Rightarrow> pydict \<Rightarrow> bool \<times> (exn + pyval)" where
  "call_outcome cx name args =
     (case name of
        PStr t \<Rightarrow> snd (registry_execute (x_json (gc_executor cx)) (x_show_exn (gc_executor cx)) (gc_registry cx) t (PDict args))
      | _ \<Rightarrow> (False, Inl (if hashable name then ToolNotFoundError (py_str (j_repr (gc_json cx)) name)
                         else PyError (TypeError ''unhashable type''))))"

definition run_call :: "graph_context \<Rightarrow> string option \<Rightarrow> pydict \<Rightarrow> effect list \<times> (exn + string)" where
  "run_call cx ns call =
     (let name = dget_or call ''name'' (PStr []);
          args0 = py_dict_of (dget_or call ''args'' (PDict []))
      in if ns \<noteq> None \<and> \<not> hashable name then ([], Inl (PyError (TypeError ''unhashable type'')))
         else let args = (case name of PStr t \<Rightarrow> clamp_namespace args0 ns t | _ \<Rightarrow> args0)
              in if \<not> gc_sre cx
                 then ([], Inr (evidence_line cx name args ''status=failed error=no SREContext''))
                 else let (called, r) = call_outcome cx name args
                      in ([RegistryCall name args called],
                          case r of
                            Inr v \<Rightarrow> Inr (evidence_line cx name args (''status=succeeded output='' @ safe_json (gc_json cx) v 2000))
                          | Inl e \<Rightarrow>
                              (if caught_by_exception e
                               then Inr (evidence_line cx name args (''status=failed error='' @ x_show_exn (gc_executor cx) e))
                               else Inl e)))"

fun run_calls :: "graph_context \<Rightarrow> string option \<Rightarrow> pyval list \<Rightarrow> effect list \<times> (exn + string list)" where
  "run_calls cx ns [] = ([], Inr [])"
| "run_calls cx ns (c # cs) =
     (case c of
        PDict d \<Rightarrow>
          (case run_call cx ns d of
             (ev, Inl e) \<Rightarrow> (ev, Inl e)
           | (ev, Inr line) \<Rightarrow>
               (let (evs, r) = run_calls cx ns cs
                in (ev @ evs, case r of Inl e \<Rightarrow> Inl e | Inr lines \<Rightarrow> Inr (line # lines))))
      | _ \<Rightarrow> run_calls cx ns cs)"

text \<open>\<open>list(v)\<close>\<close>

definition py_list :: "pyval \<Rightarrow> exn + pyval list" where
  "py_list v =
     (case v of
        PList xs \<Rightarrow> Inr xs
      | PStr s \<Rightarrow> Inr (map (\<lambda>c. PStr [c]) s)
      | PDict d \<Rightarrow> Inr (map (\<lambda>(k, _). PStr k) d)
      | PBytes s \<Rightarrow> Inr (map (\<lambda>c. PInt (of_char c)) s)
      | _ \<Rightarrow> Inl (PyError (TypeError ''object is not iterable'')))"

definition append_evidence :: "string list \<Rightarrow> pydict \<Rightarrow> exn + pydict" where
  "append_evidence lines h =
     bind_res (py_list (dget_or h ''evidence'' (PList []))) (\<lambda>ev.
       Inr (dset ''evidence'' (PList (ev @ map PStr lines)) h))"

text \<open>The calls to make and the usage: the model's selection, or the fallback when anything on
  the way fails.\<close>

definition ask_for_calls ::
  "graph_context \<Rightarrow> node_input \<Rightarrow> pydict list \<Rightarrow> agent_state \<Rightarrow> exn + pyval list \<times> agent_state" where
  "ask_for_calls cx inp messages s =
     (let give_up = Inr (fallback_calls s (read_only_tools (gc_registry cx)), usage_without_response cx messages s)
      in case ni_ask inp messages of
           Inl RouterCancelled \<Rightarrow> Inl CancelledError
         | Inl (LLMBudgetExhausted _) \<Rightarrow> give_up
         | Inr (response, model) \<Rightarrow>
            (case bind_res (parse_json_response (gc_json cx) ''investigate'' False response) (\<lambda>parsed.
                   bind_res (accumulate_usage cx (Some response) messages model s) (\<lambda>u.
                     Inr ((case dget_or parsed ''tools'' (PList []) of PList cs \<Rightarrow> cs | _ \<Rightarrow> []), u))) of
               Inr r \<Rightarrow> Inr r
             | Inl _ \<Rightarrow> give_up))"

definition select_calls ::
  "graph_context \<Rightarrow> node_input \<Rightarrow> agent_state \<Rightarrow> exn + pyval list \<times> agent_state" where
  "select_calls cx inp s =
     bind_res (map_sum PyError id (gc_prompt cx Investigate s)) (\<lambda>prompt.
       ask_for_calls cx inp (chat prompt ''Select investigation tools.'') s)"

definition investigate_node :: "graph_context \<Rightarrow> node_input \<Rightarrow> agent_state \<Rightarrow> effect list \<times> node_result" where
  "investigate_node cx inp s =
     (let budget = max 0 (s_iteration_budget s - 1); count = s_iteration_count s + 1
      in if read_only_tools (gc_registry cx) = []
         then ([], Go (s\<lparr>s_iteration_budget := budget, s_iteration_count := count, s_phase := Hypothesize\<rparr>))
         else case select_calls cx inp s of
           Inl e \<Rightarrow> ([], Crash e)
         | Inr (calls, u) \<Rightarrow>
            (let ns = (if im_namespace (s_metadata s) = [] then None else Some (im_namespace (s_metadata s)))
             in case run_calls cx ns (take max_tools_per_iteration calls) of
                  (ev, Inl e) \<Rightarrow> (ev, Crash e)
                | (ev, Inr lines) \<Rightarrow>
                   (case map_res (append_evidence lines) (s_hypotheses s) of
                      Inl e \<Rightarrow> (ev, Crash e)
                    | Inr hs \<Rightarrow>
                        (ev, Go (u\<lparr>s_phase := Hypothesize, s_iteration_budget := budget,
                                   s_iteration_count := count, s_hypotheses := hs\<rparr>)))))"

section \<open>Hypothesize\<close>

text \<open>\<open>float(h.get("confidence", 0.0) or 0.0)\<close>\<close>

definition raw_confidence :: "pydict \<Rightarrow> py_error + pyfloat" where
  "raw_confidence h = py_float (py_or (dget_or h ''confidence'' (PFloat (Fin 0))) (PFloat (Fin 0)))"

definition top_confidence :: "pydict list \<Rightarrow> py_error + pyfloat" where
  "top_confidence hs = (case top_hypothesis hs of None \<Rightarrow> Inr (Fin 0) | Some h \<Rightarrow> raw_confidence h)"

definition string_ids :: "pydict list \<Rightarrow> string list" where
  "string_ids hs = concat (map (\<lambda>h. case dget_or h ''id'' PNone of PStr i \<Rightarrow> [i] | _ \<Rightarrow> []) hs)"

text \<open>The refined hypotheses that are kept; an id that cannot be hashed makes the test raise.\<close>

definition keep_refined :: "pydict list \<Rightarrow> pydict list \<Rightarrow> exn + pydict list" where
  "keep_refined hypotheses refined =
     (if list_ex (\<lambda>h. \<not> hashable (dget_or h ''id'' PNone)) refined
      then Inl (PyError (TypeError ''unhashable type''))
      else let kept = filter (\<lambda>h. case dget_or h ''id'' PNone of
                                     PStr i \<Rightarrow> i \<in> set (string_ids hypotheses) | _ \<Rightarrow> False) refined
           in Inr (if kept = [] then hypotheses else kept))"

definition lift_exn :: "py_error + 'a \<Rightarrow> exn + 'a" where
  "lift_exn r = (case r of Inl e \<Rightarrow> Inl (PyError e) | Inr x \<Rightarrow> Inr x)"

text \<open>The body of the try block: the state with the refined hypotheses.\<close>

definition refine ::
  "graph_context \<Rightarrow> pydict list \<Rightarrow> pyval \<Rightarrow> string \<Rightarrow> agent_state \<Rightarrow> exn + agent_state" where
  "refine cx messages response model s =
     bind_res (lift_exn (parse_json_response (gc_json cx) ''hypothesize'' True response)) (\<lambda>parsed.
       let raw = py_or (py_or (dget_or parsed ''hypotheses'' PNone) (dget_or parsed ''items'' PNone))
                   (PList (map PDict (s_hypotheses s)))
       in bind_res (keep_refined (s_hypotheses s) (coerce_dict_list raw)) (\<lambda>refined.
          bind_res (lift_exn (top_confidence refined)) (\<lambda>conf.
            let improved = pf_le (Fin (gc_min_improvement cx)) (pf_sub conf (s_last_top_confidence s));
                stagnation = (if improved then 0 else s_stagnation_count s + 1)
            in bind_res (lift_exn (accumulate_usage cx (Some response) messages model s)) (\<lambda>u.
                 Inr (u\<lparr>s_hypotheses := refined,
                        s_phase := (if pf_le (Fin (gc_confidence_fast_path cx)) conf then Propose
                                    else if stagnation \<ge> gc_stagnation_limit cx then Propose
                                    else Investigate),
                        s_last_top_confidence := conf, s_stagnation_count := stagnation\<rparr>)))))"

definition hypothesize_node :: "graph_context \<Rightarrow> node_input \<Rightarrow> agent_state \<Rightarrow> effect list \<times> node_result" where
  "hypothesize_node cx inp s =
     (if s_hypotheses s = []
      then ([], Go ((usage_without_response cx [] s)\<lparr>s_phase := Complete, s_status := ''failed''\<rparr>))
      else case top_confidence (s_hypotheses s) of
        Inl e \<Rightarrow> ([], Crash (PyError e))
      | Inr current \<Rightarrow>
         (if pf_le (Fin (gc_confidence_fast_path cx)) current \<or> s_iteration_budget s \<le> 0
          then ([], Go (s\<lparr>s_phase := Propose, s_last_top_confidence := current\<rparr>))
          else
            (case gc_prompt cx Hypothesize s of
               Inl e \<Rightarrow> ([], Crash (PyError e))
             | Inr prompt \<Rightarrow>
             let messages = chat prompt ''Refine hypotheses.'';
                 give_up = (usage_without_response cx messages s)\<lparr>s_phase := Propose, s_last_top_confidence := current\<rparr>
             in case ni_ask inp messages of
                  Inl RouterCancelled \<Rightarrow> ([], Crash CancelledError)
                | Inl (LLMBudgetExhausted _) \<Rightarrow> ([], Go give_up)
                | Inr (response, model) \<Rightarrow>
                    (case refine cx messages response model s of
                       Inr s' \<Rightarrow> ([], Go s')
                     | Inl _ \<Rightarrow> ([], Go give_up)))))"

section \<open>What the nodes leave alone\<close>

definition same_case :: "agent_state \<Rightarrow> agent_state \<Rightarrow> bool" where
  "same_case s s' =
     (s_metadata s' = s_metadata s \<and> s_executed s' = s_executed s \<and> s_proposed s' = s_proposed s \<and>
      s_requires_approval s' = s_requires_approval s \<and> s_approval_granted s' = s_approval_granted s \<and>
      s_approval_requested_at s' = s_approval_requested_at s)"

lemma triage_result:
  assumes "triage_node cx inp s = (ev, r)"
  shows "ev = [] \<and> (case r of
      Go s' \<Rightarrow> same_case s s' \<and> s_iteration_budget s' = gc_initial_budget cx \<and> s_iteration_count s' = 0 \<and>
        s_action_attempts s' = 0
    | Pause p \<Rightarrow> False | Crash e \<Rightarrow> True)"
  using assms
  by (auto simp: triage_node_def triage_failed_def triage_reset_def same_case_def Let_def bind_res_Inr_iff
        same_control_def dest!: accumulate_control split: if_splits sum.splits router_error.splits)

lemma select_calls_control:
  assumes "select_calls cx inp s = Inr (calls, u)"
  shows "same_control s u"
proof -
  from assms obtain ms where "ask_for_calls cx inp ms s = Inr (calls, u)"
    by (auto simp: select_calls_def bind_res_Inr_iff)
  then show ?thesis
    by (auto simp: ask_for_calls_def Let_def bind_res_Inr_iff without_response_control
        dest: accumulate_control split: sum.splits router_error.splits)
qed

text \<open>The calls of an investigation reach the registry only: at most one per call made.\<close>

definition is_registry_call :: "effect \<Rightarrow> bool" where
  "is_registry_call x = (case x of RegistryCall n a c \<Rightarrow> True | _ \<Rightarrow> False)"

lemma run_call_effects:
  "run_call cx ns c = (ev, r) \<Longrightarrow> length ev \<le> 1 \<and> list_all is_registry_call ev"
  by (auto simp: run_call_def Let_def split_beta is_registry_call_def split: if_splits)

lemma run_calls_effects:
  "run_calls cx ns cs = (ev, r) \<Longrightarrow> length ev \<le> length cs \<and> list_all is_registry_call ev"
proof (induction cs arbitrary: ev r)
  case (Cons c cs)
  show ?case
  proof (cases c)
    case (PDict d)
    obtain ev1 r1 where "run_call cx ns d = (ev1, r1)" by fastforce
    moreover obtain ev2 r2 where "run_calls cx ns cs = (ev2, r2)" by fastforce
    ultimately show ?thesis
      using Cons.prems Cons.IH PDict run_call_effects [of cx ns d ev1 r1] by (cases r1) fastforce+
  qed (use Cons in \<open>force+\<close>)
qed simp

lemma investigate_result:
  assumes "investigate_node cx inp s = (ev, r)"
  shows "length ev \<le> max_tools_per_iteration \<and> list_all is_registry_call ev \<and> (case r of
      Go s' \<Rightarrow> same_case s s' \<and> s_iteration_budget s' = max 0 (s_iteration_budget s - 1) \<and>
        s_iteration_count s' = s_iteration_count s + 1 \<and> s_action_attempts s' = s_action_attempts s
    | Pause p \<Rightarrow> False | Crash e \<Rightarrow> True)"
proof -
  have *: "length ev' \<le> max_tools_per_iteration \<and> list_all is_registry_call ev'"
    if "run_calls cx ns (take max_tools_per_iteration calls) = (ev', r')" for ns calls ev' r'
    using run_calls_effects [OF that] by simp
  show ?thesis
    using assms
    by (auto simp: investigate_node_def same_case_def same_control_def Let_def
        dest!: select_calls_control * split: if_splits sum.splits prod.splits)
qed

lemma lift_exn_Inr_iff: "lift_exn r = Inr x \<longleftrightarrow> r = Inr x"
  by (auto simp: lift_exn_def split: sum.splits)

lemma refine_control:
  "refine cx ms r m s = Inr s' \<Longrightarrow> same_case s s' \<and> s_iteration_budget s' = s_iteration_budget s \<and>
     s_iteration_count s' = s_iteration_count s \<and> s_action_attempts s' = s_action_attempts s"
  by (auto simp: refine_def bind_res_Inr_iff Let_def lift_exn_Inr_iff same_case_def same_control_def
      dest!: accumulate_control)

lemma hypothesize_result:
  assumes "hypothesize_node cx inp s = (ev, r)"
  shows "ev = [] \<and> (case r of
      Go s' \<Rightarrow> same_case s s' \<and> s_iteration_budget s' = s_iteration_budget s \<and>
        s_iteration_count s' = s_iteration_count s \<and> s_action_attempts s' = s_action_attempts s
    | Pause p \<Rightarrow> False | Crash e \<Rightarrow> True)"
  using assms
  by (auto simp: hypothesize_node_def same_case_def [of s "_\<lparr>s_phase := _, s_status := _\<rparr>"]
      same_case_def [of s "_\<lparr>s_phase := _, s_last_top_confidence := _\<rparr>"] Let_def
      dest!: refine_control split: if_splits sum.splits router_error.splits prod.splits)

end
