(* ===== verification/Propose.thy ===== *)
theory Propose
  imports Nodes
begin

text \<open>
  The propose node of \<^verbatim>\<open>core/graph_nodes.py\<close>, in the parts its code has: the
  early exits, the reading of the model's proposal, the category fallback (used when the model
  fails, is not confident enough, proposes a forbidden tool or nothing), and the final checks
  (duplicates, attempt cap, namespace, schema). A proposal under construction is a \<open>draft\<close>.
\<close>

record draft =
  d_tool :: "string option"
  d_args :: pydict
  d_tier :: int
  d_rationale :: string
  d_approval :: bool

definition forbidden_tools :: "string \<Rightarrow> string list" where
  "forbidden_tools cat = dget_or category_forbidden_tools cat []"

definition finish_with :: "string \<Rightarrow> agent_state \<Rightarrow> agent_state" where
  "finish_with status s = s\<lparr>s_phase := Complete, s_status := status\<rparr>"

section \<open>The model's proposal\<close>

definition read_tier :: "pyval \<Rightarrow> int" where
  "read_tier v =
     (case v of
        PInt i \<Rightarrow> i
      | PBool b \<Rightarrow> (if b then 1 else 0)
      | PStr t \<Rightarrow> (case int_of_text t of Some i \<Rightarrow> i | None \<Rightarrow> 1)
      | _ \<Rightarrow> 1)"

definition in_namespace_tools :: "string option \<Rightarrow> bool" where
  "in_namespace_tools t = (case t of None \<Rightarrow> False | Some n \<Rightarrow> n \<in> set tools_with_namespace)"

definition read_proposal :: "json_lib \<Rightarrow> pydict \<Rightarrow> draft" where
  "read_proposal J parsed =
     (let t = coerce_tool_name (dget_or parsed ''tool_name'' PNone);
          args = py_dict_of (dget_or parsed ''tool_args'' PNone);
          tier = read_tier (dget_or parsed ''risk_tier'' (PInt 1))
      in \<lparr>d_tool = t, d_args = (if in_namespace_tools t then args else dpop ''namespace'' args), d_tier = tier,
          d_rationale = py_str (j_repr J) (dget_or parsed ''rationale'' (PStr [])), d_approval = (tier \<ge> 2)\<rparr>)"

text \<open>The try block: the proposal and the usage, or the exception that leads to the fallback.\<close>

definition ask_proposal ::
  "graph_context \<Rightarrow> pydict list \<Rightarrow> string \<Rightarrow> pyfloat \<Rightarrow> pyval \<Rightarrow> string \<Rightarrow> agent_state \<Rightarrow>
     py_error + draft \<times> agent_state" where
  "ask_proposal cx messages cat conf response model s =
     bind_res (parse_json_response (gc_json cx) ''propose'' False response) (\<lambda>parsed.
       let d = read_proposal (gc_json cx) parsed
       in bind_res (accumulate_usage cx (Some response) messages model s) (\<lambda>u.
            if pf_lt conf (Fin (gc_confidence_propose cx)) then Inl (ValueError ''Confidence below threshold'')
            else if (case d_tool d of None \<Rightarrow> False | Some t \<Rightarrow> t \<in> set (forbidden_tools cat))
            then Inl (ValueError (''Proposed tool '' @ quoted (the (d_tool d)) @ '' is forbidden for category '' @ quoted cat))
            else Inr (d, u)))"

section \<open>The category's fallback\<close>

definition best_description :: "json_lib \<Rightarrow> agent_state \<Rightarrow> string" where
  "best_description J s =
     (case top_hypothesis (s_hypotheses s) of None \<Rightarrow> []
      | Some h \<Rightarrow> take 100 (py_str (j_repr J) (dget_or h ''description'' (PStr []))))"

definition fallback_draft :: "graph_context \<Rightarrow> agent_state \<Rightarrow> string \<Rightarrow> string \<Rightarrow> draft option" where
  "fallback_draft cx s cat why =
     (case dget fallback_actions cat of
        None \<Rightarrow> None
      | Some fb \<Rightarrow>
          (if fa_tool_name fb = ''none'' \<or> fa_tool_name fb \<in> set (forbidden_tools cat) then None
           else Some \<lparr>d_tool = Some (fa_tool_name fb), d_args = build_fallback_args fb (s_metadata s),
                      d_tier = fa_risk_tier fb,
                      d_rationale = ''Fallback action for category '' @ quoted cat @ '' ('' @ why
                        @ ''). Top hypothesis: '' @ best_description (gc_json cx) s,
                      d_approval = (fa_risk_tier fb \<ge> 2)\<rparr>))"

text \<open>What to propose, \<open>None\<close> for no action, with the state after accounting.\<close>

definition ask_for_action ::
  "graph_context \<Rightarrow> node_input \<Rightarrow> pydict list \<Rightarrow> pyfloat \<Rightarrow> agent_state \<Rightarrow> exn + draft option \<times> agent_state" where
  "ask_for_action cx inp messages conf s =
     (let cat = category_of s;
          path1 = Inr (fallback_draft cx s cat ''LLM unavailable or low confidence'', usage_without_response cx messages s)
      in case ni_ask inp messages of
           Inl RouterCancelled \<Rightarrow> Inl CancelledError
         | Inl (LLMBudgetExhausted _) \<Rightarrow> path1
         | Inr (response, model) \<Rightarrow>
             (case ask_proposal cx messages cat conf response model s of
                Inl _ \<Rightarrow> path1
              | Inr (d, u) \<Rightarrow>
                  (if d_tool d = None \<or> d_tool d = Some ''none''
                   then Inr (fallback_draft cx s cat ''LLM returned no action'', u)
                   else Inr (Some d, u))))"

definition choose_action ::
  "graph_context \<Rightarrow> node_input \<Rightarrow> pyfloat \<Rightarrow> agent_state \<Rightarrow> exn + draft option \<times> agent_state" where
  "choose_action cx inp conf s =
     bind_res (map_sum PyError id (gc_prompt cx Propose s)) (\<lambda>prompt.
       ask_for_action cx inp (chat prompt ''Propose remediation action.'') conf s)"

section \<open>The final checks\<close>

definition propose_finish :: "graph_context \<Rightarrow> agent_state \<Rightarrow> draft option \<Rightarrow> agent_state \<Rightarrow> agent_state" where
  "propose_finish cx s choice u =
     (case choice of
        None \<Rightarrow> finish_with ''no_action'' u
      | Some d \<Rightarrow>
         (let t = (case d_tool d of None \<Rightarrow> [] | Some n \<Rightarrow> n);
              args = clamp_namespace (d_args d) (Some (im_namespace (s_metadata s))) t
          in if is_action_already_executed t (d_args d) (s_executed s) then finish_with ''no_action'' u
             else if count_action_attempts t (s_executed s) \<ge> 2 \<and> t \<in> set mutating_tools then finish_with ''failed'' u
             else if \<not> args_satisfy_schema (gc_registry cx) t args then finish_with ''no_action'' u
             else u\<lparr>s_proposed := [\<lparr>pa_tool_name = t, pa_tool_args = args, pa_risk_tier = d_tier d,
                                    pa_rationale = d_rationale d, pa_requires_approval = d_approval d\<rparr>],
                    s_requires_approval := d_approval d,
                    s_phase := (if d_approval d then Approve else Execute)\<rparr>))"

definition propose_node :: "graph_context \<Rightarrow> node_input \<Rightarrow> agent_state \<Rightarrow> effect list \<times> node_result" where
  "propose_node cx inp s =
     (if s_action_attempts s \<ge> gc_max_attempts cx then ([], Go (finish_with ''failed'' s))
      else if s_hypotheses s = [] then ([], Go (finish_with ''no_action'' s))
      else case top_confidence (s_hypotheses s) of
        Inl e \<Rightarrow> ([], Crash (PyError e))
      | Inr conf \<Rightarrow>
         (if no_action_category (category_of s)
          then ([], Go (finish_with ''no_action'' (usage_without_response cx [] s)))
          else case choose_action cx inp conf s of
            Inl e \<Rightarrow> ([], Crash e)
          | Inr (choice, u) \<Rightarrow> ([], Go (propose_finish cx s choice u))))"

section \<open>What a proposal satisfies\<close>

lemma ask_proposal_control:
  "ask_proposal cx ms cat conf r m s = Inr (d, u) \<Longrightarrow> same_control s u"
  by (auto simp: ask_proposal_def bind_res_Inr_iff Let_def split: if_splits dest: accumulate_control)

lemma choose_action_control:
  assumes "choose_action cx inp conf s = Inr (d, u)"
  shows "same_control s u"
proof -
  from assms obtain ms where "ask_for_action cx inp ms conf s = Inr (d, u)"
    by (auto simp: choose_action_def bind_res_Inr_iff)
  then show ?thesis
    unfolding ask_for_action_def Let_def
    by (auto simp: without_response_control split: sum.splits router_error.splits if_splits)
       (erule ask_proposal_control)+
qed

text \<open>A chosen action is never a forbidden one.\<close>

lemma choose_action_allowed:
  assumes "choose_action cx inp conf s = Inr (Some d, u)"
  obtains t where "d_tool d = Some t" "t \<notin> set (forbidden_tools (category_of s))" "t \<noteq> ''none''"
    "d_approval d \<longleftrightarrow> d_tier d \<ge> 2"
proof -
  have fb: "\<exists>t. d_tool d = Some t \<and> t \<notin> set (forbidden_tools (category_of s)) \<and> t \<noteq> ''none''
      \<and> (d_approval d \<longleftrightarrow> d_tier d \<ge> 2)"
    if "fallback_draft cx s (category_of s) why = Some d" for why
    using that by (auto simp: fallback_draft_def split: option.splits if_splits)
  from assms obtain ms where ask: "ask_for_action cx inp ms conf s = Inr (Some d, u)"
    by (auto simp: choose_action_def bind_res_Inr_iff)
  have "\<exists>t. d_tool d = Some t \<and> t \<notin> set (forbidden_tools (category_of s)) \<and> t \<noteq> ''none''
      \<and> (d_approval d \<longleftrightarrow> d_tier d \<ge> 2)"
    using ask fb
    by (auto simp: ask_for_action_def Let_def ask_proposal_def read_proposal_def bind_res_Inr_iff
        split: sum.splits router_error.splits if_splits option.splits)
  then show thesis using that by blast
qed

text \<open>The shape of what the node proposes.\<close>

definition action_ok :: "graph_context \<Rightarrow> agent_state \<Rightarrow> proposed_action \<Rightarrow> bool" where
  "action_ok cx s a =
     (pa_tool_name a \<notin> set (forbidden_tools (category_of s)) \<and> pa_tool_name a \<noteq> ''none'' \<and>
      (pa_tool_name a \<in> set tools_with_namespace \<longrightarrow>
         dget (pa_tool_args a) ''namespace'' = Some (PStr (im_namespace (s_metadata s)))) \<and>
      args_satisfy_schema (gc_registry cx) (pa_tool_name a) (pa_tool_args a) \<and>
      (pa_tool_name a \<in> set mutating_tools \<longrightarrow> \<not> list_ex (\<lambda>e. ea_tool_name e = pa_tool_name a) (s_executed s)))"

definition proposal_ok :: "graph_context \<Rightarrow> agent_state \<Rightarrow> proposed_action \<Rightarrow> bool" where
  "proposal_ok cx s a \<longleftrightarrow> action_ok cx s a \<and> (pa_requires_approval a \<longleftrightarrow> pa_risk_tier a \<ge> 2)"

text \<open>It does not depend on the action's tier and flag, nor on the rest of the state.\<close>

lemma action_ok_cong:
  "pa_tool_name a = pa_tool_name b \<Longrightarrow> pa_tool_args a = pa_tool_args b \<Longrightarrow> s_metadata s = s_metadata s' \<Longrightarrow>
   s_executed s = s_executed s' \<Longrightarrow> action_ok cx s a = action_ok cx s' b"
  by (simp add: action_ok_def category_of_def)

lemma already_executed_mutating:
  "t \<in> set mutating_tools \<Longrightarrow> is_action_already_executed t args es \<longleftrightarrow> list_ex (\<lambda>e. ea_tool_name e = t) es"
  by (auto simp: is_action_already_executed_def mutating_tools_def list_ex_iff)

text \<open>The two outcomes of the node's last part.\<close>

lemma propose_finish_cases:
  assumes "choose_action cx inp conf s = Inr (choice, u)"
  obtains (completes) status where "propose_finish cx s choice u = finish_with status u"
      "status \<in> {''no_action'', ''failed''}"
    | (proposes) a where "propose_finish cx s choice u =
        u\<lparr>s_proposed := [a], s_requires_approval := pa_requires_approval a,
          s_phase := (if pa_requires_approval a then Approve else Execute)\<rparr>" "proposal_ok cx s a"
proof (cases choice)
  case None
  with completes show thesis by (simp add: propose_finish_def)
next
  case (Some d)
  with assms obtain t where t: "d_tool d = Some t" "t \<notin> set (forbidden_tools (category_of s))"
    "t \<noteq> ''none''" "d_approval d \<longleftrightarrow> d_tier d \<ge> 2"
    by (auto elim: choose_action_allowed)
  let ?args = "clamp_namespace (d_args d) (Some (im_namespace (s_metadata s))) t"
  let ?a = "\<lparr>pa_tool_name = t, pa_tool_args = ?args, pa_risk_tier = d_tier d,
     pa_rationale = d_rationale d, pa_requires_approval = d_approval d\<rparr>"
  show thesis
  proof (cases "is_action_already_executed t (d_args d) (s_executed s) \<or>
      (count_action_attempts t (s_executed s) \<ge> 2 \<and> t \<in> set mutating_tools) \<or>
      \<not> args_satisfy_schema (gc_registry cx) t ?args")
    case True
    then have "\<exists>status. propose_finish cx s choice u = finish_with status u \<and> status \<in> {''no_action'', ''failed''}"
      using Some t by (auto simp: propose_finish_def Let_def)
    then show thesis using completes by blast
  next
    case False
    have "proposal_ok cx s ?a"
      using t False already_executed_mutating [of t "d_args d" "s_executed s"]
      by (auto simp: proposal_ok_def action_ok_def clamp_namespace_def)
    moreover have "propose_finish cx s choice u =
        u\<lparr>s_proposed := [?a], s_requires_approval := pa_requires_approval ?a,
          s_phase := (if pa_requires_approval ?a then Approve else Execute)\<rparr>"
      using Some t False by (auto simp: propose_finish_def Let_def)
    ultimately show thesis using proposes by blast
  qed
qed

lemma finish_with_fields [simp, frame_simps]:
  "s_phase (finish_with st s) = Complete" "s_status (finish_with st s) = st"
  "s_metadata (finish_with st s) = s_metadata s" "s_executed (finish_with st s) = s_executed s"
  "s_proposed (finish_with st s) = s_proposed s" "s_action_attempts (finish_with st s) = s_action_attempts s"
  "s_iteration_count (finish_with st s) = s_iteration_count s"
  "s_iteration_budget (finish_with st s) = s_iteration_budget s"
  "s_requires_approval (finish_with st s) = s_requires_approval s"
  "s_approval_granted (finish_with st s) = s_approval_granted s"
  "s_approval_requested_at (finish_with st s) = s_approval_requested_at s"
  by (simp_all add: finish_with_def)

text \<open>What the node leaves: everything but the proposal, the approval flag and the accounting.\<close>

definition same_progress :: "agent_state \<Rightarrow> agent_state \<Rightarrow> bool" where
  "same_progress s s' =
     (s_metadata s' = s_metadata s \<and> s_executed s' = s_executed s \<and>
      s_approval_granted s' = s_approval_granted s \<and> s_approval_requested_at s' = s_approval_requested_at s \<and>
      s_iteration_count s' = s_iteration_count s \<and> s_iteration_budget s' = s_iteration_budget s \<and>
      s_action_attempts s' = s_action_attempts s)"

definition proposes :: "graph_context \<Rightarrow> agent_state \<Rightarrow> proposed_action \<Rightarrow> agent_state \<Rightarrow> bool" where
  "proposes cx s a s' \<longleftrightarrow>
     s_action_attempts s < gc_max_attempts cx \<and> s_proposed s' = [a] \<and> proposal_ok cx s a \<and>
     s_requires_approval s' = pa_requires_approval a \<and>
     s_phase s' = (if pa_requires_approval a then Approve else Execute)"

lemma propose_result:
  assumes "propose_node cx inp s = (ev, r)"
  shows "ev = [] \<and> (case r of
      Go s' \<Rightarrow> same_progress s s' \<and> (s_phase s' = Complete \<or> (\<exists>a. proposes cx s a s'))
    | Pause p \<Rightarrow> False | Crash e \<Rightarrow> True)"
proof -
  have control: "same_progress s (propose_finish cx s choice u) \<and>
      (s_phase (propose_finish cx s choice u) = Complete \<or> (\<exists>a. proposes cx s a (propose_finish cx s choice u)))"
    if "choose_action cx inp conf s = Inr (choice, u)" "s_action_attempts s < gc_max_attempts cx" for conf choice u
    using that(1)
  proof (cases rule: propose_finish_cases)
    case (completes status)
    with choose_action_control [OF that(1)] show ?thesis by (simp add: same_control_def same_progress_def)
  next
    case (proposes a)
    with choose_action_control [OF that(1)] that(2) show ?thesis
      by (auto simp: same_control_def same_progress_def proposes_def)
  qed
  from assms show ?thesis
    by (auto simp: propose_node_def same_progress_def [of s "finish_with _ _"] dest!: control
        split: if_splits sum.splits prod.splits)
qed

end
