(* ===== verification/Actuate.thy ===== *)
theory Actuate
  imports Propose
begin

text \<open>
  The second half of \<^verbatim>\<open>core/graph_nodes.py\<close>: the approve node with its two passes and
  the interrupt, the execute node that goes through the executor, the verify node and the
  complete node that settles status and timing.
\<close>

section \<open>Approve\<close>

definition metadata_payload :: "agent_state \<Rightarrow> proposed_action \<Rightarrow> pydict" where
  "metadata_payload s a =
    [(''question'', PStr ''This action requires human approval before execution.''),
     (''incident_id'', PStr (im_incident_id (s_metadata s))),
     (''alert_name'', PStr (im_alert_name (s_metadata s))),
     (''proposed_action'', PDict
       [(''tool_name'', PStr (pa_tool_name a)), (''tool_args'', PDict (pa_tool_args a)),
        (''risk_tier'', PInt (pa_risk_tier a)), (''rationale'', PStr (pa_rationale a))])]"

text \<open>The decision a resume carries: a dict is read at its key, anything else by its truth.\<close>

definition decision_approves :: "pyval \<Rightarrow> bool" where
  "decision_approves v =
     (case v of PDict d \<Rightarrow> truthy (dget_or d ''approved'' (PBool False)) | _ \<Rightarrow> truthy v)"

definition approve_node :: "graph_context \<Rightarrow> node_input \<Rightarrow> agent_state \<Rightarrow> effect list \<times> node_result" where
  "approve_node cx inp s =
     ([], if \<not> s_requires_approval s then Go (s\<lparr>s_phase := Execute\<rparr>)
          else case s_approval_granted s of
            Some True \<Rightarrow> Go (s\<lparr>s_phase := Execute\<rparr>)
          | Some False \<Rightarrow> Go (finish_with ''no_action'' s)
          | None \<Rightarrow>
             (case s_approval_requested_at s of
                None \<Rightarrow> Go (s\<lparr>s_approval_requested_at := Some (ni_now inp), s_phase := Approve\<rparr>)
              | Some asked \<Rightarrow>
                 (case s_proposed s of
                    [] \<Rightarrow> Go (finish_with ''no_action'' s)
                  | a # _ \<Rightarrow>
                     (case ni_decision inp of
                        None \<Rightarrow> Pause (metadata_payload s a)
                      | Some v \<Rightarrow>
                         (let wait = py_round (ni_now inp - asked) 3
                          in if decision_approves v
                             then Go (s\<lparr>s_approval_granted := Some True,
                                        s_proposed := map (\<lambda>p. p\<lparr>pa_requires_approval := False\<rparr>) (s_proposed s),
                                        s_approval_wait := wait, s_phase := Execute\<rparr>)
                             else Go ((finish_with ''no_action'' s)\<lparr>s_approval_granted := Some False,
                                        s_approval_wait := wait\<rparr>))))))"

section \<open>Execute\<close>

definition already_approved :: "agent_state \<Rightarrow> bool" where
  "already_approved s = (s_approval_granted s = Some True)"

text \<open>The action handed to the executor: once approved, its tier is 1 and its flag is off.\<close>

definition action_to_run :: "agent_state \<Rightarrow> proposed_action \<Rightarrow> exn + proposed_action" where
  "action_to_run s p =
     make_proposed (pa_tool_name p) (pa_tool_args p) (if already_approved s then 1 else pa_risk_tier p)
       (pa_rationale p) (if already_approved s then False else pa_requires_approval p)"

definition executed_record :: "node_input \<Rightarrow> proposed_action \<Rightarrow> execution_result \<Rightarrow> executed_action" where
  "executed_record inp p r =
     \<lparr>ea_tool_name = pa_tool_name p, ea_tool_args = pa_tool_args p, ea_tool_call_id = ni_call_id inp,
      ea_result = (case x_output r of Some d \<Rightarrow> d | None \<Rightarrow> []),
      ea_success = (x_executed r \<and> x_error r = None), ea_executed_at = ni_timestamp inp,
      ea_verification_passed = x_verified r\<rparr>"

definition execute_node :: "graph_context \<Rightarrow> node_input \<Rightarrow> agent_state \<Rightarrow> effect list \<times> node_result" where
  "execute_node cx inp s =
     (case s_proposed s of
        [] \<Rightarrow> ([], Go (finish_with ''failed'' s))
      | p # _ \<Rightarrow>
         (if s_action_attempts s \<ge> gc_max_attempts cx \<or> \<not> gc_sre cx then ([], Go (finish_with ''failed'' s))
          else case action_to_run s p of
            Inl e \<Rightarrow> ([], Crash e)
          | Inr a \<Rightarrow>
             (let (ev, res) = execute (gc_executor cx) (ni_clock inp) None a
              in ([ExecutorCall p a ev],
                  case res of
                    Inr r \<Rightarrow>
                      Go (s\<lparr>s_executed := s_executed s @ [executed_record inp p r],
                            s_action_attempts := s_action_attempts s + 1,
                            s_phase := (if x_executed r \<and> x_error r = None then Verify_Phase else Propose)\<rparr>)
                  | Inl (Escaped e) \<Rightarrow>
                      (if caught_by_exception e
                       then Go (s\<lparr>s_action_attempts := s_action_attempts s + 1, s_phase := Propose\<rparr>)
                       else Crash e)
                  | Inl _ \<Rightarrow> Go (s\<lparr>s_action_attempts := s_action_attempts s + 1, s_phase := Propose\<rparr>)))))"

section \<open>Verify\<close>

definition verify_node :: "graph_context \<Rightarrow> node_input \<Rightarrow> agent_state \<Rightarrow> effect list \<times> node_result" where
  "verify_node cx inp s =
     ([], Go
       (if s_executed s = [] then finish_with ''failed'' s
        else let a = last (s_executed s);
                 retry = (if s_action_attempts s \<ge> gc_max_attempts cx then finish_with ''failed'' s
                          else s\<lparr>s_phase := Propose\<rparr>)
             in case ea_verification_passed a of
                  Some True \<Rightarrow> finish_with ''resolved'' s
                | Some False \<Rightarrow> retry
                | None \<Rightarrow> if ea_success a then finish_with ''resolved'' s else retry))"

section \<open>Complete\<close>

definition final_status :: "agent_state \<Rightarrow> string" where
  "final_status s =
     (if s_requires_approval s \<and> s_approval_granted s = None then ''running''
      else if list_ex ea_success (s_executed s) then ''resolved''
      else if s_executed s \<noteq> [] then ''failed''
      else ''no_action'')"

definition wall_clock :: "rat \<Rightarrow> agent_state \<Rightarrow> rat" where
  "wall_clock now s = (if s_started_at s > 0 then max (1 / 1000) (now - s_started_at s) else 0)"

definition complete_node :: "graph_context \<Rightarrow> node_input \<Rightarrow> agent_state \<Rightarrow> effect list \<times> node_result" where
  "complete_node cx inp s =
     (let m = (case ni_metrics inp of Some m \<Rightarrow> m | None \<Rightarrow> zero_metrics);
          wall = wall_clock (ni_now inp) s;
          active = max 0 (wall - rm_backoff_seconds m - rm_approval_wait_seconds m)
      in ([], Go (s\<lparr>s_phase := Complete, s_status := final_status s,
                    s_wall_clock := py_round wall 3, s_backoff := py_round (rm_backoff_seconds m) 3,
                    s_approval_wait := py_round (rm_approval_wait_seconds m) 3,
                    s_llm_latency := Some (py_round (rm_llm_latency_seconds m) 3),
                    s_active := py_round active 3\<rparr>)))"

text \<open>The wait the approve node records in the run's metrics, when it has any.\<close>

definition record_wait :: "node_input \<Rightarrow> agent_state \<Rightarrow> run_metrics option" where
  "record_wait inp s =
     (case s_approval_requested_at s of
        None \<Rightarrow> ni_metrics inp
      | Some asked \<Rightarrow> map_option (record_approval_wait (ni_now inp - asked)) (ni_metrics inp))"

section \<open>Properties\<close>

lemma final_status_values: "final_status s \<in> {''resolved'', ''failed'', ''no_action'', ''running''}"
  unfolding final_status_def by simp

text \<open>The timing of a completed incident is consistent: the recorded active time is never
  negative and never above the recorded wall-clock time when the run's counters are
  well-formed, and the terminal status is one of the four the API knows.\<close>

lemma complete_timing:
  assumes "metrics_ok m" "ni_metrics inp = Some m" "complete_node cx inp s = (ev, Go s')"
  shows "0 \<le> s_active s' \<and> s_active s' \<le> s_wall_clock s' \<and> ev = [] \<and>
    s_status s' \<in> {''resolved'', ''failed'', ''no_action'', ''running''}"
proof -
  let ?w = "wall_clock (ni_now inp) s"
  let ?a = "max 0 (?w - rm_backoff_seconds m - rm_approval_wait_seconds m)"
  have "0 \<le> ?w" by (simp add: wall_clock_def max_def)
  then have "?a \<le> ?w" using assms(1) by (simp add: metrics_ok_def)
  then have "py_round ?a 3 \<le> py_round ?w 3" by (rule py_round_mono)
  moreover have "0 \<le> py_round ?a 3" by (intro py_round_nonneg) simp
  moreover have "s_active s' = py_round ?a 3 \<and> s_wall_clock s' = py_round ?w 3 \<and> ev = [] \<and>
      s_status s' = final_status s"
    using assms(2,3) by (auto simp: complete_node_def Let_def)
  ultimately show ?thesis using final_status_values [of s] by simp
qed

lemma complete_timing_witness:
  "\<forall>cx m. \<exists>s'. complete_node cx \<lparr>ni_ask = (\<lambda>_. Inl RouterCancelled), ni_now = 11,
       ni_clock = \<lparr>ck_utc = [], ck_start = 0, ck_end = 0\<rparr>, ni_timestamp = [], ni_call_id = [],
       ni_metrics = Some (record_approval_wait 4 zero_metrics), ni_decision = None\<rparr>
       (create_initial_state 1 m 3) = ([], Go s') \<and> s_active s' \<le> s_wall_clock s'"
proof (intro allI)
  fix cx m
  let ?inp = "\<lparr>ni_ask = (\<lambda>_. Inl RouterCancelled), ni_now = 11,
       ni_clock = \<lparr>ck_utc = [], ck_start = 0, ck_end = 0\<rparr>, ni_timestamp = [], ni_call_id = [],
       ni_metrics = Some (record_approval_wait 4 zero_metrics), ni_decision = None\<rparr>"
  have "metrics_ok (record_approval_wait 4 zero_metrics)" by code_simp
  moreover have "ni_metrics ?inp = Some (record_approval_wait 4 zero_metrics)" by simp
  moreover obtain s' where s': "complete_node cx ?inp (create_initial_state 1 m 3) = ([], Go s')"
    by (simp add: complete_node_def Let_def)
  ultimately show "\<exists>s'. complete_node cx ?inp (create_initial_state 1 m 3) = ([], Go s') \<and> s_active s' \<le> s_wall_clock s'"
    using complete_timing by blast
qed

section \<open>What the acting nodes change\<close>

text \<open>The approve node: it asks nothing of the tools, and it sends on to execution only an action
  that needs no approval or that a decision approved.\<close>

lemma approve_result:
  assumes "approve_node cx inp s = (ev, r)" "s_requires_approval s" "s_proposed s = [p]"
  shows "ev = [] \<and> (case r of
      Go s' \<Rightarrow> s_metadata s' = s_metadata s \<and> s_executed s' = s_executed s \<and>
        s_iteration_count s' = s_iteration_count s \<and> s_iteration_budget s' = s_iteration_budget s \<and>
        s_action_attempts s' = s_action_attempts s \<and> s_requires_approval s' \<and>
        (s_phase s' = Complete \<or>
         s_phase s' = Approve \<and> s_proposed s' = [p] \<and> s_approval_requested_at s = None \<and>
           s_approval_requested_at s' \<noteq> None \<and> s_approval_granted s' = None \<or>
         s_phase s' = Execute \<and> already_approved s' \<and>
           (s_approval_granted s = Some True \<and> s_proposed s' = [p] \<or>
            s_approval_granted s = None \<and> s_proposed s' = [p\<lparr>pa_requires_approval := False\<rparr>] \<and>
            s_approval_requested_at s \<noteq> None \<and>
            (case ni_decision inp of Some v \<Rightarrow> decision_approves v | None \<Rightarrow> False)))
    | Pause v \<Rightarrow> s_approval_granted s = None \<and> s_approval_requested_at s \<noteq> None \<and> ni_decision inp = None
    | Crash e \<Rightarrow> False)"
  using assms
  by (auto simp: approve_node_def already_approved_def Let_def split: if_splits option.splits bool.splits)

text \<open>The execute node within its limits: one call of the executor at most, one more attempt.\<close>

lemma execute_result:
  assumes "execute_node cx inp s = (ev, r)" "s_proposed s = [p]" "s_action_attempts s < gc_max_attempts cx"
    "gc_sre cx"
  shows "(case action_to_run s p of
       Inl e \<Rightarrow> ev = [] \<and> r = Crash e
     | Inr a \<Rightarrow> ev = [ExecutorCall p a (fst (execute (gc_executor cx) (ni_clock inp) None a))]) \<and>
     (case r of
       Go s' \<Rightarrow> s_metadata s' = s_metadata s \<and> s_iteration_count s' = s_iteration_count s \<and>
         s_iteration_budget s' = s_iteration_budget s \<and> s_action_attempts s' = s_action_attempts s + 1 \<and>
         s_approval_granted s' = s_approval_granted s \<and> s_proposed s' = s_proposed s \<and>
         (s_executed s' = s_executed s \<or> (\<exists>x. s_executed s' = s_executed s @ [executed_record inp p x]))
     | Pause v \<Rightarrow> False | Crash e \<Rightarrow> True)"
  using assms
  by (auto simp: execute_node_def Let_def split_beta split: if_splits sum.splits exec_error.splits)

lemma execute_stops:
  assumes "execute_node cx inp s = (ev, r)" "\<not> gc_sre cx"
  shows "ev = [] \<and> r = Go (finish_with ''failed'' s)"
  using assms by (auto simp: execute_node_def split: list.splits)

lemma verify_result:
  assumes "verify_node cx inp s = (ev, r)"
  shows "ev = [] \<and> (\<exists>s'. r = Go s' \<and> s_metadata s' = s_metadata s \<and> s_executed s' = s_executed s \<and>
    s_iteration_count s' = s_iteration_count s \<and> s_iteration_budget s' = s_iteration_budget s \<and>
    s_action_attempts s' = s_action_attempts s \<and> s_approval_granted s' = s_approval_granted s \<and>
    (s_phase s' = Complete \<or>
     s_phase s' = Propose \<and> s_executed s \<noteq> [] \<and> s_action_attempts s < gc_max_attempts cx))"
  using assms by (auto simp: verify_node_def Let_def split: if_splits option.splits bool.splits)

end
