(* ===== verification/Runs.thy ===== *)
theory Runs
  imports Prelude
begin

text \<open>
  Runs of a step relation whose steps carry effects, counted, and the interface of a system
  whose steps decrease a measure while an invariant holds: its runs are bounded, the invariant
  holds along them, and a property of every step's effects holds of the whole trace.
\<close>

inductive run :: "('c \<Rightarrow> 'e list \<Rightarrow> 'c \<Rightarrow> bool) \<Rightarrow> 'c \<Rightarrow> nat \<Rightarrow> 'e list \<Rightarrow> 'c \<Rightarrow> bool"
  for step :: "'c \<Rightarrow> 'e list \<Rightarrow> 'c \<Rightarrow> bool" where
  run_start: "run step c 0 [] c"
| run_step: "run step c n tr d \<Longrightarrow> step d ev e \<Longrightarrow> run step c (Suc n) (tr @ ev) e"

inductive_cases run_0E: "run step c 0 tr d"

lemma run_one: "step c ev d \<Longrightarrow> run step c 1 ev d"
  using run_step [OF run_start, of step c ev d] by simp

lemma run_trans: "run step d m tr' e \<Longrightarrow> run step c n tr d \<Longrightarrow> run step c (n + m) (tr @ tr') e"
proof (induction rule: run.induct)
  case (run_step d n' tr' x ev e)
  then have "run step c (Suc (n + n')) ((tr @ tr') @ ev) e" by (blast intro: run.run_step)
  then show ?case by simp
qed simp

locale measured_steps =
  fixes step :: "'c \<Rightarrow> 'e list \<Rightarrow> 'c \<Rightarrow> bool"
    and inv :: "'c \<Rightarrow> bool"
    and size_of :: "'c \<Rightarrow> nat"
  assumes inv_step: "inv c \<Longrightarrow> step c ev d \<Longrightarrow> inv d"
    and decreases: "inv c \<Longrightarrow> step c ev d \<Longrightarrow> size_of d < size_of c"
begin

lemma run_inv: "run step c n tr d \<Longrightarrow> inv c \<Longrightarrow> inv d"
  by (induction rule: run.induct) (auto dest: inv_step)

lemma run_bound: "run step c n tr d \<Longrightarrow> inv c \<Longrightarrow> n + size_of d \<le> size_of c"
proof (induction rule: run.induct)
  case (run_step c n tr d ev e)
  with run_inv have "inv d" by blast
  with run_step decreases [of d ev e] show ?case by simp
qed simp

lemma trace_all:
  assumes "run step c n tr d" "inv c" "\<And>c ev d x. inv c \<Longrightarrow> step c ev d \<Longrightarrow> x \<in> set ev \<Longrightarrow> P x"
  shows "list_all P tr"
  using assms by (induction rule: run.induct) (auto simp: list_all_iff dest: run_inv)

lemma trace_count:
  assumes "run step c n tr d" "inv c"
    and "\<And>c ev d. inv c \<Longrightarrow> step c ev d \<Longrightarrow> f d + w ev \<le> f c"
    and "\<And>xs ys. w (xs @ ys) = w xs + w ys" "w [] = (0 :: nat)"
  shows "f d + w tr \<le> f c"
  using assms(1,2)
proof (induction rule: run.induct)
  case (run_start c)
  show ?case by (simp add: assms(5))
next
  case (run_step c n tr d ev e)
  with run_inv have "inv d" by blast
  with assms(3) run_step.hyps(2) have "f e + w ev \<le> f d" by blast
  with run_step show ?case by (simp add: assms(4))
qed

lemma no_infinite_run: "inv (f 0) \<Longrightarrow> \<not> (\<forall>i. \<exists>ev. step (f i) ev (f (Suc i)))"
proof
  assume inv: "inv (f 0)" and steps: "\<forall>i. \<exists>ev. step (f i) ev (f (Suc i))"
  have "\<exists>tr. run step (f 0) i tr (f i)" for i
  proof (induction i)
    case 0
    show ?case by (intro exI) (rule run_start)
  next
    case (Suc i)
    with steps show ?case by (blast intro: run_step)
  qed
  then obtain tr where "run step (f 0) (Suc (size_of (f 0))) tr (f (Suc (size_of (f 0))))" by blast
  from run_bound [OF this inv] show False by simp
qed

end

text \<open>A system whose steps, seen through a function on its states and one on its effects, are steps of another: its
  runs are runs of that one, step by step.\<close>

locale simulation =
  fixes step :: "'c \<Rightarrow> 'e list \<Rightarrow> 'c \<Rightarrow> bool"
    and inv :: "'c \<Rightarrow> bool"
    and spec :: "'a \<Rightarrow> 'b list \<Rightarrow> 'a \<Rightarrow> bool"
    and abs_state :: "'c \<Rightarrow> 'a"
    and abs_effect :: "'e \<Rightarrow> 'b"
  assumes keeps: "inv c \<Longrightarrow> step c ev d \<Longrightarrow> inv d"
    and simulates: "inv c \<Longrightarrow> step c ev d \<Longrightarrow> spec (abs_state c) (map abs_effect ev) (abs_state d)"
begin

lemma run_refines: "run step c n tr d \<Longrightarrow> inv c \<Longrightarrow> inv d \<and> run spec (abs_state c) n (map abs_effect tr) (abs_state d)"
proof (induction rule: run.induct)
  case (run_start c)
  then show ?case by (simp add: run.run_start)
next
  case (run_step c n tr d ev e)
  then have "inv d" "run spec (abs_state c) n (map abs_effect tr) (abs_state d)" by blast+
  then show ?case
    using keeps simulates [of d ev e] run_step.hyps(2) run.run_step [of spec "abs_state c" n "map abs_effect tr" "abs_state d"]
    by auto
qed

end

end
