(* ===== verification/Graph.thy ===== *)
theory Graph
  imports Actuate Runs
begin

text \<open>
  The routing functions of \<^verbatim>\<open>core/graph_nodes.py\<close> and the wiring of
  \<^verbatim>\<open>core/graph.py\<close>, as a step relation on configurations: a node about to run on a
  state, a graph paused at an approval, ended or crashed. A step runs one node on any input and
  follows the edge; a paused graph resumes with a decision at the approve node, which runs again
  from its start.
\<close>

section \<open>Routing\<close>

definition route_initial_phase :: "agent_state \<Rightarrow> phase" where
  "route_initial_phase s = s_phase s"

definition route_after_triage :: "agent_state \<Rightarrow> phase" where
  "route_after_triage s = (if s_phase s = Complete then Complete else Investigate)"

text \<open>\<open>int(state.get("iteration_budget", 3) or 3)\<close>: a budget of zero reads as three.\<close>

definition read_budget :: "agent_state \<Rightarrow> int" where
  "read_budget s = (if s_iteration_budget s = 0 then 3 else s_iteration_budget s)"

definition route_after_hypothesize :: "agent_state \<Rightarrow> phase" where
  "route_after_hypothesize s =
     (if s_iteration_count s \<ge> read_budget s then Propose
      else if s_stagnation_count s \<ge> 2 then Propose
      else if pf_le (Fin (1 / 2)) (s_last_top_confidence s) then Propose
      else Investigate)"

definition route_after_execute :: "agent_state \<Rightarrow> phase" where
  "route_after_execute s = (if s_phase s = Verify_Phase then Verify_Phase else Propose)"

definition route_after_approval :: "agent_state \<Rightarrow> phase" where
  "route_after_approval s =
     (if s_phase s = Approve then Approve else if s_phase s = Execute then Execute else Complete)"

definition route_after_propose :: "agent_state \<Rightarrow> phase" where
  "route_after_propose s =
     (if s_phase s = Approve then Approve else if s_phase s = Execute then Execute else Complete)"

definition route_after_verify :: "agent_state \<Rightarrow> phase" where
  "route_after_verify s =
     (if s_phase s = Complete then Complete else if s_phase s = Propose then Propose else Complete)"

section \<open>Wiring\<close>

text \<open>\<open>compile_graph\<close>: the edge out of each node; the complete node ends the graph. The
  execute node has an unconditional edge to verify, \<open>route_after_execute\<close> is not wired.\<close>

fun edge :: "phase \<Rightarrow> agent_state \<Rightarrow> phase option" where
  "edge Triage s = Some (route_after_triage s)"
| "edge Investigate s = Some Hypothesize"
| "edge Hypothesize s = Some (route_after_hypothesize s)"
| "edge Propose s = Some (route_after_propose s)"
| "edge Approve s = Some (route_after_approval s)"
| "edge Execute s = Some Verify_Phase"
| "edge Verify_Phase s = Some (route_after_verify s)"
| "edge Complete s = None"

fun run_node :: "graph_context \<Rightarrow> phase \<Rightarrow> node_input \<Rightarrow> agent_state \<Rightarrow> effect list \<times> node_result" where
  "run_node cx Triage inp s = triage_node cx inp s"
| "run_node cx Investigate inp s = investigate_node cx inp s"
| "run_node cx Hypothesize inp s = hypothesize_node cx inp s"
| "run_node cx Propose inp s = propose_node cx inp s"
| "run_node cx Approve inp s = approve_node cx inp s"
| "run_node cx Execute inp s = execute_node cx inp s"
| "run_node cx Verify_Phase inp s = verify_node cx inp s"
| "run_node cx Complete inp s = complete_node cx inp s"

datatype config = At phase agent_state | Paused agent_state | Ended agent_state | Crashed exn

definition follow :: "phase \<Rightarrow> node_result \<Rightarrow> agent_state \<Rightarrow> config" where
  "follow n r s =
     (case r of
        Go s' \<Rightarrow> (case edge n s' of Some m \<Rightarrow> At m s' | None \<Rightarrow> Ended s')
      | Pause _ \<Rightarrow> Paused s
      | Crash e \<Rightarrow> Crashed e)"

inductive gstep :: "graph_context \<Rightarrow> config \<Rightarrow> effect list \<Rightarrow> config \<Rightarrow> bool" for cx :: graph_context where
  gnode: "ni_decision inp = None \<Longrightarrow> run_node cx n inp s = (ev, r) \<Longrightarrow> gstep cx (At n s) ev (follow n r s)"
| gresume: "ni_decision inp = Some v \<Longrightarrow> run_node cx Approve inp s = (ev, r) \<Longrightarrow>
     gstep cx (Paused s) (HumanDecision v # ev) (follow Approve r s)"

inductive_cases gstep_AtE: "gstep cx (At n s) ev c"
inductive_cases gstep_PausedE: "gstep cx (Paused s) ev c"
inductive_simps gstep_final [simp]: "gstep cx (Ended s) ev c" "gstep cx (Crashed e) ev c"

definition start_config :: "rat \<Rightarrow> incident_metadata \<Rightarrow> int \<Rightarrow> config" where
  "start_config now m budget =
     (let s = create_initial_state now m budget in At (route_initial_phase s) s)"

section \<open>The invariant and the measure\<close>

definition round_limit :: "graph_context \<Rightarrow> int" where
  "round_limit cx = max 3 (gc_initial_budget cx)"

text \<open>No mutating tool is recorded twice.\<close>

definition no_repeat :: "agent_state \<Rightarrow> bool" where
  "no_repeat s = distinct (filter (\<lambda>t. t \<in> set mutating_tools) (map ea_tool_name (s_executed s)))"

definition state_inv :: "graph_context \<Rightarrow> incident_metadata \<Rightarrow> agent_state \<Rightarrow> bool" where
  "state_inv cx m s \<longleftrightarrow>
     s_metadata s = m \<and> 0 \<le> s_iteration_count s \<and>
     int (length (s_executed s)) \<le> s_action_attempts s \<and>
     s_action_attempts s \<le> max 0 (gc_max_attempts cx) \<and> (gc_sre cx \<or> s_executed s = []) \<and> no_repeat s"

definition acting :: "graph_context \<Rightarrow> agent_state \<Rightarrow> proposed_action \<Rightarrow> bool" where
  "acting cx s p \<longleftrightarrow>
     s_action_attempts s < gc_max_attempts cx \<and> s_proposed s = [p] \<and> action_ok cx s p"

fun config_inv :: "graph_context \<Rightarrow> incident_metadata \<Rightarrow> config \<Rightarrow> bool" where
  "config_inv cx m (At n s) =
     (state_inv cx m s \<and>
      (case n of
         Triage \<Rightarrow> s_executed s = []
       | Investigate \<Rightarrow> s_iteration_count s < round_limit cx \<and> s_iteration_budget s \<le> round_limit cx
       | Hypothesize \<Rightarrow> s_iteration_budget s \<le> round_limit cx
       | Approve \<Rightarrow> s_requires_approval s \<and> (\<exists>p. acting cx s p)
       | Execute \<Rightarrow> (\<exists>p. acting cx s p \<and>
           (already_approved s \<or> (pa_risk_tier p \<le> 1 \<and> \<not> pa_requires_approval p)))
       | _ \<Rightarrow> True))"
| "config_inv cx m (Paused s) =
     (state_inv cx m s \<and> s_requires_approval s \<and> (\<exists>p. acting cx s p) \<and> s_approval_granted s = None \<and>
      s_approval_requested_at s \<noteq> None)"
| "config_inv cx m (Ended s) =
     (state_inv cx m s \<and> s_phase s = Complete \<and>
      s_status s \<in> {''resolved'', ''failed'', ''no_action'', ''running''})"
| "config_inv cx m (Crashed e) = True"

definition rounds_left :: "graph_context \<Rightarrow> agent_state \<Rightarrow> nat" where
  "rounds_left cx s = nat (round_limit cx - s_iteration_count s)"

definition attempts_left :: "graph_context \<Rightarrow> agent_state \<Rightarrow> nat" where
  "attempts_left cx s = nat (gc_max_attempts cx - s_action_attempts s)"

text \<open>What is left to run: two steps a round, six steps an attempt.\<close>

fun steps_left :: "graph_context \<Rightarrow> config \<Rightarrow> nat" where
  "steps_left cx (At n s) =
     (let i = rounds_left cx s; p = attempts_left cx s
      in case n of
           Triage \<Rightarrow> 2 * nat (round_limit cx) + 6 * (nat (gc_max_attempts cx) + 1) + 4
         | Investigate \<Rightarrow> 2 * i + 6 * (p + 1) + 2
         | Hypothesize \<Rightarrow> 2 * i + 6 * (p + 1) + 3
         | Propose \<Rightarrow> 6 * (p + 1)
         | Approve \<Rightarrow> 6 * p + (if s_approval_requested_at s = None then 5 else 4)
         | Execute \<Rightarrow> 6 * p + 2
         | Verify_Phase \<Rightarrow> (if s_executed s = [] then 2 else 6 * (p + 1) + 1)
         | Complete \<Rightarrow> 1)"
| "steps_left cx (Paused s) = 6 * attempts_left cx s + 3"
| "steps_left cx (Ended s) = 0"
| "steps_left cx (Crashed e) = 0"

definition progresses :: "graph_context \<Rightarrow> incident_metadata \<Rightarrow> config \<Rightarrow> config \<Rightarrow> bool" where
  "progresses cx m c d \<longleftrightarrow> config_inv cx m d \<and> steps_left cx d < steps_left cx c"

lemmas graph_defs = progresses_def follow_def state_inv_def acting_def no_repeat_def rounds_left_def attempts_left_def

lemma triage_progress:
  assumes "config_inv cx m (At Triage s)" "triage_node cx inp s = (ev, r)"
  shows "progresses cx m (At Triage s) (follow Triage r s)"
  using assms(1) triage_result [OF assms(2)]
  by (cases r) (auto simp: graph_defs same_case_def route_after_triage_def round_limit_def)

lemma investigate_progress:
  assumes "config_inv cx m (At Investigate s)" "investigate_node cx inp s = (ev, r)"
  shows "progresses cx m (At Investigate s) (follow Investigate r s)"
  using assms(1) investigate_result [OF assms(2)]
  by (cases r) (auto simp: graph_defs same_case_def round_limit_def)

lemma hypothesize_progress:
  assumes "config_inv cx m (At Hypothesize s)" "hypothesize_node cx inp s = (ev, r)"
  shows "progresses cx m (At Hypothesize s) (follow Hypothesize r s)"
  using assms(1) hypothesize_result [OF assms(2)]
  by (cases r) (auto simp: graph_defs same_case_def route_after_hypothesize_def read_budget_def round_limit_def)

lemma propose_progress:
  assumes "config_inv cx m (At Propose s)" "propose_node cx inp s = (ev, r)"
  shows "progresses cx m (At Propose s) (follow Propose r s)"
proof (cases r)
  case (Go s')
  with propose_result [OF assms(2)] have s': "same_progress s s'" "s_phase s' = Complete \<or> (\<exists>a. proposes cx s a s')"
    by auto
  from s'(2) show ?thesis
  proof
    assume "s_phase s' = Complete"
    with Go s'(1) assms(1) show ?thesis
      by (auto simp: graph_defs same_progress_def route_after_propose_def)
  next
    assume "\<exists>a. proposes cx s a s'"
    then obtain a where a: "proposes cx s a s'" ..
    then have "action_ok cx s' a"
      using s'(1) action_ok_cong [of a a s' s cx] by (simp add: proposes_def proposal_ok_def same_progress_def)
    with a Go s'(1) assms(1) show ?thesis
      by (auto simp: graph_defs same_progress_def proposes_def proposal_ok_def route_after_propose_def)
  qed
qed (use propose_result [OF assms(2)] in \<open>auto simp: graph_defs\<close>)

text \<open>An action without its approval flag is the same action.\<close>

lemma acting_unflagged:
  "acting cx s p \<Longrightarrow> s_metadata s' = s_metadata s \<Longrightarrow> s_executed s' = s_executed s \<Longrightarrow>
   s_action_attempts s' = s_action_attempts s \<Longrightarrow>
   s_proposed s' = [p] \<or> s_proposed s' = [p\<lparr>pa_requires_approval := False\<rparr>] \<Longrightarrow> \<exists>q. acting cx s' q"
  unfolding acting_def using action_ok_cong [of p p s s' cx]
    action_ok_cong [of p "p\<lparr>pa_requires_approval := False\<rparr>" s s' cx] by auto

lemma approve_follow:
  assumes "state_inv cx m s" "s_requires_approval s" "acting cx s p" "approve_node cx inp s = (ev, r)"
    and "c = At Approve s \<and> ni_decision inp = None \<or>
      c = Paused s \<and> s_approval_granted s = None \<and> s_approval_requested_at s \<noteq> None \<and> ni_decision inp \<noteq> None"
  shows "progresses cx m c (follow Approve r s)"
proof -
  from assms(3) have "s_proposed s = [p]" by (simp add: acting_def)
  note res = approve_result [OF assms(4,2) this]
  show ?thesis
  proof (cases r)
    case (Go s')
    with res have frame: "s_metadata s' = s_metadata s" "s_executed s' = s_executed s"
      "s_action_attempts s' = s_action_attempts s" "s_requires_approval s'"
      and inv: "state_inv cx m s'" and left: "attempts_left cx s' = attempts_left cx s"
      using assms(1) by (auto simp: graph_defs)
    consider "s_phase s' = Complete"
      | "s_phase s' = Approve" "s_proposed s' = [p]" "s_approval_requested_at s = None"
          "s_approval_requested_at s' \<noteq> None"
      | "s_phase s' = Execute" "already_approved s'"
          "s_proposed s' = [p] \<or> s_proposed s' = [p\<lparr>pa_requires_approval := False\<rparr>]"
      using res Go by auto
    then show ?thesis
    proof cases
      case 1
      with inv Go assms(5) show ?thesis by (auto simp: progresses_def follow_def route_after_approval_def)
    next
      case 2
      with acting_unflagged [OF assms(3) frame(1-3)] have "\<exists>q. acting cx s' q" by blast
      with 2 inv Go frame left assms(5) show ?thesis
        by (auto simp: progresses_def follow_def route_after_approval_def)
    next
      case 3
      with acting_unflagged [OF assms(3) frame(1-3)] have "\<exists>q. acting cx s' q" by blast
      with 3 inv Go frame left assms(5) show ?thesis
        by (auto simp: progresses_def follow_def route_after_approval_def)
    qed
  next
    case (Pause v)
    with res assms show ?thesis by (auto simp: progresses_def follow_def)
  next
    case (Crash e)
    with res show ?thesis by simp
  qed
qed

lemma approve_progress:
  assumes "config_inv cx m (At Approve s)" "ni_decision inp = None" "approve_node cx inp s = (ev, r)"
  shows "progresses cx m (At Approve s) (follow Approve r s)"
  using assms by (auto intro: approve_follow)

lemma resume_progress:
  assumes "config_inv cx m (Paused s)" "ni_decision inp = Some v" "approve_node cx inp s = (ev, r)"
  shows "progresses cx m (Paused s) (follow Approve r s)"
  using assms by (auto intro: approve_follow)

lemma no_repeat_snoc:
  assumes "no_repeat s" "action_ok cx s p" "s_executed s' = s_executed s @ [executed_record inp p x]"
  shows "no_repeat s'"
  using assms by (auto simp: no_repeat_def action_ok_def executed_record_def list_ex_iff)

lemma execute_progress:
  assumes "config_inv cx m (At Execute s)" "execute_node cx inp s = (ev, r)"
  shows "progresses cx m (At Execute s) (follow Execute r s)"
proof -
  from assms(1) obtain p where p: "acting cx s p" and inv: "state_inv cx m s" by auto
  show ?thesis
  proof (cases "gc_sre cx")
    case True
    with p have "case r of
       Go s' \<Rightarrow> s_metadata s' = s_metadata s \<and> s_iteration_count s' = s_iteration_count s \<and>
         s_iteration_budget s' = s_iteration_budget s \<and> s_action_attempts s' = s_action_attempts s + 1 \<and>
         s_approval_granted s' = s_approval_granted s \<and> s_proposed s' = s_proposed s \<and>
         (s_executed s' = s_executed s \<or> (\<exists>x. s_executed s' = s_executed s @ [executed_record inp p x]))
     | Pause v \<Rightarrow> False | Crash e \<Rightarrow> True"
      by (intro execute_result [OF assms(2), THEN conjunct2]) (simp_all add: acting_def)
    moreover have "no_repeat s'" if "s_executed s' = s_executed s @ [executed_record inp p x]" for s' x
      using no_repeat_snoc [OF _ _ that] p inv by (auto simp: acting_def state_inv_def)
    moreover have "no_repeat s'" if "s_executed s' = s_executed s" for s'
      using that inv by (simp add: state_inv_def no_repeat_def)
    ultimately show ?thesis
      using p inv True
      by (cases r) (auto simp: progresses_def follow_def state_inv_def acting_def attempts_left_def)
  next
    case False
    with execute_stops [OF assms(2)] inv p show ?thesis
      by (auto simp: graph_defs)
  qed
qed

lemma verify_progress:
  assumes "config_inv cx m (At Verify_Phase s)" "verify_node cx inp s = (ev, r)"
  shows "progresses cx m (At Verify_Phase s) (follow Verify_Phase r s)"
  using assms(1) verify_result [OF assms(2)]
  by (auto simp: graph_defs route_after_verify_def)

lemma complete_progress:
  assumes "config_inv cx m (At Complete s)" "complete_node cx inp s = (ev, r)"
  shows "progresses cx m (At Complete s) (follow Complete r s)"
proof -
  from assms(2) obtain s' where "r = Go s'" "s_phase s' = Complete" "s_status s' = final_status s"
      "s_metadata s' = s_metadata s" "s_executed s' = s_executed s" "s_iteration_count s' = s_iteration_count s"
      "s_iteration_budget s' = s_iteration_budget s" "s_action_attempts s' = s_action_attempts s"
    by (auto simp: complete_node_def Let_def)
  with assms(1) final_status_values [of s] show ?thesis by (simp add: graph_defs)
qed

lemma gstep_progress: "config_inv cx m c \<Longrightarrow> gstep cx c ev d \<Longrightarrow> progresses cx m c d"
proof (erule gstep.cases)
  fix inp n s ev' r
  assume "config_inv cx m c" "c = At n s" "d = follow n r s" "ni_decision inp = None" "run_node cx n inp s = (ev', r)"
  then show ?thesis
    by (cases n) (auto simp del: config_inv.simps steps_left.simps intro: triage_progress investigate_progress
        hypothesize_progress propose_progress approve_progress execute_progress verify_progress complete_progress)
next
  fix inp v s ev' r
  assume "config_inv cx m c" "c = Paused s" "d = follow Approve r s" "ni_decision inp = Some v"
    "run_node cx Approve inp s = (ev', r)"
  then show ?thesis by (simp add: resume_progress del: config_inv.simps steps_left.simps)
qed

interpretation graph_run: measured_steps "gstep cx" "config_inv cx m" "steps_left cx" for cx m
  by unfold_locales (auto dest: gstep_progress simp: progresses_def)

section \<open>What the steps of a run do\<close>

text \<open>A call through the registry: the namespace of the tools that take one is the incident's. A
  call through the executor: a proposal the node accepted, handed over with tier at most 1 and no
  approval flag.\<close>

definition effect_ok :: "graph_context \<Rightarrow> incident_metadata \<Rightarrow> effect \<Rightarrow> bool" where
  "effect_ok cx m x =
     (case x of
        RegistryCall name args called \<Rightarrow>
          (case name of
             PStr t \<Rightarrow> t \<in> set tools_with_namespace \<and> im_namespace m \<noteq> [] \<longrightarrow>
               dget args ''namespace'' = Some (PStr (im_namespace m))
           | _ \<Rightarrow> True)
      | ExecutorCall p a ev \<Rightarrow>
          pa_tool_name a = pa_tool_name p \<and> pa_tool_args a = pa_tool_args p \<and>
          pa_tool_name a \<notin> set (forbidden_tools (dget_or (im_labels m) ''category'' [])) \<and>
          (pa_tool_name a \<in> set tools_with_namespace \<longrightarrow>
             dget (pa_tool_args a) ''namespace'' = Some (PStr (im_namespace m))) \<and>
          args_satisfy_schema (gc_registry cx) (pa_tool_name a) (pa_tool_args a) \<and>
          pa_risk_tier a \<le> 1 \<and> \<not> pa_requires_approval a
      | HumanDecision v \<Rightarrow> True)"

lemma run_call_clamped:
  assumes "ns = (if im_namespace m = [] then None else Some (im_namespace m))" "run_call cx ns c = (ev, r)"
  shows "list_all (effect_ok cx m) ev"
  using assms
  by (auto simp: run_call_def Let_def split_beta effect_ok_def clamp_namespace_def
      split: if_splits pyval.splits)

lemma run_calls_clamped:
  "run_calls cx ns cs = (ev, r) \<Longrightarrow> ns = (if im_namespace m = [] then None else Some (im_namespace m)) \<Longrightarrow>
     list_all (effect_ok cx m) ev"
proof (induction cs arbitrary: ev r)
  case (Cons c cs)
  show ?case
  proof (cases c)
    case (PDict d)
    obtain ev1 r1 where one: "run_call cx ns d = (ev1, r1)" by fastforce
    obtain ev2 r2 where rest: "run_calls cx ns cs = (ev2, r2)" by fastforce
    show ?thesis
      using Cons.prems(1) one rest PDict run_call_clamped [OF Cons.prems(2) one] Cons.IH [OF rest Cons.prems(2)]
      by (cases r1) auto
  qed (use Cons in auto)
qed simp

lemma investigate_clamped:
  "investigate_node cx inp s = (ev, r) \<Longrightarrow> list_all (effect_ok cx (s_metadata s)) ev"
  by (auto simp: investigate_node_def Let_def dest: run_calls_clamped split: if_splits sum.splits prod.splits)

lemma execute_guarded:
  assumes "config_inv cx m (At Execute s)" "execute_node cx inp s = (ev, r)"
  shows "list_all (effect_ok cx m) ev \<and> length ev \<le> 1"
proof -
  from assms(1) obtain p where p: "acting cx s p" and m: "s_metadata s = m"
    and tier: "already_approved s \<or> (pa_risk_tier p \<le> 1 \<and> \<not> pa_requires_approval p)"
    by (auto simp: state_inv_def)
  show ?thesis
  proof (cases "gc_sre cx")
    case True
    with p have "case action_to_run s p of
       Inl e \<Rightarrow> ev = [] \<and> r = Crash e
     | Inr a \<Rightarrow> ev = [ExecutorCall p a (fst (execute (gc_executor cx) (ni_clock inp) None a))]"
      by (intro execute_result [OF assms(2), THEN conjunct1]) (simp_all add: acting_def)
    with p m tier show ?thesis
      by (auto simp: action_to_run_def make_proposed_def effect_ok_def acting_def action_ok_def
          category_of_def split: if_splits sum.splits)
  next
    case False
    with execute_stops [OF assms(2)] show ?thesis by simp
  qed
qed

text \<open>The nodes that call no tool.\<close>

lemma quiet_nodes:
  assumes "run_node cx n inp s = (ev, r)" "n \<notin> {Investigate, Execute}"
  shows "ev = []"
  using assms
  by (cases n) (auto dest: triage_result hypothesize_result propose_result verify_result
      simp: complete_node_def approve_node_def Let_def)

lemma step_effects_ok:
  assumes "config_inv cx m c" "gstep cx c ev d"
  shows "list_all (effect_ok cx m) ev"
  using assms(2)
proof cases
  case (gnode inp n s r)
  have m: "s_metadata s = m" using assms(1) gnode by (simp add: state_inv_def)
  consider "n = Investigate" | "n = Execute" | "n \<notin> {Investigate, Execute}" by auto
  then show ?thesis
  proof cases
    case 1
    with gnode investigate_clamped [of cx inp s ev r] m show ?thesis by simp
  next
    case 2
    with gnode execute_guarded [of cx m s inp ev r] assms(1) show ?thesis by simp
  next
    case 3
    with gnode quiet_nodes [of cx n inp s ev r] show ?thesis by simp
  qed
next
  case (gresume inp v s ev' r)
  with quiet_nodes [of cx Approve inp s ev' r] show ?thesis by (simp add: effect_ok_def)
qed

section \<open>How often tools are called\<close>

definition is_executor_call :: "effect \<Rightarrow> bool" where
  "is_executor_call x = (case x of ExecutorCall p a ev \<Rightarrow> True | _ \<Rightarrow> False)"

text \<open>The rounds and attempts a configuration still has; triage resets both counters.\<close>

fun rounds_of :: "graph_context \<Rightarrow> config \<Rightarrow> nat" where
  "rounds_of cx (At n s) = (if n = Triage then nat (round_limit cx) else rounds_left cx s)"
| "rounds_of cx (Paused s) = rounds_left cx s"
| "rounds_of cx _ = 0"

fun attempts_of :: "graph_context \<Rightarrow> config \<Rightarrow> nat" where
  "attempts_of cx (At n s) = (if n = Triage then nat (gc_max_attempts cx) else attempts_left cx s)"
| "attempts_of cx (Paused s) = attempts_left cx s"
| "attempts_of cx _ = 0"

definition spends :: "graph_context \<Rightarrow> config \<Rightarrow> effect list \<Rightarrow> config \<Rightarrow> bool" where
  "spends cx c ev d \<longleftrightarrow>
     rounds_of cx d + length (filter is_registry_call ev) \<le> rounds_of cx c \<and>
     attempts_of cx d + length (filter is_executor_call ev) \<le> attempts_of cx c"

text \<open>A node that calls no tool and moves neither counter back spends nothing.\<close>

lemma spends_quietly:
  assumes "n \<noteq> Triage" "case r of
      Go s' \<Rightarrow> s_iteration_count s \<le> s_iteration_count s' \<and> s_action_attempts s \<le> s_action_attempts s'
    | _ \<Rightarrow> True"
  shows "spends cx (At n s) [] (follow n r s)"
proof (cases r)
  case (Go s')
  have "edge n s' \<noteq> Some Triage"
    by (cases n) (auto simp: route_after_triage_def route_after_hypothesize_def route_after_approval_def
        route_after_propose_def route_after_verify_def)
  with Go assms show ?thesis
    by (auto simp: spends_def follow_def rounds_left_def attempts_left_def split: option.splits)
qed (use assms in \<open>auto simp: spends_def follow_def rounds_left_def attempts_left_def\<close>)

lemma triage_spends: "triage_node cx inp s = (ev, r) \<Longrightarrow> spends cx (At Triage s) ev (follow Triage r s)"
  by (cases r) (auto dest!: triage_result simp: spends_def follow_def route_after_triage_def rounds_left_def attempts_left_def)

lemma investigate_spends:
  assumes "config_inv cx m (At Investigate s)" "investigate_node cx inp s = (ev, r)"
  shows "spends cx (At Investigate s) ev (follow Investigate r s)"
proof -
  from investigate_result [OF assms(2)] have ev: "length (filter is_registry_call ev) \<le> 1"
      "filter is_executor_call ev = []"
    using length_filter_le [of is_registry_call ev]
    by (auto simp: max_tools_per_iteration_def filter_empty_conv list_all_iff is_registry_call_def
        is_executor_call_def split: effect.splits)
  with assms(1) investigate_result [OF assms(2)] show ?thesis
    by (cases r) (auto simp: spends_def follow_def rounds_left_def attempts_left_def)
qed

lemma execute_spends:
  assumes "config_inv cx m (At Execute s)" "execute_node cx inp s = (ev, r)"
  shows "spends cx (At Execute s) ev (follow Execute r s)"
proof -
  from assms(1) obtain p where p: "s_action_attempts s < gc_max_attempts cx" "s_proposed s = [p]"
    by (auto simp: acting_def)
  show ?thesis
  proof (cases "gc_sre cx")
    case True
    have "length (filter is_executor_call ev) \<le> 1"
      using execute_guarded [OF assms] length_filter_le [of is_executor_call ev] by linarith
    moreover have "filter is_registry_call ev = []"
      using execute_result [OF assms(2) p(2,1) True] by (auto simp: is_registry_call_def split: sum.splits)
    ultimately show ?thesis
      using p execute_result [OF assms(2) p(2,1) True]
      by (cases r) (auto simp: spends_def follow_def rounds_left_def attempts_left_def)
  next
    case False
    with execute_stops [OF assms(2)] show ?thesis by (simp add: spends_quietly)
  qed
qed

lemma approve_spends:
  assumes "state_inv cx m s" "s_requires_approval s" "acting cx s p" "approve_node cx inp s = (ev, r)"
  shows "spends cx (At Approve s) ev (follow Approve r s)"
proof -
  from assms(3) have "s_proposed s = [p]" by (simp add: acting_def)
  from approve_result [OF assms(4,2) this] show ?thesis
    by (cases r) (auto intro!: spends_quietly)
qed

lemma step_spends:
  assumes "config_inv cx m c" "gstep cx c ev d"
  shows "spends cx c ev d"
  using assms(2)
proof cases
  case (gnode inp n s r)
  show ?thesis
  proof (cases n)
    case Hypothesize
    with gnode hypothesize_result [of cx inp s ev r] show ?thesis
      by (cases r) (auto simp: same_case_def intro!: spends_quietly)
  next
    case Propose
    with gnode propose_result [of cx inp s ev r] show ?thesis
      by (cases r) (auto simp: same_progress_def intro!: spends_quietly)
  next
    case Verify_Phase
    with gnode verify_result [of cx inp s ev r] show ?thesis by (auto intro!: spends_quietly)
  next
    case Complete
    with gnode show ?thesis by (auto simp: complete_node_def Let_def intro!: spends_quietly)
  next
    case Approve
    with gnode assms(1) show ?thesis by (auto intro: approve_spends)
  next
    case Execute
    with gnode assms(1) execute_spends [of cx m s inp ev r] show ?thesis by simp
  next
    case Investigate
    with gnode assms(1) investigate_spends [of cx m s inp ev r] show ?thesis by simp
  next
    case Triage
    with gnode triage_spends show ?thesis by simp
  qed
next
  case (gresume inp v s ev' r)
  with assms(1) have "spends cx (At Approve s) ev' (follow Approve r s)"
    by (auto intro: approve_spends)
  with gresume show ?thesis
    by (simp add: spends_def is_registry_call_def is_executor_call_def)
qed

section \<open>Approval\<close>

definition approving :: "effect \<Rightarrow> bool" where
  "approving x = (case x of HumanDecision v \<Rightarrow> decision_approves v | _ \<Rightarrow> False)"

fun approved_config :: "config \<Rightarrow> bool" where
  "approved_config (At n s) = already_approved s"
| "approved_config _ = False"

text \<open>Only an approving decision makes a configuration an approved one.\<close>

lemma step_approval:
  assumes "config_inv cx m c" "gstep cx c ev d" "approved_config d"
  shows "approved_config c \<or> list_ex approving ev"
  using assms(2)
proof cases
  case (gnode inp n s r)
  with assms(3) obtain s' where r: "r = Go s'" "already_approved s'"
    by (cases r) (auto simp: follow_def split: option.splits)
  have "already_approved s"
  proof (cases n)
    case Triage
    with gnode r triage_result [of cx inp s ev r] show ?thesis by (auto simp: same_case_def already_approved_def)
  next
    case Investigate
    with gnode r investigate_result [of cx inp s ev r] show ?thesis by (auto simp: same_case_def already_approved_def)
  next
    case Hypothesize
    with gnode r hypothesize_result [of cx inp s ev r] show ?thesis by (auto simp: same_case_def already_approved_def)
  next
    case Propose
    with gnode r propose_result [of cx inp s ev r] show ?thesis by (auto simp: same_progress_def already_approved_def)
  next
    case Approve
    with gnode r show ?thesis
      by (auto simp: approve_node_def already_approved_def finish_with_def split: if_splits option.splits bool.splits list.splits)
  next
    case Execute
    with gnode r show ?thesis
      by (auto simp: execute_node_def already_approved_def Let_def split_beta finish_with_def
          split: if_splits list.splits sum.splits exec_error.splits)
  next
    case Verify_Phase
    with gnode r verify_result [of cx inp s ev r] show ?thesis by (auto simp: already_approved_def)
  next
    case Complete
    with gnode r assms(3) show ?thesis by (simp add: follow_def)
  qed
  with gnode show ?thesis by simp
next
  case (gresume inp v s ev' r)
  from gresume assms(1) obtain p where p: "s_requires_approval s" "s_proposed s = [p]"
      "s_approval_granted s = None"
    by (auto simp: acting_def)
  from assms(3) gresume obtain s' where s': "r = Go s'" "already_approved s'"
    by (cases r) (auto simp: follow_def split: option.splits)
  have "approve_node cx inp s = (ev', r)" using gresume by simp
  with s' p gresume have "decision_approves v"
    by (auto simp: approve_node_def already_approved_def finish_with_def Let_def split: if_splits option.splits)
  with gresume show ?thesis by (auto simp: approving_def)
qed

end
