(* ===== verification/Incident.thy ===== *)
theory Incident
  imports Graph
begin

text \<open>
  Properties of whole incidents: runs of the graph from a fresh state. They are applied to a
  concrete incident: three of the tools and the default policy, a model that does not answer, an
  alert whose category falls back to scaling, a reviewer who approves.
\<close>

section \<open>A concrete incident\<close>

definition demo_env :: tool_env where
  "demo_env =
    \<lparr>te_input = (\<lambda>n v. case v of
       PDict d \<Rightarrow>
         (if args_ok (if n = ''list_pods'' then list_pods_input
                      else if n = ''flush_all'' then flush_all_input else scale_deployment_input) d
          then Inr v else Inl (ValidationError n))
       | _ \<Rightarrow> Inl (ValidationError n)),
     te_output = (\<lambda>n. Inr), te_handler = (\<lambda>n v. Returned (PDict [(''success'', PBool True)])),
     te_schema = (\<lambda>n. [])\<rparr>"

definition demo_registry :: tools where
  "demo_registry =
    [(''list_pods'', tool_of_spec demo_env
       \<lparr>ts_name = ''list_pods'', ts_description = ''list'', ts_risk_tier = 0, ts_fields = list_pods_input\<rparr>),
     (''flush_all'', tool_of_spec demo_env
       \<lparr>ts_name = ''flush_all'', ts_description = ''flush'', ts_risk_tier = 2, ts_fields = flush_all_input\<rparr>),
     (''scale_deployment'', tool_of_spec demo_env
       \<lparr>ts_name = ''scale_deployment'', ts_description = ''scale'', ts_risk_tier = 2,
        ts_fields = scale_deployment_input\<rparr>)]"

definition demo_executor :: executor where
  "demo_executor =
    \<lparr>x_registry = demo_registry, x_policy = classify (\<lambda>_. []) default_engine, x_snapshots = [],
     x_verifiers = [], x_rollbacks = [], x_audit_hook = True, x_hash = (\<lambda>_. []), x_json = (\<lambda>_. []),
     x_show_exn = (\<lambda>_. [])\<rparr>"

definition demo_context :: graph_context where
  "demo_context =
    \<lparr>gc_registry = demo_registry, gc_executor = demo_executor,
     gc_json = \<lparr>j_loads = (\<lambda>_. None), j_dumps = (\<lambda>_ _. Some []), j_repr = (\<lambda>_. [])\<rparr>,
     gc_cost = \<lparr>ce_litellm = None, ce_env_rates = (0, 0)\<rparr>, gc_prompt = (\<lambda>n s. Inr (phase_name n)), gc_sre = True,
     gc_initial_budget = 2, gc_stagnation_limit = 2, gc_max_attempts = 2, gc_confidence_propose = 7 / 10,
     gc_confidence_fast_path = 17 / 20, gc_min_improvement = 1 / 20\<rparr>"

definition demo_incident :: incident_metadata where
  "demo_incident =
    \<lparr>im_incident_id = ''INC-1'', im_alert_name = ''HighCPU'', im_service = ''order'', im_namespace = ''rivulet'',
     im_severity = ''critical'', im_started_at = ''t0'', im_fingerprint = ''f'', im_description = [],
     im_labels = [(''category'', ''cpu_saturation'')], im_annotations = []\<rparr>"

definition demo_input :: "rat \<Rightarrow> pyval option \<Rightarrow> node_input" where
  "demo_input now decision =
    \<lparr>ni_ask = (\<lambda>_. Inl (LLMBudgetExhausted [])), ni_now = now,
     ni_clock = \<lparr>ck_utc = ''t1'', ck_start = 0, ck_end = 1\<rparr>, ni_timestamp = ''t1'', ni_call_id = ''c1'',
     ni_metrics = Some zero_metrics, ni_decision = decision\<rparr>"

text \<open>The steps of a run in which every node is given the same time; a paused graph is resumed
  with the decision.\<close>

fun demo_steps :: "graph_context \<Rightarrow> rat \<Rightarrow> pyval \<Rightarrow> nat \<Rightarrow> config \<Rightarrow> nat \<times> effect list \<times> config" where
  "demo_steps cx now v 0 c = (0, [], c)"
| "demo_steps cx now v (Suc k) c =
     (case c of
        At n s \<Rightarrow>
          (let (ev, r) = run_node cx n (demo_input now None) s;
               (m, tr, d) = demo_steps cx now v k (follow n r s)
           in (Suc m, ev @ tr, d))
      | Paused s \<Rightarrow>
          (let (ev, r) = run_node cx Approve (demo_input now (Some v)) s;
               (m, tr, d) = demo_steps cx now v k (follow Approve r s)
           in (Suc m, HumanDecision v # ev @ tr, d))
      | _ \<Rightarrow> (0, [], c))"

lemma demo_steps_run: "demo_steps cx now v k c = (n, tr, d) \<Longrightarrow> run (gstep cx) c n tr d"
proof (induction k arbitrary: c n tr d)
  case 0
  then show ?case by (simp add: run_start)
next
  case (Suc k)
  show ?case
  proof (cases c)
    case (At i s)
    obtain ev r where node: "run_node cx i (demo_input now None) s = (ev, r)" by fastforce
    obtain m tr' d' where rest: "demo_steps cx now v k (follow i r s) = (m, tr', d')" by (metis prod_cases3)
    have "gstep cx c ev (follow i r s)"
      unfolding At using node by (intro gnode [where inp = "demo_input now None"]) (simp_all add: demo_input_def)
    from run_trans [OF Suc.IH [OF rest] run_one [of "gstep cx", OF this]] show ?thesis
      using Suc.prems At node rest by simp
  next
    case (Paused s)
    obtain ev r where node: "run_node cx Approve (demo_input now (Some v)) s = (ev, r)" by fastforce
    obtain m tr' d' where rest: "demo_steps cx now v k (follow Approve r s) = (m, tr', d')" by (metis prod_cases3)
    have "gstep cx c (HumanDecision v # ev) (follow Approve r s)"
      unfolding Paused using node
      by (intro gresume [where inp = "demo_input now (Some v)"]) (simp_all add: demo_input_def)
    from run_trans [OF Suc.IH [OF rest] run_one [of "gstep cx", OF this]] show ?thesis
      using Suc.prems Paused node rest by simp
  qed (use Suc.prems run_start in auto)
qed

text \<open>The run of the concrete incident: ten steps, one executor call after an approval, resolved.\<close>

definition demo_start :: config where
  "demo_start = start_config 1 demo_incident 1"

definition demo_yes :: pyval where
  "demo_yes = PDict [(''approved'', PBool True)]"

definition calls_seen :: "effect list \<Rightarrow> (string \<times> int \<times> int) list" where
  "calls_seen tr =
     concat (map (\<lambda>x. case x of ExecutorCall p a ev \<Rightarrow> [(pa_tool_name a, pa_risk_tier p, pa_risk_tier a)]
       | HumanDecision v \<Rightarrow> [(''decision'', 0, 0)] | RegistryCall n a c \<Rightarrow> [(''registry'', 0, 0)]) tr)"

lemma demo_evaluates:
  "(case demo_steps demo_context 10 demo_yes 12 demo_start of
     (n, tr, d) \<Rightarrow>
        n = 10 \<and>
        calls_seen tr = [(''registry'', 0, 0), (''decision'', 0, 0), (''scale_deployment'', 2, 1)] \<and>
        (case d of Ended s \<Rightarrow> s_status s = ''resolved'' \<and> map ea_tool_name (s_executed s) = [''scale_deployment'']
         | _ \<Rightarrow> False))"
  by code_simp

lemma demo_run:
  obtains tr s where "run (gstep demo_context) (start_config 1 demo_incident 1) 10 tr (Ended s)"
    "calls_seen tr = [(''registry'', 0, 0), (''decision'', 0, 0), (''scale_deployment'', 2, 1)]"
    "s_status s = ''resolved''" "map ea_tool_name (s_executed s) = [''scale_deployment'']"
proof -
  obtain n tr d where r: "demo_steps demo_context 10 demo_yes 12 demo_start = (n, tr, d)" by (metis prod_cases3)
  with demo_evaluates obtain s where "n = 10" "d = Ended s" "s_status s = ''resolved''"
    "map ea_tool_name (s_executed s) = [''scale_deployment'']"
    "calls_seen tr = [(''registry'', 0, 0), (''decision'', 0, 0), (''scale_deployment'', 2, 1)]"
    by (auto split: config.splits)
  with demo_steps_run [OF r] show thesis using that by (simp add: demo_start_def)
qed

section \<open>Runs from a fresh state\<close>

lemma start_inv: "config_inv cx m (start_config now m b)"
  by (simp add: start_config_def create_initial_state_def route_initial_phase_def state_inv_def no_repeat_def Let_def)

lemma start_unapproved: "\<not> approved_config (start_config now m b)"
  by (simp add: start_config_def create_initial_state_def route_initial_phase_def already_approved_def Let_def)

lemma start_measures:
  "steps_left cx (start_config now m b) = 2 * nat (round_limit cx) + 6 * (nat (gc_max_attempts cx) + 1) + 4"
  "rounds_of cx (start_config now m b) = nat (round_limit cx)"
  "attempts_of cx (start_config now m b) = nat (gc_max_attempts cx)"
  by (simp_all add: start_config_def create_initial_state_def route_initial_phase_def Let_def)

lemma can_step: "(\<exists>ev e. gstep cx d ev e) \<longleftrightarrow> (case d of Ended s \<Rightarrow> False | Crashed e \<Rightarrow> False | _ \<Rightarrow> True)"
proof (cases d)
  case (At n s)
  obtain ev r where "run_node cx n (demo_input 0 None) s = (ev, r)" by fastforce
  then have "gstep cx (At n s) ev (follow n r s)"
    by (intro gnode [where inp = "demo_input 0 None"]) (simp_all add: demo_input_def)
  with At show ?thesis by auto
next
  case (Paused s)
  obtain ev r where "run_node cx Approve (demo_input 0 (Some demo_yes)) s = (ev, r)" by fastforce
  then have "gstep cx (Paused s) (HumanDecision demo_yes # ev) (follow Approve r s)"
    by (intro gresume [where inp = "demo_input 0 (Some demo_yes)"]) (simp_all add: demo_input_def)
  with Paused show ?thesis by auto
qed simp_all

text \<open>A run whose last configuration is approved has an approving decision in its trace.\<close>

lemma run_approved:
  assumes "run (gstep cx) c n tr d" "config_inv cx m c" "\<not> approved_config c" "approved_config d"
  shows "list_ex approving tr"
  using assms
proof (induction rule: run.induct)
  case (run_step c n tr d ev e)
  then have "config_inv cx m d" using graph_run.run_inv by blast
  from step_approval [OF this run_step.hyps(2) run_step.prems(3)] run_step show ?case by auto
qed simp

lemma call_needs_approval:
  assumes "config_inv cx m c" "gstep cx c ev d" "ExecutorCall p a x \<in> set ev" "2 \<le> pa_risk_tier p"
  shows "approved_config c \<and> ev = [ExecutorCall p a x]"
  using assms(2)
proof cases
  case (gnode inp n s r)
  consider "n = Execute" | "n = Investigate" | "n \<notin> {Investigate, Execute}" by auto
  then show ?thesis
  proof cases
    case 1
    from assms(1) gnode 1 obtain q where q: "acting cx s q"
      "already_approved s \<or> (pa_risk_tier q \<le> 1 \<and> \<not> pa_requires_approval q)" by auto
    have node: "execute_node cx inp s = (ev, r)" using gnode 1 by simp
    from execute_stops [OF this] assms(3) have "gc_sre cx" by (cases "gc_sre cx") simp_all
    with execute_result [OF node] q(1) assms(3)
    have "p = q \<and> ev = [ExecutorCall p a x]" by (auto simp: acting_def split: sum.splits)
    with q(2) assms(4) gnode 1 show ?thesis by auto
  next
    case 2
    with gnode investigate_result [of cx inp s ev r] assms(3) show ?thesis
      by (auto simp: list_all_iff is_registry_call_def)
  next
    case 3
    with gnode quiet_nodes [of cx n inp s ev r] assms(3) show ?thesis by simp
  qed
next
  case (gresume inp v s ev' r)
  with quiet_nodes [of cx Approve inp s ev' r] assms(3) show ?thesis by simp
qed

lemma run_tier_two:
  assumes "run (gstep cx) c n tr d" "config_inv cx m c" "\<not> approved_config c"
    "tr = xs @ ExecutorCall p a x # ys" "2 \<le> pa_risk_tier p"
  shows "list_ex approving xs"
  using assms
proof (induction arbitrary: ys rule: run.induct)
  case (run_step c n tr d ev e)
  then have inv: "config_inv cx m d" using graph_run.run_inv by blast
  show ?case
  proof (cases "ExecutorCall p a x \<in> set ev")
    case True
    from call_needs_approval [OF inv run_step.hyps(2) True run_step.prems(4)]
    have call: "approved_config d" "ev = [ExecutorCall p a x]" by auto
    then have "list_ex approving tr" using run_approved [OF run_step.hyps(1)] run_step.prems by blast
    show ?thesis
    proof (cases ys rule: rev_cases)
      case Nil
      with run_step.prems(3) call \<open>list_ex approving tr\<close> show ?thesis by simp
    next
      case (snoc zs z)
      with run_step.prems(3) call have "tr = xs @ ExecutorCall p a x # zs" by simp
      with run_step show ?thesis by blast
    qed
  next
    case False
    from run_step.prems(3) False obtain zs where "tr = xs @ ExecutorCall p a x # zs"
      by (auto simp: append_eq_append_conv2 append_eq_Cons_conv Cons_eq_append_conv)
    with run_step show ?thesis by blast
  qed
qed simp

section \<open>Properties\<close>

text \<open>C4: an incident never loops. A run from a fresh state has at most
  \<open>2 max(3, B) + 6 (A + 1) + 4\<close> node runs for a triage budget B and A action attempts, whatever the
  model, the tools and the reviewers answer, so none is infinite; and it stops only when it has
  ended, crashed or waits for a decision.\<close>

theorem incident_terminates:
  assumes "run (gstep cx) (start_config now m b) n tr d"
  shows "n + steps_left cx d \<le> 2 * nat (max 3 (gc_initial_budget cx)) + 6 * (nat (gc_max_attempts cx) + 1) + 4 \<and>
    ((\<exists>ev e. gstep cx d ev e) \<longleftrightarrow> (case d of Ended s \<Rightarrow> False | Crashed e \<Rightarrow> False | _ \<Rightarrow> True)) \<and>
    \<not> (\<exists>f. f 0 = start_config now m b \<and> (\<forall>i. \<exists>ev. gstep cx (f i) ev (f (Suc i))))"
proof -
  have "\<not> (\<exists>f. f 0 = start_config now m b \<and> (\<forall>i. \<exists>ev. gstep cx (f i) ev (f (Suc i))))"
    using graph_run.no_infinite_run start_inv [of cx m now b] by metis
  with graph_run.run_bound [OF assms start_inv] show ?thesis
    by (simp add: start_measures can_step round_limit_def)
qed

lemma incident_terminates_witness:
  "\<exists>tr s. run (gstep demo_context) (start_config 1 demo_incident 1) 10 tr (Ended s) \<and>
     10 + steps_left demo_context (Ended s) \<le> 28 \<and> \<not> (\<exists>ev e. gstep demo_context (Ended s) ev e)"
proof -
  from demo_run obtain tr s where r: "run (gstep demo_context) (start_config 1 demo_incident 1) 10 tr (Ended s)"
    by blast
  from incident_terminates [OF this] r show ?thesis by (auto simp: demo_context_def)
qed

text \<open>C1: what an incident may do to the system. Every call of the executor in a run carries the
  proposal the node accepted: not a tool forbidden for the incident's category, its arguments
  accepted by the tool's input model, the incident's own namespace on the tools that take one,
  and by then a declared tier of at most 1 and no approval flag; every call through the registry
  has the incident's namespace where the tool takes one.\<close>

theorem incident_calls_guarded:
  assumes "run (gstep cx) (start_config now m b) n tr d"
  shows "list_all (effect_ok cx m) tr"
proof (rule graph_run.trace_all [OF assms start_inv])
  fix c ev d x
  assume "config_inv cx m c" "gstep cx c ev d" "x \<in> set ev"
  then show "effect_ok cx m x" using step_effects_ok by (auto simp: list_all_iff)
qed

lemma incident_calls_guarded_witness:
  "\<exists>tr s. run (gstep demo_context) (start_config 1 demo_incident 1) 10 tr (Ended s) \<and>
     length (calls_seen tr) = 3 \<and> list_all (effect_ok demo_context demo_incident) tr"
proof -
  from demo_run obtain tr s where r: "run (gstep demo_context) (start_config 1 demo_incident 1) 10 tr (Ended s)"
      "length (calls_seen tr) = 3" by (metis length_Cons list.size(3) numeral_3_eq_3)
  with incident_calls_guarded [OF r(1)] show ?thesis by blast
qed

text \<open>C5: the budgets of an incident. A run makes at most max(3, B) calls through the registry and
  at most A calls through the executor, for a triage budget B and A action attempts.\<close>

theorem incident_call_budget:
  assumes "run (gstep cx) (start_config now m b) n tr d"
  shows "length (filter is_registry_call tr) \<le> nat (max 3 (gc_initial_budget cx)) \<and>
    length (filter is_executor_call tr) \<le> nat (gc_max_attempts cx)"
proof -
  have "rounds_of cx d + length (filter is_registry_call tr) \<le> rounds_of cx (start_config now m b)"
    by (rule graph_run.trace_count [OF assms start_inv]) (auto dest: step_spends simp: spends_def)
  moreover have "attempts_of cx d + length (filter is_executor_call tr) \<le> attempts_of cx (start_config now m b)"
    by (rule graph_run.trace_count [OF assms start_inv]) (auto dest: step_spends simp: spends_def)
  ultimately show ?thesis by (simp add: start_measures round_limit_def)
qed

lemma incident_call_budget_witness:
  "\<exists>tr s. run (gstep demo_context) (start_config 1 demo_incident 1) 10 tr (Ended s) \<and>
     length (calls_seen tr) = 3 \<and> length (filter is_registry_call tr) \<le> 3 \<and>
     length (filter is_executor_call tr) \<le> 2"
proof -
  from demo_run obtain tr s where r: "run (gstep demo_context) (start_config 1 demo_incident 1) 10 tr (Ended s)"
      "length (calls_seen tr) = 3" by (metis length_Cons list.size(3) numeral_3_eq_3)
  with incident_call_budget [OF r(1)] show ?thesis by (auto simp: demo_context_def)
qed

text \<open>C2: human approval comes first. In a run, a call of the executor for a proposal declared
  Tier 2 or above is preceded by a decision that approved.\<close>

theorem approval_before_tier_two:
  assumes "run (gstep cx) (start_config now m b) n (xs @ ExecutorCall p a ev # ys) d" "2 \<le> pa_risk_tier p"
  shows "list_ex approving xs"
  using run_tier_two [OF assms(1) start_inv start_unapproved refl assms(2)] .

lemma calls_seen_split:
  assumes "calls_seen tr = [(''registry'', 0, 0), (''decision'', 0, 0), (''scale_deployment'', 2, 1)]"
  shows "\<exists>xs p a ev. tr = xs @ [ExecutorCall p a ev] \<and> pa_risk_tier p = 2 \<and> pa_tool_name a = ''scale_deployment''"
proof (cases tr rule: rev_cases)
  case (snoc xs x)
  with assms show ?thesis by (cases x) (auto simp: calls_seen_def)
qed (use assms in \<open>simp add: calls_seen_def\<close>)

lemma approval_before_tier_two_witness:
  "\<exists>xs p a ev s. run (gstep demo_context) (start_config 1 demo_incident 1) 10 (xs @ [ExecutorCall p a ev]) (Ended s) \<and>
     pa_risk_tier p = 2 \<and> pa_tool_name a = ''scale_deployment'' \<and> list_ex approving xs"
proof -
  obtain tr s where r: "run (gstep demo_context) (start_config 1 demo_incident 1) 10 tr (Ended s)"
    "calls_seen tr = [(''registry'', 0, 0), (''decision'', 0, 0), (''scale_deployment'', 2, 1)]"
    "s_status s = ''resolved''" "map ea_tool_name (s_executed s) = [''scale_deployment'']" by (rule demo_run)
  from calls_seen_split [OF r(2)] obtain xs p a ev where
    x: "tr = xs @ [ExecutorCall p a ev]" "pa_risk_tier p = 2" "pa_tool_name a = ''scale_deployment''" by blast
  have "list_ex approving xs"
    by (rule approval_before_tier_two [of demo_context 1 demo_incident 1 10 xs p a ev "[]" "Ended s"])
      (use r(1) x in simp_all)
  with r(1) x show ?thesis
    by (intro exI [of _ xs] exI [of _ p] exI [of _ a] exI [of _ ev] exI [of _ s] conjI) simp_all
qed

text \<open>C12: the end of an incident. A run that ends leaves the metadata it started with, the phase
  complete, one of the four statuses, no more executed actions than attempts and no more
  attempts than allowed, and no mutating tool recorded twice.\<close>

theorem incident_end_state:
  assumes "run (gstep cx) (start_config now m b) n tr (Ended s)"
  shows "s_metadata s = m \<and> s_phase s = Complete \<and>
    s_status s \<in> {''resolved'', ''failed'', ''no_action'', ''running''} \<and>
    int (length (s_executed s)) \<le> s_action_attempts s \<and> s_action_attempts s \<le> max 0 (gc_max_attempts cx) \<and>
    distinct (filter (\<lambda>t. t \<in> set mutating_tools) (map ea_tool_name (s_executed s)))"
proof -
  from graph_run.run_inv [OF assms start_inv] show ?thesis
    by (simp add: state_inv_def no_repeat_def)
qed

lemma incident_end_state_witness:
  "\<exists>tr s. run (gstep demo_context) (start_config 1 demo_incident 1) 10 tr (Ended s) \<and>
     s_status s = ''resolved'' \<and> length (s_executed s) = 1 \<and> s_metadata s = demo_incident"
proof -
  obtain tr s where r: "run (gstep demo_context) (start_config 1 demo_incident 1) 10 tr (Ended s)"
    "calls_seen tr = [(''registry'', 0, 0), (''decision'', 0, 0), (''scale_deployment'', 2, 1)]"
    "s_status s = ''resolved''" "map ea_tool_name (s_executed s) = [''scale_deployment'']" by (rule demo_run)
  have "length (s_executed s) = 1" using arg_cong [OF r(4), of length] by simp
  moreover have "s_metadata s = demo_incident" using incident_end_state [OF r(1)] by (rule conjunct1)
  ultimately show ?thesis using r(1,3) by (intro exI [of _ tr] exI [of _ s] conjI)
qed

end
