(* ===== verification/Fallbacks.thy ===== *)
theory Fallbacks
  imports Propose
begin

text \<open>
  The fallback table against the tools it names and the default policy: the arguments
  \<open>_build_fallback_args\<close> makes are accepted by the input declarations of the tool and by
  the policy engine, exactly when the incident names a workload for the tools that need one.
\<close>

section \<open>Arguments of the fallbacks\<close>

definition spec_fields :: "string \<Rightarrow> field_spec list option" where
  "spec_fields t = map_option ts_fields (List.find (\<lambda>s. ts_name s = t) default_tool_specs)"

definition names_workload :: "string \<Rightarrow> bool" where
  "names_workload t = (t = ''restart_deployment'' \<or> t = ''scale_deployment'')"

definition workload_ok :: "incident_metadata \<Rightarrow> bool" where
  "workload_ok m =
     (str_strip (im_service m) \<noteq> [] \<and> length (str_strip (im_service m)) \<le> 253 \<and>
      str_strip (im_namespace m) \<noteq> [] \<and> length (str_strip (im_namespace m)) \<le> 253)"

lemma spec_fields_values:
  "spec_fields ''restart_deployment'' = Some restart_deployment_input"
  "spec_fields ''scale_deployment'' = Some scale_deployment_input"
  "spec_fields ''terminate_backend'' = Some terminate_backend_input"
  "spec_fields ''delete_valkey_key'' = Some delete_valkey_key_input"
  "spec_fields ''flush_all'' = Some flush_all_input"
  by (simp_all add: spec_fields_def default_tool_specs_def k8s_tools_def postgres_tools_def observability_tools_def valkey_tools_def)

lemmas args_defs = args_ok_def field_ok_def value_ok_def fld_def in_bounds_def



lemma restart_fallback:
  assumes "fa_tool_name fb = ''restart_deployment''" "fa_tool_args fb = [(''reason'', PStr r)]" "r \<noteq> []"
  shows "build_fallback_args fb m = (''reason'', PStr r) #
    (if str_strip (im_service m) = [] then [] else [(''name'', PStr (str_strip (im_service m)))]) @
    (if str_strip (im_namespace m) = [] then [] else [(''namespace'', PStr (str_strip (im_namespace m)))])"
  unfolding build_fallback_args_def Let_def assms(1,2)
  using assms(3) by (simp add: has_key_def dset_def tools_with_namespace_def)

lemma scale_fallback:
  assumes "fa_tool_name fb = ''scale_deployment''" "fa_tool_args fb = [(''replicas'', PInt k), (''reason'', PStr r)]"
    "r \<noteq> []"
  shows "build_fallback_args fb m = (''replicas'', PInt k) # (''reason'', PStr r) #
    (if str_strip (im_service m) = [] then [] else [(''name'', PStr (str_strip (im_service m)))]) @
    (if str_strip (im_namespace m) = [] then [] else [(''namespace'', PStr (str_strip (im_namespace m)))])"
  unfolding build_fallback_args_def Let_def assms(1,2)
  using assms(3) by (simp add: has_key_def dset_def tools_with_namespace_def)

lemma other_fallback:
  assumes "fa_tool_name fb \<notin> {''restart_deployment'', ''scale_deployment'', ''delete_pod''}"
    "fa_tool_name fb \<notin> set tools_with_namespace"
    "dget_or (fa_tool_args fb) ''reason'' PNone = PStr r" "r \<noteq> []"
  shows "build_fallback_args fb m = fa_tool_args fb"
  unfolding build_fallback_args_def Let_def using assms by simp

lemma length_pos: "Suc 0 \<le> length xs \<longleftrightarrow> xs \<noteq> []"
  by (cases xs) simp_all

lemma restart_args_ok:
  "args_ok restart_deployment_input ((''reason'', PStr r) # (if sv = [] then [] else [(''name'', PStr sv)]) @
       (if ns = [] then [] else [(''namespace'', PStr ns)])) \<longleftrightarrow>
     r \<noteq> [] \<and> length r \<le> 500 \<and> sv \<noteq> [] \<and> length sv \<le> 253 \<and> ns \<noteq> [] \<and> length ns \<le> 253"
  by (cases "sv = []"; cases "ns = []")
    (simp_all add: args_defs restart_deployment_input_def dkeys_def length_pos conj_ac)

lemma scale_args_ok:
  "args_ok scale_deployment_input ((''replicas'', PInt k) # (''reason'', PStr r) #
       (if sv = [] then [] else [(''name'', PStr sv)]) @ (if ns = [] then [] else [(''namespace'', PStr ns)])) \<longleftrightarrow>
     0 \<le> k \<and> k \<le> 50 \<and> r \<noteq> [] \<and> length r \<le> 500 \<and> sv \<noteq> [] \<and> length sv \<le> 253 \<and> ns \<noteq> [] \<and> length ns \<le> 253"
  by (cases "sv = []"; cases "ns = []")
    (simp_all add: args_defs scale_deployment_input_def dkeys_def length_pos conj_ac)

lemma reason_only_ok:
  "args_ok terminate_backend_input [(''reason'', PStr r)] \<longleftrightarrow> str_strip r \<noteq> [] \<and> r \<noteq> [] \<and> length r \<le> 500"
  "args_ok flush_all_input [(''reason'', PStr r)] \<longleftrightarrow> r \<noteq> [] \<and> length r \<le> 500"
  "args_ok delete_valkey_key_input [(''key'', PStr k), (''reason'', PStr r)] \<longleftrightarrow>
     str_strip k \<noteq> [] \<and> k \<noteq> [] \<and> length k \<le> 500 \<and> str_strip r \<noteq> [] \<and> r \<noteq> [] \<and> length r \<le> 500"
  by (auto simp add: args_defs terminate_backend_input_def flush_all_input_def delete_valkey_key_input_def
      dkeys_def length_pos)


text \<open>The shapes of the table's entries.\<close>

definition plain_reason :: "string \<Rightarrow> bool" where
  "plain_reason r = (r \<noteq> [] \<and> length r \<le> 500 \<and> str_strip r \<noteq> [] \<and> \<not> has_glob r)"

fun args_shape :: "string \<Rightarrow> pydict \<Rightarrow> bool" where
  "args_shape t [(k, PStr r)] =
     (k = ''reason'' \<and> plain_reason r \<and>
      (t = ''none'' \<or> t = ''restart_deployment'' \<or> t = ''terminate_backend'' \<or> t = ''flush_all''))"
| "args_shape t [(i, PInt n), (k, PStr r)] =
     (i = ''replicas'' \<and> k = ''reason'' \<and> 0 < n \<and> n \<le> 50 \<and> plain_reason r \<and> t = ''scale_deployment'')"
| "args_shape t [(i, PStr n), (k, PStr r)] =
     (i = ''key'' \<and> k = ''reason'' \<and> plain_reason n \<and> plain_reason r \<and> t = ''delete_valkey_key'')"
| "args_shape t _ = False"

definition fallback_shape :: "fallback_action \<Rightarrow> bool" where
  "fallback_shape fb = args_shape (fa_tool_name fb) (fa_tool_args fb)"

fun_cases args_shapeE: "args_shape t args"

lemma fallback_shape_cases:
  assumes "fallback_shape fb" "fa_tool_name fb \<noteq> ''none''"
  obtains (restart) r where "fa_tool_name fb = ''restart_deployment''" "fa_tool_args fb = [(''reason'', PStr r)]"
        "plain_reason r"
    | (scale) k r where "fa_tool_name fb = ''scale_deployment''"
        "fa_tool_args fb = [(''replicas'', PInt k), (''reason'', PStr r)]" "0 < k" "k \<le> 50" "plain_reason r"
    | (plain) r where "fa_tool_name fb = ''terminate_backend'' \<or> fa_tool_name fb = ''flush_all''"
        "fa_tool_args fb = [(''reason'', PStr r)]" "plain_reason r"
    | (key) k r where "fa_tool_name fb = ''delete_valkey_key''"
        "fa_tool_args fb = [(''key'', PStr k), (''reason'', PStr r)]" "plain_reason k" "plain_reason r"
proof -
  have "args_shape (fa_tool_name fb) (fa_tool_args fb)" using assms(1) by (simp add: fallback_shape_def)
  then show thesis
    by (rule args_shapeE) (use assms(2) restart scale plain key in metis)+
qed

lemma fallback_shapes: "list_all (\<lambda>(cat, fb). fallback_shape fb) fallback_actions"
  by code_simp

section \<open>The default policy on them\<close>

text \<open>When the policy accepts, for tiers in range.\<close>

lemma classify_accepts:
  "(\<exists>d. classify rp eng (PStr t) (PDict kw) (PInt (int (tier_num b))) = Inr d) \<longleftrightarrow>
     t \<noteq> [] \<and> namespace_refusal eng kw = None \<and> \<not> has_wildcard_arguments kw \<and> \<not> hard_blocked t \<and>
     \<not> (t = ''scale_deployment'' \<and> is_invalid_scale kw) \<and> effective_tier eng t kw b \<noteq> PROHIBITED"
  (is "?acc \<longleftrightarrow> ?cond")
proof
  assume ?acc
  then show ?cond
    by (elim exE classify_Inr_cases) (auto simp: eval_rules_Inr effective_tier_def Let_def)
next
  assume c: ?cond
  then obtain d where "eval_rules eng t kw b (e_rules eng) = Inr d" by (auto elim: eval_rules_accept)
  with c show ?acc by (intro exI [of _ d] classify_InrI [where base = b]) auto
qed

definition workload_args :: "pydict \<Rightarrow> string \<Rightarrow> string \<Rightarrow> pydict" where
  "workload_args base sv ns =
     base @ (if sv = [] then [] else [(''name'', PStr sv)]) @ (if ns = [] then [] else [(''namespace'', PStr ns)])"

lemma workload_namespace:
  assumes "base = [(''reason'', PStr r)] \<or> base = [(''replicas'', PInt k), (''reason'', PStr r)]"
  shows "arg_get (workload_args base sv ns) ''namespace'' = (if ns = [] then PNone else PStr ns)"
  using assms by (auto simp: workload_args_def arg_get_def)

lemma workload_replicas:
  "arg_get (workload_args [(''replicas'', PInt k), (''reason'', PStr r)] sv ns) ''replicas'' = PInt k"
  by (simp add: workload_args_def arg_get_def)

lemma workload_wildcard:
  assumes "base = [(''reason'', PStr r)] \<or> base = [(''replicas'', PInt k), (''reason'', PStr r)]" "\<not> has_glob r"
  shows "has_wildcard_arguments (workload_args base sv ns) \<longleftrightarrow> has_glob sv \<or> has_glob ns"
  using assms by (auto simp: workload_args_def has_wildcard_arguments_def has_glob_def list_ex_iff)

lemma default_refusal:
  assumes "arg_get kw ''namespace'' = (if ns = [] then PNone else PStr ns)"
  shows "namespace_refusal default_engine kw = None \<longleftrightarrow> ns \<in> {[], ''rivulet'', ''sre''}"
  using assms by (auto simp: namespace_refusal_None default_engine_def)

lemma not_system:
  assumes "arg_get kw ''namespace'' = (if ns = [] then PNone else PStr ns)" "ns \<in> {[], ''rivulet'', ''sre''}"
  shows "\<not> is_system_namespace kw"
  using assms by (auto simp: is_system_namespace_def system_namespaces_def)

lemma no_globs: "ns \<in> {[], ''rivulet'', ''sre''} \<Longrightarrow> \<not> has_glob ns"
  by (auto simp: has_glob_def glob_chars_def)

section \<open>The table\<close>

text \<open>What an entry of the table guarantees for an incident: its tool is not forbidden for the
  category and is a built-in tool of the tier the entry declares; the arguments built for it are
  those the tool's input declares and those the default policy accepts, for a tool that names a
  workload exactly when the incident names one within the limits and the allowed namespaces.\<close>

definition fallback_ok :: "(pyval \<Rightarrow> string) \<Rightarrow> incident_metadata \<Rightarrow> string \<Rightarrow> fallback_action \<Rightarrow> bool" where
  "fallback_ok rp m cat fb =
     (let t = fa_tool_name fb; args = build_fallback_args fb m
      in t \<notin> set (forbidden_tools cat) \<and>
         (case List.find (\<lambda>s. ts_name s = t) default_tool_specs of
            None \<Rightarrow> False
          | Some sp \<Rightarrow>
              ts_risk_tier sp = fa_risk_tier fb \<and>
              (args_ok (ts_fields sp) args \<longleftrightarrow> (if names_workload t then workload_ok m else True)) \<and>
              ((\<exists>d. classify rp default_engine (PStr t) (PDict args) (PInt (fa_risk_tier fb)) = Inr d) \<longleftrightarrow>
                 (if names_workload t
                  then str_strip (im_namespace m) \<in> {[], ''rivulet'', ''sre''} \<and> \<not> has_glob (str_strip (im_service m))
                  else True))))"

lemma fallback_table:
  "list_all (\<lambda>(cat, fb). fa_tool_name fb = ''none'' \<or>
     fa_tool_name fb \<notin> set (forbidden_tools cat) \<and>
     (case List.find (\<lambda>s. ts_name s = fa_tool_name fb) default_tool_specs of
        None \<Rightarrow> False
      | Some sp \<Rightarrow> ts_risk_tier sp = fa_risk_tier fb \<and> (fa_risk_tier fb = 1 \<or> fa_risk_tier fb = 2)))
     fallback_actions"
  by code_simp

lemma spec_fields_find: "List.find (\<lambda>s. ts_name s = t) default_tool_specs = Some sp \<Longrightarrow> spec_fields t = Some (ts_fields sp)"
  by (simp add: spec_fields_def)

lemma tier_one_or_two:
  assumes "k = 1 \<or> k = 2"
  obtains b where "k = int (tier_num b)" "b \<noteq> PROHIBITED"
  using assms that [of REVERSIBLE_LOW] that [of REVERSIBLE_HIGH] by auto

lemma restart_accepted:
  assumes "plain_reason r" "b \<noteq> PROHIBITED"
  shows "(\<exists>d. classify rp default_engine (PStr ''restart_deployment'')
      (PDict (workload_args [(''reason'', PStr r)] sv ns)) (PInt (int (tier_num b))) = Inr d) \<longleftrightarrow>
    ns \<in> {[], ''rivulet'', ''sre''} \<and> \<not> has_glob sv"
proof -
  let ?kw = "workload_args [(''reason'', PStr r)] sv ns"
  have ns: "arg_get ?kw ''namespace'' = (if ns = [] then PNone else PStr ns)" by (rule workload_namespace) simp
  have wild: "has_wildcard_arguments ?kw \<longleftrightarrow> has_glob sv \<or> has_glob ns"
    using assms(1) by (intro workload_wildcard [where r = r]) (simp_all add: plain_reason_def)
  have eff: "effective_tier default_engine ''restart_deployment'' ?kw b \<noteq> PROHIBITED" if "ns \<in> {[], ''rivulet'', ''sre''}"
    using not_system [OF ns that]
    by (auto simp: effective_tier_def first_match_def default_engine_def default_rules_def rule_matches_def)
  show ?thesis
    unfolding classify_accepts default_refusal [OF ns] wild
    using eff no_globs by (auto simp: hard_blocked_def)
qed

lemma scale_accepted:
  assumes "plain_reason r" "b \<noteq> PROHIBITED" "0 < k"
  shows "(\<exists>d. classify rp default_engine (PStr ''scale_deployment'')
      (PDict (workload_args [(''replicas'', PInt k), (''reason'', PStr r)] sv ns)) (PInt (int (tier_num b))) = Inr d) \<longleftrightarrow>
    ns \<in> {[], ''rivulet'', ''sre''} \<and> \<not> has_glob sv"
proof -
  let ?kw = "workload_args [(''replicas'', PInt k), (''reason'', PStr r)] sv ns"
  have ns: "arg_get ?kw ''namespace'' = (if ns = [] then PNone else PStr ns)" by (rule workload_namespace) simp
  have wild: "has_wildcard_arguments ?kw \<longleftrightarrow> has_glob sv \<or> has_glob ns"
    using assms(1) by (intro workload_wildcard [where r = r]) (simp_all add: plain_reason_def)
  have valid: "\<not> is_invalid_scale ?kw"
    using assms(3) by (simp add: is_invalid_scale_def workload_replicas parse_replicas_def)
  have eff: "effective_tier default_engine ''scale_deployment'' ?kw b \<noteq> PROHIBITED" if "ns \<in> {[], ''rivulet'', ''sre''}"
    using not_system [OF ns that] assms(2)
    by (auto simp: effective_tier_def first_match_def default_engine_def default_rules_def rule_matches_def)
  show ?thesis
    unfolding classify_accepts default_refusal [OF ns] wild
    using eff no_globs valid by (auto simp: hard_blocked_def)
qed

lemma plain_accepted:
  assumes "arg_get kw ''namespace'' = PNone" "\<not> has_wildcard_arguments kw" "b \<noteq> PROHIBITED"
    "t \<in> {''terminate_backend'', ''flush_all'', ''delete_valkey_key''}"
  shows "\<exists>d. classify rp default_engine (PStr t) (PDict kw) (PInt (int (tier_num b))) = Inr d"
proof -
  have "effective_tier default_engine t kw b \<noteq> PROHIBITED"
    using assms by (auto simp: effective_tier_def first_match_def default_engine_def default_rules_def rule_matches_def
        is_system_namespace_def)
  moreover have "namespace_refusal default_engine kw = None" using assms(1) by (simp add: namespace_refusal_None)
  ultimately show ?thesis using assms(2,4) by (auto simp: classify_accepts hard_blocked_def)
qed

lemma plain_wildcard:
  "plain_reason r \<Longrightarrow> \<not> has_wildcard_arguments [(''reason'', PStr r)]"
  "plain_reason r \<Longrightarrow> plain_reason k \<Longrightarrow> \<not> has_wildcard_arguments [(''key'', PStr k), (''reason'', PStr r)]"
  by (simp_all add: has_wildcard_arguments_def plain_reason_def)

lemma shape_ok:
  assumes "fallback_shape fb" "fa_tool_name fb \<noteq> ''none''" "spec_fields (fa_tool_name fb) = Some fs"
    "fa_risk_tier fb = int (tier_num b)" "b \<noteq> PROHIBITED"
  shows "args_ok fs (build_fallback_args fb m) \<longleftrightarrow> (if names_workload (fa_tool_name fb) then workload_ok m else True)"
    "(\<exists>d. classify rp default_engine (PStr (fa_tool_name fb)) (PDict (build_fallback_args fb m)) (PInt (fa_risk_tier fb)) = Inr d) \<longleftrightarrow>
       (if names_workload (fa_tool_name fb)
        then str_strip (im_namespace m) \<in> {[], ''rivulet'', ''sre''} \<and> \<not> has_glob (str_strip (im_service m)) else True)"
proof -
  from assms(1,2) have "(args_ok fs (build_fallback_args fb m) \<longleftrightarrow> (if names_workload (fa_tool_name fb) then workload_ok m else True)) \<and>
    ((\<exists>d. classify rp default_engine (PStr (fa_tool_name fb)) (PDict (build_fallback_args fb m)) (PInt (fa_risk_tier fb)) = Inr d) \<longleftrightarrow>
       (if names_workload (fa_tool_name fb)
        then str_strip (im_namespace m) \<in> {[], ''rivulet'', ''sre''} \<and> \<not> has_glob (str_strip (im_service m)) else True))"
  proof (cases rule: fallback_shape_cases)
    case (restart r)
    then have "r \<noteq> []" "length r \<le> 500" by (simp_all add: plain_reason_def)
    with restart assms(3,4,5) restart_accepted [of r b rp] show ?thesis
      by (simp add: spec_fields_values names_workload_def restart_fallback workload_args_def restart_args_ok workload_ok_def)
  next
    case (scale k r)
    then have "r \<noteq> []" "length r \<le> 500" by (simp_all add: plain_reason_def)
    with scale assms(3,4,5) scale_accepted [of r b k rp] show ?thesis
      by (simp add: spec_fields_values names_workload_def scale_fallback workload_args_def scale_args_ok workload_ok_def)
  next
    case (plain r)
    then have eq: "build_fallback_args fb m = fa_tool_args fb"
      by (intro other_fallback [of fb r]) (auto simp: tools_with_namespace_def plain_reason_def)
    have "\<exists>d. classify rp default_engine (PStr (fa_tool_name fb)) (PDict (fa_tool_args fb)) (PInt (int (tier_num b))) = Inr d"
      using plain assms(5) by (intro plain_accepted) (auto simp: arg_get_def plain_wildcard)
    with plain eq assms(3,4) show ?thesis
      by (auto simp: spec_fields_values names_workload_def reason_only_ok plain_reason_def)
  next
    case (key k r)
    then have eq: "build_fallback_args fb m = fa_tool_args fb"
      by (intro other_fallback [of fb r]) (auto simp: tools_with_namespace_def plain_reason_def)
    have "\<exists>d. classify rp default_engine (PStr (fa_tool_name fb)) (PDict (fa_tool_args fb)) (PInt (int (tier_num b))) = Inr d"
      using key assms(5) by (intro plain_accepted) (auto simp: arg_get_def plain_wildcard)
    with key eq assms(3,4) show ?thesis
      by (auto simp: spec_fields_values names_workload_def reason_only_ok plain_reason_def)
  qed
  then show "args_ok fs (build_fallback_args fb m) \<longleftrightarrow> (if names_workload (fa_tool_name fb) then workload_ok m else True)"
    "(\<exists>d. classify rp default_engine (PStr (fa_tool_name fb)) (PDict (build_fallback_args fb m)) (PInt (fa_risk_tier fb)) = Inr d) \<longleftrightarrow>
       (if names_workload (fa_tool_name fb)
        then str_strip (im_namespace m) \<in> {[], ''rivulet'', ''sre''} \<and> \<not> has_glob (str_strip (im_service m)) else True)"
    by simp_all
qed

text \<open>C13: what the deterministic fallbacks are worth. For every category of the table whose action
  is not to do nothing, the action is a built-in tool at its registered tier that the category does
  not forbid. Terminating sessions, deleting a key and flushing the cache have arguments that the
  tool's input declaration and the default policy accept for every incident. Restarting and scaling
  have them under conditions only: the input accepts them exactly when the incident names a service
  and a namespace, of legal length, and the policy exactly when the namespace is one of the two
  allowed ones (or missing) and the service has no wildcard; so the fallback of an incident without
  a service or in the namespace default is refused.\<close>

theorem fallback_actions_sound:
  "list_all (\<lambda>(cat, fb). fa_tool_name fb = ''none'' \<or> fallback_ok rp m cat fb) fallback_actions"
proof -
  have "fa_tool_name fb = ''none'' \<or> fallback_ok rp m cat fb" if "(cat, fb) \<in> set fallback_actions" for cat fb
  proof (cases "fa_tool_name fb = ''none''")
    case False
    with that fallback_table obtain sp where sp: "fa_tool_name fb \<notin> set (forbidden_tools cat)"
        "List.find (\<lambda>s. ts_name s = fa_tool_name fb) default_tool_specs = Some sp"
        "ts_risk_tier sp = fa_risk_tier fb" "fa_risk_tier fb = 1 \<or> fa_risk_tier fb = 2"
      by (auto simp: list_all_iff split: option.splits)
    from sp(4) obtain b where b: "fa_risk_tier fb = int (tier_num b)" "b \<noteq> PROHIBITED" by (rule tier_one_or_two)
    have "fallback_shape fb" using that fallback_shapes by (auto simp: list_all_iff)
    from shape_ok [OF this False spec_fields_find [OF sp(2)] b] sp show ?thesis
      by (simp add: fallback_ok_def Let_def)
  qed simp
  then show ?thesis by (auto simp: list_all_iff)
qed

end
