(* ===== verification/Handlers.thy ===== *)
theory Handlers
  imports Tools
begin

text \<open>
  What the handlers of \<^verbatim>\<open>tools/k8s.py\<close>, \<^verbatim>\<open>tools/postgres.py\<close>,
  \<^verbatim>\<open>tools/valkey.py\<close> and \<^verbatim>\<open>tools/observability.py\<close> share. A handler is an
  async function that awaits one client call after another, so it is a program: it has returned
  (a value or an exception), or it makes a \<open>request\<close> and goes on with the answer, which may be an
  exception. The clients (kr8s, psycopg, valkey, httpx) are arguments: a client is a function
  from its state and a request to an answer and its next state, and \<open>serve\<close> runs a program
  against one and records what was asked. A Kubernetes object that a request acts on is named by
  the kind, namespace and name it was fetched with. What a client object or the standard library
  computes without being asked over the network (attributes of an exception, \<open>str\<close> of it,
  \<open>datetime.fromisoformat\<close>, \<open>json.loads\<close>, the clock) is in \<open>handler_lib\<close>.
\<close>

section \<open>Requests\<close>

text \<open>The SQL statements of \<^verbatim>\<open>tools/postgres.py\<close>, with their parameters.\<close>

datatype sql =
    ActiveQueries bool rat int
  | LockWaits int
  | ConnectionCounts
  | MaxConnections
  | IdleCandidates int
  | TerminatePid int
  | StillIdle "int list"
  | BackendInfo int
  | SameBackend int pyval

datatype request =
    ListObjects string string "string option" "string option"
  | Iterate pyval
  | GetObject string string string
  | ReadLogs string string "string option" int bool
  | PatchObject string string string pydict
  | DeleteObject string string string "int option"
  | Connect
  | Sql sql
  | Pause rat
  | ValkeyInfo string
  | ValkeyLen string
  | ValkeyGroups string
  | ValkeyDelete string
  | ValkeyExists string
  | ValkeyFlush
  | HttpPost string string pydict

text \<open>The requests that change something outside the agent.\<close>

fun mutating :: "request \<Rightarrow> bool" where
  "mutating (PatchObject _ _ _ _) = True"
| "mutating (DeleteObject _ _ _ _) = True"
| "mutating (Sql (TerminatePid _)) = True"
| "mutating (ValkeyDelete _) = True"
| "mutating ValkeyFlush = True"
| "mutating _ = False"

section \<open>Programs\<close>

datatype 'a prog = Finish "exn + 'a" | Ask request "exn + pyval \<Rightarrow> 'a prog"

abbreviation raises :: "exn \<Rightarrow> 'a prog" where
  "raises e \<equiv> Finish (Inl e)"

abbreviation returns :: "'a \<Rightarrow> 'a prog" where
  "returns x \<equiv> Finish (Inr x)"

definition await :: "request \<Rightarrow> pyval prog" where
  "await q = Ask q Finish"

primrec andthen :: "'a prog \<Rightarrow> ('a \<Rightarrow> 'b prog) \<Rightarrow> 'b prog" where
  "andthen (Finish r) f = (case r of Inl e \<Rightarrow> Finish (Inl e) | Inr x \<Rightarrow> f x)"
| "andthen (Ask q k) f = Ask q (\<lambda>r. andthen (k r) f)"

text \<open>\<open>try: ... except Exception as exc: ...\<close>: the handler sees what \<open>except Exception\<close> catches.\<close>

primrec except :: "'a prog \<Rightarrow> (exn \<Rightarrow> 'a prog) \<Rightarrow> 'a prog" where
  "except (Finish r) h =
     (case r of Inl e \<Rightarrow> if caught_by_exception e then h e else Finish (Inl e) | Inr x \<Rightarrow> Finish (Inr x))"
| "except (Ask q k) h = Ask q (\<lambda>r. except (k r) h)"

definition wrapped :: "string \<Rightarrow> 'a prog \<Rightarrow> 'a prog" where
  "wrapped tool p = except p (\<lambda>e. raises (ToolExecutionError tool e))"

text \<open>The result as a value, whatever it is: what a task hands to \<open>asyncio.gather\<close>.\<close>

primrec attempt :: "'a prog \<Rightarrow> (exn + 'a) prog" where
  "attempt (Finish r) = returns r"
| "attempt (Ask q k) = Ask q (\<lambda>r. attempt (k r))"

primrec serve :: "'a prog \<Rightarrow> ('w \<Rightarrow> request \<Rightarrow> (exn + pyval) \<times> 'w) \<Rightarrow> 'w \<Rightarrow>
    request list \<times> (exn + 'a) \<times> 'w" where
  "serve (Finish r) client w = ([], r, w)"
| "serve (Ask q k) client w =
     (let (a, w1) = client w q; (qs, r, w2) = serve (k a) client w1 in (q # qs, r, w2))"

text \<open>What a program can ask, whatever it is answered: every request satisfies \<open>P\<close>; at most \<open>n\<close>
  requests satisfy \<open>P\<close>.\<close>

primrec every :: "(request \<Rightarrow> bool) \<Rightarrow> 'a prog \<Rightarrow> bool" where
  "every P (Finish r) = True"
| "every P (Ask q k) = (P q \<and> (\<forall>r. every P (k r)))"

primrec at_most :: "(request \<Rightarrow> bool) \<Rightarrow> 'a prog \<Rightarrow> nat \<Rightarrow> bool" where
  "at_most P (Finish r) n = True"
| "at_most P (Ask q k) n = (if P q then 0 < n \<and> (\<forall>r. at_most P (k r) (n - 1)) else (\<forall>r. at_most P (k r) n))"

named_theorems prog_intros "what composed programs ask"

lemma every_await [simp]: "every P (await q) \<longleftrightarrow> P q"
  by (simp add: await_def)

lemma every_andthen [prog_intros]: "every P p \<Longrightarrow> (\<And>x. every P (f x)) \<Longrightarrow> every P (andthen p f)"
  by (induction p) (auto split: sum.splits)

lemma every_except [prog_intros]: "every P p \<Longrightarrow> (\<And>e. every P (h e)) \<Longrightarrow> every P (except p h)"
  by (induction p) (auto split: sum.splits)

lemma every_attempt [prog_intros]: "every P p \<Longrightarrow> every P (attempt p)"
  by (induction p) auto

lemma every_wrapped [prog_intros]: "every P p \<Longrightarrow> every P (wrapped tool p)"
  unfolding wrapped_def by (intro every_except) auto

lemma every_if [prog_intros]:
  "(b \<Longrightarrow> every P p) \<Longrightarrow> (\<not> b \<Longrightarrow> every P q) \<Longrightarrow> every P (if b then p else q)"
  by simp

lemma every_case_option [prog_intros]:
  "(x = None \<Longrightarrow> every P p) \<Longrightarrow> (\<And>y. x = Some y \<Longrightarrow> every P (f y)) \<Longrightarrow>
     every P (case x of None \<Rightarrow> p | Some y \<Rightarrow> f y)"
  by (cases x) auto

lemma every_mono: "every P p \<Longrightarrow> (\<And>q. P q \<Longrightarrow> Q q) \<Longrightarrow> every Q p"
  by (induction p) auto

lemma at_most_mono: "at_most P p m \<Longrightarrow> m \<le> n \<Longrightarrow> at_most P p n"
proof (induction p arbitrary: m n)
  case (Ask q k)
  show ?case
  proof (cases "P q")
    case True
    then have "m - 1 \<le> n - 1" "0 < n" using Ask.prems by auto
    then show ?thesis using Ask.IH [OF rangeI] Ask.prems True by auto
  next
    case False
    then show ?thesis using Ask.IH [OF rangeI] Ask.prems by auto
  qed
qed simp

lemma at_most_0: "every (\<lambda>q. \<not> P q) p \<Longrightarrow> at_most P p n"
  by (induction p) auto

lemma at_most_andthen:
  "at_most P p m \<Longrightarrow> (\<And>x. at_most P (f x) n) \<Longrightarrow> at_most P (andthen p f) (m + n)"
proof (induction p arbitrary: m)
  case (Finish r)
  then show ?case by (auto split: sum.splits intro: at_most_mono [OF _ le_add2])
next
  case (Ask q k)
  show ?case
  proof (cases "P q")
    case True
    then have m: "m + n - 1 = (m - 1) + n" "0 < m" using Ask.prems by auto
    have "at_most P (andthen (k r) f) (m + n - 1)" for r
      unfolding m(1) using Ask.prems True by (intro Ask.IH [OF rangeI]) auto
    then show ?thesis using m True by simp
  next
    case False
    then show ?thesis using Ask.IH [OF rangeI] Ask.prems by auto
  qed
qed

lemma at_most_except:
  "at_most P p m \<Longrightarrow> (\<And>e. at_most P (h e) n) \<Longrightarrow> at_most P (except p h) (m + n)"
proof (induction p arbitrary: m)
  case (Finish r)
  then show ?case by (auto split: sum.splits intro: at_most_mono [OF _ le_add2])
next
  case (Ask q k)
  show ?case
  proof (cases "P q")
    case True
    then have m: "m + n - 1 = (m - 1) + n" "0 < m" using Ask.prems by auto
    have "at_most P (except (k r) h) (m + n - 1)" for r
      unfolding m(1) using Ask.prems True by (intro Ask.IH [OF rangeI]) auto
    then show ?thesis using m True by simp
  next
    case False
    then show ?thesis using Ask.IH [OF rangeI] Ask.prems by auto
  qed
qed

text \<open>Where the counted request comes from: the first part, the second, or either branch.\<close>

named_theorems once_intros "composed programs that ask at most so often"

lemma at_most_then [once_intros]:
  "every (\<lambda>q. \<not> P q) p \<Longrightarrow> (\<And>x. at_most P (f x) n) \<Longrightarrow> at_most P (andthen p f) n"
  using at_most_andthen [of P p 0 f n] by (simp add: at_most_0)

lemma at_most_first: "at_most P p n \<Longrightarrow> (\<And>x. every (\<lambda>q. \<not> P q) (f x)) \<Longrightarrow> at_most P (andthen p f) n"
  using at_most_andthen [of P p n f 0] by (simp add: at_most_0)

lemma at_most_handled [once_intros]:
  "at_most P p n \<Longrightarrow> (\<And>e. every (\<lambda>q. \<not> P q) (h e)) \<Longrightarrow> at_most P (except p h) n"
  using at_most_except [of P p n h 0] by (simp add: at_most_0)

lemma at_most_wrapped [once_intros]: "at_most P p n \<Longrightarrow> at_most P (wrapped tool p) n"
  unfolding wrapped_def by (intro at_most_handled) auto

lemma at_most_await_andthen [once_intros]:
  "(\<And>x. every (\<lambda>q. \<not> P q) (f x)) \<Longrightarrow> at_most P (andthen (await q) f) 1"
  by (intro at_most_first) (auto simp: await_def)

lemma at_most_if [once_intros]:
  "(b \<Longrightarrow> at_most P p n) \<Longrightarrow> (\<not> b \<Longrightarrow> at_most P q n) \<Longrightarrow> at_most P (if b then p else q) n"
  by simp

lemma every_serve: "every P p \<Longrightarrow> list_all P (fst (serve p client w))"
proof (induction p arbitrary: w)
  case (Ask q k)
  obtain a w1 where c: "client w q = (a, w1)" by fastforce
  obtain qs r w2 where s: "serve (k a) client w1 = (qs, r, w2)" by (metis prod_cases3)
  have "every P (k a)" using Ask.prems by simp
  then have "list_all P (fst (serve (k a) client w1))" using Ask.IH [OF rangeI] by blast
  then show ?case using Ask.prems by (simp add: c s)
qed simp

lemma at_most_serve: "at_most P p n \<Longrightarrow> length (filter P (fst (serve p client w))) \<le> n"
proof (induction p arbitrary: w n)
  case (Ask q k)
  obtain a w1 where c: "client w q = (a, w1)" by fastforce
  obtain qs r w2 where s: "serve (k a) client w1 = (qs, r, w2)" by (metis prod_cases3)
  have "length (filter P (fst (serve (k a) client w1))) \<le> (if P q then n - 1 else n)"
    using Ask.prems by (intro Ask.IH [OF rangeI]) (auto split: if_splits)
  then show ?case using Ask.prems by (auto simp: c s split: if_splits)
qed simp

lemma serve_andthen:
  "serve (andthen p f) client w =
     (let (qs, r, w1) = serve p client w
      in case r of Inl e \<Rightarrow> (qs, Inl e, w1)
         | Inr x \<Rightarrow> (let (qs2, r2, w2) = serve (f x) client w1 in (qs @ qs2, r2, w2)))"
  by (induction p arbitrary: w) (auto simp: Let_def split_beta split: sum.splits)

lemma serve_except:
  "serve (except p h) client w =
     (let (qs, r, w1) = serve p client w
      in case r of Inr x \<Rightarrow> (qs, Inr x, w1)
         | Inl e \<Rightarrow> if caught_by_exception e
                   then (let (qs2, r2, w2) = serve (h e) client w1 in (qs @ qs2, r2, w2))
                   else (qs, Inl e, w1))"
  by (induction p arbitrary: w) (auto simp: Let_def split_beta split: sum.splits)

lemma serve_await [simp]: "serve (await q) client w = ([q], fst (client w q), snd (client w q))"
  by (simp add: await_def split_beta Let_def)

section \<open>The context and the libraries\<close>

record handler_lib =
  hl_k8s :: bool
  hl_pool :: "bool option"
  hl_valkey :: bool
  hl_observe :: "bool option"
  hl_openobserve :: pyval
  hl_now :: "nat \<Rightarrow> rat"
  hl_now_iso :: string
  hl_iso :: "string \<Rightarrow> (bool \<times> rat) option"
  hl_epoch_min :: rat
  hl_repr :: "pyval \<Rightarrow> string"
  hl_loads :: "string \<Rightarrow> pyval option"
  hl_show_exn :: "exn \<Rightarrow> string"
  hl_status :: "exn \<Rightarrow> pyval"
  hl_response_status :: "exn \<Rightarrow> pyval"
  hl_http_timeout :: "exn \<Rightarrow> bool"
  hl_http_error :: "exn \<Rightarrow> bool"

text \<open>Whether a client of the context is there: \<open>hl_pool\<close> and \<open>hl_observe\<close> also say whether it has
  the method the handler calls.\<close>

definition k8s_client :: "handler_lib \<Rightarrow> unit prog" where
  "k8s_client L =
     (if hl_k8s L then returns ()
      else raises (ToolExecutionError ''k8s._k8s_client''
             (PyError (RuntimeError ''SREContext.k8s_client is not initialised''))))"

definition connection :: "handler_lib \<Rightarrow> unit prog" where
  "connection L =
     (case hl_pool L of
        None \<Rightarrow> raises (ToolExecutionError ''postgres._connection''
                  (PyError (RuntimeError ''SREContext.pg_pool is not initialised'')))
      | Some False \<Rightarrow> raises (ToolExecutionError ''postgres._connection''
                  (PyError (TypeError ''SREContext.pg_pool does not implement connection()'')))
      | Some True \<Rightarrow> andthen (await Connect) (\<lambda>_. returns ()))"

definition valkey_client :: "handler_lib \<Rightarrow> unit prog" where
  "valkey_client L =
     (if hl_valkey L then returns ()
      else raises (ToolExecutionError ''valkey._valkey_client''
             (PyError (RuntimeError ''SREContext.valkey_client is not initialised''))))"

definition o11y_client :: "handler_lib \<Rightarrow> unit prog" where
  "o11y_client L =
     (case hl_observe L of
        None \<Rightarrow> raises (ToolExecutionError ''observability._o11y_client''
                  (PyError (RuntimeError ''SREContext.openobserve_client is not initialised'')))
      | Some _ \<Rightarrow> returns ())"

lemma every_k8s_client [simp]: "every P (k8s_client L)"
  by (simp add: k8s_client_def)

lemma every_connection [prog_intros]: "P Connect \<Longrightarrow> every P (connection L)"
  by (auto simp: connection_def intro!: prog_intros split: option.splits bool.splits)

lemma every_valkey_client [simp]: "every P (valkey_client L)"
  by (simp add: valkey_client_def)

lemma every_o11y_client [simp]: "every P (o11y_client L)"
  by (simp add: o11y_client_def split: option.splits)

section \<open>Reading answers\<close>

definition lift_py :: "py_error + 'a \<Rightarrow> exn + 'a" where
  "lift_py r = (case r of Inl e \<Rightarrow> Inl (PyError e) | Inr x \<Rightarrow> Inr x)"

text \<open>\<open>_map_get\<close>; a dictionary of the model has text keys only.\<close>

definition map_get :: "pyval \<Rightarrow> string \<Rightarrow> pyval \<Rightarrow> pyval" where
  "map_get v k d = (case v of PDict m \<Rightarrow> dget_or m k d | _ \<Rightarrow> d)"

text \<open>\<open>_to_int\<close> of \<^verbatim>\<open>tools/k8s.py\<close>: an infinite float raises an error the code does not
  catch.\<close>

definition to_int :: "pyval \<Rightarrow> int \<Rightarrow> exn + int" where
  "to_int v d =
     (case v of
        PNone \<Rightarrow> Inr d
      | _ \<Rightarrow> (case py_int v of
               Inr i \<Rightarrow> Inr i
             | Inl (OverflowError m) \<Rightarrow> Inl (PyError (OverflowError m))
             | Inl _ \<Rightarrow> Inr d))"

text \<open>\<open>_to_text\<close> of \<^verbatim>\<open>tools/k8s.py\<close> and \<open>_as_text\<close> of \<^verbatim>\<open>tools/valkey.py\<close>.\<close>

definition to_text :: "handler_lib \<Rightarrow> pyval \<Rightarrow> string \<Rightarrow> string" where
  "to_text L v d = (case v of PNone \<Rightarrow> d | PBytes s \<Rightarrow> s | _ \<Rightarrow> py_str (hl_repr L) v)"

definition is_not_found :: "handler_lib \<Rightarrow> exn \<Rightarrow> bool" where
  "is_not_found L e =
     (if py_eq (hl_status L e) (PInt 404) then True
      else if py_eq (hl_response_status L e) (PInt 404) then True
      else let message = str_lower (hl_show_exn L e)
           in str_contains message ''404'' \<or> str_contains message ''not found'')"

definition metrics_api_unavailable :: "handler_lib \<Rightarrow> exn \<Rightarrow> bool" where
  "metrics_api_unavailable L e =
     (if list_ex (\<lambda>c. py_eq (hl_status L e) (PInt c)) [404, 503, 504] then True
      else let message = str_lower (hl_show_exn L e)
           in str_contains message ''metrics.k8s.io'' \<and>
              (str_contains message ''not found'' \<or> str_contains message ''no resource''
               \<or> str_contains message ''unavailable'' \<or> str_contains message ''service unavailable''))"

text \<open>The items of an answer that is iterated over.\<close>

definition items_of :: "pyval \<Rightarrow> pyval list prog" where
  "items_of v = (case v of PList xs \<Rightarrow> returns xs
      | _ \<Rightarrow> raises (PyError (TypeError ''object is not iterable'')))"

lemma every_items_of [simp]: "every P (items_of v)"
  by (simp add: items_of_def split: pyval.splits)

definition mappings :: "pyval list \<Rightarrow> pyval list" where
  "mappings xs = filter is_mapping xs"

definition list_or_empty :: "pyval \<Rightarrow> pyval list" where
  "list_or_empty v = (case v of PList xs \<Rightarrow> xs | _ \<Rightarrow> [])"

text \<open>How a handler of the registry ends, once its clients have answered.\<close>

definition outcome_of :: "pyval prog \<Rightarrow> ('w \<Rightarrow> request \<Rightarrow> (exn + pyval) \<times> 'w) \<Rightarrow> 'w \<Rightarrow> outcome" where
  "outcome_of p client w = (case fst (snd (serve p client w)) of Inl e \<Rightarrow> Raised e | Inr v \<Rightarrow> Returned v)"

end
