(* ===== verification/Kubernetes.thy ===== *)
theory Kubernetes
  imports Handlers
begin

text \<open>
  The Kubernetes tools, \<^verbatim>\<open>tools/k8s.py\<close>: the readers of event timestamps and resource
  quantities, the five diagnostic handlers, and the restart, delete and scale handlers. A
  validated input is passed field by field; an output model is the dictionary of its fields.
  \<open>Decimal\<close> arithmetic is exact here (the code rounds to 28 digits), and time stamps are seconds.
\<close>

section \<open>Clients\<close>

definition collect_async :: "pyval \<Rightarrow> string \<Rightarrow> pyval list prog" where
  "collect_async it tool = wrapped tool (andthen (await (Iterate it)) items_of)"

definition get_pod :: "string \<Rightarrow> string \<Rightarrow> string \<Rightarrow> pyval prog" where
  "get_pod name namespace tool = wrapped tool (await (GetObject ''Pod'' namespace name))"

definition get_deployment :: "string \<Rightarrow> string \<Rightarrow> string \<Rightarrow> pyval prog" where
  "get_deployment name namespace tool = wrapped tool (await (GetObject ''Deployment'' namespace name))"

section \<open>Events\<close>

definition first_truthy :: "pyval \<Rightarrow> string list \<Rightarrow> pyval option" where
  "first_truthy v keys =
     (case filter truthy (map (\<lambda>k. map_get v k PNone) keys) of [] \<Rightarrow> None | w # _ \<Rightarrow> Some w)"

definition event_timestamp :: "handler_lib \<Rightarrow> pyval \<Rightarrow> string" where
  "event_timestamp L event =
     (case first_truthy event [''eventTime'', ''lastTimestamp'', ''firstTimestamp''] of
        Some v \<Rightarrow> to_text L v []
      | None \<Rightarrow>
        (case first_truthy (map_get event ''series'' (PDict [])) [''lastObservedTime''] of
           Some v \<Rightarrow> to_text L v []
         | None \<Rightarrow> []))"

text \<open>\<open>text.replace("Z", "+00:00")\<close>\<close>

definition z_to_offset :: "string \<Rightarrow> string" where
  "z_to_offset s = concat (map (\<lambda>c. if c = CHR ''Z'' then ''+00:00'' else [c]) s)"

definition event_sort_key :: "handler_lib \<Rightarrow> pyval \<Rightarrow> rat" where
  "event_sort_key L event =
     (let timestamp = event_timestamp L event
      in if timestamp = [] then hl_epoch_min L
         else case hl_iso L (z_to_offset timestamp) of
                Some (_, t) \<Rightarrow> t
              | None \<Rightarrow> hl_epoch_min L)"

text \<open>\<open>sort(key=..., reverse=True)\<close> is stable: equal keys keep their order.\<close>

definition sort_desc :: "('a \<Rightarrow> rat) \<Rightarrow> 'a list \<Rightarrow> 'a list" where
  "sort_desc key xs = rev (sort_key key (rev xs))"

lemma set_sort_desc [simp]: "set (sort_desc key xs) = set xs"
  by (simp add: sort_desc_def)

lemma length_sort_desc [simp]: "length (sort_desc key xs) = length xs"
  by (simp add: sort_desc_def)

lemma sort_desc_sorted: "sorted_wrt (\<lambda>x y. key y \<le> key x) (sort_desc key xs)"
proof -
  have "sorted_wrt (\<le>) (map key (sort_key key (rev xs)))" by simp
  then show ?thesis by (simp add: sort_desc_def sorted_wrt_rev sorted_wrt_map)
qed

section \<open>Resource quantities\<close>

text \<open>\<open>[+-]?(\d+(\.\d*)?|\.\d+)\<close> at the start of a text: the number and what follows.\<close>

definition quantity_mantissa :: "string \<Rightarrow> (rat \<times> string) option" where
  "quantity_mantissa s =
     (let (whole, rest) = span_of is_digit s
      in case rest of
           c # rest' \<Rightarrow>
             if c = CHR ''.'' then
               (let (frac, rest'') = span_of is_digit rest'
                in if whole = [] \<and> frac = [] then None
                   else Some (of_nat (nat_of_digits whole)
                               + of_nat (nat_of_digits frac) / 10 ^ length frac, rest''))
             else if whole = [] then None else Some (of_nat (nat_of_digits whole), rest)
         | [] \<Rightarrow> if whole = [] then None else Some (of_nat (nat_of_digits whole), rest))"

text \<open>\<open>([eE][+-]?\d+)?\<close>: the exponent, when there is one, and what follows.\<close>

definition quantity_exponent :: "string \<Rightarrow> (int \<times> string) option" where
  "quantity_exponent s =
     (case s of
        c # s' \<Rightarrow>
          if c = CHR ''e'' \<or> c = CHR ''E'' then
            (let (neg, body) = split_sign s'; (ds, rest) = span_of is_digit body
             in if ds = [] then None
                else Some (if neg then - int (nat_of_digits ds) else int (nat_of_digits ds), rest))
          else None
      | [] \<Rightarrow> None)"

definition is_letter :: "char \<Rightarrow> bool" where
  "is_letter c = (let n = (of_char c :: nat) in (65 \<le> n \<and> n \<le> 90) \<or> (97 \<le> n \<and> n \<le> 122))"

definition quantity_suffix :: "string \<Rightarrow> bool" where
  "quantity_suffix s = (length s \<le> 2 \<and> list_all is_letter s)"

text \<open>\<open>_parse_quantity\<close>. The match tries an exponent first and falls back to reading its letter as
  part of the suffix.\<close>

definition parse_quantity :: "handler_lib \<Rightarrow> pyval \<Rightarrow> (rat \<times> string) option" where
  "parse_quantity L value =
     (let text = str_strip (to_text L value []);
          (neg, body) = split_sign text
      in case quantity_mantissa body of
           None \<Rightarrow> None
         | Some (m, rest) \<Rightarrow>
             (let m' = (if neg then - m else m)
              in case quantity_exponent rest of
                   Some (e, rest') \<Rightarrow>
                     if quantity_suffix rest' then Some (scale10 m' e, rest')
                     else if quantity_suffix rest then Some (m', rest) else None
                 | None \<Rightarrow> if quantity_suffix rest then Some (m', rest) else None))"

text \<open>\<open>ROUND_HALF_UP\<close>: to the nearest integer, ties away from zero.\<close>

definition decimal_to_int :: "rat \<Rightarrow> int" where
  "decimal_to_int q = (if 0 \<le> q then \<lfloor>q + 1 / 2\<rfloor> else - \<lfloor>- q + 1 / 2\<rfloor>)"

definition cpu_factors :: "(string, rat) dict" where
  "cpu_factors = [([], 1000), (''m'', 1), (''u'', 1 / 1000), (''n'', 1 / 1000000), (''k'', 1000000)]"

definition parse_cpu :: "handler_lib \<Rightarrow> pyval \<Rightarrow> int" where
  "parse_cpu L value =
     (case parse_quantity L value of
        None \<Rightarrow> 0
      | Some (number, unit_name) \<Rightarrow>
          (case dget cpu_factors unit_name of
             None \<Rightarrow> 0
           | Some factor \<Rightarrow> max 0 (decimal_to_int (number * factor))))"

definition bytes_per_unit :: "(string, rat) dict" where
  "bytes_per_unit =
     [(''Ki'', 1024), (''Mi'', 1024 ^ 2), (''Gi'', 1024 ^ 3), (''Ti'', 1024 ^ 4), (''Pi'', 1024 ^ 5),
      (''Ei'', 1024 ^ 6), (''K'', 1000), (''k'', 1000), (''M'', 1000 ^ 2), (''G'', 1000 ^ 3),
      (''T'', 1000 ^ 4), (''P'', 1000 ^ 5), (''E'', 1000 ^ 6), ([], 1)]"

definition parse_memory_mb :: "handler_lib \<Rightarrow> pyval \<Rightarrow> int" where
  "parse_memory_mb L value =
     (case parse_quantity L value of
        None \<Rightarrow> 0
      | Some (number, unit_name) \<Rightarrow>
          (case dget bytes_per_unit unit_name of
             None \<Rightarrow> 0
           | Some factor \<Rightarrow> max 0 (decimal_to_int (number * factor / 1024 ^ 2))))"

section \<open>Diagnostic handlers\<close>

definition or_none :: "string \<Rightarrow> string option" where
  "or_none s = (if s = [] then None else Some s)"

definition restart_counts :: "pyval \<Rightarrow> exn + int" where
  "restart_counts status_raw =
     bind_res (map_res (\<lambda>cs. to_int (map_get cs ''restartCount'' (PInt 0)) 0)
                 (mappings (list_or_empty (map_get status_raw ''containerStatuses'' (PList [])))))
       (\<lambda>ns. Inr (sum_list ns))"

definition pod_age :: "handler_lib \<Rightarrow> nat \<Rightarrow> string \<Rightarrow> rat" where
  "pod_age L i creation =
     (if creation = [] then 0
      else case hl_iso L (z_to_offset creation) of
             Some (True, created) \<Rightarrow> max 0 (hl_now L i - created)
           | _ \<Rightarrow> 0)"

definition pod_info :: "handler_lib \<Rightarrow> string \<Rightarrow> nat \<times> pyval \<Rightarrow> exn + pyval" where
  "pod_info L namespace ir =
     (let (i, raw) = ir;
          metadata = map_get raw ''metadata'' (PDict []);
          status_raw = map_get raw ''status'' (PDict []);
          spec = map_get raw ''spec'' (PDict []);
          creation = to_text L (map_get metadata ''creationTimestamp'' (PStr [])) [];
          node_raw = map_get spec ''nodeName'' PNone;
          raw_phase = to_text L (map_get status_raw ''phase'' (PStr ''Unknown'')) ''Unknown'';
          display_status = (if map_get metadata ''deletionTimestamp'' PNone \<noteq> PNone then ''Terminating''
                            else raw_phase)
      in bind_res (restart_counts status_raw) (\<lambda>restarts.
           Inr (PDict
             [(''name'', PStr (to_text L (map_get metadata ''name'' (PStr [])) [])),
              (''namespace'', PStr (to_text L (map_get metadata ''namespace'' (PStr namespace)) namespace)),
              (''status'', PStr display_status),
              (''restarts'', PInt restarts),
              (''age_seconds'', PFloat (Fin (py_round (pod_age L i creation) 2))),
              (''node'', if node_raw = PNone then PNone else PStr (to_text L node_raw []))])))"

definition list_pods :: "handler_lib \<Rightarrow> string \<Rightarrow> string \<Rightarrow> pyval prog" where
  "list_pods L namespace label_selector =
     andthen (k8s_client L) (\<lambda>_.
     andthen (wrapped ''list_pods'' (await (ListObjects ''pods'' namespace (or_none label_selector) None))) (\<lambda>it.
     andthen (collect_async it ''list_pods'') (\<lambda>pods_raw.
     Finish (bind_res (map_res (pod_info L namespace) (filter (is_mapping \<circ> snd) (enumerate 0 pods_raw)))
       (\<lambda>pods. Inr (PDict [(''pods'', PList pods), (''total'', PInt (int (length pods)))]))))))"

definition event_info :: "handler_lib \<Rightarrow> pyval \<Rightarrow> exn + pyval" where
  "event_info L event =
     bind_res (to_int (map_get event ''count'' (PInt 1)) 1) (\<lambda>count.
       Inr (PDict
         [(''type'', PStr (to_text L (map_get event ''type'' (PStr ''Normal'')) ''Normal'')),
          (''reason'', PStr (to_text L (map_get event ''reason'' (PStr [])) [])),
          (''message'', PStr (to_text L (map_get event ''message'' (PStr [])) [])),
          (''count'', PInt count),
          (''last_timestamp'', PStr (event_timestamp L event))]))"

definition get_pod_events :: "handler_lib \<Rightarrow> string \<Rightarrow> string \<Rightarrow> int \<Rightarrow> pyval prog" where
  "get_pod_events L namespace pod_name limit =
     andthen (k8s_client L) (\<lambda>_.
     andthen (wrapped ''get_pod_events''
               (await (ListObjects ''events'' namespace None (Some (''involvedObject.name='' @ pod_name))))) (\<lambda>it.
     andthen (collect_async it ''get_pod_events'') (\<lambda>events_raw.
     let candidates = sort_desc (event_sort_key L) (mappings events_raw)
     in Finish (bind_res (map_res (event_info L) (take (nat limit) candidates))
          (\<lambda>events. Inr (PDict [(''events'', PList events), (''total'', PInt (int (length events)))]))))))"

definition max_log_chars :: nat where
  "max_log_chars = 20000"

definition strip_newlines :: "string \<Rightarrow> string" where
  "strip_newlines s = rev (dropWhile (\<lambda>c. c = CHR 0x0A) (rev s))"

definition get_pod_logs ::
  "handler_lib \<Rightarrow> string \<Rightarrow> string \<Rightarrow> string option \<Rightarrow> int \<Rightarrow> bool \<Rightarrow> pyval prog" where
  "get_pod_logs L namespace pod_name container tail_lines previous =
     andthen (k8s_client L) (\<lambda>_.
     andthen (get_pod pod_name namespace ''get_pod_logs'') (\<lambda>_.
     andthen (wrapped ''get_pod_logs''
        (andthen (await (ReadLogs namespace pod_name container tail_lines previous)) items_of)) (\<lambda>chunks.
     let log_text = str_join [CHR 0x0A] (map (\<lambda>c. strip_newlines (to_text L c [])) chunks)
     in returns (PDict [(''logs'', PStr (take max_log_chars log_text)),
                        (''truncated'', PBool (max_log_chars < length log_text))]))))"

text \<open>A \<open>str\<close> field of an output model, validated leniently: bytes are decoded.\<close>

definition str_field :: "pyval \<Rightarrow> exn + pyval" where
  "str_field v = (case v of PStr s \<Rightarrow> Inr (PStr s) | PBytes s \<Rightarrow> Inr (PStr s)
      | _ \<Rightarrow> Inl (ValidationError ''Input should be a valid string''))"

definition object_attr :: "pyval \<Rightarrow> string \<Rightarrow> pyval" where
  "object_attr v k = (case get_attr v k of Some w \<Rightarrow> w | None \<Rightarrow> PNone)"

text \<open>\<open>to_dict()\<close> of a fetched object is its attribute \<open>raw\<close>.\<close>

definition condition_info :: "handler_lib \<Rightarrow> pyval \<Rightarrow> pyval" where
  "condition_info L c =
     PDict (map (\<lambda>k. (k, PStr (to_text L (map_get c k (PStr [])) []))) [''type'', ''status'', ''reason'', ''message''])"

definition get_deployment_status :: "handler_lib \<Rightarrow> string \<Rightarrow> string \<Rightarrow> pyval prog" where
  "get_deployment_status L namespace name =
     andthen (k8s_client L) (\<lambda>_.
     andthen (get_deployment name namespace ''get_deployment_status'') (\<lambda>dep.
     let raw = object_attr dep ''raw'';
         status = map_get raw ''status'' PNone;
         conditions = map (condition_info L) (mappings (list_or_empty (map_get status ''conditions'' (PList []))))
     in Finish
       (bind_res (to_int (map_get status ''replicas'' (PInt 0)) 0) (\<lambda>replicas.
        bind_res (to_int (map_get status ''readyReplicas'' (PInt 0)) 0) (\<lambda>ready.
        bind_res (to_int (map_get status ''updatedReplicas'' (PInt 0)) 0) (\<lambda>updated.
        bind_res (to_int (map_get status ''availableReplicas'' (PInt 0)) 0) (\<lambda>available.
        bind_res (str_field (object_attr dep ''name'')) (\<lambda>nm.
        bind_res (str_field (object_attr dep ''namespace'')) (\<lambda>ns.
        Inr (PDict [(''name'', nm), (''namespace'', ns), (''replicas'', PInt replicas),
           (''ready_replicas'', PInt ready), (''updated_replicas'', PInt updated),
           (''available_replicas'', PInt available), (''conditions'', PList conditions)]))))))))))"

text \<open>The sums over the containers of a pod: \<open>field\<close> is where a container keeps its quantities.\<close>

definition quantity_sum :: "handler_lib \<Rightarrow> (pyval \<Rightarrow> pyval) \<Rightarrow> pyval list \<Rightarrow> int \<times> int" where
  "quantity_sum L field containers =
     (let qs = filter is_mapping (map field (mappings containers))
      in (sum_list (map (\<lambda>q. parse_cpu L (map_get q ''cpu'' (PStr ''0''))) qs),
          sum_list (map (\<lambda>q. parse_memory_mb L (map_get q ''memory'' (PStr ''0''))) qs)))"

definition pod_request :: "handler_lib \<Rightarrow> pyval \<Rightarrow> (string \<times> int \<times> int) option" where
  "pod_request L raw_pod =
     (let metadata = map_get raw_pod ''metadata'' (PDict []);
          spec = map_get raw_pod ''spec'' (PDict []);
          containers = map_get spec ''containers'' (PList []);
          pod_name = to_text L (map_get metadata ''name'' (PStr [])) []
      in case containers of
           PList cs \<Rightarrow>
             if pod_name = [] then None
             else Some (pod_name, quantity_sum L (\<lambda>c. map_get (map_get c ''resources'' (PDict [])) ''requests'' (PDict [])) cs)
         | _ \<Rightarrow> None)"

definition requests_by_pod :: "handler_lib \<Rightarrow> pyval list \<Rightarrow> (string, int \<times> int) dict" where
  "requests_by_pod L pods_raw =
     fold (\<lambda>(k, v) d. dset k v d) (List.map_filter (pod_request L) (mappings pods_raw)) []"

definition pod_metric :: "handler_lib \<Rightarrow> (string, int \<times> int) dict \<Rightarrow> pyval \<Rightarrow> pyval" where
  "pod_metric L requested metric =
     (let metadata = map_get metric ''metadata'' (PDict []);
          containers = list_or_empty (map_get metric ''containers'' (PList []));
          (total_cpu, total_memory) = quantity_sum L (\<lambda>c. map_get c ''usage'' (PDict [])) containers;
          pod_name = to_text L (map_get metadata ''name'' (PStr [])) [];
          (cpu_request, memory_request) = dget_or requested pod_name (0, 0)
      in PDict [(''name'', PStr pod_name), (''cpu_millicores'', PInt total_cpu),
                (''memory_mb'', PInt total_memory), (''cpu_request_millicores'', PInt cpu_request),
                (''memory_request_mb'', PInt memory_request)])"

definition metrics_output :: "pyval list \<Rightarrow> pyval \<Rightarrow> pyval" where
  "metrics_output metrics reason =
     PDict [(''metrics'', PList metrics), (''total'', PInt (int (length metrics))), (''reason'', reason)]"

definition get_pod_metrics :: "handler_lib \<Rightarrow> string \<Rightarrow> string \<Rightarrow> pyval prog" where
  "get_pod_metrics L namespace label_selector =
     andthen (k8s_client L) (\<lambda>_.
     andthen (wrapped ''get_pod_metrics''
        (andthen (await (ListObjects ''pods'' namespace (or_none label_selector) None))
           (\<lambda>it. collect_async it ''get_pod_metrics''))) (\<lambda>pods_raw.
     andthen (except
        (andthen (await (ListObjects ''pods.metrics.k8s.io'' namespace (or_none label_selector) None)) (\<lambda>it.
         andthen (await (Iterate it)) (\<lambda>v. andthen (items_of v) (\<lambda>xs. returns (Some xs)))))
        (\<lambda>e. if metrics_api_unavailable L e then returns None
             else raises (ToolExecutionError ''get_pod_metrics'' e))) (\<lambda>found.
     case found of
       None \<Rightarrow> returns (metrics_output [] (PStr ''metrics_api_unavailable''))
     | Some metrics_raw \<Rightarrow>
         returns (metrics_output
           (map (pod_metric L (requests_by_pod L pods_raw)) (mappings metrics_raw)) PNone))))"

section \<open>Remediation handlers\<close>

definition restart_patch :: "string \<Rightarrow> pydict" where
  "restart_patch now =
     [(''spec'', PDict [(''template'', PDict [(''metadata'', PDict [(''annotations'',
        PDict [(''kubectl.kubernetes.io/restartedAt'', PStr now)])])])])]"

definition restart_deployment :: "handler_lib \<Rightarrow> string \<Rightarrow> string \<Rightarrow> string \<Rightarrow> pyval prog" where
  "restart_deployment L namespace name reason =
     andthen (k8s_client L) (\<lambda>_.
     andthen (get_deployment name namespace ''restart_deployment'') (\<lambda>_.
     wrapped ''restart_deployment''
       (andthen (await (PatchObject ''Deployment'' namespace name (restart_patch (hl_now_iso L)))) (\<lambda>_.
        returns (PDict [(''name'', PStr name), (''namespace'', PStr namespace), (''restarted'', PBool True),
          (''reason'', PStr reason), (''success'', PBool True), (''verification_passed'', PNone)])))))"

definition delete_output :: "string \<Rightarrow> string \<Rightarrow> string \<Rightarrow> pyval \<Rightarrow> pyval" where
  "delete_output namespace name reason verified =
     PDict [(''name'', PStr name), (''namespace'', PStr namespace), (''deleted'', PBool True),
            (''reason'', PStr reason), (''success'', PBool True), (''verification_passed'', verified)]"

text \<open>Whether there is a pod to delete: a lookup that ends in "not found" is no failure.\<close>

definition pod_to_delete :: "handler_lib \<Rightarrow> string \<Rightarrow> string \<Rightarrow> bool prog" where
  "pod_to_delete L namespace name =
     except (andthen (get_pod name namespace ''delete_pod'') (\<lambda>_. returns True))
       (\<lambda>e. case e of
              ToolExecutionError t original \<Rightarrow> if is_not_found L original then returns False else raises e
            | _ \<Rightarrow> raises e)"

definition delete_pod :: "handler_lib \<Rightarrow> string \<Rightarrow> string \<Rightarrow> int \<Rightarrow> string \<Rightarrow> pyval prog" where
  "delete_pod L namespace name grace_period_seconds reason =
     andthen (k8s_client L) (\<lambda>_.
     andthen (pod_to_delete L namespace name) (\<lambda>found.
     if \<not> found then returns (delete_output namespace name reason (PBool True))
     else except
       (andthen (await (DeleteObject ''Pod'' namespace name
                         (if grace_period_seconds = 0 then Some 0 else None))) (\<lambda>_.
        returns (delete_output namespace name reason PNone)))
       (\<lambda>e. if is_not_found L e then returns (delete_output namespace name reason (PBool True))
            else raises (ToolExecutionError ''delete_pod'' e))))"

definition scale_output :: "string \<Rightarrow> string \<Rightarrow> int \<Rightarrow> int \<Rightarrow> bool \<Rightarrow> string \<Rightarrow> pyval \<Rightarrow> pyval" where
  "scale_output namespace name previous replicas scaled reason verified =
     PDict [(''name'', PStr name), (''namespace'', PStr namespace), (''previous_replicas'', PInt previous),
            (''new_replicas'', PInt replicas), (''scaled'', PBool scaled), (''reason'', PStr reason),
            (''success'', PBool True), (''verification_passed'', verified)]"

definition scale_deployment :: "handler_lib \<Rightarrow> string \<Rightarrow> string \<Rightarrow> int \<Rightarrow> string \<Rightarrow> pyval prog" where
  "scale_deployment L namespace name replicas reason =
     andthen (k8s_client L) (\<lambda>_.
     andthen (get_deployment name namespace ''scale_deployment'') (\<lambda>dep.
     andthen (Finish (to_int (map_get (map_get (object_attr dep ''raw'') ''spec'' (PDict [])) ''replicas'' (PInt 0)) 0))
       (\<lambda>previous.
     if previous = replicas
     then returns (scale_output namespace name previous replicas False reason (PBool True))
     else wrapped ''scale_deployment''
       (andthen (await (PatchObject ''Deployment'' namespace name
                          [(''spec'', PDict [(''replicas'', PInt replicas)])])) (\<lambda>_.
        returns (scale_output namespace name previous replicas True reason PNone))))))"

section \<open>Reading back a printed quantity\<close>

lemma letter_facts: "is_letter c \<Longrightarrow> \<not> is_space c \<and> \<not> is_digit c \<and> c \<noteq> CHR ''-'' \<and> c \<noteq> CHR ''+'' \<and> c \<noteq> CHR ''.''"
  by (auto simp: is_letter_def is_digit_def is_space_def Let_def)

lemma letters_no_exponent: "list_all is_letter u \<Longrightarrow> quantity_exponent u = None"
proof (cases u)
  case (Cons c us)
  assume "list_all is_letter u"
  then have "list_all is_letter us" using Cons by simp
  then have "split_sign us = (False, us) \<and> takeWhile is_digit us = []"
    by (cases us) (auto dest: letter_facts)
  then show ?thesis using Cons by (simp add: quantity_exponent_def span_of_def)
qed (simp add: quantity_exponent_def)

text \<open>A decimal number followed by a suffix of letters is read as the number and the suffix.\<close>

lemma parse_quantity_show:
  assumes "quantity_suffix u"
  shows "parse_quantity L (PStr (show_nat n @ u)) = Some (of_nat n, u)"
proof -
  have letters: "list_all is_letter u" using assms by (simp add: quantity_suffix_def)
  have "list_all (\<lambda>c. \<not> is_space c) (show_nat n @ u)"
    using show_nat_digits [of n] letters by (auto simp: list_all_iff dest: digit_facts letter_facts)
  then have strip: "str_strip (show_nat n @ u) = show_nat n @ u" by (rule no_space_strip)
  have sign: "split_sign (show_nat n @ u) = (False, show_nat n @ u)"
    using show_nat_digits [of n] show_nat_not_Nil [of n]
    by (cases "show_nat n") (auto dest: digit_facts)
  have parts: "takeWhile is_digit (show_nat n @ u) = show_nat n" "dropWhile is_digit (show_nat n @ u) = u"
    using show_nat_digits [of n] letters
    by (cases u; auto simp: list_all_iff takeWhile_append2 dropWhile_append2 dest: letter_facts)+
  have "quantity_mantissa (show_nat n @ u) = Some (of_nat n, u)"
    unfolding quantity_mantissa_def span_of_def parts Let_def
    using letters by (cases u) (auto dest: letter_facts)
  then show ?thesis
    using assms by (simp add: parse_quantity_def to_text_def strip sign letters_no_exponent [OF letters] Let_def)
qed

lemma decimal_to_int_of_int [simp]: "decimal_to_int (of_int k) = k"
proof -
  have "\<lfloor>(of_int j :: rat) + 1 / 2\<rfloor> = j" for j
    by (rule floor_unique) auto
  from this [of k] this [of "- k"] show ?thesis by (simp add: decimal_to_int_def)
qed

lemma decimal_to_int_div: "0 < d \<Longrightarrow> decimal_to_int (of_nat n / of_nat d) = int ((2 * n + d) div (2 * d))"
proof -
  assume d: "0 < d"
  have "(of_nat n / of_nat d + 1 / 2 :: rat) = of_int (int (2 * n + d)) / of_int (int (2 * d))"
    using d by (simp add: field_simps)
  then have "\<lfloor>of_nat n / of_nat d + 1 / 2 :: rat\<rfloor> = int (2 * n + d) div int (2 * d)"
    by (simp only: floor_divide_of_int_eq)
  then show ?thesis by (simp add: decimal_to_int_def zdiv_int)
qed

lemma parse_cpu_nonneg: "0 \<le> parse_cpu L v"
  by (simp add: parse_cpu_def split: option.splits)

lemma parse_memory_nonneg: "0 \<le> parse_memory_mb L v"
  by (simp add: parse_memory_mb_def split: option.splits)

text \<open>Reading a quantity as Kubernetes prints it. Whole millicores come back as they are and
  whole cores times 1000; mebibytes come back as they are, gibibytes times 1024, kibibytes
  rounded half up to mebibytes; and whatever is printed, no reading is negative.\<close>

lemma quantity_roundtrip:
  "parse_cpu L (PStr (show_nat n @ ''m'')) = int n \<and>
   parse_cpu L (PStr (show_nat n)) = 1000 * int n \<and>
   parse_memory_mb L (PStr (show_nat n @ ''Mi'')) = int n \<and>
   parse_memory_mb L (PStr (show_nat n @ ''Gi'')) = 1024 * int n \<and>
   parse_memory_mb L (PStr (show_nat n @ ''Ki'')) = int ((n + 512) div 1024) \<and>
   0 \<le> parse_cpu L v \<and> 0 \<le> parse_memory_mb L v"
proof -
  have suffixes: "quantity_suffix ''m''" "quantity_suffix []" "quantity_suffix ''Mi''"
      "quantity_suffix ''Gi''" "quantity_suffix ''Ki''"
    by code_simp+
  note read = parse_quantity_show [OF suffixes(1)] parse_quantity_show [OF suffixes(2), unfolded append_Nil2]
    parse_quantity_show [OF suffixes(3)] parse_quantity_show [OF suffixes(4)] parse_quantity_show [OF suffixes(5)]
  have whole: "decimal_to_int (of_nat m) = int m" for m :: nat
    using decimal_to_int_of_int [of "int m"] by simp
  have "parse_cpu L (PStr (show_nat n @ ''m'')) = int n"
    by (simp add: parse_cpu_def read cpu_factors_def whole)
  moreover have "parse_cpu L (PStr (show_nat n)) = 1000 * int n"
    using whole [of "n * 1000"] by (simp add: parse_cpu_def read cpu_factors_def)
  moreover have "parse_memory_mb L (PStr (show_nat n @ ''Mi'')) = int n"
    by (simp add: parse_memory_mb_def read bytes_per_unit_def whole)
  moreover have "parse_memory_mb L (PStr (show_nat n @ ''Gi'')) = 1024 * int n"
    using whole [of "1024 * n"] by (simp add: parse_memory_mb_def read bytes_per_unit_def)
  moreover have "parse_memory_mb L (PStr (show_nat n @ ''Ki'')) = int ((n + 512) div 1024)"
  proof -
    have half: "(2 * n + 1024) div (2 * 1024) = (n + 512) div 1024"
      using div_mult_mult1 [of "2 :: nat" "n + 512" 1024] by simp
    have "(of_nat n * 1024 / 1024 ^ 2 :: rat) = of_nat n / of_nat 1024" by simp
    then have "decimal_to_int (of_nat n * 1024 / 1024 ^ 2) = int ((n + 512) div 1024)"
      using decimal_to_int_div [of 1024 n] half by (simp only: half)
    moreover have "parse_memory_mb L (PStr (show_nat n @ ''Ki'')) = max 0 (decimal_to_int (of_nat n * 1024 / 1024 ^ 2))"
      unfolding parse_memory_mb_def read bytes_per_unit_def dget_Cons by (simp only: option.case prod.case if_True refl)
    ultimately show ?thesis by (simp only: max_def) simp
  qed
  ultimately show ?thesis using parse_cpu_nonneg parse_memory_nonneg by blast
qed

section \<open>What the handlers ask\<close>

lemma every_collect: "P (Iterate it) \<Longrightarrow> every P (collect_async it tool)"
  by (auto simp: collect_async_def intro!: prog_intros)

lemma every_get_pod: "P (GetObject ''Pod'' ns n) \<Longrightarrow> every P (get_pod n ns tool)"
  by (auto simp: get_pod_def intro!: prog_intros)

lemma every_get_deployment: "P (GetObject ''Deployment'' ns n) \<Longrightarrow> every P (get_deployment n ns tool)"
  by (auto simp: get_deployment_def intro!: prog_intros)

lemmas k8s_asks = every_collect every_get_pod every_get_deployment

lemma list_pods_reads: "every (\<lambda>q. \<not> mutating q) (list_pods L ns sel)"
  unfolding list_pods_def by (intro prog_intros k8s_asks) auto

lemma get_pod_events_reads: "every (\<lambda>q. \<not> mutating q) (get_pod_events L ns pod n)"
  unfolding get_pod_events_def Let_def by (intro prog_intros k8s_asks) auto

lemma get_pod_logs_reads: "every (\<lambda>q. \<not> mutating q) (get_pod_logs L ns pod c k b)"
  unfolding get_pod_logs_def Let_def by (intro prog_intros k8s_asks) auto

lemma get_deployment_status_reads: "every (\<lambda>q. \<not> mutating q) (get_deployment_status L ns n)"
  unfolding get_deployment_status_def Let_def by (intro prog_intros k8s_asks) auto

lemma get_pod_metrics_reads: "every (\<lambda>q. \<not> mutating q) (get_pod_metrics L ns sel)"
  unfolding get_pod_metrics_def by (intro prog_intros k8s_asks) auto

lemma pod_to_delete_asks: "P (GetObject ''Pod'' ns n) \<Longrightarrow> every P (pod_to_delete L ns n)"
  unfolding pod_to_delete_def by (intro prog_intros k8s_asks) (auto split: exn.splits)

lemma restart_deployment_asks:
  "every (\<lambda>q. mutating q \<longrightarrow> q = PatchObject ''Deployment'' ns n (restart_patch (hl_now_iso L)))
     (restart_deployment L ns n why)"
  unfolding restart_deployment_def by (intro prog_intros k8s_asks) auto

lemma delete_pod_asks:
  "every (\<lambda>q. mutating q \<longrightarrow> q = DeleteObject ''Pod'' ns n (if grace = 0 then Some 0 else None))
     (delete_pod L ns n grace why)"
  unfolding delete_pod_def by (intro prog_intros k8s_asks pod_to_delete_asks) auto

lemma scale_deployment_asks:
  "every (\<lambda>q. mutating q \<longrightarrow> q = PatchObject ''Deployment'' ns n [(''spec'', PDict [(''replicas'', PInt k)])])
     (scale_deployment L ns n k why)"
  unfolding scale_deployment_def Let_def by (intro prog_intros k8s_asks) auto

lemma restart_deployment_once: "at_most mutating (restart_deployment L ns n why) 1"
  unfolding restart_deployment_def by (intro once_intros k8s_asks) auto

lemma delete_pod_once: "at_most mutating (delete_pod L ns n grace why) 1"
  unfolding delete_pod_def by (intro once_intros k8s_asks pod_to_delete_asks) auto

lemma scale_deployment_once: "at_most mutating (scale_deployment L ns n k why) 1"
  unfolding scale_deployment_def Let_def by (intro once_intros k8s_asks) auto

end
