(* ===== verification/Databases.thy ===== *)
theory Databases
  imports Handlers
begin

text \<open>
  The PostgreSQL and Valkey tools, \<^verbatim>\<open>tools/postgres.py\<close> and \<^verbatim>\<open>tools/valkey.py\<close>. A
  SQL statement is a constructor of \<open>sql\<close> with its parameters (the text runs on the server);
  executing it and fetching its rows is one request, whose answer is the list of rows for
  \<open>fetchall\<close> and one row or \<open>None\<close> for \<open>fetchone\<close>. \<open>asyncio.gather\<close> starts its four calls
  in order and raises the first failure in that order.
\<close>

section \<open>Rows\<close>

definition row_at :: "pyval \<Rightarrow> nat \<Rightarrow> exn + pyval" where
  "row_at v i =
     (case v of
        PList xs \<Rightarrow> if i < length xs then Inr (xs ! i) else Inl (PyError (OtherError ''tuple index out of range''))
      | _ \<Rightarrow> Inl (PyError (TypeError ''object is not subscriptable'')))"

definition int_at :: "pyval \<Rightarrow> nat \<Rightarrow> exn + int" where
  "int_at r i = bind_res (row_at r i) (\<lambda>v. lift_py (py_int v))"

text \<open>\<open>str(row[i] or d)\<close> and \<open>float(row[i] or 0.0)\<close>\<close>

definition text_at :: "handler_lib \<Rightarrow> pyval \<Rightarrow> nat \<Rightarrow> string \<Rightarrow> exn + string" where
  "text_at L r i d = bind_res (row_at r i) (\<lambda>v. Inr (py_str (hl_repr L) (py_or v (PStr d))))"

definition float_at :: "pyval \<Rightarrow> nat \<Rightarrow> exn + pyfloat" where
  "float_at r i = bind_res (row_at r i) (\<lambda>v. lift_py (py_float (py_or v (PFloat (Fin 0)))))"

text \<open>A field declared \<open>str | None\<close>\<close>

definition opt_str :: "pyval \<Rightarrow> exn + pyval" where
  "opt_str v = (case v of PNone \<Rightarrow> Inr PNone | PStr s \<Rightarrow> Inr (PStr s) | PBytes s \<Rightarrow> Inr (PStr s)
      | _ \<Rightarrow> Inl (ValidationError ''Input should be a valid string''))"

definition fetch_all :: "sql \<Rightarrow> pyval list prog" where
  "fetch_all q = andthen (await (Sql q)) items_of"

definition fetch_one :: "sql \<Rightarrow> pyval prog" where
  "fetch_one q = await (Sql q)"

lemma every_fetch_all [prog_intros]: "P (Sql q) \<Longrightarrow> every P (fetch_all q)"
  unfolding fetch_all_def by (intro prog_intros) auto

lemma every_fetch_one [simp]: "every P (fetch_one q) \<longleftrightarrow> P (Sql q)"
  by (simp add: fetch_one_def)

section \<open>PostgreSQL diagnostics\<close>

definition active_query :: "handler_lib \<Rightarrow> pyval \<Rightarrow> exn + pyval" where
  "active_query L row =
     bind_res (int_at row 0) (\<lambda>pid.
     bind_res (row_at row 1) (\<lambda>usename.
     bind_res (row_at row 2) (\<lambda>datname.
     bind_res (text_at L row 3 ''unknown'') (\<lambda>state.
     bind_res (row_at row 4) (\<lambda>wait_type.
     bind_res (row_at row 5) (\<lambda>wait_event.
     bind_res (float_at row 6) (\<lambda>duration.
     bind_res (text_at L row 7 []) (\<lambda>query.
     bind_res (map_res opt_str [usename, datname, wait_type, wait_event]) (\<lambda>vs.
     Inr (PDict [(''pid'', PInt pid), (''usename'', vs ! 0), (''datname'', vs ! 1), (''state'', PStr state),
       (''wait_event_type'', vs ! 2), (''wait_event'', vs ! 3),
       (''query_duration_seconds'', PFloat duration), (''query'', PStr query)]))))))))))"

definition get_active_queries :: "handler_lib \<Rightarrow> int \<Rightarrow> int \<Rightarrow> bool \<Rightarrow> pyval prog" where
  "get_active_queries L min_duration limit exclude_idle =
     andthen (connection L) (\<lambda>_.
     andthen (fetch_all (ActiveQueries exclude_idle (of_int min_duration) limit)) (\<lambda>rows.
     Finish (bind_res (case rows of [] \<Rightarrow> Inr 0 | r # _ \<Rightarrow> int_at r 8) (\<lambda>total_matching.
       bind_res (map_res (active_query L) rows) (\<lambda>queries.
       Inr (PDict [(''queries'', PList queries), (''total_running'', PInt total_matching)]))))))"

definition lock_wait :: "handler_lib \<Rightarrow> pyval \<Rightarrow> exn + pyval" where
  "lock_wait L row =
     bind_res (int_at row 0) (\<lambda>blocked.
     bind_res (int_at row 1) (\<lambda>blocking.
     bind_res (text_at L row 2 []) (\<lambda>blocked_query.
     bind_res (text_at L row 3 []) (\<lambda>blocking_query.
     bind_res (float_at row 4) (\<lambda>wait.
     Inr (PDict [(''blocked_pid'', PInt blocked), (''blocking_pid'', PInt blocking),
       (''blocked_query'', PStr blocked_query), (''blocking_query'', PStr blocking_query),
       (''wait_duration_seconds'', PFloat wait)]))))))"

definition get_lock_waits :: "handler_lib \<Rightarrow> int \<Rightarrow> pyval prog" where
  "get_lock_waits L limit =
     andthen (connection L) (\<lambda>_.
     andthen (fetch_all (LockWaits limit)) (\<lambda>rows.
     Finish (bind_res (map_res (lock_wait L) rows) (\<lambda>waits. Inr (PDict [(''waits'', PList waits)])))))"

text \<open>\<open>total, active, idle, idle_tx = (int(value) for value in row)\<close>: a fifth value is converted
  before the unpacking fails.\<close>

definition four_counts :: "pyval \<Rightarrow> exn + int \<times> int \<times> int \<times> int" where
  "four_counts row =
     (case row of
        PList vs \<Rightarrow>
          bind_res (map_res (\<lambda>v. lift_py (py_int v)) (take 5 vs)) (\<lambda>ns.
            case ns of
              [tot, active, idle, idle_tx] \<Rightarrow> Inr (tot, active, idle, idle_tx)
            | _ \<Rightarrow> Inl (PyError (ValueError ''wrong number of values to unpack'')))
      | _ \<Rightarrow> Inl (PyError (TypeError ''object is not iterable'')))"

definition no_rows :: "string \<Rightarrow> exn" where
  "no_rows m = ToolExecutionError ''get_connection_stats'' (PyError (RuntimeError m))"

definition get_connection_stats :: "handler_lib \<Rightarrow> pyval prog" where
  "get_connection_stats L =
     andthen (connection L) (\<lambda>_.
     andthen (fetch_one ConnectionCounts) (\<lambda>row.
     if row = PNone then raises (no_rows ''pg_stat_activity returned no rows'')
     else andthen (Finish (four_counts row)) (\<lambda>(tot, active, idle, idle_tx).
     andthen (fetch_one MaxConnections) (\<lambda>max_row.
     if max_row = PNone then raises (no_rows ''SHOW max_connections returned no rows'')
     else andthen (Finish (int_at max_row 0)) (\<lambda>max_conn.
     let utilisation = (if max_conn > 0 then of_int tot / of_int max_conn * 100 else 0 :: rat)
     in returns (PDict [(''stats'', PDict [(''total_connections'', PInt tot), (''active'', PInt active),
          (''idle'', PInt idle), (''idle_in_transaction'', PInt idle_tx), (''max_connections'', PInt max_conn),
          (''utilisation_pct'', PFloat (Fin (py_round utilisation 2)))])]))))))"

section \<open>Terminating backends\<close>

definition max_auto_terminate :: int where
  "max_auto_terminate = 50"

definition verify_delay_seconds :: rat where
  "verify_delay_seconds = 1 / 2"

definition terminate_output ::
  "pyval \<Rightarrow> bool \<Rightarrow> string \<Rightarrow> int list \<Rightarrow> nat \<Rightarrow> nat \<Rightarrow> bool \<Rightarrow> pyval" where
  "terminate_output pid terminated reason pids candidates still verified =
     PDict [(''pid'', pid), (''terminated'', PBool terminated), (''reason'', PStr reason),
       (''terminated_pids'', PList (map PInt pids)), (''terminated_count'', PInt (int (length pids))),
       (''candidates_found'', PInt (int candidates)), (''still_idle_in_transaction'', PInt (int still)),
       (''success'', PBool True), (''verification_passed'', PBool verified)]"

text \<open>\<open>bool(row[0])\<close> when there is a row\<close>

definition confirmed :: "pyval \<Rightarrow> exn + bool" where
  "confirmed row = (if truthy row then bind_res (row_at row 0) (\<lambda>v. Inr (truthy v)) else Inr False)"

text \<open>The loop over the candidates: a failure is logged and the next one is tried.\<close>

primrec terminate_each :: "int list \<Rightarrow> int list prog" where
  "terminate_each [] = returns []"
| "terminate_each (pid # pids) =
     andthen (except (andthen (fetch_one (TerminatePid pid)) (\<lambda>r. Finish (confirmed r))) (\<lambda>e. returns False)) (\<lambda>ok.
     andthen (terminate_each pids) (\<lambda>rest. returns (if ok then pid # rest else rest)))"

text \<open>The re-check: the distinct candidates still idle in transaction, none when the query fails.\<close>

definition still_idle :: "int list \<Rightarrow> int list prog" where
  "still_idle pids =
     except (andthen (fetch_all (StillIdle pids)) (\<lambda>rows.
             Finish (bind_res (map_res (\<lambda>r. int_at r 0) rows) (\<lambda>ns. Inr (remdups ns)))))
       (\<lambda>e. returns [])"

definition candidate :: "pyval \<Rightarrow> exn + int \<times> pyval" where
  "candidate row = bind_res (int_at row 0) (\<lambda>pid. bind_res (row_at row 1) (\<lambda>start. Inr (pid, start)))"

definition terminate_idle_in_transaction :: "handler_lib \<Rightarrow> string \<Rightarrow> pyval prog" where
  "terminate_idle_in_transaction L reason =
     andthen (connection L) (\<lambda>_.
     andthen (wrapped ''terminate_backend'' (fetch_all (IdleCandidates max_auto_terminate))) (\<lambda>rows.
     andthen (Finish (map_res candidate rows)) (\<lambda>candidates.
     if candidates = [] then returns (terminate_output PNone False reason [] 0 0 True)
     else andthen (terminate_each (map fst candidates)) (\<lambda>terminated.
     andthen (await (Pause verify_delay_seconds)) (\<lambda>_.
     andthen (still_idle (map fst candidates)) (\<lambda>still_present.
     returns (terminate_output PNone (terminated \<noteq> []) reason terminated (length candidates)
                (length still_present) (still_present = []))))))))"

definition refuse :: "string \<Rightarrow> 'a prog" where
  "refuse m = raises (ToolExecutionError ''terminate_backend'' (PyError (PermissionError m)))"

definition terminate_backend :: "handler_lib \<Rightarrow> int option \<Rightarrow> string \<Rightarrow> pyval prog" where
  "terminate_backend L pid_arg reason =
     (case pid_arg of
        None \<Rightarrow> terminate_idle_in_transaction L reason
      | Some pid \<Rightarrow>
     andthen (connection L) (\<lambda>_.
     andthen (fetch_one (BackendInfo pid)) (\<lambda>row.
     if row = PNone then returns (terminate_output (PInt pid) False reason [] 0 0 True)
     else andthen (Finish (map_res (row_at row) [0, 1, 2, 3])) (\<lambda>cells.
     let usename = cells ! 0; is_superuser = truthy (cells ! 1); is_self = truthy (cells ! 2);
         backend_start = cells ! 3
     in if is_self then refuse (''refusing to terminate the agent'' @ [CHR 0x27] @ ''s own connection'')
        else if usename = PNone
        then refuse (''refusing to terminate backend '' @ show_int pid @ '' without a login role'')
        else if is_superuser then refuse (''refusing to terminate superuser pid '' @ show_int pid)
        else andthen (wrapped ''terminate_backend'' (fetch_one (TerminatePid pid))) (\<lambda>result_row.
        andthen (Finish (confirmed result_row)) (\<lambda>requested.
        andthen (await (Pause verify_delay_seconds)) (\<lambda>_.
        andthen (fetch_one (SameBackend pid backend_start)) (\<lambda>again.
        let still_present = (again \<noteq> PNone); verified = (\<not> still_present);
            terminated_ok = (requested \<and> verified)
        in returns (terminate_output (PInt pid) terminated_ok reason (if terminated_ok then [pid] else [])
                      1 (if still_present then 1 else 0) verified)))))))))"

section \<open>Valkey\<close>

definition valkey_call :: "request \<Rightarrow> string \<Rightarrow> pyval prog" where
  "valkey_call q tool = wrapped tool (await q)"

lemma every_valkey_call [prog_intros]: "P q \<Longrightarrow> every P (valkey_call q tool)"
  unfolding valkey_call_def by (intro prog_intros) auto

text \<open>\<open>_as_int\<close> goes through the text of a value, so a float or a boolean gives the default.\<close>

definition as_int :: "handler_lib \<Rightarrow> pyval \<Rightarrow> int \<Rightarrow> int" where
  "as_int L v d = (case int_of_text (to_text L v []) of Some i \<Rightarrow> i | None \<Rightarrow> d)"

text \<open>The search for \<open>(?:^|,)keys=(\d+)(?:,|$)\<close>: the first comma-separated piece of that form; \<open>$\<close>
  also matches before a final newline.\<close>

definition keys_piece :: "bool \<Rightarrow> string \<Rightarrow> nat option" where
  "keys_piece final p =
     (if prefix ''keys='' p then
        (let (ds, rest) = span_of is_digit (drop 5 p)
         in if ds \<noteq> [] \<and> (rest = [] \<or> (final \<and> rest = [CHR 0x0A])) then Some (nat_of_digits ds) else None)
      else None)"

fun first_keys :: "string list \<Rightarrow> nat option" where
  "first_keys [] = None"
| "first_keys (p # ps) = (case keys_piece (ps = []) p of Some n \<Rightarrow> Some n | None \<Rightarrow> first_keys ps)"

definition keyspace_keys :: "handler_lib \<Rightarrow> pyval \<Rightarrow> int" where
  "keyspace_keys L value =
     (case value of
        PDict d \<Rightarrow> as_int L (map_get value ''keys'' (PInt 0)) 0
      | _ \<Rightarrow> (case first_keys (split_at (CHR '','') (to_text L value [])) of Some n \<Rightarrow> int n | None \<Rightarrow> 0))"

definition total_keys :: "handler_lib \<Rightarrow> pyval \<Rightarrow> int" where
  "total_keys L info = (case info of PDict d \<Rightarrow> sum_list (map (keyspace_keys L \<circ> snd) d) | _ \<Rightarrow> 0)"

definition missing_stream_error :: "handler_lib \<Rightarrow> exn \<Rightarrow> bool" where
  "missing_stream_error L e =
     (let message = str_lower (hl_show_exn L e)
      in str_contains message ''no such key''
         \<or> (str_contains message ''xinfo groups'' \<and> str_contains message ''does not exist''))"

definition ratio_pct :: "int \<Rightarrow> int \<Rightarrow> rat" where
  "ratio_pct part whole = (if whole > 0 then of_int part / of_int whole * 100 else 0)"

definition stats_output :: "handler_lib \<Rightarrow> pyval \<Rightarrow> pyval \<Rightarrow> pyval \<Rightarrow> pyval \<Rightarrow> pyval" where
  "stats_output L memory clients keyspace stats =
     (let used_memory = as_int L (map_get memory ''used_memory'' (PInt 0)) 0;
          maxmemory = as_int L (map_get memory ''maxmemory'' (PInt 0)) 0;
          hits = as_int L (map_get stats ''keyspace_hits'' (PInt 0)) 0;
          misses = as_int L (map_get stats ''keyspace_misses'' (PInt 0)) 0;
          mib = (\<lambda>b. of_int b / (1024 * 1024) :: rat);
          number = (\<lambda>x. PFloat (Fin (py_round x 2)))
      in PDict [(''stats'', PDict
           [(''used_memory_mb'', number (mib used_memory)),
            (''maxmemory_mb'', number (if maxmemory > 0 then mib maxmemory else 0)),
            (''memory_usage_pct'', number (ratio_pct used_memory maxmemory)),
            (''connected_clients'', PInt (as_int L (map_get clients ''connected_clients'' (PInt 0)) 0)),
            (''total_keys'', PInt (total_keys L keyspace)),
            (''hit_rate_pct'', number (ratio_pct hits (hits + misses))),
            (''evicted_keys'', PInt (as_int L (map_get stats ''evicted_keys'' (PInt 0)) 0))])])"

definition get_valkey_stats :: "handler_lib \<Rightarrow> pyval prog" where
  "get_valkey_stats L =
     andthen (valkey_client L) (\<lambda>_.
     andthen (attempt (valkey_call (ValkeyInfo ''memory'') ''get_valkey_stats'')) (\<lambda>memory.
     andthen (attempt (valkey_call (ValkeyInfo ''clients'') ''get_valkey_stats'')) (\<lambda>clients.
     andthen (attempt (valkey_call (ValkeyInfo ''keyspace'') ''get_valkey_stats'')) (\<lambda>keyspace.
     andthen (attempt (valkey_call (ValkeyInfo ''stats'') ''get_valkey_stats'')) (\<lambda>stats.
     Finish (bind_res memory (\<lambda>m. bind_res clients (\<lambda>c. bind_res keyspace (\<lambda>k. bind_res stats (\<lambda>s.
       Inr (stats_output L m c k s)))))))))))"

definition group_info :: "handler_lib \<Rightarrow> pyval \<Rightarrow> pyval" where
  "group_info L g =
     (let lag_raw = map_get g ''lag'' PNone; lag = as_int L lag_raw 0
      in PDict [(''group_name'', PStr (to_text L (map_get g ''name'' (PStr [])) [])),
                (''consumers'', PInt (as_int L (map_get g ''consumers'' (PInt 0)) 0)),
                (''pending_messages'', PInt (as_int L (map_get g ''pending'' (PInt 0)) 0)),
                (''lag_messages'', if lag_raw = PNone \<or> lag < 0 then PNone else PInt lag),
                (''last_delivered_id'', PStr (to_text L (map_get g ''last-delivered-id'' (PStr [])) []))])"

definition get_valkey_stream_info :: "handler_lib \<Rightarrow> string \<Rightarrow> pyval prog" where
  "get_valkey_stream_info L stream_key =
     andthen (valkey_client L) (\<lambda>_.
     andthen (valkey_call (ValkeyLen stream_key) ''get_valkey_stream_info'') (\<lambda>stream_length.
     andthen (except (await (ValkeyGroups stream_key))
        (\<lambda>e. if missing_stream_error L e then returns (PList [])
             else raises (ToolExecutionError ''get_valkey_stream_info'' e))) (\<lambda>groups_raw.
     returns (PDict [(''stream_key'', PStr stream_key), (''stream_length'', PInt (as_int L stream_length 0)),
       (''groups'', PList (map (group_info L) (mappings (list_or_empty groups_raw))))]))))"

text \<open>\<open>except ToolExecutionError\<close>\<close>

definition on_tool_error :: "'a prog \<Rightarrow> 'a prog \<Rightarrow> 'a prog" where
  "on_tool_error p h = except p (\<lambda>e. case e of ToolExecutionError t e' \<Rightarrow> h | _ \<Rightarrow> raises e)"

lemma every_on_tool_error [prog_intros]: "every P p \<Longrightarrow> every P h \<Longrightarrow> every P (on_tool_error p h)"
  unfolding on_tool_error_def by (intro prog_intros) (auto split: exn.splits)

definition delete_key_output :: "string \<Rightarrow> bool \<Rightarrow> string \<Rightarrow> pyval \<Rightarrow> pyval" where
  "delete_key_output key deleted reason verified =
     PDict [(''key'', PStr key), (''deleted'', PBool deleted), (''reason'', PStr reason),
            (''success'', PBool True), (''verification_passed'', verified)]"

definition delete_valkey_key :: "handler_lib \<Rightarrow> string \<Rightarrow> string \<Rightarrow> pyval prog" where
  "delete_valkey_key L key reason =
     andthen (valkey_client L) (\<lambda>_.
     andthen (valkey_call (ValkeyDelete key) ''delete_valkey_key'') (\<lambda>deleted_count.
     let deleted = (as_int L deleted_count 0 > 0)
     in andthen (on_tool_error
          (andthen (valkey_call (ValkeyExists key) ''delete_valkey_key'') (\<lambda>n. returns (Some n)))
          (returns None)) (\<lambda>remaining.
        returns (delete_key_output key deleted reason
          (case remaining of None \<Rightarrow> PNone | Some n \<Rightarrow> PBool (as_int L n 0 = 0))))))"

definition keys_now :: "handler_lib \<Rightarrow> int option prog" where
  "keys_now L =
     on_tool_error (andthen (valkey_call (ValkeyInfo ''keyspace'') ''flush_all'') (\<lambda>info.
                    returns (Some (total_keys L info))))
       (returns None)"

definition opt_int :: "int option \<Rightarrow> pyval" where
  "opt_int x = (case x of None \<Rightarrow> PNone | Some i \<Rightarrow> PInt i)"

definition flush_all :: "handler_lib \<Rightarrow> string \<Rightarrow> pyval prog" where
  "flush_all L reason =
     andthen (valkey_client L) (\<lambda>_.
     andthen (keys_now L) (\<lambda>keys_before.
     andthen (valkey_call ValkeyFlush ''flush_all'') (\<lambda>_.
     andthen (keys_now L) (\<lambda>keys_after.
     returns (PDict [(''flushed'', PBool True), (''reason'', PStr reason), (''keys_before'', opt_int keys_before),
       (''keys_after'', opt_int keys_after), (''success'', PBool True),
       (''verification_passed'', case keys_after of None \<Rightarrow> PNone | Some n \<Rightarrow> PBool (n = 0))])))))"

section \<open>What the handlers ask\<close>

lemma get_active_queries_reads: "every (\<lambda>q. \<not> mutating q) (get_active_queries L d n b)"
  unfolding get_active_queries_def by (intro prog_intros) auto

lemma get_lock_waits_reads: "every (\<lambda>q. \<not> mutating q) (get_lock_waits L n)"
  unfolding get_lock_waits_def by (intro prog_intros) auto

lemma get_connection_stats_reads: "every (\<lambda>q. \<not> mutating q) (get_connection_stats L)"
  unfolding get_connection_stats_def Let_def case_prod_beta by (intro prog_intros) auto

lemma get_valkey_stats_reads: "every (\<lambda>q. \<not> mutating q) (get_valkey_stats L)"
  unfolding get_valkey_stats_def by (intro prog_intros) auto

lemma get_valkey_stream_info_reads: "every (\<lambda>q. \<not> mutating q) (get_valkey_stream_info L k)"
  unfolding get_valkey_stream_info_def by (intro prog_intros) auto

lemma terminate_each_asks: "every (\<lambda>q. mutating q \<longrightarrow> (\<exists>pid\<in>set pids. q = Sql (TerminatePid pid))) (terminate_each pids)"
proof (induction pids)
  case (Cons p ps)
  have "every (\<lambda>q. mutating q \<longrightarrow> (\<exists>pid\<in>set (p # ps). q = Sql (TerminatePid pid))) (terminate_each ps)"
    by (rule every_mono [OF Cons]) auto
  then show ?case unfolding terminate_each.simps by (intro prog_intros) auto
qed simp

lemma still_idle_asks [prog_intros]: "P (Sql (StillIdle pids)) \<Longrightarrow> every P (still_idle pids)"
  unfolding still_idle_def by (intro prog_intros) auto

lemma terminate_idle_asks:
  "every (\<lambda>q. mutating q \<longrightarrow> (\<exists>pid. q = Sql (TerminatePid pid))) (terminate_idle_in_transaction L why)"
proof -
  let ?P = "\<lambda>q. mutating q \<longrightarrow> (\<exists>pid. q = Sql (TerminatePid pid))"
  have "every ?P (terminate_each pids)" for pids
    by (rule every_mono [OF terminate_each_asks]) auto
  then show ?thesis unfolding terminate_idle_in_transaction_def by (intro prog_intros) auto
qed

lemma every_refuse [simp]: "every P (refuse m)"
  by (simp add: refuse_def)

lemma terminate_one_asks:
  "every (\<lambda>q. mutating q \<longrightarrow> q = Sql (TerminatePid pid)) (terminate_backend L (Some pid) why)"
  unfolding terminate_backend_def option.case Let_def by (intro prog_intros) auto

lemma delete_valkey_key_asks: "every (\<lambda>q. mutating q \<longrightarrow> q = ValkeyDelete k) (delete_valkey_key L k why)"
  unfolding delete_valkey_key_def Let_def by (intro prog_intros) auto

lemma keys_now_asks: "P (ValkeyInfo ''keyspace'') \<Longrightarrow> every P (keys_now L)"
  unfolding keys_now_def by (intro prog_intros) auto

lemma flush_all_asks: "every (\<lambda>q. mutating q \<longrightarrow> q = ValkeyFlush) (flush_all L why)"
  unfolding flush_all_def by (intro prog_intros keys_now_asks) auto

lemma once_valkey_call_andthen [once_intros]:
  "(\<And>x. every (\<lambda>q. \<not> P q) (f x)) \<Longrightarrow> at_most P (andthen (valkey_call q tool) f) 1"
  unfolding valkey_call_def wrapped_def
  by (intro at_most_first at_most_handled) (auto simp: await_def)

lemma delete_valkey_key_once: "at_most mutating (delete_valkey_key L k why) 1"
  unfolding delete_valkey_key_def Let_def by (intro once_intros prog_intros) auto

lemma flush_all_once: "at_most mutating (flush_all L why) 1"
  unfolding flush_all_def by (intro once_intros prog_intros keys_now_asks) auto

section \<open>Valkey: the store a client stands for\<close>

lemma as_int_PInt [simp]: "as_int L (PInt i) d = i"
  by (simp add: as_int_def to_text_def py_str_def)

text \<open>A Valkey server holds numbered databases of keys; a client works on one of them, named \<open>db\<close>. The
  commands as operations on the databases: DEL and EXISTS of a key, FLUSHALL, and the number of
  keys that INFO counts over all databases.\<close>

type_synonym databases = "(string \<times> string set) list"

definition keys_in :: "string \<Rightarrow> databases \<Rightarrow> string set" where
  "keys_in db D = (case map_of D db of None \<Rightarrow> {} | Some K \<Rightarrow> K)"

definition spec_delete :: "string \<Rightarrow> string \<Rightarrow> databases \<Rightarrow> bool \<times> databases" where
  "spec_delete db k D = (k \<in> keys_in db D, map (\<lambda>(n, K). (n, if n = db then K - {k} else K)) D)"

definition spec_flush :: "databases \<Rightarrow> databases" where
  "spec_flush D = map (\<lambda>(n, K). (n, {})) D"

definition count_keys :: "databases \<Rightarrow> nat" where
  "count_keys D = sum_list (map (card \<circ> snd) D)"

text \<open>The parsed answer to INFO keyspace: an entry for each database that is not empty, with its
  number of keys beside any other fields (expires, avg_ttl and what later versions add).\<close>

definition keyspace_answer :: "databases \<Rightarrow> pyval \<Rightarrow> bool" where
  "keyspace_answer D v \<longleftrightarrow>
     (\<exists>d. v = PDict d \<and>
        list_all2 (\<lambda>(n, K) (m, e). m = n \<and> (\<exists>fs. e = PDict fs \<and> dget fs ''keys'' = Some (PInt (int (card K)))))
          (filter (\<lambda>(n, K). K \<noteq> {}) D) d)"

text \<open>What is documented of the server: a command that answers has run on the databases there were at
  that moment, \<open>seen w q\<close>, and leaves the ones \<open>now w'\<close> it says. Any command may fail instead, with any
  exception and any effect, and between two commands other clients may do anything: \<open>seen\<close> is not
  related to what the command before left.\<close>

definition key_store ::
  "('w \<Rightarrow> request \<Rightarrow> (exn + pyval) \<times> 'w) \<Rightarrow> ('w \<Rightarrow> databases) \<Rightarrow> ('w \<Rightarrow> request \<Rightarrow> databases) \<Rightarrow> string \<Rightarrow> bool" where
  "key_store client now seen db \<longleftrightarrow>
     (\<forall>w q. list_all (finite \<circ> snd) (seen w q)) \<and>
     (\<forall>w k v w'. client w (ValkeyDelete k) = (Inr v, w') \<longrightarrow>
        v = PInt (of_bool (fst (spec_delete db k (seen w (ValkeyDelete k))))) \<and>
        now w' = snd (spec_delete db k (seen w (ValkeyDelete k)))) \<and>
     (\<forall>w k v w'. client w (ValkeyExists k) = (Inr v, w') \<longrightarrow>
        v = PInt (of_bool (k \<in> keys_in db (seen w (ValkeyExists k)))) \<and> now w' = seen w (ValkeyExists k)) \<and>
     (\<forall>w v w'. client w ValkeyFlush = (Inr v, w') \<longrightarrow> now w' = spec_flush (seen w ValkeyFlush)) \<and>
     (\<forall>w v w'. client w (ValkeyInfo ''keyspace'') = (Inr v, w') \<longrightarrow>
        keyspace_answer (seen w (ValkeyInfo ''keyspace'')) v \<and> now w' = seen w (ValkeyInfo ''keyspace''))"

lemma serve_wrapped_await:
  "serve (wrapped tool (await q)) client w =
     (let (r, w') = client w q
      in ([q], (case r of Inl e \<Rightarrow> Inl (if caught_by_exception e then ToolExecutionError tool e else e)
                | Inr v \<Rightarrow> Inr v), w'))"
  by (simp add: wrapped_def serve_except Let_def split_beta split: sum.splits)

lemmas serve_valkey_call = serve_wrapped_await [folded valkey_call_def]

lemma total_keys_answer: "keyspace_answer D v \<Longrightarrow> total_keys L v = int (count_keys D)"
proof -
  have total: "sum_list (map (keyspace_keys L \<circ> snd) d) = int (sum_list (map (card \<circ> snd) E))"
    if "list_all2 (\<lambda>(n, K) (m, e). m = n \<and> (\<exists>fs. e = PDict fs \<and> dget fs ''keys'' = Some (PInt (int (card K))))) E d"
    for E :: databases and d
    using that
    by (induction rule: list_all2_induct) (auto simp: keyspace_keys_def map_get_def dget_or_dget)
  have "sum_list (map (card \<circ> snd) (filter (\<lambda>(n, K). K \<noteq> {}) D)) = count_keys D"
    by (induction D) (auto simp: count_keys_def)
  then show "keyspace_answer D v \<Longrightarrow> total_keys L v = int (count_keys D)"
    by (auto simp: keyspace_answer_def total_keys_def dest: total)
qed

lemma count_keys_0: "list_all (finite \<circ> snd) D \<Longrightarrow> count_keys D = 0 \<longleftrightarrow> (\<forall>(n, K) \<in> set D. K = {})"
  by (induction D) (auto simp: count_keys_def)

text \<open>Counting the keys for the report of a flush: a failure is no count, a cancellation ends it.\<close>

definition counted ::
  "('w \<Rightarrow> request \<Rightarrow> (exn + pyval) \<times> 'w) \<Rightarrow> ('w \<Rightarrow> request \<Rightarrow> databases) \<Rightarrow> 'w \<Rightarrow> (exn + nat option) \<times> 'w" where
  "counted client seen w =
     (case client w (ValkeyInfo ''keyspace'') of
        (Inr v, w') \<Rightarrow> (Inr (Some (count_keys (seen w (ValkeyInfo ''keyspace'')))), w')
      | (Inl e, w') \<Rightarrow> (if caught_by_exception e then Inr None else Inl e, w'))"

lemma serve_keys_now:
  assumes "key_store client now seen db"
  shows "serve (keys_now L) client w =
    (case counted client seen w of (r, w') \<Rightarrow> ([ValkeyInfo ''keyspace''], map_sum id (map_option int) r, w'))"
proof -
  obtain r w' where info: "client w (ValkeyInfo ''keyspace'') = (r, w')" by fastforce
  show ?thesis
  proof (cases r)
    case (Inl e)
    with info show ?thesis
      by (cases e) (simp_all add: keys_now_def on_tool_error_def counted_def serve_except serve_andthen
        serve_valkey_call caught_by_exception_def)
  next
    case (Inr v)
    with assms info have "keyspace_answer (seen w (ValkeyInfo ''keyspace'')) v" by (simp add: key_store_def)
    from total_keys_answer [OF this, of L] Inr info show ?thesis
      by (simp add: keys_now_def on_tool_error_def counted_def serve_except serve_andthen serve_valkey_call)
  qed
qed

lemma serve_remaining:
  "serve (on_tool_error (andthen (valkey_call (ValkeyExists k) ''delete_valkey_key'') (\<lambda>n. returns (Some n))) (returns None)) client w =
     (case client w (ValkeyExists k) of
        (Inr v, w') \<Rightarrow> ([ValkeyExists k], Inr (Some v), w')
      | (Inl e, w') \<Rightarrow> ([ValkeyExists k], if caught_by_exception e then Inr None else Inl e, w'))"
proof -
  obtain r w' where reply: "client w (ValkeyExists k) = (r, w')" by fastforce
  show ?thesis
  proof (cases r)
    case (Inl e)
    with reply show ?thesis
      by (cases e) (simp_all add: on_tool_error_def serve_except serve_andthen serve_valkey_call caught_by_exception_def)
  qed (simp add: reply on_tool_error_def serve_except serve_andthen serve_valkey_call)
qed

definition as_tool_error :: "string \<Rightarrow> exn \<Rightarrow> exn" where
  "as_tool_error tool e = (if caught_by_exception e then ToolExecutionError tool e else e)"

text \<open>C25: the cache handlers against the key set. Against a client whose answered commands are those
  of a Valkey server, while other clients may change the keys between them and any command may fail:
  deleting a key sends DEL and then EXISTS; a failing DEL is a tool error and nothing more is sent;
  an answered one is the abstract removal on the databases there were when it ran, \<open>deleted\<close> says
  whether the key was there, and \<open>verification_passed\<close> whether it is absent when EXISTS runs, or that
  this is not known. Flushing sends INFO, FLUSHALL and INFO; a failing FLUSHALL is a tool error, an
  answered one leaves no key in any database, and the counts before and after are the numbers of
  keys in all databases at those moments, or not known; it is verified exactly when there is then
  no key in any database. On a server nobody else writes to, a deletion that is answered is
  verified.\<close>

theorem cache_refines_key_set:
  assumes "key_store client now seen db" and "hl_valkey L"
  shows
    "(case client w (ValkeyDelete k) of
        (Inl e, w1) \<Rightarrow> serve (delete_valkey_key L k why) client w =
          ([ValkeyDelete k], Inl (as_tool_error ''delete_valkey_key'' e), w1)
      | (Inr v, w1) \<Rightarrow>
          (let (there, left) = spec_delete db k (seen w (ValkeyDelete k));
               (r, w2) = client w1 (ValkeyExists k)
           in now w1 = left \<and> k \<notin> keys_in db left \<and>
              serve (delete_valkey_key L k why) client w = ([ValkeyDelete k, ValkeyExists k],
                (case r of
                   Inr u \<Rightarrow> Inr (delete_key_output k there why (PBool (k \<notin> keys_in db (seen w1 (ValkeyExists k)))))
                 | Inl e \<Rightarrow> if caught_by_exception e then Inr (delete_key_output k there why PNone) else Inl e), w2)))
     \<and> (case counted client seen w of
          (Inl e, w1) \<Rightarrow> serve (flush_all L why) client w = ([ValkeyInfo ''keyspace''], Inl e, w1)
        | (Inr before, w1) \<Rightarrow>
            (case client w1 ValkeyFlush of
               (Inl e, w2) \<Rightarrow> serve (flush_all L why) client w =
                 ([ValkeyInfo ''keyspace'', ValkeyFlush], Inl (as_tool_error ''flush_all'' e), w2)
             | (Inr v, w2) \<Rightarrow>
                 (let (r, w3) = counted client seen w2
                  in now w2 = spec_flush (seen w1 ValkeyFlush) \<and> count_keys (now w2) = 0 \<and>
                     serve (flush_all L why) client w = ([ValkeyInfo ''keyspace'', ValkeyFlush, ValkeyInfo ''keyspace''],
                       map_sum id (\<lambda>remaining. PDict [(''flushed'', PBool True), (''reason'', PStr why),
                         (''keys_before'', opt_int (map_option int before)),
                         (''keys_after'', opt_int (map_option int remaining)), (''success'', PBool True),
                         (''verification_passed'', opt_value (\<lambda>n. PBool (n = 0)) remaining)]) r, w3))))
     \<and> (\<forall>v w1 u w2. client w (ValkeyDelete k) = (Inr v, w1) \<and> client w1 (ValkeyExists k) = (Inr u, w2) \<and>
          seen w1 (ValkeyExists k) = now w1 \<longrightarrow>
          fst (snd (serve (delete_valkey_key L k why) client w)) =
            Inr (delete_key_output k (k \<in> keys_in db (seen w (ValkeyDelete k))) why (PBool True)))"
proof -
  have gone: "k \<notin> keys_in db (snd (spec_delete db k D))" for D
    by (induction D) (auto simp: keys_in_def spec_delete_def)
  have delete: "case client w (ValkeyDelete k) of
        (Inl e, w1) \<Rightarrow> serve (delete_valkey_key L k why) client w =
          ([ValkeyDelete k], Inl (as_tool_error ''delete_valkey_key'' e), w1)
      | (Inr v, w1) \<Rightarrow>
          (let (there, left) = spec_delete db k (seen w (ValkeyDelete k));
               (r, w2) = client w1 (ValkeyExists k)
           in now w1 = left \<and> k \<notin> keys_in db left \<and>
              serve (delete_valkey_key L k why) client w = ([ValkeyDelete k, ValkeyExists k],
                (case r of
                   Inr u \<Rightarrow> Inr (delete_key_output k there why (PBool (k \<notin> keys_in db (seen w1 (ValkeyExists k)))))
                 | Inl e \<Rightarrow> if caught_by_exception e then Inr (delete_key_output k there why PNone) else Inl e), w2))"
  proof -
    obtain r w1 where del: "client w (ValkeyDelete k) = (r, w1)" by fastforce
    show ?thesis
    proof (cases r)
      case (Inl e)
      with del assms(2) show ?thesis
        by (simp add: delete_valkey_key_def valkey_client_def serve_andthen serve_valkey_call as_tool_error_def)
    next
      case (Inr v)
      with assms(1) del have v: "v = PInt (of_bool (fst (spec_delete db k (seen w (ValkeyDelete k)))))"
          "now w1 = snd (spec_delete db k (seen w (ValkeyDelete k)))"
        by (auto simp: key_store_def)
      obtain a w2 where ex: "client w1 (ValkeyExists k) = (a, w2)" by fastforce
      have u: "u = PInt (of_bool (k \<in> keys_in db (seen w1 (ValkeyExists k))))" if "a = Inr u" for u
        using assms(1) ex that by (auto simp: key_store_def)
      show ?thesis
        using assms(2) del Inr v ex u gone [of "seen w (ValkeyDelete k)"]
        by (cases a) (auto simp: delete_valkey_key_def valkey_client_def serve_andthen serve_valkey_call serve_remaining
            Let_def split_beta)
    qed
  qed
  have flush: "case counted client seen w of
          (Inl e, w1) \<Rightarrow> serve (flush_all L why) client w = ([ValkeyInfo ''keyspace''], Inl e, w1)
        | (Inr before, w1) \<Rightarrow>
            (case client w1 ValkeyFlush of
               (Inl e, w2) \<Rightarrow> serve (flush_all L why) client w =
                 ([ValkeyInfo ''keyspace'', ValkeyFlush], Inl (as_tool_error ''flush_all'' e), w2)
             | (Inr v, w2) \<Rightarrow>
                 (let (r, w3) = counted client seen w2
                  in now w2 = spec_flush (seen w1 ValkeyFlush) \<and> count_keys (now w2) = 0 \<and>
                     serve (flush_all L why) client w = ([ValkeyInfo ''keyspace'', ValkeyFlush, ValkeyInfo ''keyspace''],
                       map_sum id (\<lambda>remaining. PDict [(''flushed'', PBool True), (''reason'', PStr why),
                         (''keys_before'', opt_int (map_option int before)),
                         (''keys_after'', opt_int (map_option int remaining)), (''success'', PBool True),
                         (''verification_passed'', opt_value (\<lambda>n. PBool (n = 0)) remaining)]) r, w3)))"
  proof -
    obtain b w1 where before: "counted client seen w = (b, w1)" by fastforce
    show ?thesis
    proof (cases b)
      case (Inl e)
      with before assms(2) show ?thesis
        by (simp add: flush_all_def valkey_client_def serve_andthen serve_keys_now [OF assms(1)])
    next
      case (Inr n)
      obtain r w2 where fl: "client w1 ValkeyFlush = (r, w2)" by fastforce
      obtain c w3 where rest: "counted client seen w2 = (c, w3)" by fastforce
      have empty: "count_keys (spec_flush D) = 0" for D by (induction D) (auto simp: count_keys_def spec_flush_def)
      have now: "now w2 = spec_flush (seen w1 ValkeyFlush)" if "r = Inr v" for v
        using assms(1) fl that by (auto simp: key_store_def)
      show ?thesis
        using assms(2) before Inr fl rest now empty
        by (cases r; cases c)
          (auto simp: flush_all_def valkey_client_def serve_andthen serve_keys_now [OF assms(1)] serve_valkey_call
            as_tool_error_def opt_value_def split: option.splits)
    qed
  qed
  show ?thesis
  proof (intro conjI delete flush allI impI, elim conjE)
    fix v w1 u w2
    assume "client w (ValkeyDelete k) = (Inr v, w1)" "client w1 (ValkeyExists k) = (Inr u, w2)"
      "seen w1 (ValkeyExists k) = now w1"
    with delete gone show "fst (snd (serve (delete_valkey_key L k why) client w)) =
            Inr (delete_key_output k (k \<in> keys_in db (seen w (ValkeyDelete k))) why (PBool True))"
      by (auto simp: spec_delete_def Let_def)
  qed
qed

text \<open>A server with two databases that answers INFO with all its fields, and a context whose clients
  are all there.\<close>

definition two_dbs :: "(string \<times> string list) list \<Rightarrow> request \<Rightarrow> (exn + pyval) \<times> (string \<times> string list) list" where
  "two_dbs D q =
     (case q of
        ValkeyDelete k \<Rightarrow> (Inr (PInt (of_bool (k \<in> keys_in ''db0'' (map (apsnd set) D)))),
          map (\<lambda>(n, ks). (n, if n = ''db0'' then filter (\<lambda>x. x \<noteq> k) ks else ks)) D)
      | ValkeyExists k \<Rightarrow> (Inr (PInt (of_bool (k \<in> keys_in ''db0'' (map (apsnd set) D)))), D)
      | ValkeyFlush \<Rightarrow> (Inr (PBool True), map (\<lambda>(n, ks). (n, [])) D)
      | ValkeyInfo s \<Rightarrow> (Inr (PDict (map (\<lambda>(n, ks). (n, PDict [(''keys'', PInt (int (card (set ks)))),
            (''expires'', PInt 0), (''avg_ttl'', PInt 0)])) (filter (\<lambda>(n, ks). ks \<noteq> []) D))), D)
      | _ \<Rightarrow> (Inl (PyError (RuntimeError ''closed'')), D))"

definition ready_lib :: handler_lib where
  "ready_lib = \<lparr>hl_k8s = True, hl_pool = Some True, hl_valkey = True, hl_observe = Some True,
     hl_openobserve = PObj [], hl_now = (\<lambda>_. 0), hl_now_iso = ''2025-01-01T00:00:00+00:00'',
     hl_iso = (\<lambda>_. None), hl_epoch_min = -62135596800, hl_repr = (\<lambda>_. []), hl_loads = (\<lambda>_. None),
     hl_show_exn = (\<lambda>_. []), hl_status = (\<lambda>_. PNone), hl_response_status = (\<lambda>_. PNone),
     hl_http_timeout = (\<lambda>_. False), hl_http_error = (\<lambda>_. False)\<rparr>"

lemma two_dbs_store: "key_store two_dbs (map (apsnd set)) (\<lambda>D q. map (apsnd set) D) ''db0''"
proof -
  have "list_all2 (\<lambda>(n, K) (m, e). m = n \<and> (\<exists>fs. e = PDict fs \<and> dget fs ''keys'' = Some (PInt (int (card K)))))
      (filter (\<lambda>(n, K). K \<noteq> {}) (map (apsnd set) D))
      (map (\<lambda>(n, ks). (n, PDict [(''keys'', PInt (int (card (set ks)))), (''expires'', PInt 0), (''avg_ttl'', PInt 0)]))
        (filter (\<lambda>(n, ks). ks \<noteq> []) D))" for D :: "(string \<times> string list) list"
    by (induction D) (auto simp: dget_def)
  then have "keyspace_answer (map (apsnd set) D)
      (PDict (map (\<lambda>(n, ks). (n, PDict [(''keys'', PInt (int (card (set ks)))), (''expires'', PInt 0), (''avg_ttl'', PInt 0)]))
        (filter (\<lambda>(n, ks). ks \<noteq> []) D)))" for D :: "(string \<times> string list) list"
    by (auto simp: keyspace_answer_def)
  then show ?thesis
    by (auto simp: key_store_def two_dbs_def spec_delete_def spec_flush_def list_all_iff split_beta intro!: map_cong)
qed

definition demo_dbs :: "(string \<times> string list) list" where
  "demo_dbs = [(''db0'', [''session:9'', ''cart'']), (''db1'', [''x''])]"

theorem cache_refines_key_set_witness:
  "fst (snd (serve (delete_valkey_key ready_lib ''session:9'' ''stale'') two_dbs demo_dbs)) =
     Inr (delete_key_output ''session:9'' True ''stale'' (PBool True)) \<and>
   (\<exists>D. serve (flush_all ready_lib ''full'') two_dbs demo_dbs =
      ([ValkeyInfo ''keyspace'', ValkeyFlush, ValkeyInfo ''keyspace''],
       Inr (PDict [(''flushed'', PBool True), (''reason'', PStr ''full''), (''keys_before'', PInt 3),
         (''keys_after'', PInt 0), (''success'', PBool True), (''verification_passed'', PBool True)]), D))"
proof -
  have "hl_valkey ready_lib" by (simp add: ready_lib_def)
  note store = cache_refines_key_set [OF two_dbs_store this, where w = demo_dbs and k = "''session:9''"]
  have "fst (snd (serve (delete_valkey_key ready_lib ''session:9'' ''stale'') two_dbs demo_dbs)) =
      Inr (delete_key_output ''session:9'' (''session:9'' \<in> keys_in ''db0'' (map (apsnd set) demo_dbs)) ''stale'' (PBool True))"
    using store [where why = "''stale''", THEN conjunct2, THEN conjunct2] by (simp add: two_dbs_def)
  moreover have "''session:9'' \<in> keys_in ''db0'' (map (apsnd set) demo_dbs)" by (simp add: keys_in_def demo_dbs_def)
  moreover have "\<exists>D. serve (flush_all ready_lib ''full'') two_dbs demo_dbs =
      ([ValkeyInfo ''keyspace'', ValkeyFlush, ValkeyInfo ''keyspace''],
       Inr (PDict [(''flushed'', PBool True), (''reason'', PStr ''full''), (''keys_before'', PInt 3),
         (''keys_after'', PInt 0), (''success'', PBool True), (''verification_passed'', PBool True)]), D)"
    using store [where why = "''full''", THEN conjunct2, THEN conjunct1]
    by (simp add: two_dbs_def counted_def demo_dbs_def count_keys_def opt_int_def opt_value_def split_beta)
  ultimately show ?thesis by simp
qed

section \<open>Terminating backends: what is protected and what is reported\<close>

text \<open>What a targeted termination refuses. When the server says that the process is the agent's own
  connection, has no login role or belongs to a superuser, the handler asks nothing after that
  lookup, in particular it terminates nothing, and ends in a permission error of the tool.\<close>

lemma terminate_backend_protects:
  assumes "hl_pool L = Some True"
    and "client w Connect = (Inr c, w1)"
    and "client w1 (Sql (BackendInfo pid)) = (Inr (PList [role, superuser, own, start]), w2)"
    and "truthy own \<or> role = PNone \<or> truthy superuser"
  shows "\<exists>m. serve (terminate_backend L (Some pid) why) client w =
           ([Connect, Sql (BackendInfo pid)],
            Inl (ToolExecutionError ''terminate_backend'' (PyError (PermissionError m))), w2)"
  using assms by (auto simp: terminate_backend_def connection_def fetch_one_def serve_andthen row_at_def
      refuse_def Let_def)

theorem terminate_backend_protects_witness:
  "\<exists>m. serve (terminate_backend ready_lib (Some 4711) ''stuck'')
         (\<lambda>w q. (Inr (if q = Sql (BackendInfo 4711)
                      then PList [PStr ''postgres'', PBool True, PBool False, PNone] else PNone), w)) () =
       ([Connect, Sql (BackendInfo 4711)],
        Inl (ToolExecutionError ''terminate_backend'' (PyError (PermissionError m))), ())"
  by (rule terminate_backend_protects [where role = "PStr ''postgres''" and superuser = "PBool True"
        and own = "PBool False" and start = PNone and c = PNone])
    (simp_all add: ready_lib_def)

text \<open>Any other session: it is asked to end once, and the report says whether the same backend is
  still there after the pause.\<close>

lemma terminate_backend_verifies:
  assumes "hl_pool L = Some True"
    and "client w Connect = (Inr c, w1)"
    and "client w1 (Sql (BackendInfo pid)) = (Inr (PList [role, superuser, own, start]), w2)"
    and "\<not> truthy own" "role \<noteq> PNone" "\<not> truthy superuser"
    and "client w2 (Sql (TerminatePid pid)) = (Inr (PList [sent]), w3)"
    and "client w3 (Pause verify_delay_seconds) = (Inr v, w4)"
    and "client w4 (Sql (SameBackend pid start)) = (Inr again, w5)"
  shows "serve (terminate_backend L (Some pid) why) client w =
     ([Connect, Sql (BackendInfo pid), Sql (TerminatePid pid), Pause verify_delay_seconds, Sql (SameBackend pid start)],
      Inr (terminate_output (PInt pid) (truthy sent \<and> again = PNone) why
             (if truthy sent \<and> again = PNone then [pid] else []) 1 (if again = PNone then 0 else 1) (again = PNone)), w5)"
  using assms
  by (simp add: terminate_backend_def connection_def fetch_one_def serve_andthen serve_wrapped_await row_at_def
      confirmed_def Let_def)

text \<open>A client that is never cancelled: every failure is one that \<open>except Exception\<close> catches.\<close>

definition uncancelled :: "('w \<Rightarrow> request \<Rightarrow> (exn + pyval) \<times> 'w) \<Rightarrow> bool" where
  "uncancelled client = (\<forall>w q e. fst (client w q) = Inl e \<longrightarrow> caught_by_exception e)"

lemma confirmed_caught: "confirmed r = Inl e \<Longrightarrow> caught_by_exception e"
  by (auto simp: confirmed_def row_at_def caught_by_exception_def split: if_splits pyval.splits)

lemma serve_terminate_each:
  assumes "uncancelled client"
  shows "\<exists>ok w'. serve (terminate_each pids) client w = (map (Sql \<circ> TerminatePid) pids, Inr ok, w') \<and> subseq ok pids"
proof (induction pids arbitrary: w)
  case (Cons pid pids)
  obtain a w1 where a: "client w (Sql (TerminatePid pid)) = (a, w1)" by fastforce
  have caught: "caught_by_exception e" if "a = Inl e" for e
    using assms a that unfolding uncancelled_def by (metis fst_conv)
  obtain b where first: "serve (except (andthen (fetch_one (TerminatePid pid)) (\<lambda>r. Finish (confirmed r)))
      (\<lambda>e. returns False)) client w = ([Sql (TerminatePid pid)], Inr b, w1)"
    using caught confirmed_caught
    by (cases a; cases "confirmed (projr a)") (auto simp: serve_except serve_andthen fetch_one_def a)
  obtain ok w2 where "serve (terminate_each pids) client w1 = (map (Sql \<circ> TerminatePid) pids, Inr ok, w2)"
    "subseq ok pids" using Cons by blast
  then show ?case by (cases b) (auto simp: serve_andthen first intro: list_emb_Cons)
qed simp

lemma serve_still_idle:
  "\<exists>r w'. serve (still_idle pids) client w = ([Sql (StillIdle pids)], r, w') \<and> (\<forall>n. r = Inr n \<longrightarrow> distinct n)"
proof -
  obtain a w1 where a: "client w (Sql (StillIdle pids)) = (a, w1)" by fastforce
  show ?thesis
    by (cases a)
      (auto simp: still_idle_def fetch_all_def serve_except serve_andthen a items_of_def bind_res_def
        split: pyval.splits sum.splits)
qed

text \<open>A report of the automatic mode on the processes \<open>pids\<close>: it lists only some of them as terminated,
  counts all as candidates and claims success exactly when none is counted as still there.\<close>

definition auto_report :: "int list \<Rightarrow> string \<Rightarrow> pyval \<Rightarrow> bool" where
  "auto_report pids why out =
     (\<exists>ok n. subseq ok pids \<and> out = terminate_output PNone (ok \<noteq> []) why ok (length pids) n (n = 0))"

lemma auto_reportI:
  "subseq ok pids \<Longrightarrow> k = length pids \<Longrightarrow>
     auto_report pids why (terminate_output PNone (ok \<noteq> []) why ok k (length still) (still = []))"
  unfolding auto_report_def by (intro exI [of _ ok] exI [of _ "length still"]) simp

lemma auto_report_none: "auto_report [] why (terminate_output PNone False why [] 0 0 True)"
  using auto_reportI [of "[]" "[]" 0 why "[]"] by simp

lemma serve_auto_terminate:
  assumes "uncancelled client" "hl_pool L = Some True" "client w Connect = (Inr c, w1)"
    and "client w1 (Sql (IdleCandidates max_auto_terminate)) = (Inr (PList rows), w2)"
    and "map_res candidate rows = Inr cs" "cs \<noteq> []"
  shows "\<exists>r qs w'. serve (terminate_backend L None why) client w =
       (Connect # Sql (IdleCandidates max_auto_terminate) # map (Sql \<circ> TerminatePid \<circ> fst) cs @ qs, r, w')
     \<and> filter mutating qs = [] \<and> (\<forall>out. r = Inr out \<longrightarrow> auto_report (map fst cs) why out)"
proof -
  obtain ok w3 where each: "serve (terminate_each (map fst cs)) client w2 = (map (Sql \<circ> TerminatePid) (map fst cs), Inr ok, w3)"
    and sub: "subseq ok (map fst cs)"
    using serve_terminate_each [OF assms(1)] by blast
  obtain p w4 where pause: "client w3 (Pause verify_delay_seconds) = (p, w4)" by fastforce
  obtain still w5 where check: "serve (still_idle (map fst cs)) client w4 = ([Sql (StillIdle (map fst cs))], still, w5)"
    using serve_still_idle [of "map fst cs" client w4] by blast
  have start: "serve (terminate_backend L None why) client w =
      (let (qs, r, w') = serve (andthen (await (Pause verify_delay_seconds)) (\<lambda>_.
           andthen (still_idle (map fst cs)) (\<lambda>still_present.
           returns (terminate_output PNone (ok \<noteq> []) why ok (length cs) (length still_present) (still_present = []))))) client w3
       in (Connect # Sql (IdleCandidates max_auto_terminate) # map (Sql \<circ> TerminatePid \<circ> fst) cs @ qs, r, w'))"
    using assms(2-6) each
    by (simp add: terminate_backend_def terminate_idle_in_transaction_def connection_def fetch_all_def
        serve_andthen wrapped_def serve_except items_of_def comp_assoc Let_def split_beta)
  show ?thesis
  proof (cases p)
    case (Inl e)
    then show ?thesis using start sub by (auto simp: serve_andthen pause)
  next
    case (Inr v)
    then show ?thesis
      using start sub auto_reportI [of ok "map fst cs" "length cs" why]
      by (cases still) (auto simp: serve_andthen pause check Let_def)
  qed
qed

text \<open>The automatic termination is bounded and tries everyone. When no call is cancelled and the
  server keeps to the LIMIT of the candidate query, the requests that change something are exactly
  one termination for each candidate the query returned, in its order and whatever becomes of the
  earlier ones, so at most fifty; and a report, if one is made, counts all of them as candidates,
  lists as terminated only some of them and claims success exactly when the re-check found none.\<close>

lemma auto_terminate_bounded:
  assumes "uncancelled client" and "hl_pool L = Some True" and "client w Connect = (Inr c, w1)"
    and "client w1 (Sql (IdleCandidates max_auto_terminate)) = (Inr (PList rows), w2)"
    and "map_res candidate rows = Inr cs" and "int (length rows) \<le> max_auto_terminate"
  shows "\<exists>qs r w'. serve (terminate_backend L None why) client w = (qs, r, w')
       \<and> filter mutating qs = map (Sql \<circ> TerminatePid \<circ> fst) cs
       \<and> length (filter mutating qs) \<le> 50
       \<and> (\<forall>out. r = Inr out \<longrightarrow> auto_report (map fst cs) why out)"
proof -
  have "list_all2 (\<lambda>x y. candidate x = Inr y) rows cs" using assms(5) by (rule map_res_Inr)
  then have len: "length cs \<le> 50"
    using assms(6) list_all2_lengthD by (fastforce simp: max_auto_terminate_def)
  have kills: "filter mutating (map (Sql \<circ> TerminatePid \<circ> fst) cs) = map (Sql \<circ> TerminatePid \<circ> fst) cs"
    by (auto simp: filter_id_conv)
  show ?thesis
  proof (cases "cs = []")
    case True
    then show ?thesis
      using assms(2-5)
      by (auto simp: terminate_backend_def terminate_idle_in_transaction_def connection_def fetch_all_def
          serve_andthen wrapped_def serve_except items_of_def Let_def auto_report_none)
  next
    case False
    then show ?thesis
      using serve_auto_terminate [OF assms(1-5) False, of why] kills len by auto
  qed
qed

definition two_idle :: "unit \<Rightarrow> request \<Rightarrow> (exn + pyval) \<times> unit" where
  "two_idle w q =
     (case q of
        Sql (IdleCandidates n) \<Rightarrow> (Inr (PList [PList [PInt 11, PNone, PStr ''app''], PList [PInt 12, PNone, PStr ''app'']]), ())
      | Sql (TerminatePid p) \<Rightarrow>
          (if p = 11 then Inl (PyError (RuntimeError ''lost'')) else Inr (PList [PBool True]), ())
      | Sql (StillIdle ps) \<Rightarrow> (Inl (PyError (TimeoutError ''re-check'')), ())
      | _ \<Rightarrow> (Inr PNone, ()))"

theorem auto_terminate_bounded_witness:
  "\<exists>qs r w'. serve (terminate_backend ready_lib None ''pool exhausted'') two_idle () = (qs, r, w')
     \<and> filter mutating qs = [Sql (TerminatePid 11), Sql (TerminatePid 12)] \<and> length (filter mutating qs) \<le> 50"
proof -
  have "uncancelled two_idle"
    by (auto simp: uncancelled_def two_idle_def caught_by_exception_def split: request.splits sql.splits if_splits)
  moreover have "hl_pool ready_lib = Some True" by (simp add: ready_lib_def)
  moreover have "two_idle () Connect = (Inr PNone, ())" by (simp add: two_idle_def)
  moreover have "two_idle () (Sql (IdleCandidates max_auto_terminate)) =
      (Inr (PList [PList [PInt 11, PNone, PStr ''app''], PList [PInt 12, PNone, PStr ''app'']]), ())"
    by (simp add: two_idle_def)
  moreover have "map_res candidate [PList [PInt 11, PNone, PStr ''app''], PList [PInt 12, PNone, PStr ''app'']]
      = Inr [(11, PNone), (12, PNone)]"
    by (simp add: candidate_def int_at_def row_at_def lift_py_def py_int_def)
  ultimately show ?thesis
    using auto_terminate_bounded [of two_idle ready_lib "()" PNone "()"
        "[PList [PInt 11, PNone, PStr ''app''], PList [PInt 12, PNone, PStr ''app'']]" "()"
        "[(11, PNone), (12, PNone)]" "''pool exhausted''"]
    by (auto simp: max_auto_terminate_def)
qed

text \<open>The automatic mode is fail-open: when the re-check itself fails, the report says verified.\<close>

lemma auto_terminate_fail_open:
  "snd (serve (terminate_backend ready_lib None ''pool exhausted'') two_idle ()) =
     (Inr (terminate_output PNone True ''pool exhausted'' [12] 2 0 True), ())"
  by code_simp

end
