(* ===== verification/Observability.thy ===== *)
theory Observability
  imports Handlers
begin

text \<open>
  The OpenObserve tool, \<^verbatim>\<open>tools/observability.py\<close>: the HTTP adapter's \<open>query\<close> (clamping, the
  FROM and LIMIT completion of the SQL text, the payload, the treatment of every HTTP outcome), the
  normalisation of result shapes and the handler. The handler may be given another client with a
  \<open>query\<close> method, so that method is its argument. A response is an object with \<open>status_code\<close>,
  \<open>text\<close> and \<open>json\<close>; without the last, \<open>json()\<close> raises. The credentials go to httpx and into no
  request the model sees, so \<open>session\<close> keeps the base URL and the organisation.
\<close>

section \<open>The HTTP adapter\<close>

record session =
  se_base_url :: string
  se_org_id :: string

definition attr_or :: "pyval \<Rightarrow> string \<Rightarrow> pyval \<Rightarrow> pyval" where
  "attr_or v k d = (case get_attr v k of Some w \<Rightarrow> w | None \<Rightarrow> d)"

definition ensure_session :: "handler_lib \<Rightarrow> exn + session" where
  "ensure_session L =
     (let o2 = hl_openobserve L
      in if o2 = PNone then Inl (PyError (RuntimeError ''settings.openobserve not configured''))
         else Inr \<lparr>se_base_url = rstrip_char (CHR ''/'')
                      (py_str (hl_repr L) (attr_or o2 ''url'' (PStr ''http://localhost:5080''))),
                   se_org_id = py_str (hl_repr L)
                      (py_or (attr_or o2 ''org_id'' (PStr ''default'')) (PStr ''default''))\<rparr>)"

definition clamp :: "int \<Rightarrow> int \<Rightarrow> int \<Rightarrow> int" where
  "clamp lo hi x = max lo (min hi x)"

definition effective_stream :: "string \<Rightarrow> string" where
  "effective_stream stream =
     (let s = (if stream = [] then ''app_logs'' else stream)
      in if s = ''logs'' then ''app_logs'' else s)"

definition complete_sql :: "string \<Rightarrow> string \<Rightarrow> int \<Rightarrow> string" where
  "complete_sql query stream limit =
     (let sql = rstrip_char (CHR '';'') (str_strip query);
          upper_sql = str_upper sql;
          sql1 = (if \<not> str_contains upper_sql ''FROM'' then sql @ '' FROM '' @ effective_stream stream else sql)
      in if \<not> str_contains upper_sql ''LIMIT'' then sql1 @ '' LIMIT '' @ show_int limit else sql1)"

definition search_payload :: "string \<Rightarrow> int \<Rightarrow> int \<Rightarrow> int \<Rightarrow> pydict" where
  "search_payload sql start_us now_us limit =
     [(''query'', PDict [(''sql'', PStr sql), (''start_time'', PInt start_us), (''end_time'', PInt now_us),
        (''from'', PInt 0), (''size'', PInt limit)])]"

definition tool_failure :: "py_error \<Rightarrow> exn" where
  "tool_failure e = ToolExecutionError ''query_openobserve'' (PyError e)"

text \<open>\<open>len(hits)\<close>: evaluated before the type of \<open>hits\<close> is checked.\<close>

definition py_len :: "pyval \<Rightarrow> exn + int" where
  "py_len v =
     (case v of
        PList xs \<Rightarrow> Inr (int (length xs))
      | PDict d \<Rightarrow> Inr (int (length d))
      | PStr s \<Rightarrow> Inr (int (length s))
      | PBytes s \<Rightarrow> Inr (int (length s))
      | _ \<Rightarrow> Inl (PyError (TypeError ''object has no len()'')))"

definition text_or_empty :: "pyval \<Rightarrow> string" where
  "text_or_empty v = (case v of PStr s \<Rightarrow> s | _ \<Rightarrow> [])"

definition status_code :: "pyval \<Rightarrow> int" where
  "status_code resp = (case get_attr resp ''status_code'' of Some (PInt c) \<Rightarrow> c | _ \<Rightarrow> 0)"

text \<open>What \<open>query\<close> makes of a response: the refusals by status, then the body.\<close>

definition read_response :: "pyval \<Rightarrow> exn + pyval" where
  "read_response resp =
     (let code = status_code resp; body = text_or_empty (attr_or resp ''text'' PNone)
      in if code = 401 then Inl (tool_failure (PermissionError
             (''OpenObserve authentication failed (HTTP 401): '' @ take 200 body)))
         else if code = 400 then Inl (tool_failure (ValueError
             (''OpenObserve rejected query (HTTP 400): '' @ take 300 body)))
         else if code \<ge> 400 then Inl (tool_failure (RuntimeError
             (''OpenObserve returned HTTP '' @ show_int code @ '': '' @ take 300 body)))
         else case get_attr resp ''json'' of
                Some v \<Rightarrow> Inr v
              | None \<Rightarrow> Inl (JSONDecodeError ''Expecting value''))"

definition hits_and_total :: "pyval \<Rightarrow> exn + pyval" where
  "hits_and_total body =
     (let hits = map_get body ''hits'' (PList [])
      in bind_res (case body of
                     PDict m \<Rightarrow> bind_res (py_len hits) (\<lambda>n. Inr (dget_or m ''total'' (PInt n)))
                   | _ \<Rightarrow> Inr (PInt 0)) (\<lambda>reported.
         let rows = list_or_empty hits
         in bind_res (if reported = PNone then Inr (int (length rows)) else lift_py (py_int reported)) (\<lambda>n.
            Inr (PDict [(''hits'', PList rows), (''total'', PInt n)]))))"

definition openobserve_query :: "handler_lib \<Rightarrow> string \<Rightarrow> string \<Rightarrow> int \<Rightarrow> int \<Rightarrow> pyval prog" where
  "openobserve_query L query stream time_range_minutes limit_arg =
     andthen (Finish (ensure_session L)) (\<lambda>se.
     let minutes = clamp 1 1440 time_range_minutes;
         limit = clamp 1 500 limit_arg;
         now_us = trunc_rat (hl_now L 0 * 1000000);
         start_us = now_us - minutes * 60 * 1000000
     in andthen (except (await (HttpPost (se_base_url se)
                           (''/api/'' @ se_org_id se @ ''/_search?type=logs'')
                           (search_payload (complete_sql query stream limit) start_us now_us limit)))
          (\<lambda>e. if hl_http_timeout L e
               then raises (tool_failure (ConnectionError (''OpenObserve request timed out: '' @ hl_show_exn L e)))
               else if hl_http_error L e
               then raises (tool_failure (ConnectionError (''Failed to reach OpenObserve: '' @ hl_show_exn L e)))
               else raises e)) (\<lambda>resp.
        Finish (bind_res (read_response resp) hits_and_total)))"

section \<open>The handler\<close>

text \<open>\<open>_normalise_openobserve_result\<close>: rows, the reported total, the error text.\<close>

definition normalise_mapping :: "handler_lib \<Rightarrow> pydict \<Rightarrow> exn + pyval list \<times> int option \<times> string option" where
  "normalise_mapping L m =
     (let error_raw = dget_or m ''error'' PNone;
          error = (if truthy error_raw then Some (py_str (hl_repr L) error_raw) else None);
          hits1 = dget_or m ''hits'' (PList []);
          hits2 = (if is_mapping hits1 then map_get hits1 ''hits'' (PList []) else hits1);
          rows = mappings (list_or_empty hits2);
          total_raw = dget_or m ''total'' PNone
      in case (if total_raw = PNone then Inr None else case py_int total_raw of
                 Inr n \<Rightarrow> Inr (Some n)
               | Inl (OverflowError x) \<Rightarrow> Inl (PyError (OverflowError x))
               | Inl _ \<Rightarrow> Inr None) of
           Inl e \<Rightarrow> Inl e
         | Inr reported \<Rightarrow> Inr (rows, reported, error))"

definition normalise_value :: "handler_lib \<Rightarrow> pyval \<Rightarrow> exn + pyval list \<times> int option \<times> string option" where
  "normalise_value L v =
     (case v of
        PList xs \<Rightarrow> Inr (mappings xs, None, None)
      | PDict m \<Rightarrow> normalise_mapping L m
      | _ \<Rightarrow> Inr ([], None, Some ''OpenObserve returned an unsupported response shape''))"

definition normalise_openobserve_result ::
  "handler_lib \<Rightarrow> pyval \<Rightarrow> exn + pyval list \<times> int option \<times> string option" where
  "normalise_openobserve_result L result =
     (case (case result of PStr s \<Rightarrow> Some (hl_loads L s) | PBytes s \<Rightarrow> Some (hl_loads L s) | _ \<Rightarrow> None) of
        Some None \<Rightarrow> Inr ([], None, Some ''OpenObserve returned non-JSON data'')
      | Some (Some v) \<Rightarrow> normalise_value L v
      | None \<Rightarrow> normalise_value L result)"

definition query_output :: "int \<Rightarrow> pyval list \<times> int option \<times> string option \<Rightarrow> pyval" where
  "query_output limit x =
     (let (rows, reported, error) = x;
          n = int (length rows);
          tot = (case reported of Some r \<Rightarrow> max r n | None \<Rightarrow> n);
          no_error = (error = None \<or> error = Some []);
          truncated = (no_error \<and> (n \<ge> limit \<or> tot > n))
      in PDict [(''rows'', PList rows), (''total'', PInt tot), (''truncated'', PBool truncated),
                (''error'', case error of None \<Rightarrow> PNone | Some s \<Rightarrow> PStr s)])"

definition query_openobserve ::
  "handler_lib \<Rightarrow> (string \<Rightarrow> string \<Rightarrow> int \<Rightarrow> int \<Rightarrow> pyval prog) \<Rightarrow>
     string \<Rightarrow> string \<Rightarrow> int \<Rightarrow> int \<Rightarrow> pyval prog" where
  "query_openobserve L query_method query stream minutes limit =
     andthen (o11y_client L) (\<lambda>_.
     if hl_observe L \<noteq> Some True
     then raises (tool_failure (TypeError ''SREContext.openobserve_client does not implement query()''))
     else andthen (except (query_method query stream minutes limit)
            (\<lambda>e. case e of ToolExecutionError t e' \<Rightarrow> raises e
                 | _ \<Rightarrow> raises (ToolExecutionError ''query_openobserve'' e))) (\<lambda>result.
     andthen (Finish (normalise_openobserve_result L result)) (\<lambda>x.
     returns (query_output limit x))))"

section \<open>What is asked and what is reported\<close>

lemma openobserve_query_reads: "every (\<lambda>q. \<not> mutating q) (openobserve_query L q s m n)"
  unfolding openobserve_query_def Let_def by (intro prog_intros) auto

lemma query_openobserve_asks:
  "every P (query_method q s m n) \<Longrightarrow> every P (query_openobserve L query_method q s m n)"
  unfolding query_openobserve_def by (intro prog_intros) (auto split: exn.splits)

text \<open>The posted window: at most a day back, ending now, of at most 500 rows.\<close>

fun post_bounded :: "handler_lib \<Rightarrow> request \<Rightarrow> bool" where
  "post_bounded L (HttpPost base path payload) =
     (\<exists>sql start now_us limit. payload = search_payload sql start now_us limit \<and> 1 \<le> limit \<and> limit \<le> 500
        \<and> now_us = trunc_rat (hl_now L 0 * 1000000)
        \<and> 60000000 \<le> now_us - start \<and> now_us - start \<le> 86400000000)"
| "post_bounded L _ = False"

lemma openobserve_query_bounded: "every (post_bounded L) (openobserve_query L q s m n)"
proof -
  have "1 \<le> clamp 1 500 n \<and> clamp 1 500 n \<le> 500" "1 \<le> clamp 1 1440 m \<and> clamp 1 1440 m \<le> 1440"
    by (auto simp: clamp_def)
  then have "post_bounded L (HttpPost b p (search_payload sql
      (trunc_rat (hl_now L 0 * 1000000) - clamp 1 1440 m * 60 * 1000000)
      (trunc_rat (hl_now L 0 * 1000000)) (clamp 1 500 n)))" for b p sql
    by (fastforce simp: algebra_simps)
  then show ?thesis
    unfolding openobserve_query_def Let_def by (intro prog_intros) auto
qed

end
