(* ===== verification/Builtin.thy ===== *)
theory Builtin
  imports Kubernetes Databases Observability
begin

text \<open>
  The built-in tools put together: the handler that each \<open>register\<close> of \<^verbatim>\<open>tools/\<close> binds to a
  name, applied to the fields of its validated input (a missing field has its default, a field
  with a blank check is stripped). The properties are about every handler at once: what its tier
  promises is what its requests keep.
\<close>

section \<open>Dispatch\<close>

definition field_of :: "string \<Rightarrow> field_spec list \<Rightarrow> field_spec option" where
  "field_of k fs = find (\<lambda>f. fs_name f = k) fs"

text \<open>A field of the validated input.\<close>

definition arg :: "field_spec list \<Rightarrow> pydict \<Rightarrow> string \<Rightarrow> pyval" where
  "arg fs args k =
     (case field_of k fs of
        None \<Rightarrow> PNone
      | Some f \<Rightarrow>
          (case dget args k of
             None \<Rightarrow> (case fs_default f of None \<Rightarrow> PNone | Some d \<Rightarrow> d)
           | Some (PStr s) \<Rightarrow> PStr (if fs_strip f then str_strip s else s)
           | Some v \<Rightarrow> v))"

definition arg_text :: "field_spec list \<Rightarrow> pydict \<Rightarrow> string \<Rightarrow> string" where
  "arg_text fs args k = (case arg fs args k of PStr s \<Rightarrow> s | _ \<Rightarrow> [])"

definition arg_opt_text :: "field_spec list \<Rightarrow> pydict \<Rightarrow> string \<Rightarrow> string option" where
  "arg_opt_text fs args k = (case arg fs args k of PStr s \<Rightarrow> Some s | _ \<Rightarrow> None)"

definition arg_int :: "field_spec list \<Rightarrow> pydict \<Rightarrow> string \<Rightarrow> int" where
  "arg_int fs args k = (case arg fs args k of PInt i \<Rightarrow> i | _ \<Rightarrow> 0)"

definition arg_opt_int :: "field_spec list \<Rightarrow> pydict \<Rightarrow> string \<Rightarrow> int option" where
  "arg_opt_int fs args k = (case arg fs args k of PInt i \<Rightarrow> Some i | _ \<Rightarrow> None)"

definition arg_bool :: "field_spec list \<Rightarrow> pydict \<Rightarrow> string \<Rightarrow> bool" where
  "arg_bool fs args k = (case arg fs args k of PBool b \<Rightarrow> b | _ \<Rightarrow> False)"

definition k8s_handler :: "handler_lib \<Rightarrow> string \<Rightarrow> pydict \<Rightarrow> pyval prog option" where
  "k8s_handler L name a =
     (if name = ''list_pods'' then
        (let f = list_pods_input in Some (list_pods L (arg_text f a ''namespace'') (arg_text f a ''label_selector'')))
      else if name = ''get_pod_events'' then
        (let f = get_pod_events_input
         in Some (get_pod_events L (arg_text f a ''namespace'') (arg_text f a ''pod_name'') (arg_int f a ''limit'')))
      else if name = ''get_pod_logs'' then
        (let f = get_pod_logs_input
         in Some (get_pod_logs L (arg_text f a ''namespace'') (arg_text f a ''pod_name'')
              (arg_opt_text f a ''container'') (arg_int f a ''tail_lines'') (arg_bool f a ''previous'')))
      else if name = ''get_deployment_status'' then
        (let f = get_deployment_status_input
         in Some (get_deployment_status L (arg_text f a ''namespace'') (arg_text f a ''name'')))
      else if name = ''get_pod_metrics'' then
        (let f = get_pod_metrics_input
         in Some (get_pod_metrics L (arg_text f a ''namespace'') (arg_text f a ''label_selector'')))
      else if name = ''restart_deployment'' then
        (let f = restart_deployment_input
         in Some (restart_deployment L (arg_text f a ''namespace'') (arg_text f a ''name'') (arg_text f a ''reason'')))
      else if name = ''delete_pod'' then
        (let f = delete_pod_input
         in Some (delete_pod L (arg_text f a ''namespace'') (arg_text f a ''name'')
              (arg_int f a ''grace_period_seconds'') (arg_text f a ''reason'')))
      else if name = ''scale_deployment'' then
        (let f = scale_deployment_input
         in Some (scale_deployment L (arg_text f a ''namespace'') (arg_text f a ''name'')
              (arg_int f a ''replicas'') (arg_text f a ''reason'')))
      else None)"

definition postgres_handler :: "handler_lib \<Rightarrow> string \<Rightarrow> pydict \<Rightarrow> pyval prog option" where
  "postgres_handler L name a =
     (if name = ''get_active_queries'' then
        (let f = get_active_queries_input
         in Some (get_active_queries L (arg_int f a ''min_duration_seconds'') (arg_int f a ''limit'')
              (arg_bool f a ''exclude_idle'')))
      else if name = ''get_lock_waits'' then
        Some (get_lock_waits L (arg_int get_lock_waits_input a ''limit''))
      else if name = ''get_connection_stats'' then Some (get_connection_stats L)
      else if name = ''terminate_backend'' then
        (let f = terminate_backend_input
         in Some (terminate_backend L (arg_opt_int f a ''pid'') (arg_text f a ''reason'')))
      else None)"

definition valkey_handler :: "handler_lib \<Rightarrow> string \<Rightarrow> pydict \<Rightarrow> pyval prog option" where
  "valkey_handler L name a =
     (if name = ''get_valkey_stats'' then Some (get_valkey_stats L)
      else if name = ''get_valkey_stream_info'' then
        Some (get_valkey_stream_info L (arg_text get_valkey_stream_info_input a ''stream_key''))
      else if name = ''delete_valkey_key'' then
        (let f = delete_valkey_key_input
         in Some (delete_valkey_key L (arg_text f a ''key'') (arg_text f a ''reason'')))
      else if name = ''flush_all'' then Some (flush_all L (arg_text flush_all_input a ''reason''))
      else None)"

definition observability_handler :: "handler_lib \<Rightarrow> string \<Rightarrow> pydict \<Rightarrow> pyval prog option" where
  "observability_handler L name a =
     (if name = ''query_openobserve'' then
        (let f = query_openobserve_input
         in Some (query_openobserve L (openobserve_query L) (arg_text f a ''query'') (arg_text f a ''stream'')
              (arg_int f a ''time_range_minutes'') (arg_int f a ''limit'')))
      else None)"

definition builtin_handler :: "handler_lib \<Rightarrow> string \<Rightarrow> pydict \<Rightarrow> pyval prog option" where
  "builtin_handler L name a =
     (case k8s_handler L name a of Some p \<Rightarrow> Some p | None \<Rightarrow>
      (case postgres_handler L name a of Some p \<Rightarrow> Some p | None \<Rightarrow>
       (case observability_handler L name a of Some p \<Rightarrow> Some p | None \<Rightarrow> valkey_handler L name a)))"

section \<open>What a tier promises\<close>

text \<open>The requests that change something, by tool: a Tier-0 tool has none, every other tool one kind,
  on the target its arguments name; \<open>terminate_backend\<close> without a process id may end any.\<close>

definition permitted :: "handler_lib \<Rightarrow> string \<Rightarrow> pydict \<Rightarrow> request \<Rightarrow> bool" where
  "permitted L name a q =
     (mutating q \<longrightarrow>
       (let k = (\<lambda>f key. arg_text f a key)
        in (name = ''restart_deployment''
              \<and> q = PatchObject ''Deployment'' (k restart_deployment_input ''namespace'')
                      (k restart_deployment_input ''name'') (restart_patch (hl_now_iso L)))
         \<or> (name = ''delete_pod''
              \<and> q = DeleteObject ''Pod'' (k delete_pod_input ''namespace'') (k delete_pod_input ''name'')
                      (if arg_int delete_pod_input a ''grace_period_seconds'' = 0 then Some 0 else None))
         \<or> (name = ''scale_deployment''
              \<and> q = PatchObject ''Deployment'' (k scale_deployment_input ''namespace'')
                      (k scale_deployment_input ''name'')
                      [(''spec'', PDict [(''replicas'', PInt (arg_int scale_deployment_input a ''replicas''))])])
         \<or> (name = ''terminate_backend''
              \<and> (case arg_opt_int terminate_backend_input a ''pid'' of
                    Some pid \<Rightarrow> q = Sql (TerminatePid pid)
                  | None \<Rightarrow> (\<exists>pid. q = Sql (TerminatePid pid))))
         \<or> (name = ''delete_valkey_key'' \<and> q = ValkeyDelete (k delete_valkey_key_input ''key''))
         \<or> (name = ''flush_all'' \<and> q = ValkeyFlush)))"

lemma reads_permitted: "every (\<lambda>q. \<not> mutating q) p \<Longrightarrow> every (permitted L name a) p"
  by (erule every_mono) (simp add: permitted_def)

lemma if_Some_cases:
  "(if b then Some x else y) = Some p \<Longrightarrow> (b \<Longrightarrow> x = p \<Longrightarrow> R) \<Longrightarrow> (\<not> b \<Longrightarrow> y = Some p \<Longrightarrow> R) \<Longrightarrow> R"
  by (simp split: if_splits)

lemma permitted_restart:
  "every (permitted L ''restart_deployment'' a) (restart_deployment L (arg_text restart_deployment_input a ''namespace'')
     (arg_text restart_deployment_input a ''name'') why)"
  by (rule every_mono [OF restart_deployment_asks]) (simp add: permitted_def Let_def)

lemma permitted_delete:
  "every (permitted L ''delete_pod'' a) (delete_pod L (arg_text delete_pod_input a ''namespace'')
     (arg_text delete_pod_input a ''name'') (arg_int delete_pod_input a ''grace_period_seconds'') why)"
  by (rule every_mono [OF delete_pod_asks]) (simp add: permitted_def Let_def)

lemma permitted_scale:
  "every (permitted L ''scale_deployment'' a) (scale_deployment L (arg_text scale_deployment_input a ''namespace'')
     (arg_text scale_deployment_input a ''name'') (arg_int scale_deployment_input a ''replicas'') why)"
  by (rule every_mono [OF scale_deployment_asks]) (simp add: permitted_def Let_def)

lemma permitted_terminate:
  "every (permitted L ''terminate_backend'' a) (terminate_backend L (arg_opt_int terminate_backend_input a ''pid'') why)"
proof (cases "arg_opt_int terminate_backend_input a ''pid''")
  case None
  then show ?thesis unfolding terminate_backend_def option.case None
    by (intro every_mono [OF terminate_idle_asks]) (simp add: permitted_def Let_def None)
next
  case (Some pid)
  then show ?thesis unfolding Some
    by (intro every_mono [OF terminate_one_asks]) (simp add: permitted_def Let_def Some)
qed

lemma permitted_delete_key:
  "every (permitted L ''delete_valkey_key'' a) (delete_valkey_key L (arg_text delete_valkey_key_input a ''key'') why)"
  by (rule every_mono [OF delete_valkey_key_asks]) (simp add: permitted_def Let_def)

lemma permitted_flush: "every (permitted L ''flush_all'' a) (flush_all L why)"
  by (rule every_mono [OF flush_all_asks]) (simp add: permitted_def Let_def)

lemmas diagnostics_read = list_pods_reads get_pod_events_reads get_pod_logs_reads get_deployment_status_reads
  get_pod_metrics_reads get_active_queries_reads get_lock_waits_reads get_connection_stats_reads
  get_valkey_stats_reads get_valkey_stream_info_reads query_openobserve_asks [OF openobserve_query_reads]

lemma k8s_handler_permitted: "k8s_handler L name a = Some p \<Longrightarrow> every (permitted L name a) p"
  unfolding k8s_handler_def Let_def
  by (elim if_Some_cases; (hypsubst)?)
    (simp_all only: permitted_restart permitted_delete permitted_scale diagnostics_read [THEN reads_permitted] option.distinct)

lemma postgres_handler_permitted: "postgres_handler L name a = Some p \<Longrightarrow> every (permitted L name a) p"
  unfolding postgres_handler_def Let_def
  by (elim if_Some_cases; (hypsubst)?)
    (simp_all only: permitted_terminate diagnostics_read [THEN reads_permitted] option.distinct)

lemma valkey_handler_permitted: "valkey_handler L name a = Some p \<Longrightarrow> every (permitted L name a) p"
  unfolding valkey_handler_def Let_def
  by (elim if_Some_cases; (hypsubst)?)
    (simp_all only: permitted_delete_key permitted_flush diagnostics_read [THEN reads_permitted] option.distinct)

lemma observability_handler_permitted: "observability_handler L name a = Some p \<Longrightarrow> every (permitted L name a) p"
  unfolding observability_handler_def Let_def
  by (elim if_Some_cases; (hypsubst)?)
    (simp_all only: diagnostics_read [THEN reads_permitted] option.distinct)

lemma builtin_handler_permitted: "builtin_handler L name a = Some p \<Longrightarrow> every (permitted L name a) p"
  by (auto simp: builtin_handler_def split: option.splits
      dest: k8s_handler_permitted postgres_handler_permitted valkey_handler_permitted observability_handler_permitted)

section \<open>Every handler\<close>

lemma default_tool_names:
  "map ts_name default_tool_specs =
     [''list_pods'', ''get_pod_events'', ''get_pod_logs'', ''get_deployment_status'', ''get_pod_metrics'',
      ''restart_deployment'', ''delete_pod'', ''scale_deployment'', ''get_active_queries'', ''get_lock_waits'',
      ''get_connection_stats'', ''terminate_backend'', ''query_openobserve'', ''get_valkey_stats'',
      ''get_valkey_stream_info'', ''delete_valkey_key'', ''flush_all'']"
  by code_simp

text \<open>Every registered name has a handler.\<close>

lemma builtin_handler_exists: "s \<in> set default_tool_specs \<Longrightarrow> builtin_handler L (ts_name s) a \<noteq> None"
proof -
  have "list_all (\<lambda>n. builtin_handler L n a \<noteq> None) (map ts_name default_tool_specs)"
    unfolding default_tool_names
    by (simp add: builtin_handler_def k8s_handler_def postgres_handler_def valkey_handler_def
        observability_handler_def Let_def)
  then show "s \<in> set default_tool_specs \<Longrightarrow> builtin_handler L (ts_name s) a \<noteq> None"
    by (auto simp: list_all_iff)
qed

definition remediation_names :: "string list" where
  "remediation_names =
     [''restart_deployment'', ''delete_pod'', ''scale_deployment'', ''terminate_backend'',
      ''delete_valkey_key'', ''flush_all'']"

lemma remediation_tier:
  "s \<in> set default_tool_specs \<Longrightarrow> ts_risk_tier s = 0 \<longleftrightarrow> ts_name s \<notin> set remediation_names"
proof -
  have "list_all (\<lambda>s. ts_risk_tier s = 0 \<longleftrightarrow> \<not> List.member remediation_names (ts_name s)) default_tool_specs"
    by code_simp
  then show "s \<in> set default_tool_specs \<Longrightarrow> ts_risk_tier s = 0 \<longleftrightarrow> ts_name s \<notin> set remediation_names"
    by (auto simp: list_all_iff)
qed

lemma permitted_only_remediation: "permitted L name a q \<Longrightarrow> mutating q \<Longrightarrow> name \<in> set remediation_names"
  unfolding permitted_def remediation_names_def Let_def by (elim impE disjE conjE) auto

lemma once_wrapped_andthen:
  "(\<And>x. every (\<lambda>q. \<not> P q) (f x)) \<Longrightarrow> at_most P (andthen (wrapped tool (await q)) f) 1"
  unfolding wrapped_def by (intro at_most_first at_most_handled) (auto simp: await_def)

lemma terminate_one_once: "at_most mutating (terminate_backend L (Some pid) why) 1"
  unfolding terminate_backend_def option.case Let_def fetch_one_def
  by (intro once_wrapped_andthen once_intros prog_intros) (auto intro!: prog_intros simp: refuse_def)

lemma builtin_handler_once:
  assumes "builtin_handler L name a = Some p"
    and "name = ''terminate_backend'' \<longrightarrow> arg_opt_int terminate_backend_input a ''pid'' \<noteq> None"
  shows "at_most mutating p 1"
proof (cases "name \<in> set remediation_names")
  case False
  have "every (permitted L name a) p" using assms(1) by (rule builtin_handler_permitted)
  then have "every (\<lambda>q. \<not> mutating q) p"
    by (rule every_mono) (use False permitted_only_remediation in blast)
  then show ?thesis by (rule at_most_0)
next
  case True
  note defs = builtin_handler_def k8s_handler_def postgres_handler_def valkey_handler_def
    observability_handler_def Let_def
  have "name = ''restart_deployment'' \<or> name = ''delete_pod'' \<or> name = ''scale_deployment''
    \<or> name = ''terminate_backend'' \<or> name = ''delete_valkey_key'' \<or> name = ''flush_all''"
    using True by (simp add: remediation_names_def)
  then show ?thesis
  proof (elim disjE)
    assume t: "name = ''terminate_backend''"
    with assms(2) obtain pid where "arg_opt_int terminate_backend_input a ''pid'' = Some pid" by blast
    with t assms(1) show ?thesis by (auto simp: defs simp del: One_nat_def intro: terminate_one_once)
  next
    assume "name = ''restart_deployment''"
    with assms(1) show ?thesis by (auto simp: defs simp del: One_nat_def intro: restart_deployment_once)
  next
    assume "name = ''delete_pod''"
    with assms(1) show ?thesis by (auto simp: defs simp del: One_nat_def intro: delete_pod_once)
  next
    assume "name = ''scale_deployment''"
    with assms(1) show ?thesis by (auto simp: defs simp del: One_nat_def intro: scale_deployment_once)
  next
    assume "name = ''delete_valkey_key''"
    with assms(1) show ?thesis by (auto simp: defs simp del: One_nat_def intro: delete_valkey_key_once)
  next
    assume "name = ''flush_all''"
    with assms(1) show ?thesis by (auto simp: defs simp del: One_nat_def intro: flush_all_once)
  qed
qed

text \<open>C26: what the risk tiers promise, kept by the handlers. Every registered tool has a handler, and
  whatever its clients answer, its requests that change something are of the one kind its name
  says and on the target its arguments name: a Tier-0 tool makes none, and any call other than
  the automatic termination makes at most one.\<close>

theorem handlers_respect_tiers:
  assumes "s \<in> set default_tool_specs"
  shows "\<exists>p. builtin_handler L (ts_name s) args = Some p
     \<and> list_all (permitted L (ts_name s) args) (fst (serve p client w))
     \<and> (ts_risk_tier s = 0 \<longrightarrow> filter mutating (fst (serve p client w)) = [])
     \<and> (ts_name s = ''terminate_backend'' \<and> arg_opt_int terminate_backend_input args ''pid'' = None
        \<or> length (filter mutating (fst (serve p client w))) \<le> 1)"
proof -
  obtain p where p: "builtin_handler L (ts_name s) args = Some p"
    using builtin_handler_exists [OF assms] by blast
  have every: "every (permitted L (ts_name s) args) p" using p by (rule builtin_handler_permitted)
  have reads: "filter mutating (fst (serve p client w)) = []" if "ts_risk_tier s = 0"
  proof -
    have "every (\<lambda>q. \<not> mutating q) p"
      by (rule every_mono [OF every]) (use that remediation_tier [OF assms] permitted_only_remediation in blast)
    then show ?thesis using every_serve [of "\<lambda>q. \<not> mutating q" p client w]
      by (auto simp: list_all_iff filter_empty_conv)
  qed
  have "length (filter mutating (fst (serve p client w))) \<le> 1"
    if "\<not> (ts_name s = ''terminate_backend'' \<and> arg_opt_int terminate_backend_input args ''pid'' = None)"
    by (rule at_most_serve [OF builtin_handler_once [OF p]]) (intro impI notI, rule notE [OF that], intro conjI)
  then have "ts_name s = ''terminate_backend'' \<and> arg_opt_int terminate_backend_input args ''pid'' = None
      \<or> length (filter mutating (fst (serve p client w))) \<le> 1"
    unfolding disj_imp by (rule impI)
  then show ?thesis
    by (intro exI [of _ p] conjI [OF p] conjI [OF every_serve [OF every]] conjI [OF impI]) (rule reads)
qed

definition scale_args :: pydict where
  "scale_args = [(''namespace'', PStr ''shop''), (''name'', PStr ''api''), (''replicas'', PInt 3), (''reason'', PStr ''load'')]"

text \<open>A deployment at two replicas.\<close>

definition api_at_two :: "int \<Rightarrow> request \<Rightarrow> (exn + pyval) \<times> int" where
  "api_at_two n q =
     (case q of
        GetObject kind ns name \<Rightarrow>
          (Inr (PObj [(''name'', PStr name), (''namespace'', PStr ns),
                      (''raw'', PDict [(''spec'', PDict [(''replicas'', PInt n)])])]), n)
      | PatchObject kind ns name patch \<Rightarrow> (Inr PNone, 3)
      | _ \<Rightarrow> (Inr PNone, n))"

theorem handlers_respect_tiers_witness:
  "\<exists>p. builtin_handler ready_lib ''scale_deployment'' scale_args = Some p
     \<and> filter mutating (fst (serve p api_at_two 2)) =
         [PatchObject ''Deployment'' ''shop'' ''api'' [(''spec'', PDict [(''replicas'', PInt 3)])]]
     \<and> list_all (permitted ready_lib ''scale_deployment'' scale_args) (fst (serve p api_at_two 2))
     \<and> length (filter mutating (fst (serve p api_at_two 2))) \<le> 1"
proof -
  let ?s = "k8s_tools ! 7"
  have s: "?s \<in> set default_tool_specs" "ts_name ?s = ''scale_deployment''"
    by (simp_all add: default_tool_specs_def k8s_tools_def)
  obtain p where p: "builtin_handler ready_lib (ts_name ?s) scale_args = Some p"
    "list_all (permitted ready_lib (ts_name ?s) scale_args) (fst (serve p api_at_two 2))"
    "length (filter mutating (fst (serve p api_at_two 2))) \<le> 1"
    using handlers_respect_tiers [OF s(1), of ready_lib scale_args api_at_two 2] unfolding s(2) by auto
  have "map_option (\<lambda>p. filter mutating (fst (serve p api_at_two 2)))
      (builtin_handler ready_lib ''scale_deployment'' scale_args) =
      Some [PatchObject ''Deployment'' ''shop'' ''api'' [(''spec'', PDict [(''replicas'', PInt 3)])]]"
    by code_simp
  with p show ?thesis unfolding s(2) by auto
qed

end
