(* ===== verification/Models.thy ===== *)
theory Models
  imports PyValue
begin

text \<open>
  The types of the pydantic models whose instances leave the program: what a field may hold, and a
  model as the list of its fields, each with its type and whether it is required. An instance is
  the dictionary of its fields, and \<open>conforms\<close> says that a value is an instance of a type. A
  \<open>float\<close> field holds any float, infinities and NaN included; a model says nothing of the ranges of
  its fields, since no output model of the sources does.
\<close>

datatype ty =
    Text | Whole | Number | Flag | Anything
  | Nullable ty
  | ListOf ty
  | DictOf ty
  | Model "(string \<times> ty \<times> bool) list"

abbreviation required :: "string \<Rightarrow> ty \<Rightarrow> string \<times> ty \<times> bool" where
  "required k t \<equiv> (k, t, True)"

abbreviation optional :: "string \<Rightarrow> ty \<Rightarrow> string \<times> ty \<times> bool" where
  "optional k t \<equiv> (k, t, False)"

fun conforms :: "ty \<Rightarrow> pyval \<Rightarrow> bool" where
  "conforms Text v = (case v of PStr _ \<Rightarrow> True | _ \<Rightarrow> False)"
| "conforms Whole v = (case v of PInt _ \<Rightarrow> True | _ \<Rightarrow> False)"
| "conforms Number v = (case v of PFloat _ \<Rightarrow> True | _ \<Rightarrow> False)"
| "conforms Flag v = (case v of PBool _ \<Rightarrow> True | _ \<Rightarrow> False)"
| "conforms Anything v = True"
| "conforms (Nullable t) v = (v = PNone \<or> conforms t v)"
| "conforms (ListOf t) v = (case v of PList xs \<Rightarrow> list_all (conforms t) xs | _ \<Rightarrow> False)"
| "conforms (DictOf t) v = (case v of PDict d \<Rightarrow> list_all (\<lambda>(k, w). conforms t w) d | _ \<Rightarrow> False)"
| "conforms (Model fs) v =
     (case v of
        PDict d \<Rightarrow>
          list_all (\<lambda>k. k \<in> set (map fst fs)) (dkeys d) \<and>
          list_all (\<lambda>(k, t, req). case dget d k of None \<Rightarrow> \<not> req | Some w \<Rightarrow> conforms t w) fs
      | _ \<Rightarrow> False)"

text \<open>What pydantic's validation of such a value does is documented: an instance is accepted as it is.\<close>

definition accepts :: "(pyval \<Rightarrow> 'e + pyval) \<Rightarrow> ty \<Rightarrow> bool" where
  "accepts validate t = (\<forall>v. conforms t v \<longrightarrow> validate v = Inr v)"

lemma conforms_values [simp]:
  "conforms Text (PStr s)" "conforms Whole (PInt i)" "conforms Number (PFloat x)" "conforms Flag (PBool b)"
  by simp_all

lemma conforms_if [simp]: "conforms t (if b then v else w) \<longleftrightarrow> (if b then conforms t v else conforms t w)"
  by simp

lemma map_res_all: "map_res f xs = Inr ys \<Longrightarrow> (\<And>x y. f x = Inr y \<Longrightarrow> Q y) \<Longrightarrow> list_all Q ys"
  by (induction xs arbitrary: ys) (auto simp: bind_res_Inr_iff)

end
