(* ===== verification/ToolModels.thy ===== *)
theory ToolModels
  imports Models Builtin
begin

text \<open>
  The output models of the tool modules (\<^verbatim>\<open>tools/k8s.py\<close>, \<^verbatim>\<open>tools/postgres.py\<close>,
  \<^verbatim>\<open>tools/valkey.py\<close>, \<^verbatim>\<open>tools/observability.py\<close>) and the proof that every handler
  returns an instance of the model its registration names, whatever its clients answer.
\<close>

section \<open>Kubernetes\<close>

definition pod_info_model :: ty where
  "pod_info_model = Model [required ''name'' Text, required ''namespace'' Text, required ''status'' Text,
     required ''restarts'' Whole, required ''age_seconds'' Number, optional ''node'' (Nullable Text)]"

definition list_pods_output :: ty where
  "list_pods_output = Model [required ''pods'' (ListOf pod_info_model), required ''total'' Whole]"

definition event_info_model :: ty where
  "event_info_model = Model [required ''type'' Text, required ''reason'' Text, required ''message'' Text,
     required ''count'' Whole, required ''last_timestamp'' Text]"

definition get_pod_events_output :: ty where
  "get_pod_events_output = Model [required ''events'' (ListOf event_info_model), required ''total'' Whole]"

definition get_pod_logs_output :: ty where
  "get_pod_logs_output = Model [required ''logs'' Text, required ''truncated'' Flag]"

definition get_deployment_status_output :: ty where
  "get_deployment_status_output = Model [required ''name'' Text, required ''namespace'' Text,
     required ''replicas'' Whole, required ''ready_replicas'' Whole, required ''updated_replicas'' Whole,
     required ''available_replicas'' Whole, required ''conditions'' (ListOf (DictOf Anything))]"

definition pod_metrics_model :: ty where
  "pod_metrics_model = Model [required ''name'' Text, required ''cpu_millicores'' Whole,
     required ''memory_mb'' Whole, required ''cpu_request_millicores'' Whole, required ''memory_request_mb'' Whole]"

definition get_pod_metrics_output :: ty where
  "get_pod_metrics_output = Model [required ''metrics'' (ListOf pod_metrics_model), required ''total'' Whole,
     optional ''reason'' (Nullable Text)]"

definition restart_deployment_output :: ty where
  "restart_deployment_output = Model [required ''name'' Text, required ''namespace'' Text,
     required ''restarted'' Flag, required ''reason'' Text, optional ''success'' Flag,
     optional ''verification_passed'' (Nullable Flag)]"

definition scale_deployment_output :: ty where
  "scale_deployment_output = Model [required ''name'' Text, required ''namespace'' Text,
     required ''previous_replicas'' Whole, required ''new_replicas'' Whole, required ''scaled'' Flag,
     required ''reason'' Text, optional ''success'' Flag, optional ''verification_passed'' (Nullable Flag)]"

definition delete_pod_output :: ty where
  "delete_pod_output = Model [required ''name'' Text, required ''namespace'' Text, required ''deleted'' Flag,
     required ''reason'' Text, optional ''success'' Flag, optional ''verification_passed'' (Nullable Flag)]"

section \<open>PostgreSQL\<close>

definition active_query_model :: ty where
  "active_query_model = Model [required ''pid'' Whole, required ''usename'' (Nullable Text),
     required ''datname'' (Nullable Text), required ''state'' Text, required ''wait_event_type'' (Nullable Text),
     required ''wait_event'' (Nullable Text), required ''query_duration_seconds'' Number, required ''query'' Text]"

definition get_active_queries_output :: ty where
  "get_active_queries_output = Model [required ''queries'' (ListOf active_query_model), required ''total_running'' Whole]"

definition lock_wait_model :: ty where
  "lock_wait_model = Model [required ''blocked_pid'' Whole, required ''blocking_pid'' Whole,
     required ''blocked_query'' Text, required ''blocking_query'' Text, required ''wait_duration_seconds'' Number]"

definition get_lock_waits_output :: ty where
  "get_lock_waits_output = Model [required ''waits'' (ListOf lock_wait_model)]"

definition connection_stats_model :: ty where
  "connection_stats_model = Model [required ''total_connections'' Whole, required ''active'' Whole,
     required ''idle'' Whole, required ''idle_in_transaction'' Whole, required ''max_connections'' Whole,
     required ''utilisation_pct'' Number]"

definition get_connection_stats_output :: ty where
  "get_connection_stats_output = Model [required ''stats'' connection_stats_model]"

definition terminate_backend_output :: ty where
  "terminate_backend_output = Model [optional ''pid'' (Nullable Whole), required ''terminated'' Flag,
     required ''reason'' Text, optional ''terminated_pids'' (ListOf Whole), optional ''terminated_count'' Whole,
     optional ''candidates_found'' Whole, optional ''still_idle_in_transaction'' Whole, optional ''success'' Flag,
     optional ''verification_passed'' (Nullable Flag)]"

section \<open>Valkey and OpenObserve\<close>

definition valkey_stats_model :: ty where
  "valkey_stats_model = Model [required ''used_memory_mb'' Number, required ''maxmemory_mb'' Number,
     required ''memory_usage_pct'' Number, required ''connected_clients'' Whole, required ''total_keys'' Whole,
     required ''hit_rate_pct'' Number, required ''evicted_keys'' Whole]"

definition get_valkey_stats_output :: ty where
  "get_valkey_stats_output = Model [required ''stats'' valkey_stats_model]"

definition consumer_group_model :: ty where
  "consumer_group_model = Model [required ''group_name'' Text, required ''consumers'' Whole,
     required ''pending_messages'' Whole, optional ''lag_messages'' (Nullable Whole), required ''last_delivered_id'' Text]"

definition get_valkey_stream_info_output :: ty where
  "get_valkey_stream_info_output = Model [required ''stream_key'' Text, required ''stream_length'' Whole,
     required ''groups'' (ListOf consumer_group_model)]"

definition delete_valkey_key_output :: ty where
  "delete_valkey_key_output = Model [required ''key'' Text, required ''deleted'' Flag, required ''reason'' Text,
     optional ''success'' Flag, optional ''verification_passed'' (Nullable Flag)]"

definition flush_all_output :: ty where
  "flush_all_output = Model [required ''flushed'' Flag, required ''reason'' Text, optional ''keys_before'' (Nullable Whole),
     optional ''keys_after'' (Nullable Whole), optional ''success'' Flag, optional ''verification_passed'' (Nullable Flag)]"

definition query_openobserve_output :: ty where
  "query_openobserve_output = Model [required ''rows'' (ListOf (DictOf Anything)), required ''total'' Whole,
     required ''truncated'' Flag, optional ''error'' (Nullable Text)]"

text \<open>The output model each \<open>register\<close> call binds to its name.\<close>

definition output_models :: "(string, ty) dict" where
  "output_models =
    [(''list_pods'', list_pods_output), (''get_pod_events'', get_pod_events_output),
     (''get_pod_logs'', get_pod_logs_output), (''get_deployment_status'', get_deployment_status_output),
     (''get_pod_metrics'', get_pod_metrics_output), (''restart_deployment'', restart_deployment_output),
     (''delete_pod'', delete_pod_output), (''scale_deployment'', scale_deployment_output),
     (''get_active_queries'', get_active_queries_output), (''get_lock_waits'', get_lock_waits_output),
     (''get_connection_stats'', get_connection_stats_output), (''terminate_backend'', terminate_backend_output),
     (''query_openobserve'', query_openobserve_output), (''get_valkey_stats'', get_valkey_stats_output),
     (''get_valkey_stream_info'', get_valkey_stream_info_output), (''delete_valkey_key'', delete_valkey_key_output),
     (''flush_all'', flush_all_output)]"

section \<open>What a program returns\<close>

text \<open>Whatever a program is answered, what it returns satisfies \<open>Q\<close>.\<close>

primrec gives :: "('a \<Rightarrow> bool) \<Rightarrow> 'a prog \<Rightarrow> bool" where
  "gives Q (Finish r) = (case r of Inl e \<Rightarrow> True | Inr x \<Rightarrow> Q x)"
| "gives Q (Ask q k) = (\<forall>r. gives Q (k r))"

named_theorems gives_intros "what composed programs return"

lemma gives_bind: "gives R p \<Longrightarrow> (\<And>x. R x \<Longrightarrow> gives Q (f x)) \<Longrightarrow> gives Q (andthen p f)"
  by (induction p) (auto split: sum.splits)

lemma gives_True [simp]: "gives (\<lambda>_. True) p"
  by (induction p) (auto split: sum.splits)

lemma gives_andthen [gives_intros]: "(\<And>x. gives Q (f x)) \<Longrightarrow> gives Q (andthen p f)"
  by (rule gives_bind [OF gives_True])

lemma gives_except [gives_intros]: "gives Q p \<Longrightarrow> (\<And>e. gives Q (h e)) \<Longrightarrow> gives Q (except p h)"
  by (induction p) (auto split: sum.splits)

lemma gives_wrapped [gives_intros]: "gives Q p \<Longrightarrow> gives Q (wrapped tool p)"
  unfolding wrapped_def by (rule gives_except) auto

lemma gives_if [gives_intros]: "(b \<Longrightarrow> gives Q p) \<Longrightarrow> (\<not> b \<Longrightarrow> gives Q q) \<Longrightarrow> gives Q (if b then p else q)"
  by simp

lemma gives_case_option [gives_intros]:
  "(x = None \<Longrightarrow> gives Q p) \<Longrightarrow> (\<And>y. x = Some y \<Longrightarrow> gives Q (f y)) \<Longrightarrow>
     gives Q (case x of None \<Rightarrow> p | Some y \<Rightarrow> f y)"
  by (cases x) auto

lemma gives_Finish [gives_intros]: "(\<And>x. r = Inr x \<Longrightarrow> Q x) \<Longrightarrow> gives Q (Finish r)"
  by (cases r) auto

lemma gives_serve: "gives Q p \<Longrightarrow> fst (snd (serve p client w)) = Inr v \<Longrightarrow> Q v"
proof (induction p arbitrary: w)
  case (Ask q k)
  then show ?case by (fastforce simp: Let_def split_beta)
qed simp

section \<open>Every handler returns an instance of its model\<close>

lemma pod_info_conforms: "pod_info L ns ir = Inr v \<Longrightarrow> conforms pod_info_model v"
  by (cases ir) (auto simp: pod_info_def pod_info_model_def Let_def bind_res_Inr_iff dkeys_def)

lemma list_pods_conforms: "gives (conforms list_pods_output) (list_pods L ns sel)"
  unfolding list_pods_def
  by (intro gives_intros)
    (auto simp: list_pods_output_def bind_res_Inr_iff dkeys_def dest: map_res_all [OF _ pod_info_conforms])

lemma event_info_conforms: "event_info L e = Inr v \<Longrightarrow> conforms event_info_model v"
  by (auto simp: event_info_def event_info_model_def Let_def bind_res_Inr_iff dkeys_def)

lemma get_pod_events_conforms: "gives (conforms get_pod_events_output) (get_pod_events L ns pod n)"
  unfolding get_pod_events_def Let_def
  by (intro gives_intros)
    (auto simp: get_pod_events_output_def bind_res_Inr_iff dkeys_def dest: map_res_all [OF _ event_info_conforms])

lemma get_pod_logs_conforms: "gives (conforms get_pod_logs_output) (get_pod_logs L ns pod c k b)"
  unfolding get_pod_logs_def Let_def
  by (intro gives_intros) (auto simp: get_pod_logs_output_def dkeys_def)

lemma str_field_conforms: "str_field v = Inr w \<Longrightarrow> conforms Text w"
  by (auto simp: str_field_def split: pyval.splits)

lemma get_deployment_status_conforms:
  "gives (conforms get_deployment_status_output) (get_deployment_status L ns n)"
  unfolding get_deployment_status_def Let_def
  by (intro gives_intros)
    (auto simp: get_deployment_status_output_def bind_res_Inr_iff dkeys_def condition_info_def list_all_iff
      dest!: str_field_conforms)

lemma pod_metric_conforms: "conforms pod_metrics_model (pod_metric L d v)"
  by (auto simp: pod_metric_def pod_metrics_model_def Let_def dkeys_def split: prod.splits)

lemma get_pod_metrics_conforms: "gives (conforms get_pod_metrics_output) (get_pod_metrics L ns sel)"
  unfolding get_pod_metrics_def
  by (intro gives_intros)
    (auto simp: get_pod_metrics_output_def metrics_output_def dkeys_def list_all_iff pod_metric_conforms)

lemma restart_deployment_conforms: "gives (conforms restart_deployment_output) (restart_deployment L ns n why)"
  unfolding restart_deployment_def
  by (intro gives_intros) (auto simp: restart_deployment_output_def dkeys_def)

lemma delete_pod_conforms: "gives (conforms delete_pod_output) (delete_pod L ns n grace why)"
  unfolding delete_pod_def
  by (intro gives_intros) (auto simp: delete_pod_output_def delete_output_def dkeys_def)

lemma scale_deployment_conforms: "gives (conforms scale_deployment_output) (scale_deployment L ns n k why)"
  unfolding scale_deployment_def Let_def
  by (intro gives_intros) (auto simp: scale_deployment_output_def scale_output_def dkeys_def)

lemma opt_str_conforms: "opt_str v = Inr w \<Longrightarrow> conforms (Nullable Text) w"
  by (auto simp: opt_str_def split: pyval.splits)

lemma active_query_conforms: "active_query L row = Inr v \<Longrightarrow> conforms active_query_model v"
  unfolding active_query_def active_query_model_def bind_res_Inr_iff
  by (elim exE conjE) (simp add: bind_res_Inr_iff dkeys_def, elim exE conjE, clarsimp simp: dkeys_def dest!: opt_str_conforms)

lemma get_active_queries_conforms: "gives (conforms get_active_queries_output) (get_active_queries L d n b)"
  unfolding get_active_queries_def
  by (intro gives_intros)
    (auto simp: get_active_queries_output_def bind_res_Inr_iff dkeys_def dest: map_res_all [OF _ active_query_conforms])

lemma lock_wait_conforms: "lock_wait L row = Inr v \<Longrightarrow> conforms lock_wait_model v"
  by (auto simp: lock_wait_def lock_wait_model_def bind_res_Inr_iff dkeys_def)

lemma get_lock_waits_conforms: "gives (conforms get_lock_waits_output) (get_lock_waits L n)"
  unfolding get_lock_waits_def
  by (intro gives_intros)
    (auto simp: get_lock_waits_output_def bind_res_Inr_iff dkeys_def dest: map_res_all [OF _ lock_wait_conforms])

lemma get_connection_stats_conforms: "gives (conforms get_connection_stats_output) (get_connection_stats L)"
  unfolding get_connection_stats_def Let_def case_prod_beta
  by (intro gives_intros)
    (auto simp: get_connection_stats_output_def connection_stats_model_def dkeys_def)

lemma terminate_output_conforms:
  "conforms (Nullable Whole) pid \<Longrightarrow> conforms terminate_backend_output (terminate_output pid t why ps c st ok)"
  by (auto simp: terminate_backend_output_def terminate_output_def dkeys_def list_all_iff)

lemma terminate_backend_conforms: "gives (conforms terminate_backend_output) (terminate_backend L pid why)"
  unfolding terminate_backend_def terminate_idle_in_transaction_def refuse_def Let_def
  by (intro gives_intros) (auto intro!: terminate_output_conforms)

lemma get_valkey_stats_conforms: "gives (conforms get_valkey_stats_output) (get_valkey_stats L)"
  unfolding get_valkey_stats_def
  by (intro gives_intros)
    (auto simp: get_valkey_stats_output_def valkey_stats_model_def stats_output_def Let_def bind_res_Inr_iff dkeys_def)

lemma group_info_conforms: "conforms consumer_group_model (group_info L g)"
  by (auto simp: group_info_def consumer_group_model_def Let_def dkeys_def)

lemma get_valkey_stream_info_conforms: "gives (conforms get_valkey_stream_info_output) (get_valkey_stream_info L k)"
  unfolding get_valkey_stream_info_def
  by (intro gives_intros)
    (auto simp: get_valkey_stream_info_output_def dkeys_def list_all_iff group_info_conforms)

lemma delete_valkey_key_conforms: "gives (conforms delete_valkey_key_output) (delete_valkey_key L k why)"
  unfolding delete_valkey_key_def Let_def
  by (intro gives_intros)
    (auto simp: delete_valkey_key_output_def delete_key_output_def dkeys_def split: option.splits)

lemma flush_all_conforms: "gives (conforms flush_all_output) (flush_all L why)"
  unfolding flush_all_def
  by (intro gives_intros) (auto simp: flush_all_output_def opt_int_def dkeys_def split: option.splits)

text \<open>The rows a result is normalised to are dictionaries.\<close>

lemma mappings_conform: "list_all (conforms (DictOf Anything)) (mappings xs)"
  by (auto simp: mappings_def list_all_iff split: pyval.splits)

lemma normalised_rows: "normalise_openobserve_result L v = Inr (rows, n, e) \<Longrightarrow> list_all (conforms (DictOf Anything)) rows"
  by (auto simp: normalise_openobserve_result_def normalise_value_def normalise_mapping_def Let_def mappings_conform
      split: pyval.splits option.splits sum.splits if_splits py_error.splits)

lemma query_openobserve_conforms: "gives (conforms query_openobserve_output) (query_openobserve L m q s t n)"
  unfolding query_openobserve_def
  by (intro gives_intros gives_bind [of "\<lambda>(rows, r, e). list_all (conforms (DictOf Anything)) rows"])
    (auto simp: query_openobserve_output_def query_output_def Let_def dkeys_def
      split: exn.splits option.splits sum.splits dest: normalised_rows)

section \<open>All handlers at once\<close>

lemmas handler_conforms = list_pods_conforms get_pod_events_conforms get_pod_logs_conforms
  get_deployment_status_conforms get_pod_metrics_conforms restart_deployment_conforms delete_pod_conforms
  scale_deployment_conforms get_active_queries_conforms get_lock_waits_conforms get_connection_stats_conforms
  terminate_backend_conforms query_openobserve_conforms get_valkey_stats_conforms get_valkey_stream_info_conforms
  delete_valkey_key_conforms flush_all_conforms

lemma builtin_handler_conforms:
  assumes "builtin_handler L name a = Some p"
  shows "\<exists>t. dget output_models name = Some t \<and> gives (conforms t) p"
proof -
  have k8s: "\<exists>t. dget output_models name = Some t \<and> gives (conforms t) p" if "k8s_handler L name a = Some p"
    using that unfolding k8s_handler_def Let_def
    by (elim if_Some_cases) (hypsubst?, simp add: output_models_def handler_conforms)+
  have postgres: "\<exists>t. dget output_models name = Some t \<and> gives (conforms t) p" if "postgres_handler L name a = Some p"
    using that unfolding postgres_handler_def Let_def
    by (elim if_Some_cases) (hypsubst?, simp add: output_models_def handler_conforms)+
  have valkey: "\<exists>t. dget output_models name = Some t \<and> gives (conforms t) p" if "valkey_handler L name a = Some p"
    using that unfolding valkey_handler_def Let_def
    by (elim if_Some_cases) (hypsubst?, simp add: output_models_def handler_conforms)+
  have observe: "\<exists>t. dget output_models name = Some t \<and> gives (conforms t) p" if "observability_handler L name a = Some p"
    using that unfolding observability_handler_def Let_def
    by (elim if_Some_cases) (hypsubst?, simp add: output_models_def handler_conforms)+
  from assms show ?thesis
    by (auto simp: builtin_handler_def split: option.splits dest: k8s postgres valkey observe)
qed

text \<open>C16: what a tool returns is what its output model says. Every registered tool has an output model and a
  handler, and whatever its clients answer, a handler that returns gives an instance of that model:
  every required field is there, with a value of its type, and no other field. So a dispatch whose
  output validation accepts the instances of the model ends with the handler's value: a remediation
  that took effect is never reported as failed because its own output was refused.\<close>

theorem outputs_conform:
  assumes "s \<in> set default_tool_specs"
  shows "\<exists>t p. dget output_models (ts_name s) = Some t \<and> builtin_handler L (ts_name s) args = Some p \<and>
    (\<forall>v. fst (snd (serve p client w)) = Inr v \<longrightarrow>
       conforms t v \<and>
       (\<forall>u raw inp. t_input_model u raw = Inr inp \<and> t_handler u inp = outcome_of p client w \<and>
          accepts (t_output_model u) t \<longrightarrow> snd (snd (run_tool js er (ts_name s) u raw)) = Inr v))"
proof -
  obtain p where p: "builtin_handler L (ts_name s) args = Some p"
    using builtin_handler_exists [OF assms] by blast
  then obtain t where t: "dget output_models (ts_name s) = Some t" "gives (conforms t) p"
    using builtin_handler_conforms by blast
  have conf: "conforms t v" if "fst (snd (serve p client w)) = Inr v" for v
    using gives_serve [OF t(2) that] .
  moreover have "snd (snd (run_tool js er (ts_name s) u raw)) = Inr v"
    if "fst (snd (serve p client w)) = Inr v" "t_input_model u raw = Inr inp"
      "t_handler u inp = outcome_of p client w" "accepts (t_output_model u) t" for v u raw inp
    using that conf [OF that(1)] by (simp add: run_tool_def outcome_of_def accepts_def)
  ultimately show ?thesis using p t(1) by blast
qed

text \<open>A pydantic model class, as documented: an instance is accepted, anything else refused.\<close>

definition validated_as :: "ty \<Rightarrow> pyval \<Rightarrow> exn + pyval" where
  "validated_as t v = (if conforms t v then Inr v else Inl (ValidationError ''validation error''))"

definition scaling_tool :: tool where
  "scaling_tool = \<lparr>t_name = ''scale_deployment'', t_description = ''scale'', t_input_model = Inr,
     t_output_model = validated_as scale_deployment_output,
     t_handler = (\<lambda>v. case builtin_handler ready_lib ''scale_deployment'' scale_args of
                        Some p \<Rightarrow> outcome_of p api_at_two 2 | None \<Rightarrow> Returned PNone),
     t_risk_tier = 2, t_strict = False, t_schema = []\<rparr>"

theorem outputs_conform_witness:
  "snd (snd (run_tool (\<lambda>_. []) (\<lambda>_. []) ''scale_deployment'' scaling_tool (PDict scale_args))) =
     Inr (scale_output ''shop'' ''api'' 2 3 True ''load'' PNone)"
proof -
  let ?s = "k8s_tools ! 7"
  have s: "?s \<in> set default_tool_specs" "ts_name ?s = ''scale_deployment''"
    by (simp_all add: default_tool_specs_def k8s_tools_def)
  obtain t p where p: "dget output_models ''scale_deployment'' = Some t"
      "builtin_handler ready_lib ''scale_deployment'' scale_args = Some p"
    and out: "\<forall>v. fst (snd (serve p api_at_two 2)) = Inr v \<longrightarrow> conforms t v \<and>
       (\<forall>u raw inp. t_input_model u raw = Inr inp \<and> t_handler u inp = outcome_of p api_at_two 2 \<and>
          accepts (t_output_model u) t \<longrightarrow> snd (snd (run_tool (\<lambda>_. []) (\<lambda>_. []) ''scale_deployment'' u raw)) = Inr v)"
    using outputs_conform [OF s(1), of ready_lib scale_args api_at_two 2 "\<lambda>_. []" "\<lambda>_. []"] unfolding s(2) by blast
  have "t = scale_deployment_output" using p(1) by (simp add: output_models_def)
  then have acc: "accepts (t_output_model scaling_tool) t"
    by (simp add: accepts_def scaling_tool_def validated_as_def)
  have "map_option (\<lambda>p. fst (snd (serve p api_at_two 2)))
      (builtin_handler ready_lib ''scale_deployment'' scale_args) =
      Some (Inr (scale_output ''shop'' ''api'' 2 3 True ''load'' PNone))"
    by code_simp
  then have v: "fst (snd (serve p api_at_two 2)) = Inr (scale_output ''shop'' ''api'' 2 3 True ''load'' PNone)"
    by (simp add: p(2))
  show ?thesis
    using out [rule_format, OF v] acc by (simp add: scaling_tool_def p(2))
qed

end
