(* ===== verification/Backends.thy ===== *)
theory Backends
  imports Databases
begin

text \<open>
  What the SQL of \<^verbatim>\<open>terminate_backend\<close> (\<^verbatim>\<open>tools/postgres.py\<close>) selects, as functions on
  the rows of \<open>pg_stat_activity\<close>, and what the tool asks of a server that runs those statements
  and reports of it, while sessions come, go and change between the statements.
  A condition is true only when no NULL decides it, \<open>ILIKE '%x%'\<close> is a search in lower case; roles
  are those of \<open>pg_roles\<close>.
\<close>

section \<open>The statements\<close>

record backend =
  bk_pid :: int
  bk_start :: pyval
  bk_usename :: "string option"
  bk_type :: string
  bk_state :: "string option"
  bk_application :: "string option"
  bk_query_start :: "rat option"

definition idle_in_transaction :: "backend \<Rightarrow> bool" where
  "idle_in_transaction b \<longleftrightarrow>
     bk_state b = Some ''idle in transaction'' \<or> bk_state b = Some ''idle in transaction (aborted)''"

definition coalesce :: "string option \<Rightarrow> string" where
  "coalesce s = (case s of None \<Rightarrow> [] | Some t \<Rightarrow> t)"

definition ilike_contains :: "string \<Rightarrow> string \<Rightarrow> bool" where
  "ilike_contains s p = str_contains (str_lower s) p"

text \<open>The WHERE clause of \<open>_IDLE_TX_CANDIDATE_SQL\<close>; \<open>me\<close> is \<open>pg_backend_pid()\<close>.\<close>

definition idle_candidate :: "int \<Rightarrow> backend \<Rightarrow> bool" where
  "idle_candidate me b \<longleftrightarrow>
     bk_type b = ''client backend'' \<and> idle_in_transaction b \<and> bk_pid b \<noteq> me \<and> bk_usename b \<noteq> None \<and>
     \<not> ilike_contains (coalesce (bk_application b)) ''autosre'' \<and>
     \<not> ilike_contains (coalesce (bk_application b)) ''sre-agent''"

text \<open>\<open>ORDER BY query_start ASC NULLS LAST, pid LIMIT n\<close>\<close>

definition idle_candidates :: "int \<Rightarrow> int \<Rightarrow> backend list \<Rightarrow> backend list" where
  "idle_candidates me n bs =
     (let ps = sort_key bk_pid (filter (idle_candidate me) bs)
      in take (nat n) (sort_key (\<lambda>b. the (bk_query_start b)) (filter (\<lambda>b. bk_query_start b \<noteq> None) ps)
                       @ filter (\<lambda>b. bk_query_start b = None) ps))"

definition candidate_row :: "backend \<Rightarrow> pyval" where
  "candidate_row b = PList [PInt (bk_pid b), bk_start b, PStr (coalesce (bk_usename b))]"

definition still_idle_rows :: "int list \<Rightarrow> backend list \<Rightarrow> pyval list" where
  "still_idle_rows pids bs =
     map (\<lambda>b. PList [PInt (bk_pid b)]) (filter (\<lambda>b. bk_pid b \<in> set pids \<and> idle_in_transaction b) bs)"

definition superuser :: "(string \<Rightarrow> bool option) \<Rightarrow> backend \<Rightarrow> bool" where
  "superuser roles b =
     (case Option.bind (bk_usename b) roles of None \<Rightarrow> True | Some s \<Rightarrow> s)"

definition backend_info_row :: "int \<Rightarrow> (string \<Rightarrow> bool option) \<Rightarrow> backend \<Rightarrow> pyval" where
  "backend_info_row me roles b =
     PList [case bk_usename b of None \<Rightarrow> PNone | Some u \<Rightarrow> PStr u, PBool (superuser roles b),
            PBool (bk_pid b = me), bk_start b]"

definition with_pid :: "int \<Rightarrow> backend list \<Rightarrow> backend option" where
  "with_pid p bs = find (\<lambda>b. bk_pid b = p) bs"

definition backend_info :: "int \<Rightarrow> (string \<Rightarrow> bool option) \<Rightarrow> int \<Rightarrow> backend list \<Rightarrow> pyval" where
  "backend_info me roles p bs = (case with_pid p bs of None \<Rightarrow> PNone | Some b \<Rightarrow> backend_info_row me roles b)"

definition same_backend :: "int \<Rightarrow> pyval \<Rightarrow> backend list \<Rightarrow> pyval" where
  "same_backend p start bs =
     (if list_ex (\<lambda>b. bk_pid b = p \<and> bk_start b = start) bs then PList [PInt 1] else PNone)"

text \<open>A client in front of a server that runs the statements. A SELECT that answers has the rows it
  selects among the sessions there are at that moment, \<open>seen w q\<close>; \<open>pg_terminate_backend\<close> answers
  whether it could send the signal, and nothing is said of when or whether the session ends. Any
  statement may fail, and the sessions may be others at every statement. Only a cancellation ends
  \<open>asyncio.sleep\<close>.\<close>

definition postgres ::
  "('w \<Rightarrow> request \<Rightarrow> (exn + pyval) \<times> 'w) \<Rightarrow> ('w \<Rightarrow> request \<Rightarrow> backend list) \<Rightarrow> int \<Rightarrow> (string \<Rightarrow> bool option) \<Rightarrow> bool" where
  "postgres client seen me roles \<longleftrightarrow>
     (\<forall>w q. distinct (map bk_pid (seen w q))) \<and>
     (\<forall>w n v w'. client w (Sql (IdleCandidates n)) = (Inr v, w') \<longrightarrow>
        v = PList (map candidate_row (idle_candidates me n (seen w (Sql (IdleCandidates n)))))) \<and>
     (\<forall>w ps v w'. client w (Sql (StillIdle ps)) = (Inr v, w') \<longrightarrow>
        v = PList (still_idle_rows ps (seen w (Sql (StillIdle ps))))) \<and>
     (\<forall>w p v w'. client w (Sql (BackendInfo p)) = (Inr v, w') \<longrightarrow>
        v = backend_info me roles p (seen w (Sql (BackendInfo p)))) \<and>
     (\<forall>w p s v w'. client w (Sql (SameBackend p s)) = (Inr v, w') \<longrightarrow>
        v = same_backend p s (seen w (Sql (SameBackend p s)))) \<and>
     (\<forall>w p v w'. client w (Sql (TerminatePid p)) = (Inr v, w') \<longrightarrow> (\<exists>sent. v = PList [PBool sent])) \<and>
     (\<forall>w t e w'. client w (Pause t) = (Inl e, w') \<longrightarrow> \<not> caught_by_exception e)"

text \<open>The world after some requests, and the process ids of those the server said it has signalled.\<close>

definition reached :: "('w \<Rightarrow> request \<Rightarrow> (exn + pyval) \<times> 'w) \<Rightarrow> request list \<Rightarrow> 'w \<Rightarrow> 'w" where
  "reached client qs w = fold (\<lambda>q w. snd (client w q)) qs w"

definition signal :: "int \<Rightarrow> request" where
  "signal p = Sql (TerminatePid p)"

definition sent :: "('w \<Rightarrow> request \<Rightarrow> (exn + pyval) \<times> 'w) \<Rightarrow> 'w \<Rightarrow> int \<Rightarrow> bool" where
  "sent client w p \<longleftrightarrow> fst (client w (signal p)) = Inr (PList [PBool True])"

fun all_sent :: "('w \<Rightarrow> request \<Rightarrow> (exn + pyval) \<times> 'w) \<Rightarrow> 'w \<Rightarrow> int list \<Rightarrow> int list" where
  "all_sent client w [] = []"
| "all_sent client w (p # ps) =
     (if sent client w p then [p] else []) @ all_sent client (reached client [signal p] w) ps"

section \<open>Selection\<close>

lemma set_idle_candidates: "set (idle_candidates me n bs) \<subseteq> {b \<in> set bs. idle_candidate me b}"
  by (auto simp: idle_candidates_def Let_def dest!: in_set_takeD)

lemma length_idle_candidates: "0 \<le> n \<Longrightarrow> int (length (idle_candidates me n bs)) \<le> n"
  by (simp add: idle_candidates_def Let_def)

lemma distinct_idle_candidates:
  assumes "distinct (map bk_pid bs)"
  shows "distinct (map bk_pid (idle_candidates me n bs))"
proof -
  have inj: "inj_on bk_pid (set bs)" and dist: "distinct bs" using assms by (simp_all add: distinct_map)
  have "distinct (idle_candidates me n bs)"
    unfolding idle_candidates_def Let_def by (intro distinct_take) (auto simp: dist)
  moreover have "inj_on bk_pid (set (idle_candidates me n bs))"
    by (rule inj_on_subset [OF inj]) (use set_idle_candidates in blast)
  ultimately show ?thesis by (simp add: distinct_map)
qed

lemma candidate_of_row: "candidate (candidate_row b) = Inr (bk_pid b, bk_start b)"
  by (simp add: candidate_def candidate_row_def int_at_def row_at_def lift_py_def py_int_def)

lemma candidates_of_rows:
  "map_res candidate (map candidate_row bs) = Inr (map (\<lambda>b. (bk_pid b, bk_start b)) bs)"
  by (induction bs) (simp_all add: candidate_of_row)

section \<open>What the tool does to the server\<close>

lemma serve_fetch_all:
  "client w (Sql q) = (Inr (PList rows), w') \<Longrightarrow> serve (fetch_all q) client w = ([Sql q], Inr rows, w')"
  by (simp add: fetch_all_def serve_andthen items_of_def)

lemma serve_fetch_one: "serve (fetch_one q) client w = ([Sql q], fst (client w (Sql q)), snd (client w (Sql q)))"
  by (simp add: fetch_one_def)

lemma confirmed_PBool: "confirmed (PList [PBool b]) = Inr b"
  by (simp add: confirmed_def row_at_def)

lemma serve_signal:
  assumes "postgres client seen me roles"
  shows "serve (except (andthen (fetch_one (TerminatePid p)) (\<lambda>r. Finish (confirmed r))) (\<lambda>e. returns False)) client w =
    ([signal p], (case fst (client w (signal p)) of Inr v \<Rightarrow> Inr (sent client w p)
       | Inl e \<Rightarrow> if caught_by_exception e then Inr False else Inl e), reached client [signal p] w)"
proof -
  obtain r w1 where r: "client w (Sql (TerminatePid p)) = (r, w1)" by fastforce
  have row: "\<exists>b. v = PList [PBool b]" if "r = Inr v" for v
    using assms r that unfolding postgres_def by metis
  show ?thesis
  proof (cases r)
    case (Inr v)
    with row obtain b where "v = PList [PBool b]" by blast
    with r Inr show ?thesis
      by (simp add: serve_andthen serve_except serve_fetch_one confirmed_PBool sent_def signal_def reached_def)
  qed (simp add: r serve_andthen serve_except serve_fetch_one sent_def signal_def reached_def)
qed

lemma serve_signals:
  assumes pg: "postgres client seen me roles"
  shows "case serve (terminate_each ps) client w of (qs, r, w') \<Rightarrow>
    prefix qs (map signal ps) \<and>
    (case r of Inl e \<Rightarrow> \<not> caught_by_exception e
     | Inr ok \<Rightarrow> qs = map signal ps \<and> ok = all_sent client w ps \<and> w' = reached client (map signal ps) w)"
proof (induction ps arbitrary: w)
  case (Cons p ps)
  show ?case
    using Cons.IH [of "reached client [signal p] w"]
    by (auto simp: serve_andthen serve_signal [OF pg] sent_def reached_def split: sum.splits prod.splits)
qed (simp add: reached_def)

lemma serve_recheck:
  assumes "postgres client seen me roles"
  shows "serve (still_idle ps) client w = ([Sql (StillIdle ps)],
    (case fst (client w (Sql (StillIdle ps))) of
       Inr v \<Rightarrow> Inr (map bk_pid (filter (\<lambda>b. bk_pid b \<in> set ps \<and> idle_in_transaction b) (seen w (Sql (StillIdle ps)))))
     | Inl e \<Rightarrow> if caught_by_exception e then Inr [] else Inl e), snd (client w (Sql (StillIdle ps))))"
proof -
  obtain r w1 where r: "client w (Sql (StillIdle ps)) = (r, w1)" by fastforce
  have rows: "v = PList (still_idle_rows ps (seen w (Sql (StillIdle ps))))" if "r = Inr v" for v
    using assms r that by (auto simp: postgres_def)
  have ids: "map_res (\<lambda>r. int_at r 0) (map (\<lambda>b. PList [PInt (bk_pid b)]) bs) = Inr (map bk_pid bs)" for bs :: "backend list"
    by (induction bs) (simp_all add: int_at_def row_at_def lift_py_def py_int_def)
  have "distinct (map bk_pid (filter P (seen w (Sql (StillIdle ps)))))" for P
    using assms by (simp add: postgres_def distinct_map_filter)
  with r rows ids show ?thesis
    by (cases r) (simp_all add: still_idle_def serve_except serve_andthen fetch_all_def items_of_def still_idle_rows_def
        distinct_remdups_id)
qed

lemma serve_connected:
  "hl_pool L = Some True \<Longrightarrow> serve (connection L) client w =
     ([Connect], (case fst (client w Connect) of Inl e \<Rightarrow> Inl e | Inr v \<Rightarrow> Inr ()), snd (client w Connect))"
  by (cases "client w Connect"; cases "fst (client w Connect)") (simp_all add: connection_def serve_andthen)

lemma mutating_signals [simp]: "filter mutating (map signal ps) = map signal ps" "mutating (signal p)"
  by (auto simp: signal_def)

lemma prefix_signals: "prefix qs (map signal ps) \<Longrightarrow> filter mutating qs = qs"
  using set_mono_prefix [of qs "map signal ps"] by (auto simp: filter_id_conv signal_def)

text \<open>The selection: when it is answered, by the candidates among the sessions of that moment.\<close>

lemma serve_selection:
  assumes pg: "postgres client seen me roles" and sel: "client w (Sql (IdleCandidates max_auto_terminate)) = (Inr v, w')"
  shows "serve (wrapped ''terminate_backend'' (fetch_all (IdleCandidates max_auto_terminate))) client w =
    ([Sql (IdleCandidates max_auto_terminate)],
     Inr (map candidate_row (idle_candidates me max_auto_terminate (seen w (Sql (IdleCandidates max_auto_terminate))))), w')"
proof -
  from pg sel have "v = PList (map candidate_row (idle_candidates me max_auto_terminate
      (seen w (Sql (IdleCandidates max_auto_terminate)))))" by (auto simp: postgres_def)
  with sel show ?thesis by (simp add: wrapped_def serve_except serve_fetch_all)
qed

definition rechecked :: "('w \<Rightarrow> request \<Rightarrow> (exn + pyval) \<times> 'w) \<Rightarrow> ('w \<Rightarrow> request \<Rightarrow> backend list) \<Rightarrow> int list \<Rightarrow> 'w \<Rightarrow> nat" where
  "rechecked client seen ps w =
     (case fst (client w (Sql (StillIdle ps))) of
        Inl e \<Rightarrow> 0
      | Inr v \<Rightarrow> length (filter (\<lambda>b. bk_pid b \<in> set ps \<and> idle_in_transaction b) (seen w (Sql (StillIdle ps)))))"

lemma serve_discovered:
  assumes pg: "postgres client seen me roles" and pool: "hl_pool L = Some True"
    and con: "client w Connect = (Inr c, w1)"
    and sel: "client w1 (Sql (IdleCandidates max_auto_terminate)) = (Inr v, w2)"
    and K: "K = idle_candidates me max_auto_terminate (seen w1 (Sql (IdleCandidates max_auto_terminate)))"
  shows "case serve (terminate_backend L None why) client w of (qs, r, w') \<Rightarrow>
    prefix (filter mutating qs) (map (signal \<circ> bk_pid) K) \<and>
    (case r of
       Inl e \<Rightarrow> \<not> caught_by_exception e
     | Inr out \<Rightarrow> filter mutating qs = map (signal \<circ> bk_pid) K \<and>
         (if K = [] then out = terminate_output PNone False why [] 0 0 True
          else let ps = map bk_pid K; ok = all_sent client w2 ps;
                   n = rechecked client seen ps (reached client (map signal ps @ [Pause verify_delay_seconds]) w2)
               in out = terminate_output PNone (ok \<noteq> []) why ok (length K) n (n = 0)))"
proof -
  have rows: "serve (wrapped ''terminate_backend'' (fetch_all (IdleCandidates max_auto_terminate))) client w1 =
      ([Sql (IdleCandidates max_auto_terminate)], Inr (map candidate_row K), w2)"
    unfolding K by (rule serve_selection [OF pg sel])
  have conn: "serve (connection L) client w = ([Connect], Inr (), w1)"
    using con by (simp add: serve_connected [OF pool])
  have pids: "map fst (map (\<lambda>b. (bk_pid b, bk_start b)) K) = map bk_pid K" by simp
  have sig: "map (signal \<circ> bk_pid) K = map signal (map bk_pid K)" by simp
  show ?thesis
  proof (cases "K = []")
    case True
    then show ?thesis
      by (simp add: terminate_backend_def terminate_idle_in_transaction_def serve_andthen conn rows)
  next
    case False
    obtain qs r w3 where loop: "serve (terminate_each (map bk_pid K)) client w2 = (qs, r, w3)" by (metis prod_cases3)
    with serve_signals [OF pg, of "map bk_pid K" w2] have each: "prefix qs (map signal (map bk_pid K))"
        "case r of Inl e \<Rightarrow> \<not> caught_by_exception e | Inr ok \<Rightarrow> qs = map signal (map bk_pid K) \<and>
           ok = all_sent client w2 (map bk_pid K) \<and> w3 = reached client (map signal (map bk_pid K)) w2"
      by simp_all
    have silent: "filter mutating qs = qs" by (rule prefix_signals [OF each(1)])
    obtain a w4 where wait: "client w3 (Pause verify_delay_seconds) = (a, w4)" by fastforce
    have woken: "\<not> caught_by_exception e" if "a = Inl e" for e
      using pg wait that unfolding postgres_def by metis
    have whole: "serve (terminate_backend L None why) client w =
        (Connect # Sql (IdleCandidates max_auto_terminate) #
         fst (serve (andthen (terminate_each (map bk_pid K)) (\<lambda>terminated.
           andthen (await (Pause verify_delay_seconds)) (\<lambda>_.
           andthen (still_idle (map bk_pid K)) (\<lambda>still_present.
           returns (terminate_output PNone (terminated \<noteq> []) why terminated (length K)
                (length still_present) (still_present = [])))))) client w2),
         snd (serve (andthen (terminate_each (map bk_pid K)) (\<lambda>terminated.
           andthen (await (Pause verify_delay_seconds)) (\<lambda>_.
           andthen (still_idle (map bk_pid K)) (\<lambda>still_present.
           returns (terminate_output PNone (terminated \<noteq> []) why terminated (length K)
                (length still_present) (still_present = [])))))) client w2))"
      unfolding terminate_backend_def terminate_idle_in_transaction_def option.case
      using False by (simp add: serve_andthen [where p = "connection L"] conn
          serve_andthen [where p = "wrapped t q" for t q] rows serve_andthen [where p = "Finish x" for x]
          candidates_of_rows pids split_beta Let_def comp_def)
    show ?thesis
      unfolding whole sig
      using False each wait woken
      by (cases r; cases a)
        (auto simp: serve_andthen loop silent serve_recheck [OF pg] rechecked_def reached_def Let_def
          split: sum.splits)
  qed
qed

text \<open>The conditions a backend named by its process id has to meet.\<close>

definition may_terminate :: "int \<Rightarrow> (string \<Rightarrow> bool option) \<Rightarrow> backend \<Rightarrow> bool" where
  "may_terminate me roles b \<longleftrightarrow> bk_pid b \<noteq> me \<and> bk_usename b \<noteq> None \<and> \<not> superuser roles b"

lemma serve_addressed:
  assumes pg: "postgres client seen me roles" and pool: "hl_pool L = Some True"
    and con: "client w Connect = (Inr c, w1)" and info: "client w1 (Sql (BackendInfo p)) = (Inr v, w2)"
  shows "case with_pid p (seen w1 (Sql (BackendInfo p))) of
      None \<Rightarrow> serve (terminate_backend L (Some p) why) client w =
        ([Connect, Sql (BackendInfo p)], Inr (terminate_output (PInt p) False why [] 0 0 True), w2)
    | Some b \<Rightarrow>
        (case serve (terminate_backend L (Some p) why) client w of (qs, r, w') \<Rightarrow>
           if may_terminate me roles b
           then filter mutating qs = [signal p] \<and>
             (case r of
                Inl e \<Rightarrow> \<exists>e'. Inl e' \<in> {fst (client w2 (signal p)),
                  fst (client (reached client [signal p] w2) (Pause verify_delay_seconds)),
                  fst (client (reached client [signal p, Pause verify_delay_seconds] w2) (Sql (SameBackend p (bk_start b))))}
              | Inr out \<Rightarrow>
                  let w3 = reached client [signal p, Pause verify_delay_seconds] w2;
                      still = list_ex (\<lambda>b'. bk_pid b' = p \<and> bk_start b' = bk_start b) (seen w3 (Sql (SameBackend p (bk_start b))));
                      ended = (sent client w2 p \<and> \<not> still)
                  in out = terminate_output (PInt p) ended why (if ended then [p] else []) 1 (of_bool still) (\<not> still))
           else filter mutating qs = [] \<and> (\<exists>m. r = Inl (ToolExecutionError ''terminate_backend'' (PyError (PermissionError m)))))"
proof -
  have conn: "serve (connection L) client w = ([Connect], Inr (), w1)"
    using con by (simp add: serve_connected [OF pool])
  have v: "v = backend_info me roles p (seen w1 (Sql (BackendInfo p)))"
    using pg info by (auto simp: postgres_def)
  show ?thesis
  proof (cases "with_pid p (seen w1 (Sql (BackendInfo p)))")
    case None
    with v info show ?thesis
      by (simp add: terminate_backend_def serve_andthen conn serve_fetch_one backend_info_def)
  next
    case (Some b)
    with v info have row: "client w1 (Sql (BackendInfo p)) = (Inr (backend_info_row me roles b), w2)"
      by (simp add: backend_info_def)
    have pid: "bk_pid b = p" using Some by (auto simp: with_pid_def find_Some_iff)
    show ?thesis
    proof (cases "may_terminate me roles b")
      case False
      with Some pid show ?thesis
        by (auto simp: terminate_backend_def serve_andthen conn serve_fetch_one row
            backend_info_row_def row_at_def may_terminate_def refuse_def Let_def split: option.split)
    next
      case True
      then obtain u where u: "bk_usename b = Some u" by (auto simp: may_terminate_def)
      obtain a w3 where kill: "client w2 (Sql (TerminatePid p)) = (a, w3)" by fastforce
      have answer: "\<exists>b. x = PList [PBool b]" if "a = Inr x" for x
        using pg kill that unfolding postgres_def by metis
      obtain d w4 where wait: "client w3 (Pause verify_delay_seconds) = (d, w4)" by fastforce
      obtain g w5 where again: "client w4 (Sql (SameBackend p (bk_start b))) = (g, w5)" by fastforce
      have found: "x = same_backend p (bk_start b) (seen w4 (Sql (SameBackend p (bk_start b))))" if "g = Inr x" for x
        using pg again that by (auto simp: postgres_def)
      note run = terminate_backend_def serve_andthen conn serve_fetch_one row backend_info_row_def row_at_def Let_def u
        wrapped_def serve_except kill wait again signal_def reached_def sent_def same_backend_def
      show ?thesis
      proof (cases a)
        case (Inl e)
        with True Some pid kill show ?thesis
          by (auto simp: run may_terminate_def)
      next
        case (Inr x)
        with answer obtain sgn where x: "x = PList [PBool sgn]" by blast
        show ?thesis
          using True Some pid Inr x wait again found
          by (cases d; cases g) (auto simp: run may_terminate_def confirmed_PBool)
      qed
    qed
  qed
qed


text \<open>A server with a session idle in a transaction, a busy one and one of the agent's pool.\<close>

definition demo_activity :: "backend list" where
  "demo_activity =
    [\<lparr>bk_pid = 10, bk_start = PInt 1, bk_usename = Some ''shop'', bk_type = ''client backend'',
      bk_state = Some ''idle in transaction'', bk_application = None, bk_query_start = Some 5\<rparr>,
     \<lparr>bk_pid = 11, bk_start = PInt 2, bk_usename = Some ''shop'', bk_type = ''client backend'',
      bk_state = Some ''active'', bk_application = None, bk_query_start = Some 6\<rparr>,
     \<lparr>bk_pid = 12, bk_start = PInt 3, bk_usename = Some ''agent'', bk_type = ''client backend'',
      bk_state = Some ''idle in transaction'', bk_application = Some ''AutoSRE pool'', bk_query_start = None\<rparr>]"

definition demo_roles :: "string \<Rightarrow> bool option" where
  "demo_roles u = Some False"

text \<open>The activity of a world is its list as long as the process ids are distinct; a signalled
  session ends at once.\<close>

definition one_per_pid :: "backend list \<Rightarrow> backend list" where
  "one_per_pid bs = (if distinct (map bk_pid bs) then bs else [])"

definition activity_client :: "backend list \<Rightarrow> request \<Rightarrow> (exn + pyval) \<times> backend list" where
  "activity_client w q =
     (let bs = one_per_pid w
      in case q of
           Sql (IdleCandidates n) \<Rightarrow> (Inr (PList (map candidate_row (idle_candidates 12 n bs))), w)
         | Sql (StillIdle ps) \<Rightarrow> (Inr (PList (still_idle_rows ps bs)), w)
         | Sql (BackendInfo p) \<Rightarrow> (Inr (backend_info 12 demo_roles p bs), w)
         | Sql (SameBackend p s) \<Rightarrow> (Inr (same_backend p s bs), w)
         | Sql (TerminatePid p) \<Rightarrow> (Inr (PList [PBool (p \<in> bk_pid ` set bs)]), filter (\<lambda>b. bk_pid b \<noteq> p) bs)
         | _ \<Rightarrow> (Inr PNone, w))"

text \<open>The same server, but a signalled session lingers: the statement that ends it does not change the
  activity.\<close>

definition lingering_client :: "backend list \<Rightarrow> request \<Rightarrow> (exn + pyval) \<times> backend list" where
  "lingering_client w q = (fst (activity_client w q), w)"

lemma lingering_client_postgres: "postgres lingering_client (\<lambda>w q. one_per_pid w) 12 demo_roles"
proof -
  have "distinct (map bk_pid (one_per_pid bs))" for bs by (simp add: one_per_pid_def)
  then show ?thesis by (simp add: postgres_def lingering_client_def activity_client_def Let_def)
qed

text \<open>Of its three sessions one is a candidate; it is signalled, found again, and the report says so.\<close>

lemma lingering_selection: "map bk_pid (idle_candidates 12 50 (one_per_pid demo_activity)) = [10]"
  by code_simp

lemma lingering_rechecked:
  "all_sent lingering_client demo_activity [10] = [10]"
  "rechecked lingering_client (\<lambda>w q. one_per_pid w) [10] (reached lingering_client [signal 10, Pause verify_delay_seconds] demo_activity) = 1"
  by code_simp+

lemma lingering_reports: "\<exists>out. fst (snd (serve (terminate_backend ready_lib None ''pool'') lingering_client demo_activity)) = Inr out"
proof -
  have "(case fst (snd (serve (terminate_backend ready_lib None ''pool'') lingering_client demo_activity)) of
      Inl e \<Rightarrow> False | Inr out \<Rightarrow> True)" by code_simp
  then show ?thesis by (auto split: sum.splits)
qed


text \<open>
  The discovery selects \<open>backend_start\<close> and drops it. When a candidate ends before its turn and its
  process id is taken by a busy session, that session is ended, and the end state is reported as verified.
\<close>

definition reusing_client :: "backend list \<Rightarrow> request \<Rightarrow> (exn + pyval) \<times> backend list" where
  "reusing_client w q =
     (case q of
        Sql (IdleCandidates n) \<Rightarrow>
          (fst (activity_client w q), map (\<lambda>b. b\<lparr>bk_start := PInt 9, bk_state := Some ''active''\<rparr>) w)
      | _ \<Rightarrow> activity_client w q)"

lemma discovery_ignores_start:
  "snd (serve (terminate_backend ready_lib None ''pool'') reusing_client [hd demo_activity]) =
     (Inr (terminate_output PNone True ''pool'' [10] 1 0 True), [])"
  by code_simp

end
