(* ===== verification/Regex.thy ===== *)
theory Regex
  imports PyValue
begin

text \<open>
  The part of Python's \<^verbatim>\<open>re\<close> module that \<^verbatim>\<open>core/context.py\<close> uses, so that its
  patterns can be written down as they are: character classes, greedy repetition of a class,
  concatenation, ordered choice, the optional group, the capturing group and the word boundary.
  \<open>runs\<close> lists the ways a pattern can match at a place in the order a backtracking matcher tries
  them, so its head is the match Python finds.
\<close>

datatype rx =
    Class "char \<Rightarrow> bool"
  | Many "char \<Rightarrow> bool"
  | Cat rx rx
  | Or rx rx
  | Maybe rx
  | Group rx
  | Boundary
  | Nothing

text \<open>A place in a text: the character before it, the text after it, the groups captured so far.\<close>

type_synonym place = "char option \<times> string \<times> string list"

definition is_alpha :: "char \<Rightarrow> bool" where
  "is_alpha c = (let n = (of_char c :: nat) in (65 \<le> n \<and> n \<le> 90) \<or> (97 \<le> n \<and> n \<le> 122))"

definition is_word :: "char \<Rightarrow> bool" where
  "is_word c = (is_alpha c \<or> is_digit c \<or> c = CHR ''_'')"

definition at_boundary :: "place \<Rightarrow> bool" where
  "at_boundary p =
     (case p of (before, rest, g) \<Rightarrow>
        (case before of None \<Rightarrow> False | Some c \<Rightarrow> is_word c)
          \<noteq> (case rest of [] \<Rightarrow> False | c # _ \<Rightarrow> is_word c))"

definition skip :: "nat \<Rightarrow> place \<Rightarrow> place" where
  "skip n p = (case p of (before, rest, g) \<Rightarrow>
     (if n = 0 then before else Some (rest ! (n - 1)), drop n rest, g))"

primrec runs :: "rx \<Rightarrow> place \<Rightarrow> place list" where
  "runs (Class P) p = (case fst (snd p) of [] \<Rightarrow> [] | c # _ \<Rightarrow> if P c then [skip 1 p] else [])"
| "runs (Many P) p = map (\<lambda>n. skip n p) (rev [0..<Suc (length (takeWhile P (fst (snd p))))])"
| "runs (Cat r s) p = concat (map (runs s) (runs r p))"
| "runs (Or r s) p = runs r p @ runs s p"
| "runs (Maybe r) p = runs r p @ [p]"
| "runs (Group r) p =
     map (\<lambda>(b, rest, g). (b, rest, g @ [take (length (fst (snd p)) - length rest) (fst (snd p))])) (runs r p)"
| "runs Boundary p = (if at_boundary p then [p] else [])"
| "runs Nothing p = [p]"

text \<open>\<open>search\<close>: the first place from which the pattern matches; \<open>findall\<close> goes on behind each match.
  No pattern of the sources matches the empty text, and \<open>findall\<close> steps on by one if one did.\<close>

fun search_from :: "rx \<Rightarrow> char option \<Rightarrow> string \<Rightarrow> place option" where
  "search_from r b [] = (case runs r (b, [], []) of p # _ \<Rightarrow> Some p | [] \<Rightarrow> None)"
| "search_from r b (c # cs) =
     (case runs r (b, c # cs, []) of p # _ \<Rightarrow> Some p | [] \<Rightarrow> search_from r (Some c) cs)"

definition search :: "rx \<Rightarrow> string \<Rightarrow> string list option" where
  "search r s = map_option (snd \<circ> snd) (search_from r None s)"

definition found :: "rx \<Rightarrow> string \<Rightarrow> bool" where
  "found r s = (search r s \<noteq> None)"

fun all_from :: "nat \<Rightarrow> rx \<Rightarrow> char option \<Rightarrow> string \<Rightarrow> string list list" where
  "all_from 0 r b s = []"
| "all_from (Suc k) r b s =
     (case search_from r b s of
        None \<Rightarrow> []
      | Some (b', rest, g) \<Rightarrow>
          g # (if length rest < length s then all_from k r b' rest
               else (case s of [] \<Rightarrow> [] | c # cs \<Rightarrow> all_from k r (Some c) cs)))"

definition find_all :: "rx \<Rightarrow> string \<Rightarrow> string list list" where
  "find_all r s = all_from (Suc (length s)) r None s"

section \<open>Building patterns\<close>

text \<open>With \<open>re.IGNORECASE\<close> a literal matches either case of its letters.\<close>

definition ichar :: "char \<Rightarrow> rx" where
  "ichar c = Class (\<lambda>x. lower_char x = lower_char c)"

definition ilit :: "string \<Rightarrow> rx" where
  "ilit s = foldr (\<lambda>c r. Cat (ichar c) r) s Nothing"

fun choice :: "rx list \<Rightarrow> rx" where
  "choice [] = Class (\<lambda>_. False)"
| "choice [r] = r"
| "choice (r # rs) = Or r (choice rs)"

fun cat :: "rx list \<Rightarrow> rx" where
  "cat [] = Nothing"
| "cat [r] = r"
| "cat (r # rs) = Cat r (cat rs)"

text \<open>\<open>P+\<close> over a class, and \<open>\d+(?:\.\d+)?\<close>, the number of the metric patterns.\<close>

definition some_of :: "(char \<Rightarrow> bool) \<Rightarrow> rx" where
  "some_of P = Cat (Class P) (Many P)"

definition number_rx :: rx where
  "number_rx = Cat (some_of is_digit) (Maybe (Cat (Class (\<lambda>c. c = CHR ''.'')) (some_of is_digit)))"

section \<open>What a match is\<close>

text \<open>A match leaves a suffix of the text, so what a group captures is a piece of the text.\<close>

lemma skip_suffix: "suffix (fst (snd (skip n p))) (fst (snd p))"
  by (cases p) (simp add: skip_def suffix_drop)

lemma runs_suffix: "q \<in> set (runs r p) \<Longrightarrow> suffix (fst (snd q)) (fst (snd p))"
proof (induction r arbitrary: p q)
  case (Class P)
  then show ?case by (auto simp: skip_suffix split: list.splits if_splits)
next
  case (Many P)
  then obtain n where "q = skip n p" by auto
  then show ?case by (simp only: skip_suffix)
next
  case (Cat r s)
  then obtain m where "m \<in> set (runs r p)" "q \<in> set (runs s m)" by auto
  then show ?case using Cat.IH suffix_order.trans by blast
next
  case (Group r)
  then obtain m where "m \<in> set (runs r p)" "fst (snd q) = fst (snd m)" by auto
  then show ?case using Group.IH by simp
qed (auto simp: skip_suffix split: if_splits)

lemma first_run_suffix: "runs r (b, s, g) = q # qs \<Longrightarrow> suffix (fst (snd q)) s"
  using runs_suffix [of q r "(b, s, g)"] by simp

lemma search_from_suffix: "search_from r b s = Some q \<Longrightarrow> suffix (fst (snd q)) s"
proof (induction r b s rule: search_from.induct)
  case (1 r b)
  then show ?case by (auto dest: first_run_suffix split: list.splits)
next
  case (2 r b c cs)
  then show ?case by (auto dest: first_run_suffix split: list.splits intro: suffix_ConsI)
qed

lemma regex_ex:
  "search (cat [Boundary, Group number_rx, Many is_space, Group (choice [ilit ''ms'', ilit ''s'']), Boundary]) ''took 12.5 MS''
     = Some [''12.5'', ''MS'']"
  "find_all (cat [Boundary, choice [ilit ''pod'', ilit ''service''], Many is_space, some_of (\<lambda>c. c \<in> set ''=/ :''),
      Many is_space, Group (some_of is_word)]) ''pod: api, Service=db'' = [[''api''], [''db'']]"
  by code_simp+

end
