(* ===== verification/Eviction.thy ===== *)
theory Eviction
  imports Regex Helpers
begin

text \<open>
  Tool-result eviction, \<^verbatim>\<open>core/context.py\<close>: the constructor's checks, the deterministic
  summaries of JSON and of text with the module's patterns, the fitting to the character and
  token budgets, the two passes over a message list and the enforcement of the context budget
  with its statistics. \<open>json.loads\<close>, \<open>json.dumps\<close>, \<open>repr\<close> and the tiktoken encoder are the fields of
  \<open>text_lib\<close>; the encoder may refuse a text (it raises on special tokens). The \<open>state\<close> argument is
  only handed to the summarizer and is part of it here.
\<close>

record text_lib =
  tl_loads :: "string \<Rightarrow> pyval option"
  tl_dumps :: "pyval \<Rightarrow> string option"
  tl_repr :: "pyval \<Rightarrow> string"
  tl_encode :: "string \<Rightarrow> exn + nat list"
  tl_decode :: "nat list \<Rightarrow> string"

section \<open>Patterns\<close>

definition error_rx :: rx where
  "error_rx = choice [ilit ''error'', cat [ilit ''faile'', Maybe (ichar CHR ''d'')], ilit ''failure'',
     ilit ''exception'', ilit ''traceback'', ilit ''fatal'', ilit ''panic'', ilit ''denied'',
     cat [ilit ''time'', Maybe (ichar CHR ''d''), ilit '' out'']]"

definition warning_rx :: rx where
  "warning_rx = cat [ilit ''warn'', Maybe (ilit ''ing'')]"

definition unit_rx :: "rx list \<Rightarrow> rx" where
  "unit_rx us = cat [Boundary, Group number_rx, Many is_space, Group (choice us), Boundary]"

definition plural :: "string \<Rightarrow> rx" where
  "plural s = cat [ilit s, Maybe (ichar CHR ''s'')]"

definition metric_patterns :: "(rx \<times> string) list" where
  "metric_patterns =
    [(unit_rx [ilit ''ms'', plural ''millisecond''], ''duration''),
     (unit_rx [ilit ''s'', plural ''second''], ''duration''),
     (cat [Boundary, Group number_rx, ichar CHR ''%'', Boundary], ''percentage''),
     (unit_rx [ilit ''KB'', ilit ''MB'', ilit ''GB'', plural ''byte''], ''memory''),
     (unit_rx [plural ''request'', plural ''req'', ilit ''rps''], ''requests'')]"

definition key_patterns :: "string list" where
  "key_patterns = [''OOMKilled'', ''CrashLoopBackOff'', ''ImagePullBackOff'', ''Evicted'', ''Timeout'']"

definition known_json_keys :: "string list" where
  "known_json_keys =
    [''error'', ''errors'', ''message'', ''reason'', ''status'', ''phase'', ''pod'', ''deployment'', ''service'',
     ''namespace'', ''name'', ''count'', ''total'']"

definition resource_rx :: rx where
  "resource_rx =
     cat [Boundary, choice [ilit ''pod'', ilit ''deployment'', ilit ''service'', ilit ''namespace''],
          Many is_space, some_of (\<lambda>c. c \<in> set ''=/ :''), Many is_space,
          Group (some_of (\<lambda>c. is_alpha c \<or> is_digit c \<or> c \<in> set ''._-''))]"

section \<open>The configuration and the statistics\<close>

record evictor =
  ev_result_chars :: nat
  ev_context_chars :: nat
  ev_result_tokens :: nat

definition make_evictor :: "int \<Rightarrow> int \<Rightarrow> int \<Rightarrow> py_error + evictor" where
  "make_evictor result_chars context_chars result_tokens =
     (if result_chars \<le> 0 then Inl (ValueError ''max_result_chars must be greater than zero'')
      else if context_chars \<le> 0 then Inl (ValueError ''max_context_chars must be greater than zero'')
      else if result_tokens \<le> 0 then Inl (ValueError ''max_result_tokens must be greater than zero'')
      else Inr \<lparr>ev_result_chars = nat result_chars, ev_context_chars = nat context_chars,
                ev_result_tokens = nat result_tokens\<rparr>)"

record eviction_entry =
  ee_tool_name :: string
  ee_original_chars :: nat
  ee_evicted_chars :: nat
  ee_summary_tokens :: nat

record eviction_stats =
  es_evictions :: nat
  es_chars_evicted :: nat
  es_compactions :: nat
  es_history :: "eviction_entry list"

definition new_stats :: eviction_stats where
  "new_stats = \<lparr>es_evictions = 0, es_chars_evicted = 0, es_compactions = 0, es_history = []\<rparr>"

definition count_text_tokens :: "text_lib \<Rightarrow> string \<Rightarrow> exn + nat" where
  "count_text_tokens L s = bind_res (tl_encode L s) (\<lambda>ts. Inr (length ts))"

definition record_eviction ::
  "text_lib \<Rightarrow> string \<Rightarrow> string \<Rightarrow> string \<Rightarrow> eviction_stats \<Rightarrow> exn + eviction_stats" where
  "record_eviction L tool original summary st =
     bind_res (count_text_tokens L summary) (\<lambda>n.
       Inr (st\<lparr>es_evictions := Suc (es_evictions st),
               es_chars_evicted := es_chars_evicted st + (length original - length summary),
               es_history := es_history st @
                 [\<lparr>ee_tool_name = tool, ee_original_chars = length original,
                   ee_evicted_chars = length summary, ee_summary_tokens = n\<rparr>]\<rparr>))"

section \<open>Summaries\<close>

text \<open>\<open>str.title\<close>: a letter after a letter is lower case, any other upper case.\<close>

fun title_from :: "bool \<Rightarrow> string \<Rightarrow> string" where
  "title_from inside [] = []"
| "title_from inside (c # cs) =
     (if is_alpha c then (if inside then lower_char c else upper_char c) # title_from True cs
      else c # title_from False cs)"

definition title :: "string \<Rightarrow> string" where
  "title s = title_from False s"

definition dedupe :: "string list \<Rightarrow> string list" where
  "dedupe values = keep_first [] (filter (\<lambda>s. s \<noteq> []) (map str_strip values))"

text \<open>\<open>str.splitlines\<close> on ASCII text: a carriage return and a newline are one line end.\<close>

definition line_end :: "char \<Rightarrow> bool" where
  "line_end c = ((of_char c :: nat) \<in> set [10, 11, 12, 13, 28, 29, 30])"

fun lines_from :: "string \<Rightarrow> string \<Rightarrow> string list" where
  "lines_from acc [] = (if acc = [] then [] else [rev acc])"
| "lines_from acc (c # cs) =
     (if c = CHR 0x0D then
        rev acc # (case cs of d # ds \<Rightarrow> if d = CHR 0x0A then lines_from [] ds else lines_from [] cs
                   | [] \<Rightarrow> [])
      else if line_end c then rev acc # lines_from [] cs
      else lines_from (c # acc) cs)"

definition splitlines :: "string \<Rightarrow> string list" where
  "splitlines s = lines_from [] s"

definition is_scalar :: "pyval \<Rightarrow> bool" where
  "is_scalar v = (case v of PStr _ \<Rightarrow> True | PInt _ \<Rightarrow> True | PFloat _ \<Rightarrow> True | PBool _ \<Rightarrow> True | _ \<Rightarrow> False)"

definition known_part :: "text_lib \<Rightarrow> pydict \<Rightarrow> string \<Rightarrow> string list" where
  "known_part L d key =
     (case dget d key of
        None \<Rightarrow> []
      | Some v \<Rightarrow>
          if key = ''error'' \<or> key = ''errors'' then
            (let vs = (case v of PList xs \<Rightarrow> xs | _ \<Rightarrow> [v]);
                 rendered = str_join ''; '' (map (\<lambda>i. take 180 (str_strip (py_str (tl_repr L) i))) (take 4 vs))
             in [''Errors('' @ show_nat (length vs) @ ''): '' @ rendered])
          else if is_scalar v then [title key @ '': '' @ py_str (tl_repr L) v]
          else [])"

definition numeric_part :: "text_lib \<Rightarrow> pydict \<Rightarrow> string list" where
  "numeric_part L d =
     (let numeric = List.map_filter (\<lambda>(k, v). case v of
                       PInt _ \<Rightarrow> Some (k @ ''='' @ py_str (tl_repr L) v)
                     | PFloat _ \<Rightarrow> Some (k @ ''='' @ py_str (tl_repr L) v)
                     | _ \<Rightarrow> None) d
      in if numeric = [] then [] else [''Metrics: '' @ str_join '', '' (take 8 numeric)])"

definition keys_part :: "pyval list \<Rightarrow> string list" where
  "keys_part vs =
     (case vs of PDict d # _ \<Rightarrow> [''Keys: '' @ str_join '', '' (take 8 (dkeys d))] | _ \<Rightarrow> [])"

fun list_part :: "pydict \<Rightarrow> string list \<Rightarrow> string list" where
  "list_part d [] = []"
| "list_part d (k # ks) =
     (case dget d k of
        Some (PList vs) \<Rightarrow> (title k @ '': '' @ show_nat (length vs) @ '' items'') # keys_part vs
      | _ \<Rightarrow> list_part d ks)"

definition summarize_json :: "text_lib \<Rightarrow> string \<Rightarrow> pyval \<Rightarrow> string" where
  "summarize_json L tool data =
     str_join '' | '' ((''['' @ tool @ ''] JSON summary'') #
       (case data of
          PDict d \<Rightarrow>
            (let parts = concat (map (known_part L d) known_json_keys) @ numeric_part L d
                           @ list_part d [''items'', ''data'', ''results'']
             in if parts = [] then [''Top-level keys: '' @ str_join '', '' (take 12 (dkeys d))] else parts)
        | PList vs \<Rightarrow> (''List: '' @ show_nat (length vs) @ '' items'') # keys_part vs
        | _ \<Rightarrow> [''Data type: '' @ type_name data]))"

text \<open>\<open>match.group(2)\<close> of the percentage pattern, which has one group, raises.\<close>

definition metric_part :: "string \<Rightarrow> rx \<times> string \<Rightarrow> exn + string list" where
  "metric_part content p =
     (case search (fst p) content of
        None \<Rightarrow> Inr []
      | Some (a # b # _) \<Rightarrow> Inr [snd p @ ''='' @ a @ '' '' @ b]
      | Some _ \<Rightarrow> Inl (PyError (OtherError ''no such group'')))"

definition labelled :: "string \<Rightarrow> string \<Rightarrow> string list \<Rightarrow> string list" where
  "labelled label sep xs = (if xs = [] then [] else [label @ str_join sep xs])"

definition last_two :: "'a list \<Rightarrow> 'a list" where
  "last_two xs = drop (length xs - 2) xs"

definition summarize_text :: "text_lib \<Rightarrow> string \<Rightarrow> string \<Rightarrow> exn + string" where
  "summarize_text L tool content =
     (let lines = filter (\<lambda>l. l \<noteq> []) (map str_strip (splitlines content))
      in if lines = [] then Inr (''['' @ tool @ ''] empty result'')
         else
           let error_lines = dedupe (filter (found error_rx) lines);
               warning_lines = dedupe (filter (found warning_rx) lines);
               patterns = filter (\<lambda>p. found (ilit p) content) key_patterns;
               resources = dedupe (map hd (find_all resource_rx content));
               context_lines = dedupe (dedupe (take 2 lines) @ dedupe (last_two lines))
           in bind_res (map_res (metric_part content) metric_patterns) (\<lambda>ms.
                Inr (str_join '' | ''
                  ((''['' @ tool @ ''] '' @ show_nat (length lines) @ '' non-empty lines'') #
                   labelled ''Errors: '' '' | '' (map (take 180) (take 6 error_lines)) @
                   labelled ''Warnings: '' '' | '' (map (take 140) (take 3 warning_lines)) @
                   labelled ''Metrics: '' '', '' (take 6 (concat ms)) @
                   labelled ''Patterns: '' '', '' patterns @
                   labelled ''Resources: '' '', '' (take 8 resources) @
                   labelled ''Context: '' '' | '' (map (take 140) context_lines)))))"

section \<open>Fitting\<close>

definition truncation_suffix :: string where
  "truncation_suffix = CHR 0x0A # ''[summary truncated]''"

definition truncated_text :: "text_lib \<Rightarrow> nat list \<Rightarrow> string" where
  "truncated_text L ids = str_rstrip (tl_decode L ids) @ truncation_suffix"

text \<open>The loop that drops the last token until the text with the suffix is within the budget.\<close>

function fit_loop :: "text_lib \<Rightarrow> nat \<Rightarrow> nat list \<Rightarrow> exn + string" where
  "fit_loop L budget ids =
     bind_res (count_text_tokens L (truncated_text L ids)) (\<lambda>n.
       if budget < n \<and> ids \<noteq> [] then fit_loop L budget (butlast ids) else Inr (truncated_text L ids))"
  by pat_completeness auto
termination
  by (relation "measure (\<lambda>(L, budget, ids). length ids)") auto

declare fit_loop.simps [simp del]

definition no_summary :: string where
  "no_summary = ''[tool] no summary available''"

definition fit_summary :: "text_lib \<Rightarrow> evictor \<Rightarrow> string \<Rightarrow> exn + string" where
  "fit_summary L E summary =
     (let stripped = str_strip summary;
          text = (if length stripped > ev_result_chars E then str_rstrip (take (ev_result_chars E) stripped)
                  else stripped)
      in if stripped = [] then Inr no_summary
         else bind_res (count_text_tokens L text) (\<lambda>n.
           if n \<le> ev_result_tokens E then Inr text
           else bind_res (count_text_tokens L truncation_suffix) (\<lambda>k.
                bind_res (tl_encode L text) (\<lambda>ids.
                bind_res (fit_loop L (ev_result_tokens E) (take (max 1 (ev_result_tokens E - k)) ids)) (\<lambda>c.
                Inr (str_rstrip (take (ev_result_chars E) c)))))))"

definition evict_tool_result :: "text_lib \<Rightarrow> evictor \<Rightarrow> string \<Rightarrow> string \<Rightarrow> exn + string" where
  "evict_tool_result L E tool content =
     bind_res (case tl_loads L content of
                 None \<Rightarrow> summarize_text L tool content
               | Some data \<Rightarrow> Inr (summarize_json L tool data)) (fit_summary L E)"

section \<open>The passes over a message list\<close>

definition is_evicted_marker :: "pyval \<Rightarrow> bool" where
  "is_evicted_marker content =
     (case content of PDict d \<Rightarrow> dget d ''evicted'' = Some (PBool True) | _ \<Rightarrow> False)"

definition content_text :: "text_lib \<Rightarrow> pyval \<Rightarrow> string" where
  "content_text L content =
     (case content of
        PNone \<Rightarrow> []
      | PStr s \<Rightarrow> s
      | _ \<Rightarrow> (case tl_dumps L content of Some s \<Rightarrow> s | None \<Rightarrow> py_str (tl_repr L) content))"

definition content_of :: "pydict \<Rightarrow> pyval" where
  "content_of m = dget_or m ''content'' PNone"

definition is_tool_message :: "pydict \<Rightarrow> bool" where
  "is_tool_message m = (dget m ''role'' = Some (PStr ''tool''))"

definition tool_name_of :: "text_lib \<Rightarrow> pydict \<Rightarrow> string" where
  "tool_name_of L m = py_str (tl_repr L) (dget_or m ''name'' (PStr ''unknown''))"

text \<open>One step of either loop; \<open>summarise\<close> makes the summary of a tool's text.\<close>

definition process_message ::
  "text_lib \<Rightarrow> evictor \<Rightarrow> (string \<Rightarrow> string \<Rightarrow> exn + string) \<Rightarrow> pydict \<Rightarrow> eviction_stats \<Rightarrow>
     exn + pydict \<times> eviction_stats" where
  "process_message L E summarise m st =
     (if \<not> is_tool_message m then Inr (m, st)
      else if is_evicted_marker (content_of m) then Inr (m, st)
      else let raw = content_text L (content_of m)
           in if length raw \<le> ev_result_chars E then Inr (m, st)
              else bind_res (summarise (tool_name_of L m) raw) (\<lambda>summary.
                   bind_res (record_eviction L (tool_name_of L m) raw summary st) (\<lambda>st'.
                   Inr (dset ''content'' (PStr summary) m, st'))))"

fun process_each ::
  "text_lib \<Rightarrow> evictor \<Rightarrow> (string \<Rightarrow> string \<Rightarrow> exn + string) \<Rightarrow> pydict list \<Rightarrow> eviction_stats \<Rightarrow>
     exn + pydict list \<times> eviction_stats" where
  "process_each L E summarise [] st = Inr ([], st)"
| "process_each L E summarise (m # ms) st =
     bind_res (process_message L E summarise m st) (\<lambda>(m', st1).
     bind_res (process_each L E summarise ms st1) (\<lambda>(ms', st2). Inr (m' # ms', st2)))"

definition compaction_text :: "string \<Rightarrow> string" where
  "compaction_text tool =
     ''['' @ tool @ ''] context budget compaction; '' @ ''retained summary omitted to protect context size.''"

text \<open>The loop over the messages, oldest first, while the count of characters is above the budget.\<close>

fun compact_each ::
  "text_lib \<Rightarrow> evictor \<Rightarrow> int \<Rightarrow> pydict list \<Rightarrow> eviction_stats \<Rightarrow> exn + pydict list \<times> eviction_stats" where
  "compact_each L E total_chars [] st = Inr ([], st)"
| "compact_each L E total_chars (m # ms) st =
     (if total_chars \<le> int (ev_context_chars E) then Inr (m # ms, st)
      else if \<not> is_tool_message m
      then bind_res (compact_each L E total_chars ms st) (\<lambda>(ms', st'). Inr (m # ms', st'))
      else bind_res (fit_summary L E (compaction_text (tool_name_of L m))) (\<lambda>marker.
           let saved = length (content_text L (content_of m)) - length marker
           in bind_res (compact_each L E (total_chars - int saved) ms
                          (st\<lparr>es_compactions := Suc (es_compactions st)\<rparr>)) (\<lambda>(ms', st').
              Inr (dset ''content'' (PStr marker) m # ms', st'))))"

definition chars_in :: "text_lib \<Rightarrow> pydict list \<Rightarrow> nat" where
  "chars_in L ms = sum_list (map (\<lambda>m. length (content_text L (content_of m))) ms)"

definition enforce_context_budget ::
  "text_lib \<Rightarrow> evictor \<Rightarrow> pydict list \<Rightarrow> eviction_stats \<Rightarrow> exn + pydict list \<times> eviction_stats" where
  "enforce_context_budget L E ms st =
     (if chars_in L ms \<le> ev_context_chars E then Inr (ms, st)
      else compact_each L E (int (chars_in L ms)) ms st)"

definition process_messages ::
  "text_lib \<Rightarrow> evictor \<Rightarrow> pydict list \<Rightarrow> eviction_stats \<Rightarrow> exn + pydict list \<times> eviction_stats" where
  "process_messages L E ms st =
     (if ms = [] then Inr ([], st)
      else bind_res (process_each L E (evict_tool_result L E) ms st)
             (\<lambda>(processed, st'). enforce_context_budget L E processed st'))"

type_synonym summarizer = "string \<Rightarrow> string \<Rightarrow> nat \<Rightarrow> exn + pyval"

definition summarise_async :: "text_lib \<Rightarrow> evictor \<Rightarrow> summarizer \<Rightarrow> string \<Rightarrow> string \<Rightarrow> exn + string" where
  "summarise_async L E hook tool raw =
     (case bind_res (hook tool raw (ev_result_tokens E)) (\<lambda>candidate.
             bind_res (fit_summary L E (py_str (tl_repr L) candidate)) (\<lambda>summary.
             if str_strip summary = []
             then Inl (PyError (ValueError ''summarizer returned an empty summary''))
             else Inr summary)) of
        Inr summary \<Rightarrow> Inr summary
      | Inl e \<Rightarrow> if caught_by_exception e then evict_tool_result L E tool raw else Inl e)"

definition aprocess_messages ::
  "text_lib \<Rightarrow> evictor \<Rightarrow> summarizer option \<Rightarrow> pydict list \<Rightarrow> eviction_stats \<Rightarrow>
     exn + pydict list \<times> eviction_stats" where
  "aprocess_messages L E hook ms st =
     (case hook of
        None \<Rightarrow> process_messages L E ms st
      | Some h \<Rightarrow> bind_res (process_each L E (summarise_async L E h) ms st)
                    (\<lambda>(processed, st'). enforce_context_budget L E processed st'))"

definition get_stats :: "eviction_stats \<Rightarrow> eviction_stats" where
  "get_stats st = st"

definition reset_stats :: "eviction_stats \<Rightarrow> eviction_stats" where
  "reset_stats st = new_stats"

section \<open>Bounds of a fitted summary\<close>

definition summary_cap :: "evictor \<Rightarrow> nat" where
  "summary_cap E = max (ev_result_chars E) (length no_summary)"

lemma length_str_rstrip_take: "length (str_rstrip (take n s)) \<le> n"
  using length_str_rstrip [of "take n s"] by simp

lemma fit_summary_length: "fit_summary L E s = Inr t \<Longrightarrow> length t \<le> summary_cap E"
  using length_str_rstrip_take [of "ev_result_chars E"]
  by (fastforce simp: fit_summary_def summary_cap_def bind_res_Inr_iff Let_def le_max_iff_disj split: if_splits)

lemma fit_loop_budget:
  "fit_loop L budget ids = Inr c \<Longrightarrow>
     \<exists>ids'. prefix ids' ids \<and> c = truncated_text L ids'
       \<and> (ids' = [] \<or> (\<exists>n. count_text_tokens L c = Inr n \<and> n \<le> budget))"
proof (induction L budget ids rule: fit_loop.induct)
  case (1 L budget ids)
  from "1.prems" obtain n where n: "count_text_tokens L (truncated_text L ids) = Inr n"
    by (subst (asm) fit_loop.simps) (auto simp: bind_res_Inr_iff)
  show ?case
  proof (cases "budget < n \<and> ids \<noteq> []")
    case True
    then have "fit_loop L budget (butlast ids) = Inr c"
      using "1.prems" n by (subst (asm) fit_loop.simps) simp
    from "1.IH" [OF _ this] n True obtain ids' where
      "prefix ids' (butlast ids)" "c = truncated_text L ids'"
      "ids' = [] \<or> (\<exists>n. count_text_tokens L c = Inr n \<and> n \<le> budget)" by blast
    then show ?thesis using prefixeq_butlast prefix_order.trans by blast
  next
    case False
    then have "c = truncated_text L ids"
      using "1.prems" n by (subst (asm) fit_loop.simps) auto
    then show ?thesis using n False by (intro exI [of _ ids]) auto
  qed
qed

lemma evict_tool_result_length: "evict_tool_result L E tool raw = Inr s \<Longrightarrow> length s \<le> summary_cap E"
  unfolding evict_tool_result_def by (auto simp: bind_res_Inr_iff dest: fit_summary_length)

lemma summarise_async_length: "summarise_async L E hook tool raw = Inr s \<Longrightarrow> length s \<le> summary_cap E"
  unfolding summarise_async_def
  by (auto split: sum.splits if_splits simp: bind_res_Inr_iff dest: evict_tool_result_length fit_summary_length)

section \<open>What the passes keep\<close>

text \<open>A message a pass returns: the one it was given, or a tool message with a bounded text as its
  content.\<close>

definition rewritten :: "evictor \<Rightarrow> pydict \<Rightarrow> pydict \<Rightarrow> bool" where
  "rewritten E m m' =
     (m' = m \<or> (is_tool_message m \<and> (\<exists>t. m' = dset ''content'' (PStr t) m \<and> length t \<le> summary_cap E)))"

definition oversized :: "text_lib \<Rightarrow> evictor \<Rightarrow> pydict \<Rightarrow> bool" where
  "oversized L E m =
     (is_tool_message m \<and> \<not> is_evicted_marker (content_of m)
      \<and> ev_result_chars E < length (content_text L (content_of m)))"

definition stats_ok :: "eviction_stats \<Rightarrow> bool" where
  "stats_ok st =
     (es_evictions st = length (es_history st)
      \<and> es_chars_evicted st = sum_list (map (\<lambda>e. ee_original_chars e - ee_evicted_chars e) (es_history st)))"

lemma dset_dset [simp]: "dset k v (dset k w d) = dset k v d"
  unfolding dset_def by (induction d) auto

lemma tool_dset_content [simp]: "is_tool_message (dset ''content'' v m) = is_tool_message m"
  by (simp add: is_tool_message_def)

lemma content_of_dset [simp]: "content_of (dset ''content'' v m) = v"
  by (simp add: content_of_def)

lemma rewritten_refl [simp]: "rewritten E m m"
  by (simp add: rewritten_def)

lemma rewritten_trans: "rewritten E m m1 \<Longrightarrow> rewritten E m1 m2 \<Longrightarrow> rewritten E m m2"
  unfolding rewritten_def by auto

lemma record_eviction_ok:
  "record_eviction L tool raw s st = Inr st' \<Longrightarrow>
     es_evictions st' = Suc (es_evictions st) \<and> (stats_ok st \<longrightarrow> stats_ok st')"
  by (auto simp: record_eviction_def bind_res_Inr_iff stats_ok_def)

lemma process_message_ok:
  assumes "process_message L E f m st = Inr (m', st')"
    and "\<And>t r s. f t r = Inr s \<Longrightarrow> length s \<le> summary_cap E"
  shows "rewritten E m m' \<and> (is_tool_message m \<and> \<not> is_evicted_marker (content_of m)
           \<longrightarrow> length (content_text L (content_of m')) \<le> summary_cap E)
     \<and> es_evictions st' = es_evictions st + (if oversized L E m then 1 else 0)
     \<and> (stats_ok st \<longrightarrow> stats_ok st')"
proof (cases "oversized L E m")
  case True
  then obtain s where s: "f (tool_name_of L m) (content_text L (content_of m)) = Inr s"
    "record_eviction L (tool_name_of L m) (content_text L (content_of m)) s st = Inr st'"
    "m' = dset ''content'' (PStr s) m"
    using assms(1) by (auto simp: process_message_def oversized_def bind_res_Inr_iff Let_def split: if_splits)
  then show ?thesis
    using assms(2) [OF s(1)] record_eviction_ok [OF s(2)] True
    by (auto simp: rewritten_def oversized_def content_text_def)
next
  case False
  then have "m' = m \<and> st' = st"
    using assms(1) by (auto simp: process_message_def oversized_def Let_def split: if_splits)
  with False show ?thesis by (auto simp: oversized_def summary_cap_def)
qed

lemma process_each_ok:
  assumes "process_each L E f ms st = Inr (out, st')"
    and "\<And>t r s. f t r = Inr s \<Longrightarrow> length s \<le> summary_cap E"
  shows "list_all2 (\<lambda>m m'. rewritten E m m' \<and> (is_tool_message m \<and> \<not> is_evicted_marker (content_of m)
           \<longrightarrow> length (content_text L (content_of m')) \<le> summary_cap E)) ms out
     \<and> es_evictions st' = es_evictions st + length (filter (oversized L E) ms)
     \<and> (stats_ok st \<longrightarrow> stats_ok st')"
  using assms(1)
proof (induction ms arbitrary: st out)
  case (Cons m ms)
  then obtain m' st1 ms' where step: "process_message L E f m st = Inr (m', st1)"
    "process_each L E f ms st1 = Inr (ms', st')" "out = m' # ms'"
    by (auto simp: bind_res_Inr_iff)
  show ?case
    using process_message_ok [OF step(1) assms(2)] Cons.IH [OF step(2)] step(3) by auto
qed simp

lemma compact_each_ok:
  "compact_each L E n ms st = Inr (out, st') \<Longrightarrow>
     list_all2 (rewritten E) ms out \<and> es_evictions st' = es_evictions st \<and> (stats_ok st \<longrightarrow> stats_ok st')
       \<and> es_compactions st \<le> es_compactions st'"
proof (induction L E n ms st arbitrary: out st' rule: compact_each.induct)
  case (2 L E n m ms st)
  consider "n \<le> int (ev_context_chars E)" | "\<not> n \<le> int (ev_context_chars E)" "\<not> is_tool_message m"
    | "\<not> n \<le> int (ev_context_chars E)" "is_tool_message m" by blast
  then show ?case
  proof cases
    case 1
    then show ?thesis using "2.prems" by (auto intro: list.rel_refl)
  next
    case 2
    then obtain ms' where "compact_each L E n ms st = Inr (ms', st')" "out = m # ms'"
      using "2.prems" by (auto simp: bind_res_Inr_iff)
    then show ?thesis using "2.IH"(1) [OF 2, of ms' st'] by simp
  next
    case 3
    then obtain t ms' where
      t: "fit_summary L E (compaction_text (tool_name_of L m)) = Inr t"
      and rest: "compact_each L E (n - int (length (content_text L (content_of m)) - length t)) ms
         (st\<lparr>es_compactions := Suc (es_compactions st)\<rparr>) = Inr (ms', st')"
      and out: "out = dset ''content'' (PStr t) m # ms'"
      using "2.prems" by (auto simp: bind_res_Inr_iff Let_def)
    have "rewritten E m (dset ''content'' (PStr t) m)"
      using 3 fit_summary_length [OF t] by (auto simp: rewritten_def)
    then show ?thesis
      using "2.IH"(2) [OF _ _ refl rest] 3 out by (auto simp: stats_ok_def)
  qed
qed simp

lemma enforce_ok:
  "enforce_context_budget L E ms st = Inr (out, st') \<Longrightarrow>
     list_all2 (rewritten E) ms out \<and> es_evictions st' = es_evictions st \<and> (stats_ok st \<longrightarrow> stats_ok st')"
  by (auto simp: enforce_context_budget_def dest: compact_each_ok split: if_splits intro: list.rel_refl)

lemma rewritten_bounded:
  "rewritten E m m' \<Longrightarrow> length (content_text L (content_of m)) \<le> summary_cap E \<Longrightarrow>
     length (content_text L (content_of m')) \<le> summary_cap E"
  by (auto simp: rewritten_def content_text_def)

text \<open>Either pass is the loop over the messages followed by the enforcement of the budget.\<close>

lemma aprocess_cases:
  assumes "aprocess_messages L E hook ms st = Inr (out, st')"
  obtains f mid st1 where "process_each L E f ms st = Inr (mid, st1)"
    and "\<And>t r s. f t r = Inr s \<Longrightarrow> length s \<le> summary_cap E"
    and "enforce_context_budget L E mid st1 = Inr (out, st')"
proof (cases hook)
  case None
  show ?thesis
  proof (cases "ms = []")
    case True
    with None assms have "out = [] \<and> st' = st" by (simp add: aprocess_messages_def process_messages_def)
    with True show ?thesis
      by (intro that [of "\<lambda>_ _. Inl SystemExit" "[]" st]) (simp_all add: enforce_context_budget_def chars_in_def)
  next
    case False
    with None assms obtain mid st1 where "process_each L E (evict_tool_result L E) ms st = Inr (mid, st1)"
      "enforce_context_budget L E mid st1 = Inr (out, st')"
      by (auto simp: aprocess_messages_def process_messages_def bind_res_Inr_iff)
    then show ?thesis using that evict_tool_result_length by blast
  qed
next
  case (Some h)
  with assms obtain mid st1 where "process_each L E (summarise_async L E h) ms st = Inr (mid, st1)"
    "enforce_context_budget L E mid st1 = Inr (out, st')"
    by (auto simp: aprocess_messages_def bind_res_Inr_iff)
  then show ?thesis using that summarise_async_length by blast
qed

text \<open>What both passes promise of one message.\<close>

definition kept :: "text_lib \<Rightarrow> evictor \<Rightarrow> pydict \<Rightarrow> pydict \<Rightarrow> bool" where
  "kept L E m m' =
     (rewritten E m m' \<and> (is_tool_message m \<and> \<not> is_evicted_marker (content_of m)
        \<longrightarrow> length (content_text L (content_of m')) \<le> summary_cap E))"

lemma aprocess_kept:
  assumes "aprocess_messages L E hook ms st = Inr (out, st')"
  shows "list_all2 (kept L E) ms out \<and> es_evictions st' = es_evictions st + length (filter (oversized L E) ms)
     \<and> (stats_ok st \<longrightarrow> stats_ok st')"
proof -
  obtain f mid st1 where each: "process_each L E f ms st = Inr (mid, st1)"
    and bound: "\<And>t r s. f t r = Inr s \<Longrightarrow> length s \<le> summary_cap E"
    and enforce: "enforce_context_budget L E mid st1 = Inr (out, st')"
    using aprocess_cases [OF assms] by metis
  have "list_all2 (kept L E) ms mid" and counts: "es_evictions st1 = es_evictions st + length (filter (oversized L E) ms)"
    "stats_ok st \<longrightarrow> stats_ok st1"
    using process_each_ok [OF each bound] by (simp_all add: kept_def [abs_def])
  moreover have "list_all2 (rewritten E) mid out" "es_evictions st' = es_evictions st1" "stats_ok st1 \<longrightarrow> stats_ok st'"
    using enforce_ok [OF enforce] by simp_all
  moreover have "kept L E m m2" if "kept L E m m1" "rewritten E m1 m2" for m m1 m2
    using that rewritten_trans rewritten_bounded unfolding kept_def by blast
  ultimately show ?thesis using list_all2_trans [of "kept L E" "rewritten E" "kept L E" ms mid out] by auto
qed

text \<open>C27: what eviction keeps and what it bounds. When a pass over the messages returns, synchronous
  or with the summarizer hook and whatever hook, encoder and JSON library are, it returns as many
  messages in the same order; every message that is not a tool result comes back as it was; of a
  tool result only the content may have changed, and its text is at most the character cap (or
  the 27 characters of the fallback text) unless it carried the eviction mark; the eviction
  counter has gone up by exactly the number of oversized results, and a statistics record whose
  counters agree with its history still does.\<close>

theorem eviction_contract:
  assumes "aprocess_messages L E hook ms st = Inr (out, st')" and "stats_ok st"
  shows "length out = length ms
     \<and> (\<forall>i < length ms. \<not> is_tool_message (ms ! i) \<longrightarrow> out ! i = ms ! i)
     \<and> (\<forall>i < length ms. \<forall>k. k \<noteq> ''content'' \<longrightarrow> dget (out ! i) k = dget (ms ! i) k)
     \<and> (\<forall>i < length ms. is_tool_message (ms ! i) \<and> \<not> is_evicted_marker (content_of (ms ! i))
           \<longrightarrow> length (content_text L (content_of (out ! i))) \<le> max (ev_result_chars E) 27)
     \<and> es_evictions st' = es_evictions st + length (filter (oversized L E) ms)
     \<and> stats_ok st'"
proof -
  have cap: "summary_cap E = max (ev_result_chars E) 27"
    by (simp add: summary_cap_def no_summary_def)
  have kept: "list_all2 (kept L E) ms out"
    and counts: "es_evictions st' = es_evictions st + length (filter (oversized L E) ms)" "stats_ok st'"
    using aprocess_kept [OF assms(1)] assms(2) by auto
  have each: "kept L E (ms ! i) (out ! i)" if "i < length ms" for i
    using list_all2_nthD [OF kept that] .
  have same: "m' = m" if "kept L E m m'" "\<not> is_tool_message m" for m m'
    using that by (auto simp: kept_def rewritten_def)
  have other: "dget m' k = dget m k" if "kept L E m m'" "k \<noteq> ''content''" for m m' k
    using that by (auto simp: kept_def rewritten_def)
  have bounded: "length (content_text L (content_of m')) \<le> max (ev_result_chars E) 27"
    if "kept L E m m'" "is_tool_message m \<and> \<not> is_evicted_marker (content_of m)" for m m'
    using that by (simp add: kept_def cap)
  show ?thesis
    by (intro conjI allI impI list_all2_lengthD [OF kept, symmetric] same [OF each] other [OF each]
        bounded [OF each] counts) simp_all
qed

text \<open>A second pass evicts nothing. With a character cap of at least 27, the messages one pass
  returns contain no oversized tool result, so another pass over them, under any hook, leaves the
  eviction counter as it is.\<close>

lemma second_pass_evicts_nothing:
  assumes "aprocess_messages L E hook ms st = Inr (out, st1)" and "27 \<le> ev_result_chars E"
    and "aprocess_messages L E hook' out st1 = Inr (out', st2)"
  shows "es_evictions st2 = es_evictions st1"
proof -
  have cap: "summary_cap E = ev_result_chars E"
    using assms(2) by (simp add: summary_cap_def no_summary_def)
  have small: "\<not> oversized L E m'" if "kept L E m m'" for m m'
    using that cap by (auto simp: kept_def rewritten_def oversized_def content_text_def)
  have "list_all2 (kept L E) ms out" using aprocess_kept [OF assms(1)] by simp
  then have "list_all (\<lambda>m'. \<not> oversized L E m') out"
    by (induction rule: list_all2_induct) (use small in auto)
  then have "filter (oversized L E) out = []" by (auto simp: filter_empty_conv list_all_iff)
  then show ?thesis using aprocess_kept [OF assms(3)] by simp
qed

section \<open>A concrete pass\<close>

text \<open>An encoder with one token per character, and one document.\<close>

definition char_lib :: text_lib where
  "char_lib = \<lparr>tl_loads = (\<lambda>s. if prefix ''{'' s
                    then Some (PDict [(''error'', PStr ''refused''), (''count'', PInt 3), (''items'', PList [])]) else None),
     tl_dumps = (\<lambda>_. None), tl_repr = (\<lambda>_. []),
     tl_encode = (\<lambda>s. Inr (map of_char s)), tl_decode = map char_of\<rparr>"

definition small_evictor :: evictor where
  "small_evictor = \<lparr>ev_result_chars = 32, ev_context_chars = 400, ev_result_tokens = 60\<rparr>"

definition demo_messages :: "pydict list" where
  "demo_messages =
     [[(''role'', PStr ''user''), (''content'', PStr ''why?'')],
      [(''role'', PStr ''tool''), (''name'', PStr ''db''),
       (''content'', PStr ''{error: refused, count: 3, items: [], pods: []}'')]]"

definition demo_evicted :: "pydict list" where
  "demo_evicted =
     [[(''role'', PStr ''user''), (''content'', PStr ''why?'')],
      [(''role'', PStr ''tool''), (''name'', PStr ''db''),
       (''content'', PStr ''[db] JSON summary | Errors(1): r'')]]"

definition demo_stats :: eviction_stats where
  "demo_stats = \<lparr>es_evictions = 1, es_chars_evicted = 15, es_compactions = 0,
     es_history = [\<lparr>ee_tool_name = ''db'', ee_original_chars = 47, ee_evicted_chars = 32, ee_summary_tokens = 32\<rparr>]\<rparr>"

lemma demo_pass: "aprocess_messages char_lib small_evictor None demo_messages new_stats = Inr (demo_evicted, demo_stats)"
  by code_simp

lemma demo_pass_again: "aprocess_messages char_lib small_evictor None demo_evicted demo_stats = Inr (demo_evicted, demo_stats)"
  by code_simp

theorem eviction_contract_witness:
  "length (content_text char_lib (content_of (demo_evicted ! 1))) \<le> 32
     \<and> demo_evicted ! 0 = demo_messages ! 0 \<and> es_evictions demo_stats = 1 \<and> stats_ok demo_stats"
proof -
  have "stats_ok new_stats" by (simp add: stats_ok_def new_stats_def)
  note contract = eviction_contract [OF demo_pass this]
  have "\<not> is_tool_message (demo_messages ! 0)" "is_tool_message (demo_messages ! 1)"
    "\<not> is_evicted_marker (content_of (demo_messages ! 1))"
    by (simp_all add: demo_messages_def is_tool_message_def is_evicted_marker_def content_of_def dget_or_def)
  moreover have "length demo_messages = 2" "ev_result_chars small_evictor = 32" "es_evictions demo_stats = 1"
    by (simp_all add: demo_messages_def small_evictor_def demo_stats_def)
  ultimately show ?thesis using contract by auto
qed

theorem second_pass_evicts_nothing_witness:
  "aprocess_messages char_lib small_evictor None demo_evicted demo_stats = Inr (demo_evicted, demo_stats)
     \<and> es_evictions demo_stats = es_evictions demo_stats"
  using second_pass_evicts_nothing [OF demo_pass _ demo_pass_again] demo_pass_again
  by (simp add: small_evictor_def)

section \<open>What goes wrong\<close>

text \<open>A percent sign between a digit and a word character, as in a URL, makes the text summary raise:
  the percentage pattern has one group and the code reads two.\<close>

lemma percentage_raises: "summarize_text char_lib ''t'' ''5%x'' = Inl (PyError (OtherError ''no such group''))"
  by code_simp

text \<open>A token budget below the length of the suffix is exceeded.\<close>

lemma token_budget_exceeded:
  "fit_summary char_lib \<lparr>ev_result_chars = 100, ev_context_chars = 400, ev_result_tokens = 5\<rparr> ''abcdefgh''
     = Inr (CHR 0x0A # ''[summary truncated]'')"
  by code_simp

text \<open>A blank answer of the summarizer is accepted as the fallback text: fitting replaces it before the
  test for an empty summary, so the deterministic summary is not used.\<close>

lemma blank_summary_kept:
  "hook tool raw (ev_result_tokens E) = Inr (PStr s) \<Longrightarrow> str_strip s = [] \<Longrightarrow>
     summarise_async L E hook tool raw = Inr no_summary"
proof -
  assume hook: "hook tool raw (ev_result_tokens E) = Inr (PStr s)" "str_strip s = []"
  have "str_strip no_summary \<noteq> []" by code_simp
  with hook show ?thesis by (simp add: summarise_async_def fit_summary_def)
qed

text \<open>Compaction counts a marker longer than the text it replaces as no growth, so the returned
  messages can be above the budget while a tool result is left as it was.\<close>

definition tool_text :: "string \<Rightarrow> string \<Rightarrow> pydict" where
  "tool_text tool s = [(''role'', PStr ''tool''), (''name'', PStr tool), (''content'', PStr s)]"

lemma compaction_overshoots:
  "map_sum id (\<lambda>(ms, st). (chars_in char_lib ms, es_compactions st))
     (process_messages char_lib \<lparr>ev_result_chars = 90, ev_context_chars = 95, ev_result_tokens = 200\<rparr>
        [tool_text ''a'' ''x'', tool_text ''b'' (replicate 89 CHR ''y''), tool_text ''c'' ''zzzzzzzzzz''] new_stats)
   = Inr (170, 2)"
  by code_simp

end
