(* ===== verification/Webhook.thy ===== *)
theory Webhook
  imports Windows Actions Json
begin

text \<open>
  The ingress of the API, \<^verbatim>\<open>api/routes.py\<close>: signature and admin checks, pausing, the
  enrichment of OpenObserve alerts, the alert webhook with rate limiting, deduplication and
  scheduling, and the approval webhook with its signing helper; and the key check of
  \<^verbatim>\<open>api/middleware.py\<close>. An HTTP handler returns a reply or an \<open>http_error\<close>: an
  HTTPException with its status and detail, or an exception that becomes a 500. HMAC-SHA256 in
  hex, \<open>json\<close>, pydantic's validation of a body and \<open>str\<close> of an exception are arguments
  (\<open>web_lib\<close>), and so are the runner's answers. A header is looked up by the name the code uses; a
  text is its UTF-8 bytes. The module's limiter and fingerprint index are fields of the
  application state, with the clock readings as arguments.
\<close>

datatype http_error = HTTPException int string | Unhandled exn

record http_request =
  rq_headers :: "(string, string) dict"
  rq_client :: "string option"
  rq_body :: "exn + string"

record alert_payload =
  al_alert_name :: string
  al_service :: string
  al_namespace :: string
  al_severity :: string
  al_started_at :: string
  al_fingerprint :: string
  al_description :: string
  al_labels :: "(string, string) dict"
  al_annotations :: "(string, string) dict"

record approval_request =
  ap_approved :: bool
  ap_comment :: string

record web_lib =
  wl_hmac :: "string \<Rightarrow> string \<Rightarrow> string"
  wl_loads :: "string \<Rightarrow> exn + pyval"
  wl_dumps :: "pyval \<Rightarrow> string"
  wl_alert_json :: "string \<Rightarrow> exn + alert_payload"
  wl_approval_json :: "string \<Rightarrow> exn + approval_request"
  wl_repr :: "pyval \<Rightarrow> string"
  wl_show_exn :: "exn \<Rightarrow> string"
  wl_budget_exhausted :: "exn \<Rightarrow> bool"

record web_settings =
  ws_webhook_secret :: string
  ws_admin_secret :: "string option"

record app_state =
  as_paused :: bool
  as_pause_reason :: "string option"
  as_limiter :: rate_limiter
  as_index :: fingerprint_index

definition header :: "http_request \<Rightarrow> string \<Rightarrow> string" where
  "header rq name = dget_or (rq_headers rq) name []"

section \<open>Secrets\<close>

text \<open>\<open>hmac.compare_digest\<close> of two texts raises on a character outside ASCII.\<close>

definition compare_digest :: "string \<Rightarrow> string \<Rightarrow> exn + bool" where
  "compare_digest a b =
     (if list_all (\<lambda>c. (of_char c :: nat) < 128) (a @ b) then Inr (a = b)
      else Inl (PyError (TypeError ''comparing strings with non-ASCII characters is not supported'')))"

definition verify_signature :: "web_lib \<Rightarrow> string \<Rightarrow> string \<Rightarrow> string \<Rightarrow> exn + bool" where
  "verify_signature L payload signature secret =
     (if \<not> str_startswith signature ''sha256='' then Inr False
      else compare_digest (drop 7 signature) (wl_hmac L secret payload))"

definition raised :: "exn + 'a \<Rightarrow> http_error + 'a" where
  "raised r = (case r of Inl e \<Rightarrow> Inl (Unhandled e) | Inr x \<Rightarrow> Inr x)"

definition check_signature :: "web_lib \<Rightarrow> web_settings \<Rightarrow> http_request \<Rightarrow> string \<Rightarrow> http_error + unit" where
  "check_signature L S rq payload =
     bind_res (raised (verify_signature L payload (header rq ''X-Webhook-Signature'') (ws_webhook_secret S)))
       (\<lambda>ok. if ok then Inr () else Inl (HTTPException 401 ''Invalid webhook signature''))"

definition require_admin_secret :: "web_settings \<Rightarrow> http_request \<Rightarrow> http_error + unit" where
  "require_admin_secret S rq =
     (case ws_admin_secret S of
        None \<Rightarrow> Inl (HTTPException 503 ''Admin endpoints are disabled (no secret configured)'')
      | Some secret \<Rightarrow>
          (let provided = header rq ''X-Admin-Secret''
           in if provided = [] then Inl (HTTPException 401 ''Missing admin secret'')
              else bind_res (raised (compare_digest provided secret))
                     (\<lambda>ok. if ok then Inr () else Inl (HTTPException 401 ''Invalid admin secret''))))"

section \<open>Admin\<close>

record admin_status_response =
  sr_paused :: bool
  sr_reason :: "string option"

definition admin_pause :: "web_settings \<Rightarrow> http_request \<Rightarrow> app_state \<Rightarrow>
    (http_error + admin_status_response) \<times> app_state" where
  "admin_pause S rq A =
     (case require_admin_secret S rq of
        Inl e \<Rightarrow> (Inl e, A)
      | Inr _ \<Rightarrow> (Inr \<lparr>sr_paused = True, sr_reason = Some ''manual''\<rparr>,
                A\<lparr>as_paused := True, as_pause_reason := Some ''manual''\<rparr>))"

definition admin_resume :: "web_settings \<Rightarrow> http_request \<Rightarrow> app_state \<Rightarrow>
    (http_error + admin_status_response) \<times> app_state" where
  "admin_resume S rq A =
     (case require_admin_secret S rq of
        Inl e \<Rightarrow> (Inl e, A)
      | Inr _ \<Rightarrow> (Inr \<lparr>sr_paused = False, sr_reason = None\<rparr>,
                A\<lparr>as_paused := False, as_pause_reason := None\<rparr>))"

definition admin_status :: "web_settings \<Rightarrow> http_request \<Rightarrow> app_state \<Rightarrow> http_error + admin_status_response" where
  "admin_status S rq A =
     bind_res (require_admin_secret S rq)
       (\<lambda>_. Inr \<lparr>sr_paused = as_paused A, sr_reason = as_pause_reason A\<rparr>)"

section \<open>The alert webhook\<close>

definition client_ip :: "http_request \<Rightarrow> string" where
  "client_ip rq =
     (let forwarded = header rq ''X-Forwarded-For''
      in if forwarded \<noteq> [] then str_strip (takeWhile (\<lambda>c. c \<noteq> CHR '','') forwarded)
         else case rq_client rq of Some h \<Rightarrow> h | None \<Rightarrow> ''unknown'')"

definition as_str :: "web_lib \<Rightarrow> pyval \<Rightarrow> string" where
  "as_str L v = (case v of PNone \<Rightarrow> [] | _ \<Rightarrow> py_str (wl_repr L) v)"

text \<open>The dataset's incidents, indexed by alert name; a later one replaces an earlier.\<close>

definition load_dataset_index :: "pydict list \<Rightarrow> (string, pydict) dict" where
  "load_dataset_index incidents =
     fold (\<lambda>inc d. case dget_or inc ''alert_name'' (PStr []) of
                    PStr name \<Rightarrow> if name = [] then d else dset name inc d
                  | _ \<Rightarrow> d) incidents []"

text \<open>A \<open>str\<close> field of the payload model, validated leniently.\<close>

definition text_field :: "pyval \<Rightarrow> exn + string" where
  "text_field v = (case v of PStr s \<Rightarrow> Inr s | PBytes s \<Rightarrow> Inr s
      | _ \<Rightarrow> Inl (ValidationError ''Input should be a valid string''))"

definition o2_annotations :: "string list" where
  "o2_annotations = [''alert_count'', ''alert_agg_value'', ''alert_threshold'', ''alert_operator'',
     ''stream_name'', ''alert_url'']"

definition enrich_openobserve_alert ::
  "web_lib \<Rightarrow> (string, pydict) dict \<Rightarrow> string \<Rightarrow> pydict \<Rightarrow> exn + alert_payload option" where
  "enrich_openobserve_alert L index alert_name raw_o2 =
     (case dget index alert_name of
        None \<Rightarrow> Inr None
      | Some inc \<Rightarrow>
          (let namespace = dget_or inc ''namespace'' (PStr ''rivulet'')
           in bind_res (text_field (dget_or inc ''service'' (PStr ''unknown''))) (\<lambda>service.
              bind_res (text_field namespace) (\<lambda>ns.
              bind_res (text_field (dget_or inc ''severity'' (PStr ''sev2''))) (\<lambda>severity.
              bind_res (text_field (dget_or inc ''category'' (PStr ''unknown''))) (\<lambda>category.
              bind_res (text_field (dget_or inc ''id'' (PStr []))) (\<lambda>eval_id.
              Inr (Some \<lparr>al_alert_name = alert_name, al_service = service, al_namespace = ns,
                al_severity = severity, al_started_at = as_str L (dget_or raw_o2 ''started_at'' (PStr [])),
                al_fingerprint = ''o2:'' @ alert_name @ '':'' @ py_str (wl_repr L) namespace,
                al_description = ''OpenObserve alert: '' @ alert_name,
                al_labels = [(''category'', category), (''eval_id'', eval_id),
                  (''baseline_mttr_seconds'', py_str (wl_repr L) (dget_or inc ''baseline_mttr_seconds'' (PInt 0))),
                  (''triggered_by'', ''openobserve'')],
                al_annotations = map (\<lambda>k. (k, as_str L (dget_or raw_o2 k (PStr [])))) o2_annotations\<rparr>))))))))"

text \<open>Reading and verifying a body by its source: OpenObserve alerts carry no signature.\<close>

definition from_openobserve :: "http_request \<Rightarrow> bool" where
  "from_openobserve rq = (header rq ''X-Source'' = ''openobserve'')"

definition openobserve_alert :: "web_lib \<Rightarrow> (string, pydict) dict \<Rightarrow> string \<Rightarrow> http_error + alert_payload" where
  "openobserve_alert L index payload =
     (case wl_loads L payload of
        Inl e \<Rightarrow> Inl (HTTPException 400 (''Invalid JSON from OpenObserve: '' @ wl_show_exn L e))
      | Inr (PDict raw) \<Rightarrow>
          (let name = as_str L (dget_or raw ''alert_name'' (PStr []))
           in if name = [] then Inl (HTTPException 422 ''OpenObserve webhook missing alert_name'')
              else bind_res (raised (enrich_openobserve_alert L index name raw)) (\<lambda>found.
                   case found of
                     Some alert \<Rightarrow> Inr alert
                   | None \<Rightarrow> Inl (HTTPException 422 (''Unknown alert_name from OpenObserve: '' @ name))))
      | Inr _ \<Rightarrow> Inl (Unhandled (PyError (AttributeError ''object has no attribute get''))))"

definition signed_alert :: "web_lib \<Rightarrow> web_settings \<Rightarrow> http_request \<Rightarrow> string \<Rightarrow> http_error + alert_payload" where
  "signed_alert L S rq payload =
     bind_res (check_signature L S rq payload) (\<lambda>_.
       case wl_alert_json L payload of
         Inl e \<Rightarrow> Inl (HTTPException 422 (''Invalid alert payload: '' @ wl_show_exn L e))
       | Inr alert \<Rightarrow> Inr alert)"

definition read_alert ::
  "web_lib \<Rightarrow> web_settings \<Rightarrow> (string, pydict) dict \<Rightarrow> http_request \<Rightarrow> http_error + alert_payload" where
  "read_alert L S index rq =
     (case rq_body rq of
        Inl e \<Rightarrow> if caught_by_exception e then Inl (HTTPException 400 ''Failed to read request body'')
                else Inl (Unhandled e)
      | Inr payload \<Rightarrow>
          if from_openobserve rq then openobserve_alert L index payload else signed_alert L S rq payload)"

text \<open>\<open>model_dump()\<close>\<close>

definition dump_alert :: "alert_payload \<Rightarrow> pydict" where
  "dump_alert a =
     [(''alert_name'', PStr (al_alert_name a)), (''service'', PStr (al_service a)),
      (''namespace'', PStr (al_namespace a)), (''severity'', PStr (al_severity a)),
      (''started_at'', PStr (al_started_at a)), (''fingerprint'', PStr (al_fingerprint a)),
      (''description'', PStr (al_description a)),
      (''labels'', PDict (map (\<lambda>(k, v). (k, PStr v)) (al_labels a))),
      (''annotations'', PDict (map (\<lambda>(k, v). (k, PStr v)) (al_annotations a)))]"

text \<open>The handler up to the deduplication, and from there on: between the two it awaits the runner, so
  other requests can run. \<open>t1\<close> and \<open>t2\<close> are the clock in the limiter and in the lookup, \<open>t3\<close> in
  the reservation.\<close>

definition admit ::
  "web_lib \<Rightarrow> web_settings \<Rightarrow> (string, pydict) dict \<Rightarrow> http_request \<Rightarrow> rat \<Rightarrow> rat \<Rightarrow> app_state \<Rightarrow>
     (http_error + alert_payload \<times> string option) \<times> app_state" where
  "admit L S index rq t1 t2 A =
     (let (allowed, limiter) = allow (client_ip rq) t1 (as_limiter A); A1 = A\<lparr>as_limiter := limiter\<rparr>
      in if \<not> allowed then (Inl (HTTPException 429 ''Rate limit exceeded''), A1)
         else if as_paused A then (Inl (HTTPException 503 ''Agent is paused''), A1)
         else case read_alert L S index rq of
                Inl e \<Rightarrow> (Inl e, A1)
              | Inr alert \<Rightarrow>
                  (let (existing, ix) = index_lookup (al_fingerprint alert) t2 (as_index A1)
                   in (Inr (alert, existing), A1\<lparr>as_index := ix\<rparr>)))"

definition incident_reply :: "string \<Rightarrow> string \<Rightarrow> pyval" where
  "incident_reply incident_id status = PDict [(''incident_id'', PStr incident_id), (''status'', PStr status)]"

definition scheduling_error :: "web_lib \<Rightarrow> exn \<Rightarrow> http_error" where
  "scheduling_error L e =
     (if is_timeout e then HTTPException 504 ''Incident scheduling exceeded budget''
      else if wl_budget_exhausted L e then HTTPException 503 ''LLM provider budget exhausted''
      else if caught_by_exception e then HTTPException 500 (''Internal error: '' @ wl_show_exn L e)
      else Unhandled e)"

text \<open>The second component lists the alerts handed to the runner.\<close>

definition commit ::
  "web_lib \<Rightarrow> alert_payload \<times> string option \<Rightarrow> exn + string \<Rightarrow> rat \<Rightarrow> app_state \<Rightarrow>
     (http_error + pyval) \<times> pydict list \<times> app_state" where
  "commit L admitted answer t3 A =
     (case admitted of
        (alert, Some incident_id) \<Rightarrow> (Inr (incident_reply incident_id ''already_investigating''), [], A)
      | (alert, None) \<Rightarrow>
          (case answer of
             Inl e \<Rightarrow> (Inl (scheduling_error L e), [dump_alert alert], A)
           | Inr incident_id \<Rightarrow>
               (Inr (incident_reply incident_id ''accepted''), [dump_alert alert],
                A\<lparr>as_index := index_reserve (al_fingerprint alert) incident_id t3 (as_index A)\<rparr>)))"

definition trigger_incident ::
  "web_lib \<Rightarrow> web_settings \<Rightarrow> (string, pydict) dict \<Rightarrow> http_request \<Rightarrow> exn + string \<Rightarrow> rat \<Rightarrow> rat \<Rightarrow> rat \<Rightarrow>
     app_state \<Rightarrow> (http_error + pyval) \<times> pydict list \<times> app_state" where
  "trigger_incident L S index rq answer t1 t2 t3 A =
     (case admit L S index rq t1 t2 A of
        (Inl e, A1) \<Rightarrow> (Inl e, [], A1)
      | (Inr admitted, A1) \<Rightarrow> commit L admitted answer t3 A1)"

section \<open>The approval webhook\<close>

definition approval_body :: "web_lib \<Rightarrow> bool \<Rightarrow> string \<Rightarrow> string" where
  "approval_body L approved comment =
     wl_dumps L (PDict [(''approved'', PBool approved), (''comment'', PStr comment)])"

text \<open>\<open>POST /api/sign-approval\<close>: the signature and the body.\<close>

definition sign_approval :: "web_lib \<Rightarrow> web_settings \<Rightarrow> approval_request \<Rightarrow> string \<times> string" where
  "sign_approval L S a =
     (let body = approval_body L (ap_approved a) (ap_comment a)
      in (''sha256='' @ wl_hmac L (ws_webhook_secret S) body, body))"

definition decision_reply :: "string \<Rightarrow> bool \<Rightarrow> pyval" where
  "decision_reply incident_id approved =
     PDict [(''incident_id'', PStr incident_id), (''approved'', PBool approved),
            (''status'', PStr (if approved then ''approved'' else ''rejected''))]"

text \<open>\<open>decide\<close> is the runner's \<open>approve_incident\<close>, \<open>state_of\<close> its \<open>get_incident_state\<close>; the second
  component lists the decisions handed to the runner.\<close>

definition approve_incident ::
  "web_lib \<Rightarrow> web_settings \<Rightarrow> (string \<Rightarrow> bool \<Rightarrow> string \<Rightarrow> exn + bool) \<Rightarrow> (string \<Rightarrow> exn + pyval) \<Rightarrow>
     string \<Rightarrow> http_request \<Rightarrow> (http_error + pyval) \<times> (string \<times> bool \<times> string) list" where
  "approve_incident L S decide state_of incident_id rq =
     (case bind_res (raised (rq_body rq)) (\<lambda>payload.
             bind_res (check_signature L S rq payload) (\<lambda>_.
               case wl_approval_json L payload of
                 Inl e \<Rightarrow> Inl (HTTPException 422 (''Invalid approval payload: '' @ wl_show_exn L e))
               | Inr a \<Rightarrow> Inr a)) of
        Inl e \<Rightarrow> (Inl e, [])
      | Inr a \<Rightarrow>
          (case decide incident_id (ap_approved a) (ap_comment a) of
             Inl e \<Rightarrow> (Inl (Unhandled e), [(incident_id, ap_approved a, ap_comment a)])
           | Inr True \<Rightarrow> (Inr (decision_reply incident_id (ap_approved a)), [(incident_id, ap_approved a, ap_comment a)])
           | Inr False \<Rightarrow>
               (case state_of incident_id of
                  Inl e \<Rightarrow> (Inl (Unhandled e), [(incident_id, ap_approved a, ap_comment a)])
                | Inr v \<Rightarrow>
                    (Inl (if v = PNone then HTTPException 404 (''Incident '' @ incident_id @ '' not found'')
                          else HTTPException 409 ''Incident does not require approval or was already decided''),
                     [(incident_id, ap_approved a, ap_comment a)]))))"

section \<open>What reaches the runner\<close>

text \<open>\<open>hexdigest()\<close> is ASCII.\<close>

definition hex_digests :: "web_lib \<Rightarrow> bool" where
  "hex_digests L = (\<forall>k p. list_all (\<lambda>c. (of_char c :: nat) < 128) (wl_hmac L k p))"

definition signature_of :: "web_lib \<Rightarrow> web_settings \<Rightarrow> string \<Rightarrow> string" where
  "signature_of L S payload = ''sha256='' @ wl_hmac L (ws_webhook_secret S) payload"

lemma raised_Inr_iff [simp]: "raised r = Inr x \<longleftrightarrow> r = Inr x"
  by (cases r) (auto simp: raised_def)

lemma ascii_prefix: "list_all (\<lambda>c. (of_char c :: nat) < 128) ''sha256=''"
  by code_simp

lemma check_signature_Inr:
  "check_signature L S rq payload = Inr u \<Longrightarrow> header rq ''X-Webhook-Signature'' = signature_of L S payload"
  by (auto simp: check_signature_def verify_signature_def compare_digest_def str_startswith_def prefix_def
      signature_of_def bind_res_Inr_iff split: if_splits)

lemma check_signature_ok:
  "hex_digests L \<Longrightarrow> header rq ''X-Webhook-Signature'' = signature_of L S payload \<Longrightarrow>
     check_signature L S rq payload = Inr ()"
  using ascii_prefix
  by (simp add: check_signature_def verify_signature_def compare_digest_def str_startswith_def
      signature_of_def hex_digests_def raised_def)

text \<open>The alert a request carries, when it is one that may start an incident.\<close>

definition accepted_alert ::
  "web_lib \<Rightarrow> web_settings \<Rightarrow> (string, pydict) dict \<Rightarrow> http_request \<Rightarrow> alert_payload option" where
  "accepted_alert L S index rq =
     (case rq_body rq of
        Inl e \<Rightarrow> None
      | Inr body \<Rightarrow>
          if from_openobserve rq then
            (case wl_loads L body of
               Inr (PDict raw) \<Rightarrow>
                 (let name = as_str L (dget_or raw ''alert_name'' (PStr []))
                  in if name = [] then None
                     else case enrich_openobserve_alert L index name raw of Inr found \<Rightarrow> found | Inl e \<Rightarrow> None)
             | _ \<Rightarrow> None)
          else if header rq ''X-Webhook-Signature'' = signature_of L S body
          then (case wl_alert_json L body of Inr alert \<Rightarrow> Some alert | Inl e \<Rightarrow> None)
          else None)"

lemma openobserve_alert_Inr:
  "openobserve_alert L index body = Inr a \<longleftrightarrow>
     (\<exists>raw. wl_loads L body = Inr (PDict raw) \<and> as_str L (dget_or raw ''alert_name'' (PStr [])) \<noteq> []
        \<and> enrich_openobserve_alert L index (as_str L (dget_or raw ''alert_name'' (PStr []))) raw = Inr (Some a))"
  by (auto simp: openobserve_alert_def Let_def bind_res_Inr_iff split: sum.splits pyval.splits option.splits)

lemma signed_alert_Inr:
  "hex_digests L \<Longrightarrow> signed_alert L S rq body = Inr a \<longleftrightarrow>
     header rq ''X-Webhook-Signature'' = signature_of L S body \<and> wl_alert_json L body = Inr a"
  by (auto simp: signed_alert_def bind_res_Inr_iff check_signature_ok split: sum.splits dest: check_signature_Inr)

lemma read_alert_Inr:
  assumes "hex_digests L"
  shows "read_alert L S index rq = Inr a \<longleftrightarrow> accepted_alert L S index rq = Some a"
proof (cases "rq_body rq")
  case (Inr body)
  then show ?thesis
    using signed_alert_Inr [OF assms] openobserve_alert_Inr [of L index body a]
    by (auto simp: read_alert_def accepted_alert_def Let_def split: sum.splits pyval.splits)
qed (simp add: read_alert_def accepted_alert_def)

lemma admit_Inr_iff:
  "fst (admit L S index rq t1 t2 A) = Inr (alert, existing) \<longleftrightarrow>
     fst (allow (client_ip rq) t1 (as_limiter A)) \<and> \<not> as_paused A
     \<and> read_alert L S index rq = Inr alert \<and> fst (index_lookup (al_fingerprint alert) t2 (as_index A)) = existing"
  by (auto simp: admit_def Let_def split_beta split: sum.splits)

lemma trigger_scheduled:
  "fst (snd (trigger_incident L S index rq answer t1 t2 t3 A)) =
     (case fst (admit L S index rq t1 t2 A) of Inr (alert, None) \<Rightarrow> [dump_alert alert] | _ \<Rightarrow> [])"
  by (auto simp: trigger_incident_def commit_def split: prod.splits sum.splits option.splits)

lemma trigger_reply:
  "fst (trigger_incident L S index rq answer t1 t2 t3 A) =
     (if \<not> fst (allow (client_ip rq) t1 (as_limiter A)) then Inl (HTTPException 429 ''Rate limit exceeded'')
      else if as_paused A then Inl (HTTPException 503 ''Agent is paused'')
      else case read_alert L S index rq of
             Inl e \<Rightarrow> Inl e
           | Inr alert \<Rightarrow>
               (case fst (index_lookup (al_fingerprint alert) t2 (as_index A)) of
                  Some incident_id \<Rightarrow> Inr (incident_reply incident_id ''already_investigating'')
                | None \<Rightarrow>
                    (case answer of
                       Inr incident_id \<Rightarrow> Inr (incident_reply incident_id ''accepted'')
                     | Inl e \<Rightarrow> Inl (scheduling_error L e))))"
  by (auto simp: trigger_incident_def admit_def commit_def Let_def split_beta split: sum.splits option.splits)

text \<open>C28: what it takes to start an incident. With hexadecimal digests, the webhook hands the runner
  exactly one alert when the client is within its rate, the agent is not paused, the request carries
  an accepted alert and that alert's fingerprint is not reserved, and nothing otherwise. A request
  without the OpenObserve header carries one only if its signature is the HMAC of its body under
  the shared secret and the body validates; with the header no signature is looked at, only the
  alert name. The reply is 429 over the rate, whatever was sent, 503 while paused, the refusal of the
  request, the incident already under investigation, or what became of the scheduling.\<close>

theorem alert_ingress:
  assumes "hex_digests L"
  shows "fst (snd (trigger_incident L S index rq answer t1 t2 t3 A)) =
       (case accepted_alert L S index rq of
          Some alert \<Rightarrow>
            if fst (allow (client_ip rq) t1 (as_limiter A)) \<and> \<not> as_paused A
               \<and> fst (index_lookup (al_fingerprint alert) t2 (as_index A)) = None
            then [dump_alert alert] else []
        | None \<Rightarrow> [])
     \<and> fst (trigger_incident L S index rq answer t1 t2 t3 A) =
         (if \<not> fst (allow (client_ip rq) t1 (as_limiter A)) then Inl (HTTPException 429 ''Rate limit exceeded'')
          else if as_paused A then Inl (HTTPException 503 ''Agent is paused'')
          else case read_alert L S index rq of
                 Inl e \<Rightarrow> Inl e
               | Inr alert \<Rightarrow>
                   (case fst (index_lookup (al_fingerprint alert) t2 (as_index A)) of
                      Some incident_id \<Rightarrow> Inr (incident_reply incident_id ''already_investigating'')
                    | None \<Rightarrow>
                        (case answer of
                           Inr incident_id \<Rightarrow> Inr (incident_reply incident_id ''accepted'')
                         | Inl e \<Rightarrow> Inl (scheduling_error L e))))"
proof (rule conjI [OF _ trigger_reply])
  let ?open = "fst (allow (client_ip rq) t1 (as_limiter A)) \<and> \<not> as_paused A"
  show "fst (snd (trigger_incident L S index rq answer t1 t2 t3 A)) =
       (case accepted_alert L S index rq of
          Some alert \<Rightarrow>
            if fst (allow (client_ip rq) t1 (as_limiter A)) \<and> \<not> as_paused A
               \<and> fst (index_lookup (al_fingerprint alert) t2 (as_index A)) = None
            then [dump_alert alert] else []
        | None \<Rightarrow> [])"
  proof (cases "fst (admit L S index rq t1 t2 A)")
    case (Inl e)
    then have "\<not> (?open \<and> read_alert L S index rq = Inr a)" for a
      using admit_Inr_iff [of L S index rq t1 t2 A a] by auto
    then have "\<not> ?open \<or> accepted_alert L S index rq = None"
      using read_alert_Inr [OF assms] by (cases "accepted_alert L S index rq") auto
    then show ?thesis using Inl by (auto simp: trigger_scheduled split: option.splits)
  next
    case (Inr p)
    obtain alert existing where p: "p = (alert, existing)" by fastforce
    then show ?thesis
      using Inr admit_Inr_iff [of L S index rq t1 t2 A alert existing] read_alert_Inr [OF assms]
      by (cases existing) (auto simp: trigger_scheduled)
  qed
qed

section \<open>A concrete delivery\<close>

definition demo_alert :: alert_payload where
  "demo_alert = \<lparr>al_alert_name = ''HighErrorRate'', al_service = ''api'', al_namespace = ''shop'',
     al_severity = ''sev1'', al_started_at = ''2025-01-01T00:00:00Z'', al_fingerprint = ''fp-1'',
     al_description = [], al_labels = [], al_annotations = []\<rparr>"

text \<open>A library with one digest, in which one document is an alert and one an approval.\<close>

definition demo_web :: web_lib where
  "demo_web = \<lparr>wl_hmac = (\<lambda>k p. ''00''), wl_loads = (\<lambda>_. Inr (PDict [(''alert_name'', PStr ''HighErrorRate'')])),
     wl_dumps = (\<lambda>v. if v = PDict [(''approved'', PBool True), (''comment'', PStr ''ok'')] then ''yes'' else ''no''),
     wl_alert_json = (\<lambda>s. if s = ''alert'' then Inr demo_alert else Inl (ValidationError s)),
     wl_approval_json = (\<lambda>s. if s = ''yes'' then Inr \<lparr>ap_approved = True, ap_comment = ''ok''\<rparr> else Inl (ValidationError s)),
     wl_repr = (\<lambda>_. []), wl_show_exn = (\<lambda>_. []), wl_budget_exhausted = (\<lambda>_. False)\<rparr>"

definition demo_settings :: web_settings where
  "demo_settings = \<lparr>ws_webhook_secret = ''c2VjcmV0'', ws_admin_secret = None\<rparr>"

definition fresh_app :: app_state where
  "fresh_app = \<lparr>as_paused = False, as_pause_reason = None,
     as_limiter = \<lparr>l_max = 60, l_window = 60, l_requests = []\<rparr>, as_index = \<lparr>f_ttl = 1800, f_entries = []\<rparr>\<rparr>"

definition signed_delivery :: http_request where
  "signed_delivery = \<lparr>rq_headers = [(''X-Webhook-Signature'', ''sha256=00'')], rq_client = Some ''10.0.0.7'',
     rq_body = Inr ''alert''\<rparr>"

lemma demo_hex: "hex_digests demo_web"
  by (simp add: hex_digests_def demo_web_def)

theorem alert_ingress_witness:
  "fst (snd (trigger_incident demo_web demo_settings [] signed_delivery (Inr ''inc-1'') 0 0 0 fresh_app))
    = [dump_alert demo_alert]"
proof -
  have "accepted_alert demo_web demo_settings [] signed_delivery = Some demo_alert" by code_simp
  moreover have "fst (allow (client_ip signed_delivery) 0 (as_limiter fresh_app))" "\<not> as_paused fresh_app"
    "fst (index_lookup (al_fingerprint demo_alert) 0 (as_index fresh_app)) = None"
    by code_simp+
  ultimately show ?thesis
    using alert_ingress [OF demo_hex, of demo_settings "[]" signed_delivery "Inr ''inc-1''" 0 0 0 fresh_app] by simp
qed

section \<open>Deduplication\<close>

lemma lookup_reserved:
  "fp \<noteq> [] \<Longrightarrow> t2 - t3 \<le> f_ttl ix \<Longrightarrow> fst (index_lookup fp t2 (index_reserve fp inc t3 ix)) = Some inc"
  by (auto simp: index_lookup_def index_reserve_def)

lemma lookup_ttl [simp]: "f_ttl (snd (index_lookup fp t ix)) = f_ttl ix"
  by (auto simp: index_lookup_def split: option.splits)

lemma reserve_ttl [simp]: "f_ttl (index_reserve fp inc t ix) = f_ttl ix"
  by (simp add: index_reserve_def)

lemma admit_app:
  "as_paused (snd (admit L S index rq t1 t2 A)) = as_paused A"
  "f_ttl (as_index (snd (admit L S index rq t1 t2 A))) = f_ttl (as_index A)"
  by (auto simp: admit_def Let_def split_beta split: sum.splits)

text \<open>Deduplication, and where it stops. After a delivery was accepted as an incident, another
  delivery that carries an alert with the same fingerprint, within its rate, no later than the
  lifetime after the reservation and with no request in between, starts nothing and is told the
  same incident. The reservation is made only once the runner has answered, so this rests on the
  runner not giving up control: a delivery that is checked before the reservation is let through as
  well. \<open>LangGraphRunner.schedule_incident\<close> answers without suspending.\<close>

lemma deduplication:
  assumes "read_alert L S index rq = Inr alert" and "al_fingerprint alert \<noteq> []"
    and "trigger_incident L S index rq (Inr incident_id) t1 t2 t3 A = (Inr (incident_reply incident_id ''accepted''), [dump_alert alert], A1)"
    and "read_alert L S index rq' = Inr alert'" and "al_fingerprint alert' = al_fingerprint alert"
    and "t2' - t3 \<le> f_ttl (as_index A)"
  shows "(\<forall>answer t1' t3'. fst (allow (client_ip rq') t1' (as_limiter A1)) \<longrightarrow>
           (\<exists>A2. trigger_incident L S index rq' answer t1' t2' t3' A1 =
             (Inr (incident_reply incident_id ''already_investigating''), [], A2)))
       \<and> (\<forall>t1' t2'. fst (allow (client_ip rq') t1' (as_limiter (snd (admit L S index rq t1 t2 A)))) \<longrightarrow>
           fst (admit L S index rq' t1' t2' (snd (admit L S index rq t1 t2 A))) = Inr (alert', None))"
proof -
  let ?A = "snd (admit L S index rq t1 t2 A)"
  have admitted: "fst (admit L S index rq t1 t2 A) = Inr (alert, None)"
    using assms(1,3) by (auto simp: trigger_incident_def commit_def admit_def Let_def split_beta
        split: sum.splits option.splits prod.splits if_splits)
  then have ready: "\<not> as_paused A" "fst (index_lookup (al_fingerprint alert) t2 (as_index A)) = None"
    using admit_Inr_iff [of L S index rq t1 t2 A alert None] by auto
  have A1: "A1 = ?A\<lparr>as_index := index_reserve (al_fingerprint alert) incident_id t3 (as_index ?A)\<rparr>"
    using assms(3) admitted by (cases "admit L S index rq t1 t2 A") (auto simp: trigger_incident_def commit_def)
  have found: "fst (index_lookup (al_fingerprint alert') t2' (as_index A1)) = Some incident_id"
    unfolding A1 using lookup_reserved [of "al_fingerprint alert" t2' t3] assms(2,5,6) by (simp add: admit_app)
  have unpaused: "\<not> as_paused A1" "\<not> as_paused ?A" using ready A1 by (simp_all add: admit_app)
  have none: "fst (index_lookup (al_fingerprint alert') t2' (as_index ?A)) = None" for t2'
  proof -
    have "dget (f_entries (as_index ?A)) (al_fingerprint alert) = None"
      using admitted ready assms(2)
      by (auto simp: admit_def Let_def split_beta index_lookup_def split: sum.splits option.splits if_splits)
    then show ?thesis using assms(5) by (simp add: index_lookup_def)
  qed
  have second: "\<exists>A2. trigger_incident L S index rq' answer t1' t2' t3' A1 =
      (Inr (incident_reply incident_id ''already_investigating''), [], A2)"
    if "fst (allow (client_ip rq') t1' (as_limiter A1))" for answer t1' t3'
  proof -
    have "fst (admit L S index rq' t1' t2' A1) = Inr (alert', Some incident_id)"
      using that unpaused assms(4) found by (simp add: admit_Inr_iff)
    then show ?thesis by (cases "admit L S index rq' t1' t2' A1") (simp add: trigger_incident_def commit_def)
  qed
  show ?thesis
    using second assms(4) unpaused none by (auto simp: admit_Inr_iff)
qed

definition app_after_first :: app_state where
  "app_after_first = snd (snd (trigger_incident demo_web demo_settings [] signed_delivery (Inr ''inc-1'') 0 0 5 fresh_app))"

theorem deduplication_witness:
  "(\<exists>A2. trigger_incident demo_web demo_settings [] signed_delivery (Inr ''inc-2'') 100 100 100 app_after_first =
      (Inr (incident_reply ''inc-1'' ''already_investigating''), [], A2))
   \<and> fst (admit demo_web demo_settings [] signed_delivery 1 1
        (snd (admit demo_web demo_settings [] signed_delivery 0 0 fresh_app))) = Inr (demo_alert, None)"
proof -
  have read: "read_alert demo_web demo_settings [] signed_delivery = Inr demo_alert" by code_simp
  have fp: "al_fingerprint demo_alert \<noteq> []" by (simp add: demo_alert_def)
  have "fst (trigger_incident demo_web demo_settings [] signed_delivery (Inr ''inc-1'') 0 0 5 fresh_app)
      = Inr (incident_reply ''inc-1'' ''accepted'')" by code_simp
  moreover have "fst (snd (trigger_incident demo_web demo_settings [] signed_delivery (Inr ''inc-1'') 0 0 5 fresh_app))
      = [dump_alert demo_alert]" by code_simp
  ultimately have first: "trigger_incident demo_web demo_settings [] signed_delivery (Inr ''inc-1'') 0 0 5 fresh_app
      = (Inr (incident_reply ''inc-1'' ''accepted''), [dump_alert demo_alert], app_after_first)"
    by (simp add: app_after_first_def prod_eq_iff)
  have "(100 :: rat) - 5 \<le> f_ttl (as_index fresh_app)" by (simp add: fresh_app_def)
  note dedup = deduplication [OF read fp first read refl this]
  have "fst (allow (client_ip signed_delivery) 100 (as_limiter app_after_first))"
    "fst (allow (client_ip signed_delivery) 1 (as_limiter (snd (admit demo_web demo_settings [] signed_delivery 0 0 fresh_app))))"
    by code_simp+
  then show ?thesis using dedup by blast
qed

section \<open>Approvals\<close>

text \<open>What the approval webhook needs of the signing helper and the JSON libraries: a body the helper
  wrote is read back as the decision it was written for.\<close>

definition reads_back :: "web_lib \<Rightarrow> bool" where
  "reads_back L =
     (\<forall>b c. wl_approval_json L (approval_body L b c) = Inr \<lparr>ap_approved = b, ap_comment = c\<rparr>)"

text \<open>C29: an approval the console signed is the approval the runner gets. A request with the body and
  the signature of \<open>sign_approval\<close> hands the runner exactly that decision and comment, and its reply
  repeats the decision when the runner takes it. This holds for any incident named in the path:
  the signature covers the decision and not the incident. And whatever request it is, a decision
  reaches the runner only with the HMAC of the body it came in.\<close>

theorem approval_roundtrip:
  assumes "hex_digests L" and "reads_back L"
    and "rq_body rq = Inr (snd (sign_approval L S a))"
    and "header rq ''X-Webhook-Signature'' = fst (sign_approval L S a)"
  shows "snd (approve_incident L S decide state_of incident_id rq) = [(incident_id, ap_approved a, ap_comment a)]
     \<and> (decide incident_id (ap_approved a) (ap_comment a) = Inr True \<longrightarrow>
          fst (approve_incident L S decide state_of incident_id rq) = Inr (decision_reply incident_id (ap_approved a)))
     \<and> (\<forall>rq'. snd (approve_incident L S decide state_of incident_id rq') \<noteq> [] \<longrightarrow>
          (\<exists>body. rq_body rq' = Inr body \<and> header rq' ''X-Webhook-Signature'' = signature_of L S body))"
proof -
  let ?body = "approval_body L (ap_approved a) (ap_comment a)"
  have "check_signature L S rq ?body = Inr ()"
    using assms(1,4) by (intro check_signature_ok) (simp_all add: sign_approval_def signature_of_def Let_def)
  moreover have "rq_body rq = Inr ?body" using assms(3) by (simp add: sign_approval_def Let_def)
  moreover have "wl_approval_json L ?body = Inr \<lparr>ap_approved = ap_approved a, ap_comment = ap_comment a\<rparr>"
    using assms(2) by (simp add: reads_back_def)
  ultimately have first: "snd (approve_incident L S decide state_of incident_id rq) = [(incident_id, ap_approved a, ap_comment a)]"
    "decide incident_id (ap_approved a) (ap_comment a) = Inr True \<Longrightarrow>
       fst (approve_incident L S decide state_of incident_id rq) = Inr (decision_reply incident_id (ap_approved a))"
    by (auto simp: approve_incident_def raised_def split: sum.splits bool.splits)
  have "\<exists>body. rq_body rq' = Inr body \<and> header rq' ''X-Webhook-Signature'' = signature_of L S body"
    if "snd (approve_incident L S decide state_of incident_id rq') \<noteq> []" for rq'
    using that
    by (auto simp: approve_incident_def bind_res_def raised_def split: sum.splits dest: check_signature_Inr)
  with first show ?thesis by blast
qed

text \<open>The \<open>json\<close> of theory \<open>Json\<close> is such a library: the body is written compactly and without ASCII
  escapes, and a reader takes its boolean and its text, whatever characters the comment has.\<close>

definition approval_style :: json_style where
  "approval_style = compact_style\<lparr>jy_ascii := False\<rparr>"

definition read_approval :: "string \<Rightarrow> exn + approval_request" where
  "read_approval s =
     (case json_loads s of
        Some (PDict d) \<Rightarrow>
          (case (dget d ''approved'', dget_or d ''comment'' (PStr [])) of
             (Some (PBool b), PStr c) \<Rightarrow> Inr \<lparr>ap_approved = b, ap_comment = c\<rparr>
           | _ \<Rightarrow> Inl (ValidationError s))
      | _ \<Rightarrow> Inl (ValidationError s))"

lemma json_reads_back:
  assumes "wl_dumps L = json_value rp approval_style 0" "wl_approval_json L = read_approval"
  shows "reads_back L"
  unfolding reads_back_def
proof (intro allI)
  fix b c
  let ?v = "PDict [(''approved'', PBool b), (''comment'', PStr c)]"
  have "style_ok approval_style" by (simp add: style_ok_def approval_style_def compact_style_def plain_style_def)
  from json_roundtrip [OF this, of rp ?v 0] have "json_loads (json_value rp approval_style 0 ?v) = Some ?v"
    by (simp add: in_order_def approval_style_def compact_style_def plain_style_def del: json_value.simps)
  then show "wl_approval_json L (approval_body L b c) = Inr \<lparr>ap_approved = b, ap_comment = c\<rparr>"
    by (simp add: assms approval_body_def read_approval_def del: json_value.simps)
qed

definition json_web :: web_lib where
  "json_web = demo_web\<lparr>wl_dumps := json_value (\<lambda>_. []) approval_style 0, wl_approval_json := read_approval\<rparr>"

theorem approval_roundtrip_witness:
  "snd (approve_incident json_web demo_settings (\<lambda>i b c. Inr True) (\<lambda>_. Inr PNone) ''inc-1''
       \<lparr>rq_headers = [(''X-Webhook-Signature'', ''sha256=00'')], rq_client = None,
        rq_body = Inr (approval_body json_web True ''go ahead'')\<rparr>)
     = [(''inc-1'', True, ''go ahead'')]"
proof -
  let ?rq = "\<lparr>rq_headers = [(''X-Webhook-Signature'', ''sha256=00'')], rq_client = None,
    rq_body = Inr (approval_body json_web True ''go ahead'')\<rparr>"
  let ?a = "\<lparr>ap_approved = True, ap_comment = ''go ahead''\<rparr>"
  have "hex_digests json_web" by (simp add: hex_digests_def json_web_def demo_web_def)
  moreover have "reads_back json_web" by (rule json_reads_back) (simp_all add: json_web_def)
  moreover have "rq_body ?rq = Inr (snd (sign_approval json_web demo_settings ?a))"
    by (simp add: sign_approval_def Let_def)
  moreover have "header ?rq ''X-Webhook-Signature'' = fst (sign_approval json_web demo_settings ?a)"
    by (simp add: sign_approval_def header_def json_web_def demo_web_def dget_or_def Let_def)
  ultimately show ?thesis
    using approval_roundtrip [of json_web ?rq demo_settings ?a "\<lambda>i b c. Inr True" "\<lambda>_. Inr PNone" "''inc-1''"] by simp
qed

end
