(* ===== verification/Metrics.thy ===== *)
theory Metrics
  imports Webhook "HOL-Library.Multiset"
begin

text \<open>
  The queries of the API, \<^verbatim>\<open>api/routes.py\<close>: reading a checkpointed state, the derived
  status, the incident list and report, and the three metrics: the summary, the time buckets and
  the most expensive incidents. A state snapshot is an object with the attribute \<open>values\<close>; a
  response model is the dictionary of its fields. Sums of floats are exact, with infinities and NaN.
  \<open>repr\<close>, \<open>str\<close> of an exception, \<open>datetime\<close> parsing (the instant, a time without a zone read as UTC)
  and printing, and pydantic's lenient reading of a boolean are arguments.
\<close>

record metrics_lib =
  ml_repr :: "pyval \<Rightarrow> string"
  ml_show_exn :: "exn \<Rightarrow> string"
  ml_iso :: "string \<Rightarrow> rat option"
  ml_isoformat :: "int \<Rightarrow> exn + string"
  ml_bool :: "pyval \<Rightarrow> exn + bool"

section \<open>Arithmetic of floats\<close>

fun pf_neg :: "pyfloat \<Rightarrow> pyfloat" where
  "pf_neg (Fin x) = Fin (- x)"
| "pf_neg PosInf = NegInf"
| "pf_neg NegInf = PosInf"
| "pf_neg NaN = NaN"

definition pf_add :: "pyfloat \<Rightarrow> pyfloat \<Rightarrow> pyfloat" where
  "pf_add x y = pf_sub x (pf_neg y)"

definition pf_sum :: "pyfloat list \<Rightarrow> pyfloat" where
  "pf_sum xs = foldl pf_add (Fin 0) xs"

text \<open>Division by a positive number.\<close>

fun pf_div :: "pyfloat \<Rightarrow> pyfloat \<Rightarrow> pyfloat" where
  "pf_div (Fin x) (Fin y) = Fin (x / y)"
| "pf_div NaN _ = NaN"
| "pf_div _ NaN = NaN"
| "pf_div (Fin x) _ = Fin 0"
| "pf_div x (Fin y) = x"
| "pf_div _ _ = NaN"

fun pf_percent :: "pyfloat \<Rightarrow> pyfloat" where
  "pf_percent (Fin x) = Fin (x * 100)"
| "pf_percent x = x"

fun pf_round :: "pyfloat \<Rightarrow> nat \<Rightarrow> pyfloat" where
  "pf_round (Fin x) n = Fin (py_round x n)"
| "pf_round x n = x"

definition pf_mean :: "pyfloat list \<Rightarrow> pyfloat" where
  "pf_mean xs = (if xs = [] then Fin 0 else pf_div (pf_sum xs) (Fin (of_nat (length xs))))"

section \<open>Reading a state\<close>

definition metric_float :: "pyval \<Rightarrow> pyfloat" where
  "metric_float v = (case v of PNone \<Rightarrow> Fin 0 | _ \<Rightarrow> (case py_float v of Inr x \<Rightarrow> x | Inl _ \<Rightarrow> Fin 0))"

definition metric_int :: "pyval \<Rightarrow> exn + int" where
  "metric_int v =
     (case v of
        PBool _ \<Rightarrow> Inr 0
      | PNone \<Rightarrow> Inr 0
      | _ \<Rightarrow> (case py_int v of
               Inr i \<Rightarrow> Inr i
             | Inl (OverflowError m) \<Rightarrow> Inl (PyError (OverflowError m))
             | Inl _ \<Rightarrow> Inr 0))"

definition metric_str :: "metrics_lib \<Rightarrow> pyval \<Rightarrow> string" where
  "metric_str M v = (case v of PNone \<Rightarrow> [] | _ \<Rightarrow> py_str (ml_repr M) v)"

definition value_at :: "pydict \<Rightarrow> string \<Rightarrow> pyval" where
  "value_at d k = dget_or d k PNone"

text \<open>\<open>d.get(k) or {}\<close>, a dictionary\<close>

definition dict_at :: "pydict \<Rightarrow> string \<Rightarrow> pydict" where
  "dict_at d k = (case value_at d k of PDict m \<Rightarrow> m | _ \<Rightarrow> [])"

definition list_at :: "pydict \<Rightarrow> string \<Rightarrow> pyval list" where
  "list_at d k = (case value_at d k of PList xs \<Rightarrow> xs | _ \<Rightarrow> [])"

definition usage_entry :: "pydict \<Rightarrow> exn + int \<times> int" where
  "usage_entry u =
     bind_res (metric_int (dget_or u ''calls'' (PInt 0))) (\<lambda>c.
     bind_res (metric_int (dget_or u ''tokens'' (PInt 0))) (\<lambda>t. Inr (c, t)))"

fun as_model_usage_from :: "(string \<times> pyval) list \<Rightarrow> (string, int \<times> int) dict \<Rightarrow> exn + (string, int \<times> int) dict" where
  "as_model_usage_from [] acc = Inr acc"
| "as_model_usage_from ((raw_model, raw_usage) # rest) acc =
     (case raw_usage of
        PDict u \<Rightarrow>
          if str_strip raw_model = [] then as_model_usage_from rest acc
          else bind_res (usage_entry u) (\<lambda>ct. as_model_usage_from rest (dset (str_strip raw_model) ct acc))
      | _ \<Rightarrow> as_model_usage_from rest acc)"

definition as_model_usage :: "pyval \<Rightarrow> exn + (string, int \<times> int) dict" where
  "as_model_usage v = (case v of PDict d \<Rightarrow> as_model_usage_from d [] | _ \<Rightarrow> Inr [])"

text \<open>\<open>getattr(state, "values", state)\<close> of a dict is its method, so a plain dict counts as empty.\<close>

definition state_values :: "pyval \<Rightarrow> pydict" where
  "state_values state =
     (case state of PObj fs \<Rightarrow> (case map_of fs ''values'' of Some (PDict d) \<Rightarrow> d | _ \<Rightarrow> []) | _ \<Rightarrow> [])"

definition derive_status :: "string \<Rightarrow> bool \<Rightarrow> pyval \<Rightarrow> string" where
  "derive_status raw_status requires_approval approval_granted =
     (if requires_approval \<and> approval_granted = PNone \<and> raw_status = ''running'' then ''awaiting_approval''
      else raw_status)"

definition status_of :: "metrics_lib \<Rightarrow> pydict \<Rightarrow> string" where
  "status_of M vs =
     derive_status (metric_str M (dget_or vs ''status'' (PStr ''unknown'')))
       (truthy (dget_or vs ''requires_human_approval'' (PBool False))) (value_at vs ''approval_granted'')"

section \<open>Lists and reports\<close>

definition dict_list :: "pyval list \<Rightarrow> exn + pyval" where
  "dict_list xs = (if list_all is_mapping xs then Inr (PList xs)
      else Inl (ValidationError ''Input should be a valid dictionary''))"

definition count_fields :: "(string \<times> string) list" where
  "count_fields = [(''tokens_used'', ''tokens_used''), (''prompt_tokens'', ''prompt_tokens''),
     (''completion_tokens'', ''completion_tokens''), (''iterations'', ''iteration_count'')]"

definition number_fields :: "string list" where
  "number_fields = [''cost_usd'', ''estimated_paid_cost_usd'', ''wall_clock_seconds'', ''active_seconds'',
     ''backoff_seconds'', ''approval_wait_seconds'']"

definition text_fields :: "string list" where
  "text_fields = [''alert_name'', ''service'', ''namespace'', ''severity'', ''started_at'']"

definition usage_dict :: "(string, int \<times> int) dict \<Rightarrow> pyval" where
  "usage_dict u = PDict (map (\<lambda>(m, c, t). (m, PDict [(''calls'', PInt c), (''tokens'', PInt t)])) u)"

text \<open>The fields a summary and a report share.\<close>

definition common_fields :: "metrics_lib \<Rightarrow> string \<Rightarrow> pydict \<Rightarrow> exn + pydict" where
  "common_fields M incident_id vs =
     bind_res (map_res (\<lambda>(out, key). bind_res (metric_int (dget_or vs key (PInt 0))) (\<lambda>i. Inr (out, PInt i))) count_fields) (\<lambda>counts.
     bind_res (as_model_usage (dget_or vs ''model_usage'' (PDict []))) (\<lambda>usage.
     bind_res (dict_list (list_at vs ''proposed_actions'')) (\<lambda>proposed.
     bind_res (dict_list (list_at vs ''executed_actions'')) (\<lambda>executed.
     Inr ([(''incident_id'', PStr incident_id), (''status'', PStr (status_of M vs)),
           (''phase'', PStr (metric_str M (dget_or vs ''current_phase'' (PStr ''unknown'')))),
           (''requires_human_approval'', PBool (truthy (dget_or vs ''requires_human_approval'' (PBool False)))),
           (''model_usage'', usage_dict usage), (''proposed_actions'', proposed), (''executed_actions'', executed)]
          @ map (\<lambda>k. (k, PStr (metric_str M (dget_or (dict_at vs ''incident_metadata'') k (PStr []))))) text_fields
          @ counts
          @ map (\<lambda>k. (k, PFloat (metric_float (dget_or vs k (PFloat (Fin 0)))))) number_fields)))))"

definition extract_summary :: "metrics_lib \<Rightarrow> string \<Rightarrow> pydict \<Rightarrow> exn + pydict" where
  "extract_summary M incident_id vs =
     bind_res (common_fields M incident_id vs) (\<lambda>fields.
       Inr (fields @ [(''approval_granted'',
              case value_at vs ''approval_granted'' of PNone \<Rightarrow> PNone | v \<Rightarrow> PBool (truthy v))]))"

definition as_500 :: "metrics_lib \<Rightarrow> string \<Rightarrow> exn + 'a \<Rightarrow> http_error + 'a" where
  "as_500 M what r =
     (case r of
        Inr x \<Rightarrow> Inr x
      | Inl e \<Rightarrow> if caught_by_exception e then Inl (HTTPException 500 (what @ ml_show_exn M e))
                else Inl (Unhandled e))"

definition non_empty_states :: "(string \<times> pyval) list \<Rightarrow> (string \<times> pydict) list" where
  "non_empty_states states = filter (\<lambda>(i, vs). vs \<noteq> []) (map (\<lambda>(i, st). (i, state_values st)) states)"

text \<open>\<open>states\<close> is the answer of the runner's \<open>list_incidents\<close>.\<close>

definition list_incidents ::
  "metrics_lib \<Rightarrow> string option \<Rightarrow> exn + (string \<times> pyval) list \<Rightarrow> http_error + pydict" where
  "list_incidents M status_filter states =
     as_500 M ''Failed to list incidents: ''
       (bind_res states (\<lambda>all_states.
        bind_res (map_res (\<lambda>(i, vs). extract_summary M i vs) (non_empty_states all_states)) (\<lambda>summaries.
        let items = (case status_filter of
                       None \<Rightarrow> summaries
                     | Some [] \<Rightarrow> summaries
                     | Some f \<Rightarrow> filter (\<lambda>s. dget s ''status'' = Some (PStr f)) summaries)
        in Inr [(''items'', PList (map PDict items)), (''total'', PInt (int (length items)))])))"

definition get_incident_report ::
  "metrics_lib \<Rightarrow> string \<Rightarrow> exn + pyval \<Rightarrow> http_error + pydict" where
  "get_incident_report M incident_id state =
     bind_res (raised state) (\<lambda>st.
       if st = PNone \<or> state_values st = []
       then Inl (HTTPException 404 (''Incident '' @ incident_id @ '' not found''))
       else raised
         (let vs = state_values st
          in bind_res (common_fields M incident_id vs) (\<lambda>fields.
             bind_res (dict_list (list_at vs ''hypotheses'')) (\<lambda>hypotheses.
             bind_res (case value_at vs ''approval_granted'' of
                         PNone \<Rightarrow> Inr PNone
                       | v \<Rightarrow> bind_res (ml_bool M v) (\<lambda>b. Inr (PBool b))) (\<lambda>granted.
             Inr (fields @ [(''hypotheses'', hypotheses), (''approval_granted'', granted)]))))))"

section \<open>Summary\<close>

definition baseline_mttr_seconds :: "pydict \<Rightarrow> pyfloat" where
  "baseline_mttr_seconds vs =
     (let v = metric_float (value_at (dict_at (dict_at vs ''incident_metadata'') ''labels'') ''baseline_mttr_seconds'')
      in if pf_lt (Fin 0) v then v else Fin 0)"

definition prohibited_tool_names :: "string list" where
  "prohibited_tool_names = [''delete_namespace'', ''drop_table'']"

text \<open>\<open>x in frozenset\<close> raises for an unhashable \<open>x\<close>.\<close>

fun count_safety_violations :: "pyval list \<Rightarrow> exn + nat" where
  "count_safety_violations [] = Inr 0"
| "count_safety_violations (a # as) =
     (case a of
        PDict d \<Rightarrow>
          (case value_at d ''tool_name'' of
             PList _ \<Rightarrow> Inl (PyError (TypeError ''unhashable type''))
           | PDict _ \<Rightarrow> Inl (PyError (TypeError ''unhashable type''))
           | PStr t \<Rightarrow> bind_res (count_safety_violations as)
                        (\<lambda>n. Inr (if t \<in> set prohibited_tool_names then Suc n else n))
           | _ \<Rightarrow> count_safety_violations as)
      | _ \<Rightarrow> count_safety_violations as)"

definition category_label :: "metrics_lib \<Rightarrow> pydict \<Rightarrow> string" where
  "category_label M vs =
     (let or_unknown = (\<lambda>s. if s = [] then ''unknown'' else s)
      in case value_at vs ''incident_metadata'' of
           PDict metadata \<Rightarrow>
             (let from_labels = (case value_at metadata ''labels'' of
                                   PDict labels \<Rightarrow> or_unknown (metric_str M (value_at labels ''category''))
                                 | v \<Rightarrow> ''unknown'')
              in if from_labels = ''unknown'' then or_unknown (metric_str M (value_at metadata ''category''))
                 else from_labels)
         | _ \<Rightarrow> ''unknown'')"

record summary_acc =
  sa_resolved :: nat
  sa_awaiting :: nat
  sa_failed :: nat
  sa_no_action :: nat
  sa_active_times :: "pyfloat list"
  sa_wall_times :: "pyfloat list"
  sa_backoff_times :: "pyfloat list"
  sa_baselines :: "pyfloat list"
  sa_cost :: pyfloat
  sa_estimated_cost :: pyfloat
  sa_tokens :: int
  sa_prompt :: int
  sa_completion :: int
  sa_violations :: nat
  sa_usage :: "(string, int \<times> int) dict"
  sa_categories :: "(string, nat) dict"

definition empty_summary :: summary_acc where
  "empty_summary = \<lparr>sa_resolved = 0, sa_awaiting = 0, sa_failed = 0, sa_no_action = 0, sa_active_times = [],
     sa_wall_times = [], sa_backoff_times = [], sa_baselines = [], sa_cost = Fin 0, sa_estimated_cost = Fin 0,
     sa_tokens = 0, sa_prompt = 0, sa_completion = 0, sa_violations = 0, sa_usage = [], sa_categories = []\<rparr>"

definition count_status :: "string \<Rightarrow> summary_acc \<Rightarrow> summary_acc" where
  "count_status s a =
     (if s = ''awaiting_approval'' then a\<lparr>sa_awaiting := Suc (sa_awaiting a)\<rparr>
      else if s = ''resolved'' then a\<lparr>sa_resolved := Suc (sa_resolved a)\<rparr>
      else if s = ''failed'' \<or> s = ''blocked'' then a\<lparr>sa_failed := Suc (sa_failed a)\<rparr>
      else if s = ''no_action'' then a\<lparr>sa_no_action := Suc (sa_no_action a)\<rparr>
      else a)"

definition keep_if :: "bool \<Rightarrow> 'a \<Rightarrow> 'a list \<Rightarrow> 'a list" where
  "keep_if b x xs = (if b then xs @ [x] else xs)"

definition add_times :: "pydict \<Rightarrow> summary_acc \<Rightarrow> summary_acc" where
  "add_times vs a =
     (let active = metric_float (dget_or vs ''active_seconds'' (PFloat (Fin 0)));
          wall = metric_float (dget_or vs ''wall_clock_seconds'' (PFloat (Fin 0)));
          backoff = metric_float (dget_or vs ''backoff_seconds'' (PFloat (Fin 0)));
          baseline = baseline_mttr_seconds vs
      in a\<lparr>sa_active_times := keep_if (pf_lt (Fin 0) active) active (sa_active_times a),
           sa_wall_times := keep_if (pf_lt (Fin 0) wall) wall (sa_wall_times a),
           sa_backoff_times := keep_if (pf_le (Fin 0) backoff) backoff (sa_backoff_times a),
           sa_baselines := keep_if (pf_lt (Fin 0) baseline) baseline (sa_baselines a)\<rparr>)"

definition merge_usage :: "(string, int \<times> int) dict \<Rightarrow> (string, int \<times> int) dict \<Rightarrow> (string, int \<times> int) dict" where
  "merge_usage new old =
     fold (\<lambda>(m, c, t) d. (let (c0, t0) = dget_or d m (0, 0) in dset m (c0 + c, t0 + t) d)) new old"

definition add_incident :: "metrics_lib \<Rightarrow> pydict \<Rightarrow> summary_acc \<Rightarrow> exn + summary_acc" where
  "add_incident M vs a =
     (let s = status_of M vs;
          timed = (if s = ''resolved'' then add_times vs (count_status s a) else count_status s a);
          cost = pf_add (sa_cost a) (metric_float (dget_or vs ''cost_usd'' (PFloat (Fin 0))));
          estimated = pf_add (sa_estimated_cost a) (metric_float (dget_or vs ''estimated_paid_cost_usd'' (PFloat (Fin 0))));
          category = category_label M vs
      in bind_res (metric_int (dget_or vs ''tokens_used'' (PInt 0))) (\<lambda>tokens.
         bind_res (metric_int (dget_or vs ''prompt_tokens'' (PInt 0))) (\<lambda>prompt.
         bind_res (metric_int (dget_or vs ''completion_tokens'' (PInt 0))) (\<lambda>completion.
         bind_res (as_model_usage (dget_or vs ''model_usage'' (PDict []))) (\<lambda>usage.
         bind_res (count_safety_violations (list_at vs ''executed_actions'')) (\<lambda>violations.
         Inr (timed\<lparr>sa_cost := cost, sa_estimated_cost := estimated,
                sa_tokens := sa_tokens a + tokens, sa_prompt := sa_prompt a + prompt,
                sa_completion := sa_completion a + completion, sa_usage := merge_usage usage (sa_usage a),
                sa_categories := dset category (Suc (dget_or (sa_categories a) category 0)) (sa_categories a),
                sa_violations := sa_violations a + violations\<rparr>)))))))"

fun add_incidents :: "metrics_lib \<Rightarrow> (string \<times> pydict) list \<Rightarrow> summary_acc \<Rightarrow> exn + summary_acc" where
  "add_incidents M [] a = Inr a"
| "add_incidents M ((i, vs) # rest) a = bind_res (add_incident M vs a) (add_incidents M rest)"

definition mttr_reduction :: "pyfloat \<Rightarrow> pyfloat \<Rightarrow> pyfloat" where
  "mttr_reduction baseline active =
     (if pf_lt (Fin 0) baseline then pf_percent (pf_div (pf_sub baseline active) baseline) else Fin 0)"

definition summary_response :: "nat \<Rightarrow> summary_acc \<Rightarrow> pydict" where
  "summary_response n a =
     (let active = pf_mean (sa_active_times a); wall = pf_mean (sa_wall_times a);
          backoff = pf_mean (sa_backoff_times a); baseline = pf_mean (sa_baselines a)
      in [(''total_incidents'', PInt (int n)),
          (''resolved_count'', PInt (int (sa_resolved a))),
          (''awaiting_approval_count'', PInt (int (sa_awaiting a))),
          (''failed_count'', PInt (int (sa_failed a))),
          (''no_action_count'', PInt (int (sa_no_action a))),
          (''avg_mttr_seconds'', PFloat (pf_round active 2)),
          (''avg_wall_clock_seconds'', PFloat (pf_round wall 2)),
          (''avg_backoff_seconds'', PFloat (pf_round backoff 2)),
          (''baseline_mttr_seconds'', PFloat (pf_round baseline 2)),
          (''mttr_reduction_pct'', PFloat (pf_round (mttr_reduction baseline active) 2)),
          (''total_cost_usd'', PFloat (pf_round (sa_cost a) 6)),
          (''total_estimated_paid_cost_usd'', PFloat (pf_round (sa_estimated_cost a) 6)),
          (''total_tokens'', PInt (sa_tokens a)),
          (''total_prompt_tokens'', PInt (sa_prompt a)),
          (''total_completion_tokens'', PInt (sa_completion a)),
          (''model_usage_summary'', usage_dict (sa_usage a)),
          (''safety_violations'', PInt (int (sa_violations a))),
          (''incidents_by_category'', PDict (map (\<lambda>(k, c). (k, PInt (int c))) (sa_categories a)))])"

definition get_metrics_summary :: "metrics_lib \<Rightarrow> exn + (string \<times> pyval) list \<Rightarrow> http_error + pydict" where
  "get_metrics_summary M states =
     as_500 M ''Failed to get metrics: ''
       (bind_res states (\<lambda>all_states.
        bind_res (add_incidents M (non_empty_states all_states) empty_summary) (\<lambda>a.
        Inr (summary_response (length all_states) a))))"

section \<open>Time buckets\<close>

text \<open>\<open>int\<close> truncates towards zero and \<open>//\<close> rounds down.\<close>

definition truncate_rat :: "rat \<Rightarrow> int" where
  "truncate_rat x = (if 0 \<le> x then \<lfloor>x\<rfloor> else \<lceil>x\<rceil>)"

definition bucket_epoch :: "rat \<Rightarrow> int \<Rightarrow> exn + int" where
  "bucket_epoch ts s =
     (if s \<le> 0 then Inl (PyError (ValueError ''bucket_seconds must be positive''))
      else Inr ((truncate_rat ts div s) * s))"

definition bucket_minutes_by_range :: "(string \<times> int) list" where
  "bucket_minutes_by_range = [(''1h'', 5), (''24h'', 60), (''7d'', 360), (''30d'', 1440)]"

definition started_at :: "metrics_lib \<Rightarrow> pydict \<Rightarrow> rat option" where
  "started_at M vs =
     (let raw = dget_or (dict_at vs ''incident_metadata'') ''started_at'' (PStr [])
      in if truthy raw
         then ml_iso M (concat (map (\<lambda>c. if c = CHR ''Z'' then ''+00:00'' else [c]) (py_str (ml_repr M) raw)))
         else None)"

record metric_slot =
  sl_incidents :: nat
  sl_resolved :: nat
  sl_no_action :: nat
  sl_failed :: nat
  sl_active_times :: "pyfloat list"
  sl_cost :: pyfloat
  sl_estimated_cost :: pyfloat
  sl_tokens :: int
  sl_prompt :: int
  sl_completion :: int

definition empty_slot :: metric_slot where
  "empty_slot = \<lparr>sl_incidents = 0, sl_resolved = 0, sl_no_action = 0, sl_failed = 0, sl_active_times = [],
     sl_cost = Fin 0, sl_estimated_cost = Fin 0, sl_tokens = 0, sl_prompt = 0, sl_completion = 0\<rparr>"

definition slot_status :: "string \<Rightarrow> pyfloat \<Rightarrow> metric_slot \<Rightarrow> metric_slot" where
  "slot_status s active sl =
     (if s = ''resolved''
      then sl\<lparr>sl_resolved := Suc (sl_resolved sl),
              sl_active_times := keep_if (pf_lt (Fin 0) active) active (sl_active_times sl)\<rparr>
      else if s = ''no_action'' then sl\<lparr>sl_no_action := Suc (sl_no_action sl)\<rparr>
      else if s = ''failed'' then sl\<lparr>sl_failed := Suc (sl_failed sl)\<rparr>
      else sl)"

definition add_to_slot :: "metrics_lib \<Rightarrow> pydict \<Rightarrow> metric_slot \<Rightarrow> exn + metric_slot" where
  "add_to_slot M vs sl =
     (let counted = slot_status (status_of M vs) (metric_float (dget_or vs ''active_seconds'' (PFloat (Fin 0)))) sl
      in bind_res (metric_int (dget_or vs ''tokens_used'' (PInt 0))) (\<lambda>tokens.
         bind_res (metric_int (dget_or vs ''prompt_tokens'' (PInt 0))) (\<lambda>prompt.
         bind_res (metric_int (dget_or vs ''completion_tokens'' (PInt 0))) (\<lambda>completion.
         Inr (counted\<lparr>sl_incidents := Suc (sl_incidents sl),
                sl_cost := pf_add (sl_cost sl) (metric_float (dget_or vs ''cost_usd'' (PFloat (Fin 0)))),
                sl_estimated_cost := pf_add (sl_estimated_cost sl)
                   (metric_float (dget_or vs ''estimated_paid_cost_usd'' (PFloat (Fin 0)))),
                sl_tokens := sl_tokens sl + tokens, sl_prompt := sl_prompt sl + prompt,
                sl_completion := sl_completion sl + completion\<rparr>)))))"

fun fill_buckets ::
  "metrics_lib \<Rightarrow> int \<Rightarrow> (string \<times> pydict) list \<Rightarrow> (int, metric_slot) dict \<Rightarrow> exn + (int, metric_slot) dict" where
  "fill_buckets M s [] bs = Inr bs"
| "fill_buckets M s ((i, vs) # rest) bs =
     (case started_at M vs of
        None \<Rightarrow> fill_buckets M s rest bs
      | Some ts \<Rightarrow>
          bind_res (bucket_epoch ts s) (\<lambda>b.
          bind_res (add_to_slot M vs (dget_or bs b empty_slot)) (\<lambda>sl.
          fill_buckets M s rest (dset b sl bs))))"

definition metric_bucket :: "metrics_lib \<Rightarrow> int \<Rightarrow> metric_slot \<Rightarrow> exn + pydict" where
  "metric_bucket M b sl =
     bind_res (ml_isoformat M b) (\<lambda>stamp.
     Inr [(''timestamp'', PStr stamp), (''incidents'', PInt (int (sl_incidents sl))),
          (''resolved'', PInt (int (sl_resolved sl))), (''no_action'', PInt (int (sl_no_action sl))),
          (''failed'', PInt (int (sl_failed sl))),
          (''avg_mttr_seconds'', PFloat (pf_round (pf_mean (sl_active_times sl)) 2)),
          (''total_cost_usd'', PFloat (pf_round (sl_cost sl) 6)),
          (''total_estimated_paid_cost_usd'', PFloat (pf_round (sl_estimated_cost sl) 6)),
          (''total_tokens'', PInt (sl_tokens sl)), (''total_prompt_tokens'', PInt (sl_prompt sl)),
          (''total_completion_tokens'', PInt (sl_completion sl))])"

definition get_metrics_timeseries ::
  "metrics_lib \<Rightarrow> string \<Rightarrow> exn + (string \<times> pyval) list \<Rightarrow> http_error + pydict" where
  "get_metrics_timeseries M time_range states =
     as_500 M ''Failed to get timeseries: ''
       (bind_res states (\<lambda>all_states.
        case map_of bucket_minutes_by_range time_range of
          None \<Rightarrow> Inl (PyError (KeyError time_range))
        | Some minutes \<Rightarrow>
            bind_res (fill_buckets M (minutes * 60) (non_empty_states all_states) []) (\<lambda>bs.
            bind_res (map_res (\<lambda>b. metric_bucket M b (dget_or bs b empty_slot)) (sort (map fst bs))) (\<lambda>items.
            Inr [(''buckets'', PList (map PDict items)), (''range'', PStr time_range)]))))"

section \<open>The most expensive incidents\<close>

text \<open>
  A stable sort by descending cost. With a NaN among the costs the comparisons are no order and the
  result is that of the library's sort; nothing is stated about it.
\<close>

fun insert_expensive :: "(pyfloat \<times> pydict) \<Rightarrow> (pyfloat \<times> pydict) list \<Rightarrow> (pyfloat \<times> pydict) list" where
  "insert_expensive x [] = [x]"
| "insert_expensive x (y # ys) = (if pf_lt (fst x) (fst y) then y # insert_expensive x ys else x # y # ys)"

definition sort_expensive :: "(pyfloat \<times> pydict) list \<Rightarrow> (pyfloat \<times> pydict) list" where
  "sort_expensive xs = foldr insert_expensive xs []"

definition expensive_incident :: "metrics_lib \<Rightarrow> string \<Rightarrow> pydict \<Rightarrow> exn + pyfloat \<times> pydict" where
  "expensive_incident M incident_id vs =
     (let cost = metric_float (dget_or vs ''cost_usd'' (PFloat (Fin 0)));
          text_of = (\<lambda>k. PStr (metric_str M (dget_or (dict_at vs ''incident_metadata'') k (PStr []))))
      in bind_res (metric_int (dget_or vs ''tokens_used'' (PInt 0))) (\<lambda>tokens.
         Inr (cost, [(''incident_id'', PStr incident_id), (''alert_name'', text_of ''alert_name''),
                     (''service'', text_of ''service''), (''cost_usd'', PFloat cost),
                     (''estimated_paid_cost_usd'',
                        PFloat (metric_float (dget_or vs ''estimated_paid_cost_usd'' (PFloat (Fin 0))))),
                     (''tokens_used'', PInt tokens),
                     (''wall_clock_seconds'', PFloat (metric_float (dget_or vs ''wall_clock_seconds'' (PFloat (Fin 0))))),
                     (''status'', PStr (metric_str M (dget_or vs ''status'' (PStr ''unknown''))))])))"

definition get_top_expensive ::
  "metrics_lib \<Rightarrow> nat \<Rightarrow> exn + (string \<times> pyval) list \<Rightarrow> http_error + pydict list" where
  "get_top_expensive M limit states =
     as_500 M ''Failed to get top expensive: ''
       (bind_res states (\<lambda>all_states.
        bind_res (map_res (\<lambda>(i, vs). expensive_incident M i vs) (non_empty_states all_states)) (\<lambda>incidents.
        Inr (take limit (map snd (sort_expensive incidents))))))"

section \<open>The buckets count every incident once\<close>

lemma bucket_epoch_Inr:
  assumes "bucket_epoch ts s = Inr b"
  shows "0 < s" "s dvd b" "b \<le> truncate_rat ts" "truncate_rat ts < b + s"
proof -
  from assms have s: "0 < s" and b: "b = truncate_rat ts div s * s"
    by (auto simp: bucket_epoch_def split: if_splits)
  have "truncate_rat ts = b + truncate_rat ts mod s" by (simp add: b)
  moreover have "0 \<le> truncate_rat ts mod s" "truncate_rat ts mod s < s" using s by simp_all
  ultimately show "b \<le> truncate_rat ts" "truncate_rat ts < b + s" by linarith+
  show "0 < s" "s dvd b" using s by (simp_all add: b)
qed

lemma bucket_contains:
  assumes "bucket_epoch ts s = Inr b" "0 \<le> ts"
  shows "of_int b \<le> ts" "ts < of_int (b + s)"
  using bucket_epoch_Inr(3,4) [OF assms(1)] assms(2)
  by (simp_all add: truncate_rat_def le_floor_iff floor_less_iff)

text \<open>The bucket an incident is counted in, if any.\<close>

definition bucket_of :: "metrics_lib \<Rightarrow> int \<Rightarrow> pydict \<Rightarrow> int option" where
  "bucket_of M s vs = map_option (\<lambda>ts. truncate_rat ts div s * s) (started_at M vs)"

definition in_bucket :: "metrics_lib \<Rightarrow> int \<Rightarrow> int \<Rightarrow> string \<times> pydict \<Rightarrow> bool" where
  "in_bucket M s b st \<longleftrightarrow> bucket_of M s (snd st) = Some b"

definition status_count :: "metrics_lib \<Rightarrow> string set \<Rightarrow> (string \<times> pydict) list \<Rightarrow> nat" where
  "status_count M S sts = length (filter (\<lambda>st. status_of M (snd st) \<in> S) sts)"

lemma status_count_simps [simp]:
  "status_count M S [] = 0"
  "status_count M S ((i, vs) # sts) = (if status_of M vs \<in> S then Suc (status_count M S sts) else status_count M S sts)"
  by (simp_all add: status_count_def)

lemma add_to_slot_counts:
  assumes "add_to_slot M vs sl = Inr sl'"
  shows "sl_incidents sl' = Suc (sl_incidents sl)"
    "sl_resolved sl' = sl_resolved sl + of_bool (status_of M vs = ''resolved'')"
    "sl_no_action sl' = sl_no_action sl + of_bool (status_of M vs = ''no_action'')"
    "sl_failed sl' = sl_failed sl + of_bool (status_of M vs = ''failed'')"
  using assms by (auto simp: add_to_slot_def slot_status_def Let_def bind_res_Inr_iff)

definition slot_counts :: "metrics_lib \<Rightarrow> (string \<times> pydict) list \<Rightarrow> metric_slot \<Rightarrow> metric_slot \<Rightarrow> bool" where
  "slot_counts M sts sl sl' \<longleftrightarrow>
     sl_incidents sl' = sl_incidents sl + length sts \<and>
     sl_resolved sl' = sl_resolved sl + status_count M {''resolved''} sts \<and>
     sl_no_action sl' = sl_no_action sl + status_count M {''no_action''} sts \<and>
     sl_failed sl' = sl_failed sl + status_count M {''failed''} sts"

lemma slot_counts_Nil [simp]: "slot_counts M [] sl sl"
  by (simp add: slot_counts_def)

lemma slot_counts_step:
  assumes "add_to_slot M vs sl = Inr sl1" "slot_counts M sts sl1 sl2"
  shows "slot_counts M ((i, vs) # sts) sl sl2"
  using assms(2) add_to_slot_counts [OF assms(1)] by (simp add: slot_counts_def)

lemma fill_buckets_counts:
  assumes "fill_buckets M s sts bs = Inr bs'" "0 < s" "distinct (dkeys bs)"
  shows "distinct (dkeys bs') \<and>
    set (dkeys bs') = set (dkeys bs) \<union> {b. \<exists>st\<in>set sts. in_bucket M s b st} \<and>
    (\<forall>b. slot_counts M (filter (in_bucket M s b) sts) (dget_or bs b empty_slot) (dget_or bs' b empty_slot))"
  using assms
proof (induction sts arbitrary: bs)
  case Nil
  then show ?case by simp
next
  case (Cons st sts)
  obtain i vs where st: "st = (i, vs)" by (cases st)
  show ?case
  proof (cases "started_at M vs")
    case None
    then have "\<not> in_bucket M s b st" for b by (simp add: st in_bucket_def bucket_of_def)
    with Cons.IH [of bs] Cons.prems None show ?thesis by (simp add: st)
  next
    case (Some ts)
    define b where "b = truncate_rat ts div s * s"
    have inb: "in_bucket M s c st \<longleftrightarrow> c = b" for c
      using Some by (auto simp: st in_bucket_def bucket_of_def b_def)
    obtain sl where sl: "add_to_slot M vs (dget_or bs b empty_slot) = Inr sl"
      and rest: "fill_buckets M s sts (dset b sl bs) = Inr bs'"
      using Cons.prems(1,2) Some by (auto simp: st bind_res_Inr_iff bucket_epoch_def b_def)
    have IH: "distinct (dkeys bs')"
      "set (dkeys bs') = insert b (set (dkeys bs)) \<union> {b. \<exists>st\<in>set sts. in_bucket M s b st}"
      "slot_counts M (filter (in_bucket M s c) sts) (dget_or (dset b sl bs) c empty_slot) (dget_or bs' c empty_slot)" for c
      using Cons.IH [OF rest Cons.prems(2)] Cons.prems(3) by simp_all
    have "slot_counts M (filter (in_bucket M s c) (st # sts)) (dget_or bs c empty_slot) (dget_or bs' c empty_slot)" for c
      using IH(3) [of c] by (cases "c = b") (auto simp: inb st [symmetric] intro: slot_counts_step [OF sl, of _ _ i, folded st])
    moreover have "{b. \<exists>x\<in>set (st # sts). in_bucket M s b x} = insert b {b. \<exists>st\<in>set sts. in_bucket M s b st}"
      using inb by auto
    ultimately show ?thesis using IH(1,2) by auto
  qed
qed

lemma as_500_Inr: "as_500 M what r = Inr x \<longleftrightarrow> r = Inr x"
  by (auto simp: as_500_def split: sum.splits if_splits)

text \<open>What a bucket of the response says of the states.\<close>

definition bucket_matches :: "metrics_lib \<Rightarrow> int \<Rightarrow> (string \<times> pydict) list \<Rightarrow> int \<Rightarrow> pydict \<Rightarrow> bool" where
  "bucket_matches M s sts b d \<longleftrightarrow>
     (let mine = filter (in_bucket M s b) sts
      in (\<exists>stamp. ml_isoformat M b = Inr stamp \<and> dget d ''timestamp'' = Some (PStr stamp)) \<and>
         dget d ''incidents'' = Some (PInt (int (length mine))) \<and>
         dget d ''resolved'' = Some (PInt (int (status_count M {''resolved''} mine))) \<and>
         dget d ''no_action'' = Some (PInt (int (status_count M {''no_action''} mine))) \<and>
         dget d ''failed'' = Some (PInt (int (status_count M {''failed''} mine))))"

lemma metric_bucket_matches:
  assumes "metric_bucket M b sl = Inr d" "slot_counts M (filter (in_bucket M s b) sts) empty_slot sl"
  shows "bucket_matches M s sts b d"
  using assms by (auto simp: metric_bucket_def bind_res_Inr_iff bucket_matches_def slot_counts_def empty_slot_def Let_def)

lemma bucket_minutes_pos: "map_of bucket_minutes_by_range r = Some m \<Longrightarrow> 0 < m"
  by (auto simp: bucket_minutes_by_range_def split: if_splits)

lemma count_by_key:
  "distinct ks \<Longrightarrow> (\<Sum>k\<leftarrow>ks. length (filter (\<lambda>x. f x = Some k) xs)) = length (filter (\<lambda>x. f x \<in> Some ` set ks) xs)"
proof (induction xs)
  case (Cons x xs)
  have "(\<Sum>k\<leftarrow>ks. length (filter (\<lambda>x. f x = Some k) (x # xs)))
      = (\<Sum>k\<leftarrow>ks. of_bool (f x = Some k)) + (\<Sum>k\<leftarrow>ks. length (filter (\<lambda>x. f x = Some k) xs))"
    by (subst sum_list_addf [symmetric]) (rule arg_cong [where f = sum_list], simp)
  moreover have "(\<Sum>k\<leftarrow>ks. of_bool (f x = Some k)) = (of_bool (f x \<in> Some ` set ks) :: nat)"
    using Cons.prems by (induction ks) auto
  ultimately show ?case using Cons by simp
qed simp

lemma bucket_total:
  assumes "distinct bs" "set bs = {b. \<exists>st\<in>set sts. in_bucket M s b st}"
  shows "(\<Sum>b\<leftarrow>bs. length (filter (in_bucket M s b) sts)) = length (filter (\<lambda>st. started_at M (snd st) \<noteq> None) sts)"
proof -
  have "(\<Sum>b\<leftarrow>bs. length (filter (in_bucket M s b) sts))
      = length (filter (\<lambda>st. bucket_of M s (snd st) \<in> Some ` set bs) sts)"
    using count_by_key [of bs "\<lambda>st. bucket_of M s (snd st)" sts] assms(1) by (simp add: in_bucket_def [abs_def])
  also have "\<dots> = length (filter (\<lambda>st. started_at M (snd st) \<noteq> None) sts)"
    using assms(2) by (intro arg_cong [where f = length] filter_cong) (auto simp: in_bucket_def bucket_of_def)
  finally show ?thesis .
qed

text \<open>C30: The time series has one bucket for every epoch-aligned interval of the requested width in which some incident started and no other, in strictly increasing order; a bucket counts exactly the incidents that started in it and those of them resolved, failed and without action; and every incident with a readable start is counted in exactly one bucket.\<close>

theorem timeseries_buckets:
  assumes "get_metrics_timeseries M time_range (Inr states) = Inr response"
  shows "\<exists>m bs items. map_of bucket_minutes_by_range time_range = Some m \<and>
    response = [(''buckets'', PList (map PDict items)), (''range'', PStr time_range)] \<and>
    sorted_wrt (<) bs \<and> (\<forall>b\<in>set bs. m * 60 dvd b) \<and>
    set bs = {b. \<exists>st\<in>set (non_empty_states states). in_bucket M (m * 60) b st} \<and>
    list_all2 (bucket_matches M (m * 60) (non_empty_states states)) bs items \<and>
    (\<Sum>b\<leftarrow>bs. length (filter (in_bucket M (m * 60) b) (non_empty_states states))) =
      length (filter (\<lambda>st. started_at M (snd st) \<noteq> None) (non_empty_states states))"
proof -
  let ?sts = "non_empty_states states"
  obtain m filled items where m: "map_of bucket_minutes_by_range time_range = Some m"
    and filled: "fill_buckets M (m * 60) ?sts [] = Inr filled"
    and items: "map_res (\<lambda>b. metric_bucket M b (dget_or filled b empty_slot)) (sort (map fst filled)) = Inr items"
    and response: "response = [(''buckets'', PList (map PDict items)), (''range'', PStr time_range)]"
    using assms by (auto simp: get_metrics_timeseries_def as_500_Inr bind_res_Inr_iff split: option.splits)
  have s: "0 < m * 60" using bucket_minutes_pos [OF m] by simp
  let ?bs = "sort (map fst filled)"
  have keys: "distinct (dkeys filled)" "set (dkeys filled) = {b. \<exists>st\<in>set ?sts. in_bucket M (m * 60) b st}"
    and counts: "slot_counts M (filter (in_bucket M (m * 60) b) ?sts) empty_slot (dget_or filled b empty_slot)" for b
    using fill_buckets_counts [OF filled s] by (simp_all add: dkeys_def)
  have sorted: "sorted_wrt (<) ?bs"
    using keys(1) by (simp add: strict_sorted_iff dkeys_def)
  have "list_all2 (\<lambda>b. bucket_matches M (m * 60) ?sts b) ?bs items"
    using map_res_Inr [OF items] by (rule list_all2_mono) (rule metric_bucket_matches [OF _ counts])
  moreover have "\<forall>b\<in>set ?bs. m * 60 dvd b"
    using keys(2) by (auto simp: dkeys_def in_bucket_def bucket_of_def)
  moreover have "(\<Sum>b\<leftarrow>?bs. length (filter (in_bucket M (m * 60) b) ?sts))
      = length (filter (\<lambda>st. started_at M (snd st) \<noteq> None) ?sts)"
    using keys by (intro bucket_total) (simp_all add: dkeys_def)
  moreover have "set ?bs = {b. \<exists>st\<in>set ?sts. in_bucket M (m * 60) b st}"
    using keys(2) by (simp add: dkeys_def)
  ultimately show ?thesis
    using m response sorted by blast
qed

section \<open>The summary counts every state\<close>

definition category_count :: "metrics_lib \<Rightarrow> string \<Rightarrow> (string \<times> pydict) list \<Rightarrow> nat" where
  "category_count M c sts = length (filter (\<lambda>st. category_label M (snd st) = c) sts)"

definition tokens_of :: "string \<times> pydict \<Rightarrow> int" where
  "tokens_of st = (case metric_int (dget_or (snd st) ''tokens_used'' (PInt 0)) of Inr t \<Rightarrow> t | Inl _ \<Rightarrow> 0)"

definition violations_of :: "string \<times> pydict \<Rightarrow> nat" where
  "violations_of st = (case count_safety_violations (list_at (snd st) ''executed_actions'') of Inr n \<Rightarrow> n | Inl _ \<Rightarrow> 0)"

definition summarises :: "metrics_lib \<Rightarrow> (string \<times> pydict) list \<Rightarrow> summary_acc \<Rightarrow> summary_acc \<Rightarrow> bool" where
  "summarises M sts a a' \<longleftrightarrow>
     sa_resolved a' = sa_resolved a + status_count M {''resolved''} sts \<and>
     sa_awaiting a' = sa_awaiting a + status_count M {''awaiting_approval''} sts \<and>
     sa_failed a' = sa_failed a + status_count M {''failed'', ''blocked''} sts \<and>
     sa_no_action a' = sa_no_action a + status_count M {''no_action''} sts \<and>
     sa_tokens a' = sa_tokens a + sum_list (map tokens_of sts) \<and>
     sa_violations a' = sa_violations a + sum_list (map violations_of sts) \<and>
     (\<forall>c. dget_or (sa_categories a') c 0 = dget_or (sa_categories a) c 0 + category_count M c sts) \<and>
     (distinct (dkeys (sa_categories a)) \<longrightarrow> distinct (dkeys (sa_categories a')))"

lemma add_incident_counts:
  assumes "add_incident M vs a = Inr a'"
  shows "summarises M [(i, vs)] a a'"
proof -
  obtain tokens violations timed x where
    tokens: "metric_int (dget_or vs ''tokens_used'' (PInt 0)) = Inr tokens"
    and violations: "count_safety_violations (list_at vs ''executed_actions'') = Inr violations"
    and timed: "timed = (if status_of M vs = ''resolved'' then add_times vs (count_status (status_of M vs) a)
       else count_status (status_of M vs) a)"
    and a': "sa_resolved a' = sa_resolved timed" "sa_awaiting a' = sa_awaiting timed"
      "sa_failed a' = sa_failed timed" "sa_no_action a' = sa_no_action timed"
      "sa_tokens a' = sa_tokens a + tokens" "sa_violations a' = sa_violations a + violations"
      "sa_categories a' = dset (category_label M vs) (Suc (dget_or (sa_categories a) (category_label M vs) 0)) (sa_categories a)"
    using assms unfolding add_incident_def Let_def by (force simp: bind_res_Inr_iff)
  have "sa_resolved timed = sa_resolved a + of_bool (status_of M vs = ''resolved'')"
    "sa_awaiting timed = sa_awaiting a + of_bool (status_of M vs = ''awaiting_approval'')"
    "sa_failed timed = sa_failed a + of_bool (status_of M vs \<in> {''failed'', ''blocked''})"
    "sa_no_action timed = sa_no_action a + of_bool (status_of M vs = ''no_action'')"
    by (simp_all add: timed add_times_def count_status_def Let_def)
  then show ?thesis
    by (auto simp: summarises_def a' tokens_of_def violations_of_def tokens violations category_count_def)
qed

lemma summarises_Cons:
  assumes "summarises M [st] a b" "summarises M sts b c"
  shows "summarises M (st # sts) a c"
  using assms by (cases st) (auto simp: summarises_def category_count_def)

lemma add_incidents_counts:
  "add_incidents M sts a = Inr a' \<Longrightarrow> summarises M sts a a'"
proof (induction M sts a rule: add_incidents.induct)
  case (1 M a)
  then show ?case by (simp add: summarises_def category_count_def)
next
  case (2 M i vs rest a)
  then obtain b where "add_incident M vs a = Inr b" "add_incidents M rest b = Inr a'"
    by (auto simp: bind_res_Inr_iff)
  with 2 show ?case by (blast intro: summarises_Cons add_incident_counts)
qed

text \<open>The summary counts every state of the listing: the numbers of incidents resolved, awaiting approval, failed or blocked and without action are those of the non-empty states, the categories count every non-empty state once under its label, tokens and prohibited tools are added up, and the total is the length of the listing, empty states included.\<close>

lemma metrics_summary_counts:
  assumes "get_metrics_summary M (Inr states) = Inr response"
  shows "\<exists>cats. let sts = non_empty_states states in
    dget response ''total_incidents'' = Some (PInt (int (length states))) \<and>
    dget response ''resolved_count'' = Some (PInt (int (status_count M {''resolved''} sts))) \<and>
    dget response ''awaiting_approval_count'' = Some (PInt (int (status_count M {''awaiting_approval''} sts))) \<and>
    dget response ''failed_count'' = Some (PInt (int (status_count M {''failed'', ''blocked''} sts))) \<and>
    dget response ''no_action_count'' = Some (PInt (int (status_count M {''no_action''} sts))) \<and>
    dget response ''total_tokens'' = Some (PInt (sum_list (map tokens_of sts))) \<and>
    dget response ''safety_violations'' = Some (PInt (int (sum_list (map violations_of sts)))) \<and>
    dget response ''incidents_by_category'' = Some (PDict (map (\<lambda>(k, c). (k, PInt (int c))) cats)) \<and>
    distinct (dkeys cats) \<and> (\<forall>c. dget_or cats c 0 = category_count M c sts)"
proof -
  obtain a where a: "add_incidents M (non_empty_states states) empty_summary = Inr a"
    and response: "response = summary_response (length states) a"
    using assms by (auto simp: get_metrics_summary_def as_500_Inr bind_res_Inr_iff)
  show ?thesis
    using add_incidents_counts [OF a]
    by (intro exI [of _ "sa_categories a"])
      (simp add: response summary_response_def summarises_def empty_summary_def dkeys_def Let_def)
qed

section \<open>The most expensive first\<close>

lemma mset_insert_expensive [simp]: "mset (insert_expensive x ys) = add_mset x (mset ys)"
  by (induction ys) auto

lemma mset_sort_expensive: "mset (sort_expensive xs) = mset xs"
  unfolding sort_expensive_def by (induction xs) auto

lemma set_insert_expensive [simp]: "set (insert_expensive x ys) = insert x (set ys)"
  by (induction ys) auto

lemma pf_not_lt_iff: "x \<noteq> NaN \<Longrightarrow> y \<noteq> NaN \<Longrightarrow> \<not> pf_lt x y \<longleftrightarrow> pf_le y x"
  by (cases x; cases y) auto

lemma pf_le_trans: "pf_le x y \<Longrightarrow> pf_le y z \<Longrightarrow> pf_le x z"
  by (cases x; cases y; cases z) auto

lemma sorted_insert_expensive:
  assumes "sorted_wrt (\<lambda>p q. pf_le (fst q) (fst p)) ys" "\<forall>p\<in>insert x (set ys). fst p \<noteq> NaN"
  shows "sorted_wrt (\<lambda>p q. pf_le (fst q) (fst p)) (insert_expensive x ys)"
  using assms
proof (induction ys)
  case (Cons y ys)
  then have le: "\<not> pf_lt (fst x) (fst y) \<longleftrightarrow> pf_le (fst y) (fst x)"
    and lt: "pf_lt (fst x) (fst y) \<Longrightarrow> pf_le (fst x) (fst y)"
    by (auto simp: pf_not_lt_iff) (cases "fst x"; cases "fst y"; simp)
  from Cons le lt show ?case by (auto intro: pf_le_trans)
qed simp

lemma sort_expensive_sorted:
  "\<forall>p\<in>set xs. fst p \<noteq> NaN \<Longrightarrow> sorted_wrt (\<lambda>p q. pf_le (fst q) (fst p)) (sort_expensive xs)"
proof (induction xs)
  case (Cons x xs)
  have "set (sort_expensive xs) = set xs"
    using mset_sort_expensive [of xs] by (metis set_mset_mset)
  with Cons sorted_insert_expensive [of "sort_expensive xs" x] show ?case
    by (simp add: sort_expensive_def)
qed (simp add: sort_expensive_def)

text \<open>
  The answer holds the requested number of incidents or all of them, in descending order of cost,
  and no incident left out costs more than one that is listed.
\<close>

lemma top_expensive_is_top:
  assumes "get_top_expensive M limit (Inr states) = Inr response"
    "map_res (\<lambda>(i, vs). expensive_incident M i vs) (non_empty_states states) = Inr incidents"
    "\<forall>p\<in>set incidents. fst p \<noteq> NaN"
  shows "\<exists>top rest. response = map snd top \<and> mset (top @ rest) = mset incidents \<and>
    length top = min limit (length incidents) \<and>
    sorted_wrt (\<lambda>p q. pf_le (fst q) (fst p)) top \<and> (\<forall>p\<in>set top. \<forall>q\<in>set rest. pf_le (fst q) (fst p))"
proof (intro exI conjI)
  let ?s = "sort_expensive incidents"
  show "response = map snd (take limit ?s)"
    using assms(1,2) by (simp add: get_top_expensive_def as_500_def take_map)
  show "mset (take limit ?s @ drop limit ?s) = mset incidents"
    by (simp add: mset_sort_expensive)
  show "length (take limit ?s) = min limit (length incidents)"
    using arg_cong [OF mset_sort_expensive, of size incidents] by simp
  have "sorted_wrt (\<lambda>p q. pf_le (fst q) (fst p)) (take limit ?s @ drop limit ?s)"
    using sort_expensive_sorted [OF assms(3)] by simp
  then show "sorted_wrt (\<lambda>p q. pf_le (fst q) (fst p)) (take limit ?s)"
    "\<forall>p\<in>set (take limit ?s). \<forall>q\<in>set (drop limit ?s). pf_le (fst q) (fst p)"
    unfolding sorted_wrt_append by blast+
qed

section \<open>Concrete runs\<close>

definition demo_metrics :: metrics_lib where
  "demo_metrics = \<lparr>ml_repr = (\<lambda>_. ''?''), ml_show_exn = (\<lambda>_. ''error''),
     ml_iso = (\<lambda>s. if s = ''1970-01-01T01:02:00+00:00'' then Some 3720 else None),
     ml_isoformat = (\<lambda>b. Inr (if b = 3600 then ''1970-01-01T01:00:00+00:00'' else ''later'')),
     ml_bool = (\<lambda>v. Inr (truthy v))\<rparr>"

definition demo_states :: "(string \<times> pyval) list" where
  "demo_states =
     [(''a'', PObj [(''values'', PDict [(''status'', PStr ''resolved''), (''active_seconds'', PFloat (Fin 90)),
         (''tokens_used'', PInt 7),
         (''incident_metadata'', PDict [(''started_at'', PStr ''1970-01-01T01:02:00Z''), (''category'', PStr ''database'')]),
         (''executed_actions'', PList [PDict [(''tool_name'', PStr ''drop_table'')]])])]),
      (''b'', PObj [(''values'', PDict [(''status'', PStr ''blocked''),
         (''incident_metadata'', PDict [(''started_at'', PStr ''1970-01-01T01:02:00Z'')])])]),
      (''c'', PObj [(''values'', PDict [])])]"

lemma timeseries_buckets_witness:
  "\<exists>response m bs. get_metrics_timeseries demo_metrics ''24h'' (Inr demo_states) = Inr response \<and>
    map_of bucket_minutes_by_range ''24h'' = Some m \<and>
    set bs = {b. \<exists>st\<in>set (non_empty_states demo_states). in_bucket demo_metrics (m * 60) b st}"
proof -
  obtain response where r: "get_metrics_timeseries demo_metrics ''24h'' (Inr demo_states) = Inr response"
  proof (cases "get_metrics_timeseries demo_metrics ''24h'' (Inr demo_states)")
    case (Inl e)
    moreover have "(case get_metrics_timeseries demo_metrics ''24h'' (Inr demo_states) of Inl _ \<Rightarrow> False | Inr _ \<Rightarrow> True)"
      by code_simp
    ultimately show ?thesis by simp
  qed (use that in blast)
  from timeseries_buckets [OF r] r show ?thesis by blast
qed

lemma metrics_summary_counts_witness:
  "\<exists>response. get_metrics_summary demo_metrics (Inr demo_states) = Inr response \<and>
    dget response ''total_incidents'' = Some (PInt (int (length demo_states)))"
proof -
  obtain response where r: "get_metrics_summary demo_metrics (Inr demo_states) = Inr response"
  proof (cases "get_metrics_summary demo_metrics (Inr demo_states)")
    case (Inl e)
    moreover have "(case get_metrics_summary demo_metrics (Inr demo_states) of Inl _ \<Rightarrow> False | Inr _ \<Rightarrow> True)"
      by code_simp
    ultimately show ?thesis by simp
  qed (use that in blast)
  from metrics_summary_counts [OF r] r show ?thesis by (auto simp: Let_def)
qed

end
