(* ===== verification/Responses.thy ===== *)
theory Responses
  imports Models Metrics
begin

text \<open>
  The response models of the API, \<^verbatim>\<open>api/routes.py\<close>, and the proof that every query of
  \<open>Metrics\<close> answers with an instance of the model its route declares. The model that FastAPI
  serialises is the one declared, so a body that conforms loses no field and cannot turn into an
  internal error.
\<close>

section \<open>Response models\<close>

definition usage_type :: ty where
  "usage_type = DictOf (DictOf Whole)"

definition actions_type :: ty where
  "actions_type = ListOf (DictOf Anything)"

definition incident_summary_model :: ty where
  "incident_summary_model = Model
    [required ''incident_id'' Text, required ''status'' Text, required ''phase'' Text, required ''alert_name'' Text,
     required ''service'' Text, required ''namespace'' Text, required ''severity'' Text, required ''started_at'' Text,
     required ''requires_human_approval'' Flag, required ''approval_granted'' (Nullable Flag),
     required ''tokens_used'' Whole, optional ''prompt_tokens'' Whole, optional ''completion_tokens'' Whole,
     required ''cost_usd'' Number, optional ''estimated_paid_cost_usd'' Number, optional ''model_usage'' usage_type,
     required ''wall_clock_seconds'' Number, required ''active_seconds'' Number, required ''backoff_seconds'' Number,
     optional ''approval_wait_seconds'' Number, required ''iterations'' Whole,
     optional ''proposed_actions'' actions_type, optional ''executed_actions'' actions_type]"

definition incident_list_response :: ty where
  "incident_list_response = Model [required ''items'' (ListOf incident_summary_model), required ''total'' Whole]"

definition incident_report_response :: ty where
  "incident_report_response = Model
    [required ''incident_id'' Text, required ''status'' Text, required ''phase'' Text, required ''alert_name'' Text,
     required ''service'' Text, required ''namespace'' Text, required ''severity'' Text, required ''started_at'' Text,
     optional ''hypotheses'' actions_type, optional ''proposed_actions'' actions_type,
     optional ''executed_actions'' actions_type,
     required ''tokens_used'' Whole, optional ''prompt_tokens'' Whole, optional ''completion_tokens'' Whole,
     required ''cost_usd'' Number, optional ''estimated_paid_cost_usd'' Number, optional ''model_usage'' usage_type,
     required ''wall_clock_seconds'' Number, required ''active_seconds'' Number, required ''backoff_seconds'' Number,
     optional ''approval_wait_seconds'' Number, required ''iterations'' Whole,
     required ''requires_human_approval'' Flag, required ''approval_granted'' (Nullable Flag)]"

definition metrics_summary_model :: ty where
  "metrics_summary_model = Model
    [required ''total_incidents'' Whole, required ''resolved_count'' Whole, required ''awaiting_approval_count'' Whole,
     required ''failed_count'' Whole, required ''no_action_count'' Whole, required ''avg_mttr_seconds'' Number,
     required ''avg_wall_clock_seconds'' Number, required ''avg_backoff_seconds'' Number,
     required ''baseline_mttr_seconds'' Number, required ''mttr_reduction_pct'' Number,
     required ''total_cost_usd'' Number, optional ''total_estimated_paid_cost_usd'' Number,
     required ''total_tokens'' Whole, optional ''total_prompt_tokens'' Whole, optional ''total_completion_tokens'' Whole,
     optional ''model_usage_summary'' usage_type, required ''safety_violations'' Whole,
     required ''incidents_by_category'' (DictOf Whole)]"

definition metric_bucket_model :: ty where
  "metric_bucket_model = Model
    [required ''timestamp'' Text, required ''incidents'' Whole, required ''resolved'' Whole,
     required ''no_action'' Whole, required ''failed'' Whole, required ''avg_mttr_seconds'' Number,
     required ''total_cost_usd'' Number, optional ''total_estimated_paid_cost_usd'' Number,
     required ''total_tokens'' Whole, optional ''total_prompt_tokens'' Whole, optional ''total_completion_tokens'' Whole]"

definition metrics_timeseries_response :: ty where
  "metrics_timeseries_response = Model [required ''buckets'' (ListOf metric_bucket_model), required ''range'' Text]"

definition expensive_incident_model :: ty where
  "expensive_incident_model = Model
    [required ''incident_id'' Text, required ''alert_name'' Text, required ''service'' Text, required ''cost_usd'' Number,
     optional ''estimated_paid_cost_usd'' Number, optional ''tokens_used'' Whole, required ''wall_clock_seconds'' Number,
     required ''status'' Text]"

section \<open>Every query answers with its model\<close>

lemma usage_conforms: "conforms usage_type (usage_dict u)"
  by (auto simp: usage_type_def usage_dict_def list_all_iff)

lemma dict_list_conforms: "dict_list xs = Inr v \<Longrightarrow> conforms actions_type v"
  by (auto simp: dict_list_def actions_type_def list_all_iff split: if_splits pyval.splits)

lemma count_fields_res:
  "map_res (\<lambda>(out, key). bind_res (metric_int (dget_or vs key (PInt 0))) (\<lambda>i. Inr (out, PInt i))) count_fields = Inr counts
   \<Longrightarrow> \<exists>a b c d. counts = [(''tokens_used'', PInt a), (''prompt_tokens'', PInt b), (''completion_tokens'', PInt c),
         (''iterations'', PInt d)]"
  by (auto simp: count_fields_def bind_res_Inr_iff)

text \<open>The fields a summary and a report share, completed by those of either.\<close>

lemma common_fields_shape:
  assumes "common_fields M i vs = Inr shared"
  obtains st ph rq usage proposed executed texts a b c d nums where
    "shared = [(''incident_id'', PStr i), (''status'', PStr st), (''phase'', PStr ph),
       (''requires_human_approval'', PBool rq), (''model_usage'', usage), (''proposed_actions'', proposed),
       (''executed_actions'', executed)] @ map (\<lambda>k. (k, PStr (texts k))) text_fields
       @ [(''tokens_used'', PInt a), (''prompt_tokens'', PInt b), (''completion_tokens'', PInt c), (''iterations'', PInt d)]
       @ map (\<lambda>k. (k, PFloat (nums k))) number_fields"
    "conforms usage_type usage" "conforms actions_type proposed" "conforms actions_type executed"
proof -
  from assms obtain counts u p e where *:
    "map_res (\<lambda>(out, key). bind_res (metric_int (dget_or vs key (PInt 0))) (\<lambda>i. Inr (out, PInt i))) count_fields = Inr counts"
    "dict_list (list_at vs ''proposed_actions'') = Inr p" "dict_list (list_at vs ''executed_actions'') = Inr e"
    "[(''incident_id'', PStr i), (''status'', PStr (status_of M vs)),
           (''phase'', PStr (metric_str M (dget_or vs ''current_phase'' (PStr ''unknown'')))),
           (''requires_human_approval'', PBool (truthy (dget_or vs ''requires_human_approval'' (PBool False)))),
           (''model_usage'', usage_dict u), (''proposed_actions'', p), (''executed_actions'', e)]
          @ map (\<lambda>k. (k, PStr (metric_str M (dget_or (dict_at vs ''incident_metadata'') k (PStr []))))) text_fields
          @ counts
          @ map (\<lambda>k. (k, PFloat (metric_float (dget_or vs k (PFloat (Fin 0)))))) number_fields = shared"
    unfolding common_fields_def bind_res_Inr_iff sum.inject by blast
  from count_fields_res [OF *(1)] obtain a b c d where "counts = [(''tokens_used'', PInt a),
      (''prompt_tokens'', PInt b), (''completion_tokens'', PInt c), (''iterations'', PInt d)]" by blast
  then show thesis
    using *(4) [symmetric] usage_conforms dict_list_conforms [OF *(2)] dict_list_conforms [OF *(3)]
    by (intro that [of "status_of M vs" "metric_str M (dget_or vs ''current_phase'' (PStr ''unknown''))"
          "truthy (dget_or vs ''requires_human_approval'' (PBool False))" "usage_dict u" p e
          "\<lambda>k. metric_str M (dget_or (dict_at vs ''incident_metadata'') k (PStr []))" a b c d
          "\<lambda>k. metric_float (dget_or vs k (PFloat (Fin 0)))"]) simp_all
qed

lemma summary_conforms: "extract_summary M i vs = Inr d \<Longrightarrow> conforms incident_summary_model (PDict d)"
  unfolding extract_summary_def bind_res_Inr_iff
  by (elim exE conjE, erule common_fields_shape)
    (clarsimp simp: incident_summary_model_def text_fields_def number_fields_def dkeys_def split: pyval.split)

lemma granted_conforms:
  "(case x of PNone \<Rightarrow> Inr PNone | v \<Rightarrow> bind_res (ml_bool M v) (\<lambda>b. Inr (PBool b))) = Inr w \<Longrightarrow> conforms (Nullable Flag) w"
  by (auto simp: bind_res_Inr_iff split: pyval.splits)

lemma report_conforms:
  assumes "get_incident_report M i st = Inr d"
  shows "conforms incident_report_response (PDict d)"
proof -
  from assms obtain x where "(if x = PNone \<or> state_values x = []
       then Inl (HTTPException 404 (''Incident '' @ i @ '' not found''))
       else raised
         (let vs = state_values x
          in bind_res (common_fields M i vs) (\<lambda>fields.
             bind_res (dict_list (list_at vs ''hypotheses'')) (\<lambda>hypotheses.
             bind_res (case value_at vs ''approval_granted'' of
                         PNone \<Rightarrow> Inr PNone
                       | v \<Rightarrow> bind_res (ml_bool M v) (\<lambda>b. Inr (PBool b))) (\<lambda>granted.
             Inr (fields @ [(''hypotheses'', hypotheses), (''approval_granted'', granted)])))))) = Inr d"
    unfolding get_incident_report_def bind_res_Inr_iff by blast
  then obtain shared hs g where *: "common_fields M i (state_values x) = Inr shared"
      "dict_list (list_at (state_values x) ''hypotheses'') = Inr hs"
      "(case value_at (state_values x) ''approval_granted'' of
          PNone \<Rightarrow> Inr PNone | v \<Rightarrow> bind_res (ml_bool M v) (\<lambda>b. Inr (PBool b))) = Inr g"
      "shared @ [(''hypotheses'', hs), (''approval_granted'', g)] = d"
    unfolding Let_def raised_Inr_iff
    by (simp split: if_split_asm) (unfold bind_res_Inr_iff sum.inject, blast)
  show ?thesis
    by (rule common_fields_shape [OF *(1)])
      (use dict_list_conforms [OF *(2)] granted_conforms [OF *(3)] in \<open>simp add: *(4) [symmetric] incident_report_response_def text_fields_def number_fields_def dkeys_def\<close>)
qed

declare as_500_Inr [simp]

lemma summaries_conform:
  "map_res (\<lambda>(i, vs). extract_summary M i vs) xs = Inr ds \<Longrightarrow> list_all (\<lambda>d. conforms incident_summary_model (PDict d)) ds"
  by (erule map_res_all) (auto dest: summary_conforms)

lemma list_all_filter: "list_all Q xs \<Longrightarrow> list_all Q (filter P xs)"
  by (auto simp: list_all_iff)

lemma list_incidents_conforms:
  assumes "list_incidents M f states = Inr d"
  shows "conforms incident_list_response (PDict d)"
proof -
  from assms obtain xs ds items where ds: "map_res (\<lambda>(i, vs). extract_summary M i vs) xs = Inr ds"
    and items: "items = ds \<or> (\<exists>P. items = filter P ds)"
    and d: "d = [(''items'', PList (map PDict items)), (''total'', PInt (int (length items)))]"
    unfolding list_incidents_def as_500_Inr bind_res_Inr_iff
    by (cases f; cases "the f") (auto simp: Let_def)
  from items summaries_conform [OF ds]
  have "list_all (\<lambda>d. conforms incident_summary_model (PDict d)) items"
    by (auto intro: list_all_filter)
  then show ?thesis
    by (simp add: d incident_list_response_def dkeys_def list.pred_map comp_def)
qed

lemma categories_conform: "conforms (DictOf Whole) (PDict (map (\<lambda>(k, c). (k, PInt (int c))) d))"
  by (auto simp: list_all_iff)

lemma get_metrics_summary_conforms:
  "get_metrics_summary M states = Inr d \<Longrightarrow> conforms metrics_summary_model (PDict d)"
  unfolding get_metrics_summary_def as_500_Inr bind_res_Inr_iff
  by (elim exE conjE)
    (clarsimp simp: summary_response_def metrics_summary_model_def Let_def dkeys_def usage_conforms categories_conform
      simp del: conforms.simps(8))

lemma metric_bucket_conforms: "metric_bucket M b sl = Inr d \<Longrightarrow> conforms metric_bucket_model (PDict d)"
  by (auto simp: metric_bucket_def metric_bucket_model_def bind_res_Inr_iff dkeys_def)

lemma get_metrics_timeseries_conforms:
  assumes "get_metrics_timeseries M r states = Inr d"
  shows "conforms metrics_timeseries_response (PDict d)"
proof -
  from assms obtain f bs items where "map_res (\<lambda>b. metric_bucket M b (f b)) bs = Inr items"
      "d = [(''buckets'', PList (map PDict items)), (''range'', PStr r)]"
    unfolding get_metrics_timeseries_def as_500_Inr bind_res_Inr_iff
    by (auto simp: bind_res_Inr_iff split: option.splits)
  then show ?thesis
    using map_res_all [of "\<lambda>b. metric_bucket M b (f b)" bs items "\<lambda>d. conforms metric_bucket_model (PDict d)"]
    by (simp add: metrics_timeseries_response_def dkeys_def list.pred_map comp_def metric_bucket_conforms)
qed

lemma expensive_incident_conforms:
  "expensive_incident M i vs = Inr (c, d) \<Longrightarrow> conforms expensive_incident_model (PDict d)"
  by (auto simp: expensive_incident_def expensive_incident_model_def bind_res_Inr_iff dkeys_def Let_def)

lemma set_sort_expensive: "set (sort_expensive xs) = set xs"
proof -
  have "set (insert_expensive x ys) = insert x (set ys)" for x ys
    by (induction x ys rule: insert_expensive.induct) auto
  then show ?thesis by (induction xs) (auto simp: sort_expensive_def)
qed

lemma get_top_expensive_conforms:
  assumes "get_top_expensive M n states = Inr ds"
  shows "list_all (\<lambda>d. conforms expensive_incident_model (PDict d)) ds"
proof -
  from assms obtain xs es where es: "map_res (\<lambda>(i, vs). expensive_incident M i vs) xs = Inr es"
      "ds = take n (map snd (sort_expensive es))"
    unfolding get_top_expensive_def as_500_Inr bind_res_Inr_iff by auto
  have "list_all (\<lambda>e. conforms expensive_incident_model (PDict (snd e))) es"
    by (rule map_res_all [OF es(1)]) (auto dest: expensive_incident_conforms)
  then show ?thesis
    unfolding es(2) list_all_iff by (auto simp: set_sort_expensive dest!: in_set_takeD)
qed

text \<open>the console gets what the API declares. Whatever states the checkpointer holds, each of the five queries
  that answers at all answers with an instance of the response model of its route: the incident
  list, the report, the summary, the time buckets and the most expensive incidents.\<close>

lemma responses_conform:
  "(list_incidents M f states = Inr d \<longrightarrow> conforms incident_list_response (PDict d)) \<and>
   (get_incident_report M i st = Inr d \<longrightarrow> conforms incident_report_response (PDict d)) \<and>
   (get_metrics_summary M states = Inr d \<longrightarrow> conforms metrics_summary_model (PDict d)) \<and>
   (get_metrics_timeseries M r states = Inr d \<longrightarrow> conforms metrics_timeseries_response (PDict d)) \<and>
   (get_top_expensive M n states = Inr ds \<longrightarrow> list_all (\<lambda>d. conforms expensive_incident_model (PDict d)) ds)"
  using list_incidents_conforms report_conforms get_metrics_summary_conforms get_metrics_timeseries_conforms
    get_top_expensive_conforms by blast

lemma responses_conform_witness:
  "\<exists>d. get_metrics_timeseries demo_metrics ''24h'' (Inr demo_states) = Inr d \<and>
     conforms metrics_timeseries_response (PDict d) \<and> d \<noteq> []"
proof -
  have "(case get_metrics_timeseries demo_metrics ''24h'' (Inr demo_states) of Inl _ \<Rightarrow> False | Inr d \<Rightarrow> d \<noteq> [])"
    by code_simp
  then obtain d where "get_metrics_timeseries demo_metrics ''24h'' (Inr demo_states) = Inr d" "d \<noteq> []"
    by (auto split: sum.splits)
  with responses_conform [of demo_metrics None "Inr demo_states" d "[]" "Inr PNone" "''24h''" 0 "[]"]
  show ?thesis by blast
qed

end
