(* ===== verification/Gateway.thy ===== *)
theory Gateway
  imports Webhook Json
begin

text \<open>
  The gate in front of the API: the shared-key middleware and the injection of the key into the
  page, \<^verbatim>\<open>api/middleware.py\<close>, and the paths kept from the single-page fallback and the CORS
  origins, \<^verbatim>\<open>api/main.py\<close>. A text is a list of code points up to 255, stripped of the ASCII white space, and \<open>json.dumps\<close> of a text is
  written out. The environment is an argument.
\<close>

section \<open>The shared key\<close>

definition public_paths :: "string list" where
  "public_paths = [''/healthz'', ''/readyz'', ''/docs'', ''/redoc'', ''/openapi.json'']"

definition exempt_prefixes :: "string list" where
  "exempt_prefixes = [''/alerts'', ''/admin'']"

definition is_protected :: "string \<Rightarrow> string \<Rightarrow> bool" where
  "is_protected path meth =
     (if meth = ''OPTIONS'' then False
      else if path \<in> set public_paths then False
      else if list_ex (str_startswith path) exempt_prefixes then False
      else let effective = (if meth = ''HEAD'' then ''GET'' else meth)
           in if path = ''/api/sign-approval'' then effective = ''POST''
              else if path = ''/incidents'' then effective = ''GET''
              else if str_startswith path ''/incidents/'' \<and> str_endswith path ''/report'' then effective = ''GET''
              else if str_startswith path ''/metrics/'' then effective = ''GET''
              else False)"

record asgi_scope =
  ag_type :: string
  ag_path :: string
  ag_method :: string
  ag_headers :: "(string, string) dict"

text \<open>The argument wins over the environment, also when it is empty.\<close>

definition configured_key :: "string option \<Rightarrow> string \<Rightarrow> string" where
  "configured_key api_key env = str_strip (case api_key of Some k \<Rightarrow> k | None \<Rightarrow> env)"

datatype gate_answer = Forwarded | Refused int string "(string \<times> string) list"

text \<open>Header names arrive in lower case.\<close>

definition api_key_gate :: "string \<Rightarrow> asgi_scope \<Rightarrow> gate_answer" where
  "api_key_gate key scope =
     (if ag_type scope \<noteq> ''http'' \<or> key = [] then Forwarded
      else if \<not> is_protected (ag_path scope) (str_upper (ag_method scope)) then Forwarded
      else let provided = dget_or (ag_headers scope) ''x-api-key'' []
           in if provided \<noteq> [] \<and> provided = key then Forwarded
              else Refused 401 ''Invalid or missing API key'' [(''WWW-Authenticate'', ''ApiKey'')])"

section \<open>The page\<close>

text \<open>The replacement of one character by a text.\<close>

definition replace_char :: "char \<Rightarrow> string \<Rightarrow> string \<Rightarrow> string" where
  "replace_char c r s = concat (map (\<lambda>x. if x = c then r else [x]) s)"

definition safe_literal :: "string \<Rightarrow> string" where
  "safe_literal key =
     replace_char (CHR ''&'') (CHR 0x5C # ''u0026'')
       (replace_char (CHR ''>'') (CHR 0x5C # ''u003e'')
         (replace_char (CHR ''<'') (CHR 0x5C # ''u003c'') (json_text key)))"

definition key_script :: "string \<Rightarrow> string" where
  "key_script key = ''<script>'' @ ''window.__AUTOSRE_API_KEY__='' @ safe_literal key @ '';'' @ ''</script>''"

text \<open>The text before the first occurrence of a non-empty text and the text from there on.\<close>

fun split_before :: "(string \<Rightarrow> bool) \<Rightarrow> string \<Rightarrow> (string \<times> string) option" where
  "split_before P [] = None"
| "split_before P (c # cs) =
     (if P (c # cs) then Some ([], c # cs) else map_option (\<lambda>(a, b). (c # a, b)) (split_before P cs))"

definition is_word_char :: "char \<Rightarrow> bool" where
  "is_word_char c =
     (let n = (of_char c :: nat)
      in (48 \<le> n \<and> n \<le> 57) \<or> (65 \<le> n \<and> n \<le> 90) \<or> (97 \<le> n \<and> n \<le> 122) \<or> n = 95 \<or>
         n \<in> {170, 178, 179, 181, 185, 186, 188, 189, 190} \<or> (192 \<le> n \<and> n \<noteq> 215 \<and> n \<noteq> 247))"

text \<open>\<open><head\b[^>]*>\<close> at the start of a text, in any case of letters.\<close>

definition head_tag :: "string \<Rightarrow> bool" where
  "head_tag s \<longleftrightarrow>
     str_startswith (str_lower s) ''<head'' \<and> drop 5 s \<noteq> [] \<and> \<not> is_word_char (s ! 5) \<and> CHR ''>'' \<in> set (drop 5 s)"

definition render_index_with_key :: "string \<Rightarrow> string \<Rightarrow> string" where
  "render_index_with_key index_html key =
     (if key = [] then index_html
      else case split_before (\<lambda>s. str_startswith s ''</head>'') index_html of
             Some (before, rest) \<Rightarrow> before @ key_script key @ rest
           | None \<Rightarrow>
               (case split_before head_tag index_html of
                  None \<Rightarrow> index_html
                | Some (before, rest) \<Rightarrow>
                    (let tag = takeWhile (\<lambda>c. c \<noteq> CHR ''>'') rest @ ''>''
                     in before @ tag @ key_script key @ drop (length tag) rest)))"

section \<open>Paths and origins\<close>

definition reserved_prefixes :: "string list" where
  "reserved_prefixes = [''healthz'', ''readyz'', ''alerts'', ''incidents'', ''metrics'', ''admin'', ''api/'',
     ''docs'', ''openapi.json'', ''redoc'']"

definition is_reserved_path :: "string \<Rightarrow> bool" where
  "is_reserved_path full_path =
     (if full_path = [] then False
      else if full_path = ''incidents'' then True
      else if str_startswith full_path ''incidents/'' then length (split_at (CHR ''/'') (drop 10 full_path)) \<noteq> 1
      else list_ex (\<lambda>p. p \<noteq> ''incidents'' \<and>
             (full_path = p \<or> str_startswith full_path (p @ ''/'') \<or>
              (str_endswith p ''/'' \<and> str_startswith full_path p))) reserved_prefixes)"

text \<open>The fallback answers a GET of any path no route took; \<open>key\<close> is the environment's.\<close>

definition spa_fallback :: "string \<Rightarrow> string \<Rightarrow> string \<Rightarrow> http_error + string" where
  "spa_fallback index_html env full_path =
     (if is_reserved_path full_path then Inl (HTTPException 404 ''Not found'')
      else Inr (render_index_with_key index_html (configured_key None env)))"

text \<open>The page that is served: the one of the container when it is complete, else that of the project, when there
  is one. \<open>is_dir\<close> and \<open>is_file\<close> are the file system's answers.\<close>

record spa_mount =
  sp_index :: string
  sp_assets :: bool
  sp_favicon :: bool

definition mount_spa :: "(string \<Rightarrow> bool) \<Rightarrow> (string \<Rightarrow> bool) \<Rightarrow> string \<Rightarrow> spa_mount option" where
  "mount_spa is_dir is_file project_root =
     (let container = ''/app/ui/dist'';
          ui_dist = (if is_dir container \<and> is_file (container @ ''/index.html'') then container
                     else project_root @ ''/ui/dist'')
      in if \<not> is_dir ui_dist then None
         else if \<not> is_file (ui_dist @ ''/index.html'') then None
         else Some \<lparr>sp_index = ui_dist @ ''/index.html'', sp_assets = is_dir (ui_dist @ ''/assets''),
                    sp_favicon = is_file (ui_dist @ ''/autosre-favicon.png'')\<rparr>)"

text \<open>A page without a key is sent as the file, one with the key as text.\<close>

datatype served = HtmlPage string | FileAt string

definition serve_page :: "spa_mount \<Rightarrow> (string \<Rightarrow> string) \<Rightarrow> string \<Rightarrow> string \<Rightarrow> http_error + served" where
  "serve_page M contents env full_path =
     bind_res (spa_fallback (contents (sp_index M)) env full_path) (\<lambda>page.
       Inr (if page \<noteq> contents (sp_index M) then HtmlPage page else FileAt (sp_index M)))"

lemma serve_page_content:
  "map_sum id (\<lambda>r. case r of HtmlPage page \<Rightarrow> page | FileAt f \<Rightarrow> contents f) (serve_page M contents env p) =
   spa_fallback (contents (sp_index M)) env p"
  by (simp add: serve_page_def bind_res_def split: sum.split)

lemma mount_spa_complete: "mount_spa is_dir is_file d = Some M \<Longrightarrow> is_file (sp_index M)"
  by (auto simp: mount_spa_def Let_def split: if_splits)

definition default_cors_origins :: "string list" where
  "default_cors_origins = [''http://localhost:5173'', ''http://127.0.0.1:5173'']"

definition resolve_cors_origins :: "string \<Rightarrow> string list" where
  "resolve_cors_origins env =
     (if str_strip env = [] then default_cors_origins
      else let origins = filter (\<lambda>x. x \<noteq> ''*'')
                 (filter (\<lambda>x. x \<noteq> []) (map str_strip (split_at (CHR '','') (str_strip env))))
           in if origins = [] then default_cors_origins else origins)"

text \<open>The declared routes, for an incident, with the scheme that guards each.\<close>

datatype guard = Public | SharedKey | Signature | AdminSecret

definition fixed_routes :: "(string \<times> string \<times> guard) list" where
  "fixed_routes =
     [(''GET'', ''/healthz'', Public), (''GET'', ''/readyz'', Public),
      (''POST'', ''/admin/pause'', AdminSecret), (''POST'', ''/admin/resume'', AdminSecret),
      (''GET'', ''/admin/status'', AdminSecret), (''POST'', ''/api/sign-approval'', SharedKey),
      (''POST'', ''/alerts'', Signature), (''GET'', ''/incidents'', SharedKey),
      (''GET'', ''/metrics/summary'', SharedKey), (''GET'', ''/metrics/timeseries'', SharedKey),
      (''GET'', ''/metrics/top-expensive'', SharedKey)]"

definition api_routes :: "string \<Rightarrow> (string \<times> string \<times> guard) list" where
  "api_routes i = fixed_routes @
     [(''POST'', ''/incidents/'' @ i @ ''/approve'', Signature), (''GET'', ''/incidents/'' @ i @ ''/report'', SharedKey)]"

section \<open>The gate and the routes\<close>

text \<open>A path that ends in \<open>/report\<close> below \<open>/incidents/\<close>: the rest has a slash or is \<open>report\<close>.\<close>

lemma report_rest:
  assumes "suffix ''/report'' (''/incidents/'' @ r)"
  shows "CHR ''/'' \<in> set r \<or> r = ''report''"
proof (cases "suffix ''/report'' r")
  case True
  then show ?thesis by (auto simp: suffix_def)
next
  case False
  with assms obtain xs where xs: "''/report'' = xs @ r" "suffix xs ''/incidents/''"
    using iffD1 [OF suffix_append assms] by blast
  have "xs \<in> set (prefixes ''/report'')" using xs(1) by simp
  moreover have "list_all (\<lambda>xs. suffix xs ''/incidents/'' \<longrightarrow> xs = [] \<or> xs = ''/'') (prefixes ''/report'')"
    by code_simp
  ultimately have "xs = [] \<or> xs = ''/''" using xs(2) by (auto simp: list_all_iff)
  with xs(1) show ?thesis by auto
qed

lemma startswith_Cons [simp]: "str_startswith (c # s) (d # p) \<longleftrightarrow> c = d \<and> str_startswith s p"
  by (auto simp: str_startswith_def)

lemma startswith_Nil [simp]: "str_startswith s []"
  by (simp add: str_startswith_def)

text \<open>The key protects reading incidents, reports and metrics, and the signing of approvals.\<close>

lemma is_protected_cases:
  assumes "is_protected path meth"
  obtains "path = ''/api/sign-approval''" | "path = ''/incidents''"
    | "str_startswith path ''/incidents/''" "str_endswith path ''/report''" | "str_startswith path ''/metrics/''"
  using assms by (auto simp: is_protected_def Let_def split: if_splits)

lemma protected_is_reserved:
  assumes "is_protected (CHR ''/'' # p) meth"
  shows "is_reserved_path p \<or> p = ''incidents/report''"
  using assms
proof (cases rule: is_protected_cases)
  case 1
  then have "p = ''api/sign-approval''" by simp
  moreover have "is_reserved_path ''api/sign-approval''" by code_simp
  ultimately show ?thesis by simp
next
  case 2
  then show ?thesis by (simp add: is_reserved_path_def)
next
  case 3
  then obtain r where p: "p = ''incidents/'' @ r" by (auto simp: str_startswith_def prefix_def)
  with 3(2) have "CHR ''/'' \<in> set r \<or> r = ''report''"
    using report_rest [of r] by (simp add: str_endswith_def)
  then show ?thesis
    by (auto simp: p is_reserved_path_def length_split_at filter_empty_conv)
next
  case 4
  then obtain r where p: "p = ''metrics/'' @ r" by (auto simp: str_startswith_def prefix_def)
  show ?thesis by (simp add: p is_reserved_path_def reserved_prefixes_def)
qed

text \<open>A page the fallback serves is behind no key, whatever the path and the method.\<close>

lemma spa_unprotected:
  assumes "spa_fallback index_html env p = Inr page" "p \<noteq> ''incidents/report''"
  shows "api_key_gate key \<lparr>ag_type = ''http'', ag_path = CHR ''/'' # p, ag_method = meth, ag_headers = hs\<rparr> = Forwarded"
  using assms protected_is_reserved [of p "str_upper meth"]
  by (auto simp: spa_fallback_def api_key_gate_def split: if_splits)

lemma approve_not_report: "\<not> suffix ''/report'' (''/incidents/'' @ i @ ''/approve'')"
  by (auto simp: suffix_def)

lemma fixed_routes_guarded:
  "list_all (\<lambda>(meth, path, g). is_protected path (str_upper meth) = (g = SharedKey) \<and> is_reserved_path (tl path)) fixed_routes"
  by code_simp

lemma incident_routes_guarded:
  "\<not> is_protected (''/incidents/'' @ i @ ''/approve'') (str_upper ''POST'')"
  "is_protected (''/incidents/'' @ i @ ''/report'') (str_upper ''GET'')"
  "is_reserved_path (tl (''/incidents/'' @ i @ ''/approve''))" "is_reserved_path (tl (''/incidents/'' @ i @ ''/report''))"
proof -
  have upper: "str_upper ''GET'' = ''GET''" "str_upper ''POST'' = ''POST''" by code_simp+
  show "\<not> is_protected (''/incidents/'' @ i @ ''/approve'') (str_upper ''POST'')"
    using approve_not_report [of i] by (auto elim!: is_protected_cases simp: str_endswith_def)
  show "is_protected (''/incidents/'' @ i @ ''/report'') (str_upper ''GET'')"
    unfolding upper is_protected_def Let_def
    by (simp add: public_paths_def exempt_prefixes_def str_endswith_def suffix_append suffix_Cons)
  show "is_reserved_path (tl (''/incidents/'' @ i @ ''/approve''))" "is_reserved_path (tl (''/incidents/'' @ i @ ''/report''))"
    by (simp_all add: is_reserved_path_def length_split_at)
qed

text \<open>C31: The shared key guards exactly the routes it should. Of the declared routes, for any incident id, a request in the route's method reaches the application without the configured key exactly when the route is public or has its own scheme; no declared route is served by the page fallback; and a page the fallback does serve needs no key, whatever the path, with one exception.\<close>

theorem shared_key_routes:
  assumes "key \<noteq> []"
  shows "(\<forall>(meth, path, g)\<in>set (api_routes i).
      (api_key_gate key \<lparr>ag_type = ''http'', ag_path = path, ag_method = meth, ag_headers = hs\<rparr> = Forwarded \<longleftrightarrow>
         g \<noteq> SharedKey \<or> dget hs ''x-api-key'' = Some key)
      \<and> spa_fallback index_html env (tl path) = Inl (HTTPException 404 ''Not found''))
    \<and> (\<forall>p page. spa_fallback index_html env p = Inr page \<and> p \<noteq> ''incidents/report'' \<longrightarrow>
      api_key_gate key \<lparr>ag_type = ''http'', ag_path = CHR ''/'' # p, ag_method = meth, ag_headers = hs\<rparr> = Forwarded)"
proof (intro conjI)
  have protected: "is_protected path (str_upper meth) \<longleftrightarrow> g = SharedKey" and reserved: "is_reserved_path (tl path)"
    if "(meth, path, g) \<in> set (api_routes i)" for meth path g
    using that fixed_routes_guarded incident_routes_guarded [of i]
    by (auto simp: api_routes_def list_all_iff)
  have key: "dget_or hs ''x-api-key'' [] \<noteq> [] \<and> dget_or hs ''x-api-key'' [] = key \<longleftrightarrow> dget hs ''x-api-key'' = Some key"
    using assms by (auto simp: dget_or_dget split: option.splits)
  show "\<forall>(meth, path, g)\<in>set (api_routes i).
      (api_key_gate key \<lparr>ag_type = ''http'', ag_path = path, ag_method = meth, ag_headers = hs\<rparr> = Forwarded \<longleftrightarrow>
         g \<noteq> SharedKey \<or> dget hs ''x-api-key'' = Some key)
      \<and> spa_fallback index_html env (tl path) = Inl (HTTPException 404 ''Not found'')"
    using protected reserved key assms by (auto simp: api_key_gate_def spa_fallback_def Let_def)
  show "\<forall>p page. spa_fallback index_html env p = Inr page \<and> p \<noteq> ''incidents/report'' \<longrightarrow>
      api_key_gate key \<lparr>ag_type = ''http'', ag_path = CHR ''/'' # p, ag_method = meth, ag_headers = hs\<rparr> = Forwarded"
    using spa_unprotected by blast
qed

lemma shared_key_routes_witness:
  "api_key_gate ''k'' \<lparr>ag_type = ''http'', ag_path = ''/metrics/summary'', ag_method = ''GET'', ag_headers = []\<rparr> \<noteq> Forwarded \<and>
   api_key_gate ''k'' \<lparr>ag_type = ''http'', ag_path = ''/metrics/summary'', ag_method = ''GET'',
     ag_headers = [(''x-api-key'', ''k'')]\<rparr> = Forwarded"
proof -
  have "(''GET'', ''/metrics/summary'', SharedKey) \<in> set (api_routes [])"
    by (simp add: api_routes_def fixed_routes_def)
  with shared_key_routes [of "''k''" "[]" "[]"] shared_key_routes [of "''k''" "[]" "[(''x-api-key'', ''k'')]"]
  show ?thesis by fastforce
qed

section \<open>The key in the page\<close>

definition safe_char :: "char \<Rightarrow> string" where
  "safe_char c =
     replace_char (CHR ''&'') (CHR 0x5C # ''u0026'')
       (replace_char (CHR ''>'') (CHR 0x5C # ''u003e'') (replace_char (CHR ''<'') (CHR 0x5C # ''u003c'') (json_char c)))"

lemma replace_char_append: "replace_char c r (s @ t) = replace_char c r s @ replace_char c r t"
  by (simp add: replace_char_def)

lemma safe_literal_chars: "safe_literal key = CHR 0x22 # concat (map safe_char key) @ [CHR 0x22]"
proof -
  have chars: "replace_char c r (concat (map f s)) = concat (map (\<lambda>x. replace_char c r (f x)) s)" for c r f s
    by (induction s) (simp_all add: replace_char_append, simp add: replace_char_def)
  have quote: "replace_char c r (CHR 0x22 # s @ [CHR 0x22]) = CHR 0x22 # replace_char c r s @ [CHR 0x22]"
    if "c \<noteq> CHR 0x22" for c r s
    using that by (simp add: replace_char_def)
  show ?thesis
    by (simp add: safe_literal_def json_text_def quote chars safe_char_def [abs_def])
qed

definition safely_read :: "char \<Rightarrow> bool" where
  "safely_read c \<longleftrightarrow> read_one (safe_char c) = Some (c, []) \<and> safe_char c \<noteq> [] \<and> hd (safe_char c) \<noteq> CHR 0x22 \<and>
     list_all (\<lambda>x. x \<noteq> CHR ''<'' \<and> x \<noteq> CHR ''>'' \<and> x \<noteq> CHR ''&'') (safe_char c)"

lemma special_chars:
  "safe_char (CHR ''<'') = CHR 0x5C # ''u003c''"
  "safe_char (CHR ''>'') = CHR 0x5C # ''u003e''"
  "safe_char (CHR ''&'') = CHR 0x5C # ''u0026''"
  "safe_char (CHR 0x22) = [CHR 0x5C, CHR 0x22]"
  "safe_char (CHR 0x5C) = [CHR 0x5C, CHR 0x5C]"
  "safe_char (CHR 0x0A) = CHR 0x5C # ''n''"
  "safe_char (CHR 0x0D) = CHR 0x5C # ''r''"
  "safe_char (CHR 0x09) = CHR 0x5C # ''t''"
  "safe_char (CHR 0x0C) = CHR 0x5C # ''f''"
  "safe_char (CHR 0x08) = CHR 0x5C # ''b''"
  by (simp_all add: safe_char_def json_char_def replace_char_def Let_def)

lemma special_safely_read:
  "safely_read (CHR ''<'')"
  "safely_read (CHR ''>'')"
  "safely_read (CHR ''&'')"
  "safely_read (CHR 0x22)"
  "safely_read (CHR 0x5C)"
  "safely_read (CHR 0x0A)"
  "safely_read (CHR 0x0D)"
  "safely_read (CHR 0x09)"
  "safely_read (CHR 0x0C)"
  "safely_read (CHR 0x08)"
  by (simp_all add: safely_read_def special_chars read_one_def read_hex_def hex_value_def char_codes Let_def flip: of_char_eq_iff [where 'a = nat])

lemma safely_read: "safely_read c"
proof -
  define n where "n = (of_char c :: nat)"
  have n: "n < 256" unfolding n_def by (rule nat_of_char_less_256)
  have c: "c = char_of n" by (simp add: n_def)
  consider "n \<in> {60, 62, 38, 34, 92, 10, 13, 9, 12, 8}"
    | "n \<notin> {60, 62, 38, 34, 92, 10, 13, 9, 12, 8}" "n < 32 \<or> 126 < n"
    | "n \<notin> {60, 62, 38, 34, 92, 10, 13, 9, 12, 8}" "\<not> (n < 32 \<or> 126 < n)"
    by blast
  then show ?thesis
  proof cases
    case 1
    then show ?thesis
      unfolding n_def by (auto simp flip: char_codes intro: special_safely_read)
  next
    case 2
    have half: "n div 16 < 16" using n by linarith
    define x where "x = hex_digit (n div 16)"
    define y where "y = hex_digit (n mod 16)"
    have x: "hex_value x = Some (n div 16)" "x \<noteq> CHR ''<'' \<and> x \<noteq> CHR ''>'' \<and> x \<noteq> CHR ''&''"
      and y: "hex_value y = Some (n mod 16)" "y \<noteq> CHR ''<'' \<and> y \<noteq> CHR ''>'' \<and> y \<noteq> CHR ''&''"
      using hex_digits [of "n div 16"] hex_digits [of "n mod 16"] half by (auto simp: char_codes x_def y_def)
    have j: "json_char c = [CHR 0x5C, CHR ''u'', CHR ''0'', CHR ''0'', x, y]"
      using 2 unfolding json_char_def Let_def n_def [symmetric] x_def y_def by simp
    have e: "safe_char c = [CHR 0x5C, CHR ''u'', CHR ''0'', CHR ''0'', x, y]"
      using x(2) y(2) by (simp add: safe_char_def j replace_char_def)
    show ?thesis
      using x y unfolding safely_read_def e by (simp add: c read_one_def read_hex_def)
  next
    case 3
    then have j: "json_char c = [c]" unfolding json_char_def Let_def n_def [symmetric] by simp
    have other: "c \<noteq> CHR ''<'' \<and> c \<noteq> CHR ''>'' \<and> c \<noteq> CHR ''&'' \<and> c \<noteq> CHR 0x22 \<and> c \<noteq> CHR 0x5C"
      using 3 by (auto simp: char_codes n_def)
    then have e: "safe_char c = [c]" by (simp add: safe_char_def j replace_char_def)
    show ?thesis
      using other 3 unfolding safely_read_def e by (simp add: n_def read_one_def)
  qed
qed

lemma read_safe_literal: "read_text (concat (map safe_char key) @ CHR 0x22 # t) = Some (key, t)"
proof (induction key)
  case Nil
  then show ?case by (simp add: read_text.simps)
next
  case (Cons c key)
  have "safe_char c \<noteq> []" "hd (safe_char c) \<noteq> CHR 0x22" and r: "read_one (safe_char c) = Some (c, [])"
    using safely_read [of c] by (simp_all add: safely_read_def)
  then show ?case
    using Cons read_one_append [OF r] by (subst read_text.simps) (simp add: hd_append)
qed

lemma safe_literal_chars_ok: "set (safe_literal key) \<inter> {CHR ''<'', CHR ''>'', CHR ''&''} = {}"
proof -
  have "x \<noteq> CHR ''<'' \<and> x \<noteq> CHR ''>'' \<and> x \<noteq> CHR ''&''" if "x \<in> set (safe_char c)" for x c
    using safely_read [of c] that by (auto simp: safely_read_def list_all_iff)
  then show ?thesis by (fastforce simp: safe_literal_chars)
qed

lemma split_before_Some:
  "split_before P s = Some (a, b) \<Longrightarrow> s = a @ b \<and> P b \<and> b \<noteq> []"
  by (induction s arbitrary: a) (auto split: if_splits)

lemma split_before_None: "split_before P s = None \<longleftrightarrow> (\<forall>a b. s = a @ b \<longrightarrow> b \<noteq> [] \<longrightarrow> \<not> P b)"
proof (induction s)
  case (Cons c s)
  show ?case
  proof (cases "P (c # s)")
    case False
    with Cons show ?thesis by (auto simp: Cons_eq_append_conv)
  qed auto
qed simp

text \<open>The page is unchanged or has the script put in at one place.\<close>

lemma render_splits:
  assumes "key \<noteq> []"
  shows "(render_index_with_key html key = html \<and> \<not> sublist ''</head>'' html) \<or>
    (\<exists>before after. html = before @ after \<and> render_index_with_key html key = before @ key_script key @ after)"
proof (cases "split_before (\<lambda>s. str_startswith s ''</head>'') html")
  case (Some p)
  then obtain before rest where "split_before (\<lambda>s. str_startswith s ''</head>'') html = Some (before, rest)" by (cases p) auto
  with split_before_Some [OF this] show ?thesis
    using assms by (intro disjI2 exI [of _ before] exI [of _ rest]) (simp add: render_index_with_key_def)
next
  case no_close: None
  show ?thesis
  proof (cases "split_before head_tag html")
    case None
    from no_close have "\<not> sublist ''</head>'' html"
      unfolding split_before_None sublist_def str_startswith_def prefix_def by (metis append_is_Nil_conv list.distinct(1))
    with None no_close assms show ?thesis by (simp add: render_index_with_key_def)
  next
    case (Some p)
    then obtain before rest where r: "split_before head_tag html = Some (before, rest)" by (cases p) auto
    define tag where "tag = takeWhile (\<lambda>c. c \<noteq> CHR ''>'') rest @ ''>''"
    have html: "html = before @ rest" "head_tag rest" using split_before_Some [OF r] by simp_all
    have "CHR ''>'' \<in> set rest" using html(2) by (auto simp: head_tag_def dest: in_set_dropD)
    then have "rest = tag @ drop (length tag) rest"
      unfolding tag_def by (induction rest) auto
    moreover have "render_index_with_key html key = before @ tag @ key_script key @ drop (length tag) rest"
      using r no_close assms by (simp add: render_index_with_key_def tag_def Let_def)
    ultimately show ?thesis
      using html(1) by (intro disjI2 exI [of _ "before @ tag"] exI [of _ "drop (length tag) rest"]) simp
  qed
qed

text \<open>C32: The key in the page cannot break out of its script, and the script reads back the key. For any page and any configured key, the page served either is the page unchanged, and then it has no closing head tag, or is the page with one script put in, whose body has no angle bracket and no ampersand and is an assignment of a literal that a JSON reader turns into exactly the key.\<close>

theorem key_literal_roundtrip:
  assumes "key \<noteq> []"
  shows "(render_index_with_key html key = html \<and> \<not> sublist ''</head>'' html) \<or>
    (\<exists>before after literal.
       html = before @ after \<and>
       render_index_with_key html key =
         before @ ''<script>'' @ ''window.__AUTOSRE_API_KEY__='' @ CHR 0x22 # literal @ ''</script>'' @ after \<and>
       set literal \<inter> {CHR ''<'', CHR ''>'', CHR ''&''} = {} \<and>
       read_text literal = Some (key, '';''))"
proof -
  define literal where "literal = tl (safe_literal key) @ '';''"
  have "key_script key = ''<script>'' @ ''window.__AUTOSRE_API_KEY__='' @ CHR 0x22 # literal @ ''</script>''"
    by (simp add: key_script_def literal_def safe_literal_chars)
  moreover have "set literal \<inter> {CHR ''<'', CHR ''>'', CHR ''&''} = {}"
    using safe_literal_chars_ok [of key] by (auto simp: literal_def safe_literal_chars)
  moreover have "read_text literal = Some (key, '';'')"
    using read_safe_literal [of key "'';''"] by (simp add: literal_def safe_literal_chars)
  ultimately show ?thesis using render_splits [OF assms, of html] by auto
qed

lemma key_literal_roundtrip_witness:
  "\<exists>before after literal. ''<head></head>'' = before @ after \<and>
     render_index_with_key ''<head></head>'' ''</script>'' =
       before @ ''<script>'' @ ''window.__AUTOSRE_API_KEY__='' @ CHR 0x22 # literal @ ''</script>'' @ after \<and>
     read_text literal = Some (''</script>'', '';'')"
proof -
  have "sublist ''</head>'' ''<head></head>''" by code_simp
  moreover have "''</script>'' \<noteq> []" by simp
  ultimately show ?thesis
    using key_literal_roundtrip [OF \<open>''</script>'' \<noteq> []\<close>, of "''<head></head>''"] by (elim disjE conjE exE) (rule notE, assumption+, intro exI conjI)
qed

section \<open>Origins\<close>

lemma cors_origins_usable:
  "resolve_cors_origins env \<noteq> [] \<and> ''*'' \<notin> set (resolve_cors_origins env) \<and> [] \<notin> set (resolve_cors_origins env)"
  by (auto simp: resolve_cors_origins_def default_cors_origins_def Let_def)

end
