(* ===== verification/Config.thy ===== *)
theory Config
  imports Router Handlers Cost
begin

text \<open>
  The settings, \<^verbatim>\<open>config.py\<close>: every section with its variables, defaults and bounds, read from an environment;
  the database URLs, the parsed headers, the synchronised environment name and the cached settings. A
  variable is looked up by its upper-case name; pydantic's conversion of its text to an integer, a
  float, a boolean or a list of texts is an argument. A text is its UTF-8 bytes; a secret is its text.
\<close>

record env_lib =
  el_int :: "string \<Rightarrow> exn + int"
  el_float :: "string \<Rightarrow> exn + rat"
  el_bool :: "string \<Rightarrow> exn + bool"
  el_texts :: "string \<Rightarrow> exn + string list"

type_synonym environment = "string \<Rightarrow> string option"

section \<open>Fields\<close>

definition parsed_field :: "(string \<Rightarrow> exn + 'a) \<Rightarrow> ('a \<Rightarrow> bool) \<Rightarrow> environment \<Rightarrow> string \<Rightarrow> 'a \<Rightarrow> exn + 'a" where
  "parsed_field parse ok env name d =
     (case env name of
        None \<Rightarrow> Inr d
      | Some t \<Rightarrow> bind_res (parse t) (\<lambda>x. if ok x then Inr x else Inl (ValidationError name)))"

definition int_field :: "env_lib \<Rightarrow> environment \<Rightarrow> string \<Rightarrow> int \<Rightarrow> int \<Rightarrow> int \<Rightarrow> exn + int" where
  "int_field L env name d lo hi = parsed_field (el_int L) (\<lambda>i. lo \<le> i \<and> i \<le> hi) env name d"

definition float_field :: "env_lib \<Rightarrow> environment \<Rightarrow> string \<Rightarrow> rat \<Rightarrow> rat \<Rightarrow> rat \<Rightarrow> exn + rat" where
  "float_field L env name d lo hi = parsed_field (el_float L) (\<lambda>x. lo \<le> x \<and> x \<le> hi) env name d"

definition text_or :: "environment \<Rightarrow> string \<Rightarrow> string \<Rightarrow> string" where
  "text_or env name d = (case env name of None \<Rightarrow> d | Some t \<Rightarrow> t)"

definition required :: "environment \<Rightarrow> string \<Rightarrow> exn + string" where
  "required env name = (case env name of None \<Rightarrow> Inl (ValidationError name) | Some t \<Rightarrow> Inr t)"

section \<open>Sections\<close>

record safety_config =
  sf_max_risk_tier_autonomous :: int
  sf_max_actions_per_incident :: int
  sf_max_wall_clock_seconds :: int
  sf_initial_iteration_budget :: int
  sf_stagnation_limit :: int
  sf_max_action_attempts :: int
  sf_confidence_propose :: rat
  sf_confidence_fast_path :: rat
  sf_confidence_give_up :: rat
  sf_min_confidence_improvement :: rat
  sf_max_llm_calls_per_incident :: int

definition safety_in_range :: "safety_config \<Rightarrow> bool" where
  "safety_in_range c \<longleftrightarrow>
     0 \<le> sf_max_risk_tier_autonomous c \<and> sf_max_risk_tier_autonomous c \<le> 4 \<and>
     1 \<le> sf_max_actions_per_incident c \<and> sf_max_actions_per_incident c < 100 \<and>
     60 \<le> sf_max_wall_clock_seconds c \<and> sf_max_wall_clock_seconds c \<le> 3600 \<and>
     1 \<le> sf_initial_iteration_budget c \<and> sf_initial_iteration_budget c \<le> 10 \<and>
     1 \<le> sf_stagnation_limit c \<and> sf_stagnation_limit c \<le> 5 \<and>
     1 \<le> sf_max_action_attempts c \<and> sf_max_action_attempts c \<le> 5 \<and>
     0 \<le> sf_confidence_propose c \<and> sf_confidence_propose c \<le> 1 \<and>
     0 \<le> sf_confidence_fast_path c \<and> sf_confidence_fast_path c \<le> 1 \<and>
     0 \<le> sf_confidence_give_up c \<and> sf_confidence_give_up c \<le> 1 \<and>
     0 \<le> sf_min_confidence_improvement c \<and> sf_min_confidence_improvement c \<le> 1 / 2 \<and>
     1 \<le> sf_max_llm_calls_per_incident c \<and> sf_max_llm_calls_per_incident c \<le> 100"

definition default_safety :: safety_config where
  "default_safety = \<lparr>sf_max_risk_tier_autonomous = 1, sf_max_actions_per_incident = 10, sf_max_wall_clock_seconds = 600,
     sf_initial_iteration_budget = 2, sf_stagnation_limit = 1, sf_max_action_attempts = 1,
     sf_confidence_propose = 55 / 100, sf_confidence_fast_path = 1 / 2, sf_confidence_give_up = 4 / 10,
     sf_min_confidence_improvement = 5 / 100, sf_max_llm_calls_per_incident = 15\<rparr>"

definition read_safety :: "env_lib \<Rightarrow> environment \<Rightarrow> exn + safety_config" where
  "read_safety L env =
     bind_res (int_field L env ''AUTOSRE_SAFETY__MAX_RISK_TIER_AUTONOMOUS'' 1 0 4) (\<lambda>tier.
     bind_res (int_field L env ''AUTOSRE_SAFETY__MAX_ACTIONS_PER_INCIDENT'' 10 1 99) (\<lambda>actions.
     bind_res (int_field L env ''AUTOSRE_SAFETY__MAX_WALL_CLOCK_SECONDS'' 600 60 3600) (\<lambda>wall.
     bind_res (int_field L env ''AUTOSRE_SAFETY__INITIAL_ITERATION_BUDGET'' 2 1 10) (\<lambda>budget.
     bind_res (int_field L env ''AUTOSRE_SAFETY__STAGNATION_LIMIT'' 1 1 5) (\<lambda>stagnation.
     bind_res (int_field L env ''AUTOSRE_SAFETY__MAX_ACTION_ATTEMPTS'' 1 1 5) (\<lambda>attempts.
     bind_res (float_field L env ''AUTOSRE_SAFETY__CONFIDENCE_PROPOSE'' (55 / 100) 0 1) (\<lambda>propose.
     bind_res (float_field L env ''AUTOSRE_SAFETY__CONFIDENCE_FAST_PATH'' (1 / 2) 0 1) (\<lambda>fast.
     bind_res (float_field L env ''AUTOSRE_SAFETY__CONFIDENCE_GIVE_UP'' (4 / 10) 0 1) (\<lambda>give_up.
     bind_res (float_field L env ''AUTOSRE_SAFETY__MIN_CONFIDENCE_IMPROVEMENT'' (5 / 100) 0 (1 / 2)) (\<lambda>improvement.
     bind_res (int_field L env ''AUTOSRE_SAFETY__MAX_LLM_CALLS_PER_INCIDENT'' 15 1 100) (\<lambda>calls.
     Inr \<lparr>sf_max_risk_tier_autonomous = tier, sf_max_actions_per_incident = actions, sf_max_wall_clock_seconds = wall,
          sf_initial_iteration_budget = budget, sf_stagnation_limit = stagnation, sf_max_action_attempts = attempts,
          sf_confidence_propose = propose, sf_confidence_fast_path = fast, sf_confidence_give_up = give_up,
          sf_min_confidence_improvement = improvement, sf_max_llm_calls_per_incident = calls\<rparr>)))))))))))"

text \<open>The fields of \<open>LLMConfig\<close> the router reads. It declares no \<open>model_quotas\<close>.\<close>

definition llm_in_range :: "llm_config \<Rightarrow> bool" where
  "llm_in_range c \<longleftrightarrow>
     0 \<le> lc_max_retries c \<and> lc_max_retries c \<le> 20 \<and>
     1 / 10 \<le> lc_initial_backoff c \<and> lc_initial_backoff c \<le> 60 \<and>
     1 \<le> lc_max_backoff c \<and> lc_max_backoff c \<le> 600 \<and>
     1 \<le> lc_absolute_backoff_cap c \<and> lc_absolute_backoff_cap c \<le> 300 \<and>
     1 \<le> lc_breaker_threshold c \<and> lc_breaker_threshold c \<le> 50 \<and>
     10 \<le> lc_breaker_timeout c \<and> lc_breaker_timeout c \<le> 1800 \<and>
     lc_model_quotas c = None"

text \<open>The patterns of the error classes.\<close>

definition default_quota_patterns :: "string list" where
  "default_quota_patterns = [''quota exceeded'', ''daily.*limit'', CHR 0x5C # ''bRPD'' @ CHR 0x5C # ''b'',
     ''requests per day'', ''resource has been exhausted'', ''exceeded your current quota'', ''rate limit.*daily'']"

definition default_capacity_patterns :: "string list" where
  "default_capacity_patterns = [''high demand'', CHR 0x5C # ''boverloaded'' @ CHR 0x5C # ''b'',
     CHR 0x5C # ''bcapacity'' @ CHR 0x5C # ''b'', ''try again later'', ''temporarily unavailable'']"

definition default_authentication_patterns :: "string list" where
  "default_authentication_patterns = [''invalid api key'', ''permission denied'', ''denied access'',
     CHR 0x5C # ''bunauthorized'' @ CHR 0x5C # ''b'', ''api key not valid'', ''project has been denied'']"

definition default_llm :: "string \<Rightarrow> llm_config" where
  "default_llm api_key = \<lparr>lc_model_coordinator = ''gemini/gemini-3.8-flash'',
     lc_model_worker = ''gemini/gemini-3.8-flash'',
     lc_fallback_models = PList [PStr ''gemini/gemini-3.5-flash-lite''], lc_model_quotas = None,
     lc_max_retries = 3, lc_initial_backoff = 1, lc_max_backoff = 30, lc_absolute_backoff_cap = 30,
     lc_breaker_threshold = 5, lc_breaker_timeout = 60, lc_breaker_enabled = True,
     lc_quota_patterns = default_quota_patterns, lc_capacity_patterns = default_capacity_patterns,
     lc_auth_patterns = default_authentication_patterns, lc_api_key = PStr api_key, lc_base_url = PNone\<rparr>"

definition read_llm :: "env_lib \<Rightarrow> environment \<Rightarrow> exn + llm_config" where
  "read_llm L env =
     (let var = (\<lambda>n. ''AUTOSRE_LLM__'' @ n); texts = (\<lambda>n d. parsed_field (el_texts L) (\<lambda>_. True) env (''AUTOSRE_LLM__'' @ n) d)
      in bind_res (required env (var ''API_KEY'')) (\<lambda>key.
         bind_res (texts ''FALLBACK_MODELS'' [''gemini/gemini-3.5-flash-lite'']) (\<lambda>fallbacks.
         bind_res (int_field L env (var ''MAX_RETRIES'') 3 0 20) (\<lambda>retries.
         bind_res (float_field L env (var ''INITIAL_BACKOFF_SECONDS'') 1 (1 / 10) 60) (\<lambda>initial.
         bind_res (float_field L env (var ''MAX_BACKOFF_SECONDS'') 30 1 600) (\<lambda>backoff.
         bind_res (float_field L env (var ''ABSOLUTE_BACKOFF_CAP_SECONDS'') 30 1 300) (\<lambda>cap.
         bind_res (parsed_field (el_bool L) (\<lambda>_. True) env (var ''CIRCUIT_BREAKER_ENABLED'') True) (\<lambda>enabled.
         bind_res (int_field L env (var ''CIRCUIT_BREAKER_THRESHOLD'') 5 1 50) (\<lambda>threshold.
         bind_res (float_field L env (var ''CIRCUIT_BREAKER_TIMEOUT_SECONDS'') 60 10 1800) (\<lambda>timeout.
         bind_res (texts ''QUOTA_EXHAUSTED_PATTERNS'' default_quota_patterns) (\<lambda>quota.
         bind_res (texts ''CAPACITY_EXHAUSTED_PATTERNS'' default_capacity_patterns) (\<lambda>capacity.
         bind_res (texts ''AUTHENTICATION_PATTERNS'' default_authentication_patterns) (\<lambda>auth.
         Inr \<lparr>lc_model_coordinator = text_or env (var ''MODEL_COORDINATOR'') ''gemini/gemini-3.8-flash'',
              lc_model_worker = text_or env (var ''MODEL_WORKER'') ''gemini/gemini-3.8-flash'',
              lc_fallback_models = PList (map PStr fallbacks), lc_model_quotas = None, lc_max_retries = retries,
              lc_initial_backoff = initial, lc_max_backoff = backoff, lc_absolute_backoff_cap = cap,
              lc_breaker_threshold = threshold, lc_breaker_timeout = timeout, lc_breaker_enabled = enabled,
              lc_quota_patterns = quota, lc_capacity_patterns = capacity, lc_auth_patterns = auth,
              lc_api_key = PStr key,
              lc_base_url = (case env (var ''BASE_URL'') of None \<Rightarrow> PNone | Some u \<Rightarrow> PStr u)\<rparr>)))))))))))))"

text \<open>The prices of the same section, which the cost accounting reads.\<close>

definition read_prices :: "env_lib \<Rightarrow> environment \<Rightarrow> exn + price_config" where
  "read_prices L env =
     (let price = (\<lambda>n d. parsed_field (el_float L) (\<lambda>x. 0 \<le> x) env (''AUTOSRE_LLM__'' @ n) d)
      in bind_res (price ''INPUT_COST_PER_1K_COORDINATOR'' (75 / 100000)) (\<lambda>ic.
         bind_res (price ''OUTPUT_COST_PER_1K_COORDINATOR'' (375 / 100000)) (\<lambda>oc.
         bind_res (price ''INPUT_COST_PER_1K_WORKER'' (75 / 100000)) (\<lambda>iw.
         bind_res (price ''OUTPUT_COST_PER_1K_WORKER'' (375 / 100000)) (\<lambda>ow.
         Inr \<lparr>pc_model_coordinator = text_or env ''AUTOSRE_LLM__MODEL_COORDINATOR'' ''gemini/gemini-3.8-flash'',
              pc_input_coordinator = ic, pc_output_coordinator = oc, pc_input_worker = iw, pc_output_worker = ow\<rparr>)))))"

section \<open>The database\<close>

record postgres_config =
  pc_password :: string
  pc_host :: string
  pc_port :: nat
  pc_db :: string
  pc_user :: string

definition default_postgres :: "string \<Rightarrow> postgres_config" where
  "default_postgres password = \<lparr>pc_password = password, pc_host = ''localhost'', pc_port = 5432,
     pc_db = ''app'', pc_user = ''app''\<rparr>"

definition postgres_in_range :: "postgres_config \<Rightarrow> bool" where
  "postgres_in_range c \<longleftrightarrow> 1 \<le> pc_port c \<and> pc_port c \<le> 65535"

definition read_postgres :: "env_lib \<Rightarrow> environment \<Rightarrow> exn + postgres_config" where
  "read_postgres L env =
     bind_res (required env ''AUTOSRE_POSTGRES__PASSWORD'') (\<lambda>password.
     bind_res (int_field L env ''AUTOSRE_POSTGRES__PORT'' 5432 1 65535) (\<lambda>port.
     Inr \<lparr>pc_password = password, pc_host = text_or env ''AUTOSRE_POSTGRES__HOST'' ''localhost'', pc_port = nat port,
          pc_db = text_or env ''AUTOSRE_POSTGRES__DB'' ''app'', pc_user = text_or env ''AUTOSRE_POSTGRES__USER'' ''app''\<rparr>))"

text \<open>\<open>urllib.parse.quote_plus\<close>\<close>

definition unreserved :: "char \<Rightarrow> bool" where
  "unreserved c =
     (let n = (of_char c :: nat)
      in (48 \<le> n \<and> n \<le> 57) \<or> (65 \<le> n \<and> n \<le> 90) \<or> (97 \<le> n \<and> n \<le> 122) \<or> n \<in> {45, 46, 95, 126})"

definition upper_hex :: "nat \<Rightarrow> char" where
  "upper_hex n = (if n < 10 then char_of (48 + n) else char_of (55 + n))"

definition quote_char :: "char \<Rightarrow> string" where
  "quote_char c =
     (let n = (of_char c :: nat)
      in if unreserved c then [c] else if n = 32 then ''+''
         else [CHR ''%'', upper_hex (n div 16), upper_hex (n mod 16)])"

definition quote_plus :: "string \<Rightarrow> string" where
  "quote_plus s = concat (map quote_char s)"

definition url_of :: "string \<Rightarrow> postgres_config \<Rightarrow> string" where
  "url_of scheme c = scheme @ ''://'' @ pc_user c @ '':'' @ quote_plus (pc_password c) @
     ''@'' @ pc_host c @ '':'' @ show_nat (pc_port c) @ ''/'' @ pc_db c"

definition dsn :: "postgres_config \<Rightarrow> string" where
  "dsn c = url_of ''postgresql+psycopg'' c"

definition raw_dsn :: "postgres_config \<Rightarrow> string" where
  "raw_dsn c = url_of ''postgresql'' c"

section \<open>Telemetry headers and the environment name\<close>

definition parsed_headers :: "string \<Rightarrow> (string, string) dict" where
  "parsed_headers text =
     (if text = [] then []
      else fold (\<lambda>pair d. case split_once (CHR ''='') pair of
                           (key, Some v) \<Rightarrow> dset (str_strip key) (str_strip v) d
                         | _ \<Rightarrow> d) (split_at (CHR '','') text) [])"

definition default_environment :: string where
  "default_environment = ''development''"

record otel_config =
  ot_endpoint :: string
  ot_service_name :: string
  ot_environment :: string
  ot_headers :: string

definition read_otel :: "environment \<Rightarrow> otel_config" where
  "read_otel env = \<lparr>ot_endpoint = text_or env ''AUTOSRE_OTEL__EXPORTER_OTLP_ENDPOINT'' ''http://localhost:4318'',
     ot_service_name = text_or env ''AUTOSRE_OTEL__SERVICE_NAME'' ''autosre-agent'',
     ot_environment = text_or env ''AUTOSRE_OTEL__DEPLOYMENT_ENVIRONMENT'' default_environment,
     ot_headers = text_or env ''AUTOSRE_OTEL__EXPORTER_HEADERS'' []\<rparr>"

record openobserve_config =
  oc_email :: string
  oc_password :: string
  oc_url :: string

definition read_openobserve :: "environment \<Rightarrow> exn + openobserve_config" where
  "read_openobserve env =
     bind_res (required env ''AUTOSRE_OPENOBSERVE__EMAIL'') (\<lambda>email.
     bind_res (required env ''AUTOSRE_OPENOBSERVE__PASSWORD'') (\<lambda>password.
     Inr \<lparr>oc_email = email, oc_password = password,
          oc_url = text_or env ''AUTOSRE_OPENOBSERVE__URL'' ''http://localhost:5080''\<rparr>))"

record eval_config =
  ev_judge_model :: string
  ev_judge_base_url :: "string option"
  ev_judge_api_key :: "string option"

definition read_eval :: "environment \<Rightarrow> eval_config" where
  "read_eval env = \<lparr>ev_judge_model = text_or env ''AUTOSRE_EVAL__JUDGE_MODEL'' ''gemini/gemini-3.5-flash-lite'',
     ev_judge_base_url = env ''AUTOSRE_EVAL__JUDGE_BASE_URL'', ev_judge_api_key = env ''AUTOSRE_EVAL__JUDGE_API_KEY''\<rparr>"

record settings =
  st_llm :: llm_config
  st_prices :: price_config
  st_eval :: eval_config
  st_postgres :: postgres_config
  st_webhook_secret :: string
  st_openobserve :: openobserve_config
  st_otel :: otel_config
  st_safety :: safety_config
  st_admin_secret :: "string option"
  st_environment :: string

definition sync_deployment_environment :: "settings \<Rightarrow> settings" where
  "sync_deployment_environment s =
     (if st_environment s \<noteq> default_environment then s\<lparr>st_otel := (st_otel s)\<lparr>ot_environment := st_environment s\<rparr>\<rparr>
      else if ot_environment (st_otel s) \<noteq> default_environment then s\<lparr>st_environment := ot_environment (st_otel s)\<rparr>
      else s)"

definition make_settings :: "env_lib \<Rightarrow> environment \<Rightarrow> exn + settings" where
  "make_settings L env =
     bind_res (read_llm L env) (\<lambda>llm.
     bind_res (read_prices L env) (\<lambda>prices.
     bind_res (read_postgres L env) (\<lambda>postgres.
     bind_res (required env ''AUTOSRE_ALERT__WEBHOOK_SECRET'') (\<lambda>webhook.
     bind_res (read_openobserve env) (\<lambda>openobserve.
     bind_res (read_safety L env) (\<lambda>safety.
     Inr (sync_deployment_environment
       \<lparr>st_llm = llm, st_prices = prices, st_eval = read_eval env, st_postgres = postgres, st_webhook_secret = webhook,
        st_openobserve = openobserve, st_otel = read_otel env, st_safety = safety,
        st_admin_secret = env ''AUTOSRE_ADMIN__SECRET'',
        st_environment = text_or env ''AUTOSRE_DEPLOYMENT_ENVIRONMENT'' default_environment\<rparr>)))))))"

text \<open>The cache of one entry; a failure is not cached.\<close>

definition get_settings :: "env_lib \<Rightarrow> environment \<Rightarrow> settings option \<Rightarrow> (exn + settings) \<times> settings option" where
  "get_settings L env cache =
     (case cache of
        Some s \<Rightarrow> (Inr s, cache)
      | None \<Rightarrow> (case make_settings L env of Inr s \<Rightarrow> (Inr s, Some s) | Inl e \<Rightarrow> (Inl e, None)))"

definition reset_settings_cache :: "settings option \<Rightarrow> settings option" where
  "reset_settings_cache cache = None"

section \<open>Settings that were validated\<close>

lemma parsed_field_Inr: "parsed_field parse ok env name d = Inr x \<Longrightarrow> ok x \<or> x = d"
  by (auto simp: parsed_field_def bind_res_Inr_iff split: option.splits if_splits)

lemma int_field_range:
  assumes "int_field L env name d lo hi = Inr i" "lo \<le> d" "d \<le> hi"
  shows "lo \<le> i" "i \<le> hi" "hi < k \<Longrightarrow> i < k"
  using parsed_field_Inr [of "el_int L" "\<lambda>i. lo \<le> i \<and> i \<le> hi" env name d i] assms by (auto simp: int_field_def)

lemma float_field_range:
  assumes "float_field L env name d lo hi = Inr x" "lo \<le> d" "d \<le> hi"
  shows "lo \<le> x" "x \<le> hi"
  using parsed_field_Inr [of "el_float L" "\<lambda>x. lo \<le> x \<and> x \<le> hi" env name d x] assms by (auto simp: float_field_def)

lemma bind_InrE: "bind_res r f = Inr y \<Longrightarrow> (\<And>x. r = Inr x \<Longrightarrow> f x = Inr y \<Longrightarrow> P) \<Longrightarrow> P"
  by (auto simp: bind_res_Inr_iff)

lemmas field_ranges = int_field_range float_field_range

lemma read_safety_in_range:
  assumes "read_safety L env = Inr c"
  shows "safety_in_range c"
  using assms unfolding read_safety_def
  by (elim bind_InrE) (simp only: sum.inject, hypsubst, simp only: safety_in_range_def safety_config.simps,
    intro conjI; erule field_ranges; simp)

lemma read_llm_in_range:
  assumes "read_llm L env = Inr c"
  shows "llm_in_range c"
  using assms unfolding read_llm_def Let_def
  by (elim bind_InrE) (simp only: sum.inject, hypsubst, simp only: llm_in_range_def llm_config.simps,
    intro conjI refl; erule field_ranges; simp)

lemma read_postgres_in_range: "read_postgres L env = Inr c \<Longrightarrow> postgres_in_range c"
  unfolding read_postgres_def
  by (elim bind_InrE) (auto simp: postgres_in_range_def dest: int_field_range(1,2))

lemma read_defaults:
  "read_safety L (\<lambda>_. None) = Inr default_safety"
  "read_llm L ((\<lambda>_. None)(''AUTOSRE_LLM__API_KEY'' := Some key)) = Inr (default_llm key)"
  "read_postgres L ((\<lambda>_. None)(''AUTOSRE_POSTGRES__PASSWORD'' := Some pw)) = Inr (default_postgres pw)"
  by (simp_all add: read_safety_def default_safety_def int_field_def float_field_def parsed_field_def read_llm_def
      default_llm_def required_def text_or_def read_postgres_def default_postgres_def Let_def)

lemma environments_agree:
  "ot_environment (st_otel (sync_deployment_environment s)) = st_environment (sync_deployment_environment s)"
  by (simp add: sync_deployment_environment_def)

lemma make_settings_Inr:
  assumes "make_settings L env = Inr s"
  shows "llm_in_range (st_llm s)" "postgres_in_range (st_postgres s)" "safety_in_range (st_safety s)"
    "ot_environment (st_otel s) = st_environment s"
proof -
  obtain t llm postgres safety where s: "s = sync_deployment_environment t"
    and t: "st_llm t = llm" "st_postgres t = postgres" "st_safety t = safety"
    and r: "read_llm L env = Inr llm" "read_postgres L env = Inr postgres" "read_safety L env = Inr safety"
    using assms by (force simp: make_settings_def bind_res_Inr_iff)
  have "st_llm s = llm" "st_postgres s = postgres" "st_safety s = safety"
    by (simp_all add: s t sync_deployment_environment_def)
  with r show "llm_in_range (st_llm s)" "postgres_in_range (st_postgres s)" "safety_in_range (st_safety s)"
    using read_llm_in_range read_postgres_in_range read_safety_in_range by blast+
  show "ot_environment (st_otel s) = st_environment s" by (simp add: s environments_agree)
qed

text \<open>The settings are read once: until a reset the environment has no say.\<close>

lemma settings_cached:
  "get_settings L env cache = (Inr s, cache') \<Longrightarrow>
     cache' = Some s \<and> get_settings L other cache' = (Inr s, cache') \<and>
     get_settings L other (reset_settings_cache cache') =
       (case make_settings L other of Inr s' \<Rightarrow> (Inr s', Some s') | Inl e \<Rightarrow> (Inl e, None))"
  by (auto simp: get_settings_def reset_settings_cache_def split: option.splits sum.splits)

text \<open>With validated settings the router is built, unless a model name is blank.\<close>

lemma validated_router:
  assumes "llm_in_range cfg" "0 < threshold" "0 < max_calls"
  shows "(\<exists>R rs. make_router L cfg threshold max_calls now = Inr (R, rs) \<and> r_config R = cfg \<and> r_max_calls R = max_calls)
    \<longleftrightarrow> str_strip (lc_model_coordinator cfg) \<noteq> [] \<and> str_strip (lc_model_worker cfg) \<noteq> []"
  using assms by (auto simp: make_router_def make_breaker_def llm_in_range_def Let_def)

text \<open>No retry of a validated configuration waits longer than the cap and a tenth of it.\<close>

lemma validated_backoff_cap: "llm_in_range (r_config R) \<Longrightarrow> 1 \<le> backoff_cap R \<and> backoff_cap R \<le> 300"
  by (auto simp: llm_in_range_def backoff_cap_def)

section \<open>Reading the database URL\<close>

text \<open>libpq's reading of a URI: the parts between the delimiters, percent-decoded; a plus stays a plus.\<close>

fun percent_decode :: "string \<Rightarrow> string option" where
  "percent_decode [] = Some []"
| "percent_decode (c # cs) =
     (if c = CHR ''%''
      then (case cs of
              x # y # rest \<Rightarrow>
                (case (hex_value x, hex_value y) of
                   (Some m, Some n) \<Rightarrow> map_option ((#) (char_of (16 * m + n))) (percent_decode rest)
                 | _ \<Rightarrow> None)
            | _ \<Rightarrow> None)
      else map_option ((#) c) (percent_decode cs))"

definition read_url :: "string \<Rightarrow> string \<Rightarrow> (string \<times> string option \<times> string \<times> string \<times> string) option" where
  "read_url scheme s =
     (if str_startswith s (scheme @ ''://'')
      then (case split_once (CHR ''@'') (drop (length scheme + 3) s) of
              (login, Some rest) \<Rightarrow>
                (case (split_once (CHR '':'') login, split_once (CHR ''/'') rest) of
                   ((user, Some pw), (address, Some db)) \<Rightarrow>
                     (case split_once (CHR '':'') address of
                        (host, Some port) \<Rightarrow> Some (user, percent_decode pw, host, port, db)
                      | _ \<Rightarrow> None)
                 | _ \<Rightarrow> None)
            | _ \<Rightarrow> None)
      else None)"

definition space_to_plus :: "string \<Rightarrow> string" where
  "space_to_plus s = map (\<lambda>c. if c = CHR '' '' then CHR ''+'' else c) s"

lemma upper_hex_value: "n < 16 \<Longrightarrow> hex_value (upper_hex n) = Some n"
  by (auto simp: hex_value_def upper_hex_def Let_def)

lemma upper_hex_code: "n < 16 \<Longrightarrow> (of_char (upper_hex n) :: nat) \<in> {48..57} \<union> {65..70}"
  by (auto simp: upper_hex_def)

lemma space_code: "(of_char c :: nat) = 32 \<longleftrightarrow> c = CHR '' ''"
  by (simp flip: of_char_eq_iff [where 'a = nat])

lemma quote_char_cases:
  obtains "unreserved c" "quote_char c = [c]" "c \<noteq> CHR '' ''" | "c = CHR '' ''" "quote_char c = ''+''"
  | "c \<noteq> CHR '' ''" "quote_char c = [CHR ''%'', upper_hex (of_char c div 16), upper_hex (of_char c mod 16)]"
proof -
  consider "unreserved c" | "\<not> unreserved c" "c = CHR '' ''" | "\<not> unreserved c" "c \<noteq> CHR '' ''" by blast
  then show thesis
  proof cases
    case 1
    then have "c \<noteq> CHR '' ''" by (auto simp: unreserved_def)
    with 1 that(1) show thesis by (simp add: quote_char_def)
  qed (use that in \<open>simp_all add: quote_char_def space_code Let_def\<close>)
qed

lemma quoted_codes:
  assumes "d \<in> set (quote_char c)"
  shows "unreserved d \<or> d = CHR ''+'' \<or> d = CHR ''%''"
proof -
  have hex: "unreserved (upper_hex n)" if "n < 16" for n
    using upper_hex_code [OF that] by (auto simp: unreserved_def Let_def)
  have "(of_char c :: nat) div 16 < 16" using nat_of_char_less_256 [of c] by linarith
  with hex show ?thesis
    using assms by (cases c rule: quote_char_cases) auto
qed

lemma unreserved_codes: "\<not> unreserved (CHR ''@'')" "\<not> unreserved (CHR '':'')" "\<not> unreserved (CHR ''/'')" "\<not> unreserved (CHR ''%'')"
  by (simp_all add: unreserved_def)

lemma quote_plus_clean: "set (quote_plus s) \<inter> {CHR ''@'', CHR '':'', CHR ''/''} = {}"
  using quoted_codes unreserved_codes by (fastforce simp: quote_plus_def)

lemma decode_quote_plus: "percent_decode (quote_plus s) = Some (space_to_plus s)"
proof (induction s)
  case (Cons c s)
  have half: "(of_char c :: nat) div 16 < 16" using nat_of_char_less_256 [of c] by linarith
  have c: "char_of (of_char c mod 16 + of_char c div 16 * (16 :: nat)) = c" by simp
  show ?case
    using Cons unreserved_codes(4) half c
    by (cases c rule: quote_char_cases) (auto simp: quote_plus_def space_to_plus_def upper_hex_value)
qed (simp add: quote_plus_def space_to_plus_def)

text \<open>The database URL gives back every part of the configuration, for any password but for its spaces. A user without a colon, at sign or slash and a host without those is read back by the driver with the port and the database; the password is read back byte for byte except that every space has become a plus sign, because the code quotes it for a form and the driver decodes percent signs only. So a password survives exactly when it has no space.\<close>

lemma dsn_roundtrip:
  assumes "set (pc_user c) \<inter> {CHR '':'', CHR ''@'', CHR ''/''} = {}" "set (pc_host c) \<inter> {CHR '':'', CHR ''@'', CHR ''/''} = {}"
  shows "read_url ''postgresql'' (raw_dsn c) =
      Some (pc_user c, Some (space_to_plus (pc_password c)), pc_host c, show_nat (pc_port c), pc_db c)
    \<and> read_url ''postgresql+psycopg'' (dsn c) = read_url ''postgresql'' (raw_dsn c)
    \<and> (space_to_plus (pc_password c) = pc_password c \<longleftrightarrow> CHR '' '' \<notin> set (pc_password c))"
proof -
  have port: "set (show_nat n) \<inter> {CHR '':'', CHR ''@'', CHR ''/''} = {}" for n
    using show_nat_digits [of n] by (auto simp: list_all_iff is_digit_def)
  have url: "read_url scheme (url_of scheme c) =
      Some (pc_user c, Some (space_to_plus (pc_password c)), pc_host c, show_nat (pc_port c), pc_db c)" for scheme
  proof -
    have "split_once (CHR ''@'') ((pc_user c @ CHR '':'' # quote_plus (pc_password c)) @ CHR ''@'' #
          ((pc_host c @ CHR '':'' # show_nat (pc_port c)) @ CHR ''/'' # pc_db c))
        = (pc_user c @ CHR '':'' # quote_plus (pc_password c), Some ((pc_host c @ CHR '':'' # show_nat (pc_port c)) @ CHR ''/'' # pc_db c))"
      using assms(1) quote_plus_clean by (intro split_once_append) auto
    moreover have "split_once (CHR ''/'') ((pc_host c @ CHR '':'' # show_nat (pc_port c)) @ CHR ''/'' # pc_db c)
        = (pc_host c @ CHR '':'' # show_nat (pc_port c), Some (pc_db c))"
      using assms(2) port by (intro split_once_append) auto
    moreover have "split_once (CHR '':'') (pc_user c @ CHR '':'' # quote_plus (pc_password c)) = (pc_user c, Some (quote_plus (pc_password c)))"
      "split_once (CHR '':'') (pc_host c @ CHR '':'' # show_nat (pc_port c)) = (pc_host c, Some (show_nat (pc_port c)))"
      using assms by (auto intro: split_once_append)
    ultimately show ?thesis
      by (simp add: read_url_def url_of_def str_startswith_def decode_quote_plus)
  qed
  have "space_to_plus s = s \<longleftrightarrow> CHR '' '' \<notin> set s" for s
    by (induction s) (auto simp: space_to_plus_def)
  with url show ?thesis by (simp add: dsn_def raw_dsn_def)
qed

lemma dsn_roundtrip_witness:
  "\<exists>p. read_url ''postgresql'' (raw_dsn (default_postgres ''p@ss w/rd'')) = Some (''app'', Some ''p@ss+w/rd'', ''localhost'', p, ''app'')"
  using dsn_roundtrip [of "default_postgres ''p@ss w/rd''"]
  by (simp add: default_postgres_def space_to_plus_def)

end
