(* ===== verification/Sandbox.thy ===== *)
theory Sandbox
  imports Actions "HOL-Library.Multiset"
begin

text \<open>
  The code sandbox, \<^verbatim>\<open>core/codeact.py\<close>: the validation of a syntax tree, the restricted import and
  builtins, the worker and the parent that waits for it. A tree has the node classes the validation
  looks at, with the children in field order, so that the function of a call is its first child;
  every other node is \<open>OtherNode\<close>. The parser, the effect of running the code, the pipe and the
  life of the worker process are arguments.
\<close>

datatype node_class =
    ImportNode "string list"
  | ImportFromNode "string option"
  | CallNode
  | AttributeNode string
  | NameNode string
  | OtherNode

datatype ast = Node (class_of: node_class) (children: "ast list")

datatype sandbox_error =
    CodeActSecurityError string
  | CodeActTimeoutError string
  | CodeActExecutionError string
  | SandboxRaised exn

definition allowed_modules :: "string list" where
  "allowed_modules = [''pandas'', ''pd'', ''numpy'', ''np'', ''math'', ''statistics'', ''json'', ''datetime'',
     ''time'', ''re'', ''collections'', ''itertools'', ''functools'', ''operator'', ''string'', ''textwrap'',
     ''decimal'', ''fractions'', ''random'']"

definition blocked_builtins :: "string list" where
  "blocked_builtins = [''eval'', ''exec'', ''compile'', ''open'', ''input'', ''globals'', ''locals'', ''vars'',
     ''dir'', ''getattr'', ''setattr'', ''delattr'', ''breakpoint'', ''exit'', ''quit'']"

definition safe_dunders :: "string list" where
  "safe_dunders = [''__len__'', ''__str__'', ''__repr__'', ''__iter__'', ''__next__'', ''__getitem__'',
     ''__setitem__'', ''__contains__'', ''__bool__'', ''__eq__'', ''__ne__'', ''__lt__'', ''__le__'', ''__gt__'',
     ''__ge__'', ''__add__'', ''__sub__'', ''__mul__'', ''__truediv__'', ''__floordiv__'', ''__mod__'', ''__pow__'',
     ''__neg__'', ''__pos__'', ''__abs__'', ''__int__'', ''__float__'', ''__complex__'', ''__round__'', ''__hash__'']"

definition dangerous_call_names :: "string list" where
  "dangerous_call_names = [''eval'', ''exec'', ''__import__'']"

section \<open>Validation\<close>

definition module_root :: "string \<Rightarrow> string" where
  "module_root name = takeWhile (\<lambda>c. c \<noteq> CHR ''.'') name"

definition import_error :: "string \<Rightarrow> string option" where
  "import_error name =
     (if module_root name \<in> set allowed_modules then None else Some (''Import not allowed: '' @ name))"

fun first_some :: "('a \<Rightarrow> 'b option) \<Rightarrow> 'a list \<Rightarrow> 'b option" where
  "first_some f [] = None"
| "first_some f (x # xs) = (case f x of Some y \<Rightarrow> Some y | None \<Rightarrow> first_some f xs)"

definition check_node :: "ast \<Rightarrow> string option" where
  "check_node t =
     (case class_of t of
        ImportNode names \<Rightarrow> first_some import_error names
      | ImportFromNode m \<Rightarrow> (case m of None \<Rightarrow> None | Some name \<Rightarrow> if name = [] then None else import_error name)
      | CallNode \<Rightarrow>
          (case children t of
             [] \<Rightarrow> None
           | f # _ \<Rightarrow>
               (case class_of f of
                  NameNode n \<Rightarrow> if n \<in> set dangerous_call_names then Some (''Dangerous function call: '' @ n) else None
                | AttributeNode a \<Rightarrow>
                    if a \<in> set dangerous_call_names then Some (''Dangerous method call: '' @ a) else None
                | _ \<Rightarrow> None))
      | AttributeNode a \<Rightarrow>
          if str_startswith a ''__'' \<and> str_endswith a ''__'' \<and> a \<notin> set safe_dunders
          then Some (''Dangerous dunder access: '' @ a) else None
      | _ \<Rightarrow> None)"

text \<open>\<open>ast.walk\<close>: breadth first, with a queue.\<close>

fun node_count :: "ast \<Rightarrow> nat" where
  "node_count (Node k cs) = Suc (sum_list (map node_count cs))"

function walk :: "ast list \<Rightarrow> ast list" where
  "walk [] = []"
| "walk (t # todo) = t # walk (todo @ children t)"
  by pat_completeness auto
termination
proof (relation "measure (\<lambda>ts. sum_list (map node_count ts))")
  show "(todo @ children t, t # todo) \<in> measure (\<lambda>ts. sum_list (map node_count ts))" for t :: ast and todo
    by (cases t) simp
qed simp

definition validate_ast :: "(string \<Rightarrow> string + ast) \<Rightarrow> string \<Rightarrow> sandbox_error + unit" where
  "validate_ast parse code =
     (case parse code of
        Inl msg \<Rightarrow> Inl (CodeActSecurityError (''Syntax error: '' @ msg))
      | Inr tree \<Rightarrow>
          (case first_some check_node (walk [tree]) of
             Some msg \<Rightarrow> Inl (CodeActSecurityError msg)
           | None \<Rightarrow> Inr ()))"

section \<open>The worker\<close>

text \<open>\<open>NotAllowed\<close> is the ImportError of the wrapper.\<close>

datatype 'v imported = Imported 'v | NotAllowed string | ImportRaised exn

definition restricted_import :: "(string \<Rightarrow> exn + 'v) \<Rightarrow> string \<Rightarrow> 'v imported" where
  "restricted_import real_import name =
     (if module_root name \<in> set allowed_modules
      then (case real_import name of Inr m \<Rightarrow> Imported m | Inl e \<Rightarrow> ImportRaised e)
      else NotAllowed (''Module not allowed: '' @ name))"

text \<open>The names the code sees; \<open>__import__\<close> is replaced, not removed.\<close>

definition restricted_builtins :: "string list \<Rightarrow> string list" where
  "restricted_builtins names = filter (\<lambda>n. n \<notin> set blocked_builtins) names @
     (if ''__import__'' \<in> set names then [] else [''__import__''])"

datatype message = Success pyval | Failure string string

text \<open>\<open>run\<close> is the effect of executing the code: the locals it leaves or the exception it raises,
  \<open>show_exn\<close> and \<open>type_name\<close> of the exception, or the end of the process with no message. A result that cannot be
  pickled is an exception of \<open>run\<close> here: in the source \<open>conn.send\<close> stands inside the try, so its error is sent in the same way.\<close>

definition worker ::
  "(string \<Rightarrow> string + ast) \<Rightarrow> (string \<Rightarrow> (string \<times> string + pydict) option) \<Rightarrow> string \<Rightarrow> message option" where
  "worker parse run code =
     (case validate_ast parse code of
        Inl (CodeActSecurityError m) \<Rightarrow> Some (Failure m ''CodeActSecurityError'')
      | Inl _ \<Rightarrow> None
      | Inr _ \<Rightarrow>
          (case run code of
             None \<Rightarrow> None
           | Some (Inl (m, ty)) \<Rightarrow> Some (Failure m ty)
           | Some (Inr locals) \<Rightarrow> Some (Success (dget_or locals ''result'' PNone))))"

section \<open>The parent\<close>

datatype sandbox_event = Start | CloseChild | Poll | Recv | Join | Terminate | JoinOneSecond | Kill | CloseParent

record sandbox_world =
  sw_poll :: bool
  sw_recv :: "exn + message"
  sw_alive_after_recv :: bool
  sw_alive_after_terminate :: bool

definition message_result :: "message \<Rightarrow> sandbox_error + pyval" where
  "message_result m =
     (case m of
        Success v \<Rightarrow> Inr v
      | Failure msg ty \<Rightarrow>
          Inl (if ty = ''CodeActSecurityError'' then CodeActSecurityError msg
               else if ty = ''ImportError'' then CodeActSecurityError (''Import error: '' @ msg)
               else CodeActExecutionError (ty @ '': '' @ msg)))"

definition timeout_message :: "string \<Rightarrow> string" where
  "timeout_message shown = ''Code execution exceeded '' @ shown @ ''s timeout''"

text \<open>\<open>shown\<close> is the timeout with one decimal. A process that was joined is not alive, and every join without a
  limit is taken to return: a worker that sends its message and then never ends would keep the call waiting.\<close>

definition execute_code ::
  "(string \<Rightarrow> string + ast) \<Rightarrow> string \<Rightarrow> sandbox_world \<Rightarrow> string \<Rightarrow> sandbox_event list \<times> (sandbox_error + pyval)" where
  "execute_code parse shown W code =
     (case validate_ast parse code of
        Inl e \<Rightarrow> ([], Inl e)
      | Inr _ \<Rightarrow>
          if sw_poll W
          then (case sw_recv W of
                  Inr m \<Rightarrow> ([Start, CloseChild, Poll, Recv, Join, CloseParent], message_result m)
                | Inl e \<Rightarrow> ([Start, CloseChild, Poll, Recv, CloseParent] @
                            (if sw_alive_after_recv W then [Terminate, Join] else []), Inl (SandboxRaised e)))
          else ([Start, CloseChild, Poll, Terminate, JoinOneSecond] @
                  (if sw_alive_after_terminate W then [Kill, Join] else []) @ [CloseParent],
                Inl (CodeActTimeoutError (timeout_message shown))))"

section \<open>What validation accepts\<close>

fun subtrees :: "ast \<Rightarrow> ast list" where
  "subtrees (Node k cs) = Node k cs # concat (map subtrees cs)"

text \<open>The reference: a recursive check of every node.\<close>

fun accepted_tree :: "ast \<Rightarrow> bool" where
  "accepted_tree (Node k cs) \<longleftrightarrow> check_node (Node k cs) = None \<and> list_all accepted_tree cs"

lemma first_some_None [simp]: "first_some f xs = None \<longleftrightarrow> (\<forall>x\<in>set xs. f x = None)"
  by (induction xs) (auto split: option.splits)

lemma first_some_Some: "first_some f xs = Some y \<Longrightarrow> \<exists>x\<in>set xs. f x = Some y"
  by (induction xs) (auto split: option.splits)

lemma mset_walk: "mset (walk ts) = mset (concat (map subtrees ts))"
proof (induction ts rule: walk.induct)
  case (2 t todo)
  then show ?case by (cases t) simp
qed simp

lemma set_walk: "set (walk [t]) = set (subtrees t)"
  using arg_cong [OF mset_walk [of "[t]"], of set_mset] by (simp del: walk.simps)

declare walk.simps [simp del]

lemma accepted_subtrees: "accepted_tree t \<longleftrightarrow> (\<forall>u\<in>set (subtrees t). check_node u = None)"
  by (induction t) (auto simp: list_all_iff)

lemma validate_Inr: "validate_ast parse code = Inr () \<longleftrightarrow> (\<exists>t. parse code = Inr t \<and> accepted_tree t)"
proof -
  have acc: "accepted_tree t \<longleftrightarrow> first_some check_node (walk [t]) = None" for t
    by (simp add: accepted_subtrees set_walk)
  show ?thesis
    by (auto simp: validate_ast_def acc simp del: first_some_None accepted_tree.simps split: sum.splits option.splits)
qed

lemma validate_Inl:
  "validate_ast parse code = Inl e \<Longrightarrow>
     \<exists>msg. e = CodeActSecurityError msg \<and>
       ((\<exists>m. parse code = Inl m \<and> msg = ''Syntax error: '' @ m) \<or>
        (\<exists>t u. parse code = Inr t \<and> u \<in> set (subtrees t) \<and> check_node u = Some msg))"
  by (auto simp: validate_ast_def set_walk split: sum.splits option.splits dest!: first_some_Some)

text \<open>C33: Validation looks at every node, once. The queue visits the nodes of the tree with the multiplicity they have; code is accepted exactly when it parses and the recursive reference check passes on its tree, and is refused with a security error that is the syntax error or the message of a node of the tree that is not allowed. In accepted code every import is of an allowed module, no call by name or attribute is of a dangerous one, and no dunder attribute is outside the safe ones.\<close>

theorem sandbox_validation:
  "mset (walk [tree]) = mset (subtrees tree)
   \<and> (validate_ast parse code = Inr () \<longleftrightarrow> (\<exists>t. parse code = Inr t \<and> accepted_tree t))
   \<and> (\<forall>e. validate_ast parse code = Inl e \<longrightarrow>
       (\<exists>msg. e = CodeActSecurityError msg \<and>
         ((\<exists>m. parse code = Inl m \<and> msg = ''Syntax error: '' @ m) \<or>
          (\<exists>t u. parse code = Inr t \<and> u \<in> set (subtrees t) \<and> check_node u = Some msg))))
   \<and> (accepted_tree tree \<longrightarrow>
       (\<forall>u\<in>set (subtrees tree).
          (\<forall>names. class_of u = ImportNode names \<longrightarrow> (\<forall>n\<in>set names. module_root n \<in> set allowed_modules)) \<and>
          (\<forall>n. class_of u = ImportFromNode (Some n) \<longrightarrow> n = [] \<or> module_root n \<in> set allowed_modules) \<and>
          (\<forall>f args n. u = Node CallNode (f # args) \<longrightarrow> class_of f = NameNode n \<or> class_of f = AttributeNode n \<longrightarrow>
             n \<notin> set dangerous_call_names) \<and>
          (\<forall>a. class_of u = AttributeNode a \<longrightarrow> str_startswith a ''__'' \<longrightarrow> str_endswith a ''__'' \<longrightarrow> a \<in> set safe_dunders)))"
proof (intro conjI impI ballI)
  show "mset (walk [tree]) = mset (subtrees tree)" using mset_walk [of "[tree]"] by simp
  show "validate_ast parse code = Inr () \<longleftrightarrow> (\<exists>t. parse code = Inr t \<and> accepted_tree t)" by (rule validate_Inr)
  show "\<forall>e. validate_ast parse code = Inl e \<longrightarrow>
       (\<exists>msg. e = CodeActSecurityError msg \<and>
         ((\<exists>m. parse code = Inl m \<and> msg = ''Syntax error: '' @ m) \<or>
          (\<exists>t u. parse code = Inr t \<and> u \<in> set (subtrees t) \<and> check_node u = Some msg)))"
    using validate_Inl by blast
  fix u
  assume "accepted_tree tree" "u \<in> set (subtrees tree)"
  then have ok: "check_node u = None" by (simp add: accepted_subtrees)
  show "\<forall>names. class_of u = ImportNode names \<longrightarrow> (\<forall>n\<in>set names. module_root n \<in> set allowed_modules)"
    "\<forall>n. class_of u = ImportFromNode (Some n) \<longrightarrow> n = [] \<or> module_root n \<in> set allowed_modules"
    "\<forall>f args n. u = Node CallNode (f # args) \<longrightarrow> class_of f = NameNode n \<or> class_of f = AttributeNode n \<longrightarrow>
       n \<notin> set dangerous_call_names"
    "\<forall>a. class_of u = AttributeNode a \<longrightarrow> str_startswith a ''__'' \<longrightarrow> str_endswith a ''__'' \<longrightarrow> a \<in> set safe_dunders"
    using ok by (auto simp: check_node_def import_error_def split: if_splits)
qed

text \<open>\<open>import random\<close> and then \<open>random._os.system("id")\<close>: no node of it is refused, since only names
  with two leading and two trailing underscores are looked at.\<close>

definition escape_tree :: ast where
  "escape_tree = Node OtherNode
     [Node (ImportNode [''random'']) [Node OtherNode []],
      Node OtherNode [Node CallNode
        [Node (AttributeNode ''system'') [Node (AttributeNode ''_os'') [Node (NameNode ''random'') [Node OtherNode []]]],
         Node OtherNode []]]]"

lemma sandbox_validation_witness:
  "validate_ast (\<lambda>_. Inr escape_tree) ''...'' = Inr () \<and>
   module_root ''random'' \<in> set allowed_modules \<and> ''system'' \<notin> set dangerous_call_names"
proof -
  have a: "accepted_tree escape_tree" by code_simp
  have u: "Node (ImportNode [''random'']) [Node OtherNode []] \<in> set (subtrees escape_tree)" by (simp add: escape_tree_def)
  have v: "validate_ast (\<lambda>_. Inr escape_tree) ''...'' = Inr () \<longleftrightarrow> accepted_tree escape_tree"
    using sandbox_validation [of escape_tree "\<lambda>_. Inr escape_tree" "''...''"] by simp
  have "module_root ''random'' \<in> set allowed_modules"
    using sandbox_validation [of escape_tree "\<lambda>_. Inr escape_tree" "''...''"] a u by fastforce
  with v a show ?thesis by (simp add: dangerous_call_names_def)
qed

section \<open>What comes out of the sandbox\<close>

text \<open>The pipe of a worker: its message, or \<open>EOFError\<close> once the other end is closed without one.\<close>

definition pipe :: "message option \<Rightarrow> exn + message" where
  "pipe m = (case m of Some msg \<Rightarrow> Inr msg | None \<Rightarrow> Inl (PyError (OtherError ''EOFError'')))"

definition started :: "sandbox_event list \<Rightarrow> bool" where
  "started ev \<longleftrightarrow> Start \<in> set ev"

text \<open>The process is gone: it was waited for without a limit, or was seen not alive after the last
  event that could end it.\<close>

definition reaped :: "sandbox_world \<Rightarrow> sandbox_event list \<Rightarrow> bool" where
  "reaped W ev \<longleftrightarrow> Join \<in> set ev \<or> (Recv \<in> set ev \<and> \<not> sw_alive_after_recv W) \<or>
     (JoinOneSecond \<in> set ev \<and> \<not> sw_alive_after_terminate W)"

text \<open>C34: What the sandbox does with a piece of code. Refused code starts no process. Otherwise, with the worker of the source on the other end of the pipe, one process is started, its end of the pipe and the parent's are each closed once, and the process is gone when the call returns or raises, whatever happened. The value returned is the \<open>result\<close> the code left, and only if the answer came in time; an exception of the code becomes a security error for an ImportError and an execution error otherwise; running out of time is a timeout error; and a worker that ends without a message, for instance on SystemExit, makes EOFError escape, which is none of the documented errors.\<close>

theorem sandbox_outcome:
  assumes "sw_recv W = pipe (worker parse run code)"
  shows "case execute_code parse shown W code of (ev, r) \<Rightarrow>
     (started ev \<longleftrightarrow> validate_ast parse code = Inr ()) \<and>
     (started ev \<longrightarrow> count_list ev Start = 1 \<and> count_list ev CloseChild = 1 \<and> count_list ev CloseParent = 1 \<and> reaped W ev) \<and>
     r = (case validate_ast parse code of
            Inl e \<Rightarrow> Inl e
          | Inr _ \<Rightarrow>
              if \<not> sw_poll W then Inl (CodeActTimeoutError (timeout_message shown))
              else case run code of
                     Some (Inr locals) \<Rightarrow> Inr (dget_or locals ''result'' PNone)
                   | Some (Inl (msg, ty)) \<Rightarrow>
                       Inl (if ty = ''CodeActSecurityError'' then CodeActSecurityError msg
                            else if ty = ''ImportError'' then CodeActSecurityError (''Import error: '' @ msg)
                            else CodeActExecutionError (ty @ '': '' @ msg))
                   | None \<Rightarrow> Inl (SandboxRaised (PyError (OtherError ''EOFError''))))"
proof (cases "validate_ast parse code")
  case (Inl e)
  then show ?thesis by (simp add: execute_code_def started_def)
next
  case (Inr u)
  have recv: "sw_recv W = (case run code of
      Some (Inr locals) \<Rightarrow> Inr (Success (dget_or locals ''result'' PNone))
    | Some (Inl (msg, ty)) \<Rightarrow> Inr (Failure msg ty)
    | None \<Rightarrow> Inl (PyError (OtherError ''EOFError'')))"
    using assms Inr by (auto simp: worker_def pipe_def split: option.splits sum.splits)
  show ?thesis
    by (cases "sw_poll W"; cases "run code")
      (auto simp: execute_code_def Inr recv started_def reaped_def message_result_def split: sum.splits prod.splits)
qed

lemma sandbox_outcome_witness:
  "execute_code (\<lambda>_. Inr escape_tree) ''5.0'' \<lparr>sw_poll = True, sw_recv = Inr (Success (PInt 0)),
      sw_alive_after_recv = False, sw_alive_after_terminate = False\<rparr> ''...''
     = ([Start, CloseChild, Poll, Recv, Join, CloseParent], Inr (PInt 0))"
proof -
  let ?W = "\<lparr>sw_poll = True, sw_recv = Inr (Success (PInt 0)), sw_alive_after_recv = False, sw_alive_after_terminate = False\<rparr>"
  have v: "validate_ast (\<lambda>_. Inr escape_tree) ''...'' = Inr ()" by code_simp
  then have w: "sw_recv ?W = pipe (worker (\<lambda>_. Inr escape_tree) (\<lambda>_. Some (Inr [(''result'', PInt 0)])) ''...'')"
    by (simp add: worker_def pipe_def)
  show ?thesis
    using sandbox_outcome [OF w, of "''5.0''"] by (simp add: execute_code_def v)
qed

section \<open>The builtins\<close>

lemma restricted_builtins_ok:
  "set (restricted_builtins names) \<inter> set blocked_builtins = {} \<and> ''__import__'' \<in> set (restricted_builtins names)"
  by (auto simp: restricted_builtins_def blocked_builtins_def)

lemma restricted_import_only_allowed:
  "restricted_import imp name = Imported m \<Longrightarrow> module_root name \<in> set allowed_modules \<and> imp name = Inr m"
  by (auto simp: restricted_import_def split: if_splits sum.splits)

end
