(* ===== verification/Runner.thy ===== *)
theory Runner
  imports Metrics Incident
begin

text \<open>
  The graph runner, \<^verbatim>\<open>api/runner.py\<close>: preparing an incident from an alert, bounding a graph run by the wall
  clock, the background tasks, reading checkpoints, and the resumption of a paused incident. The
  identifiers, the clock, the checkpointer's answers, the end of a graph stream and the time it
  takes are arguments; the graph itself is \<open>gstep\<close>. The validation of the metadata model is written
  out. \<open>checkpoint_values\<close> is what a checkpoint shows of a graph state.
\<close>

section \<open>Preparing an incident\<close>

record runner =
  rn_has_checkpointer :: bool
  rn_has_sre :: bool
  rn_has_graph :: bool
  rn_max_wall :: int

definition make_runner :: "bool \<Rightarrow> bool \<Rightarrow> bool \<Rightarrow> int \<Rightarrow> exn + runner" where
  "make_runner checkpointer sre graph max_wall =
     (if max_wall \<le> 0 then Inl (PyError (ValueError ''max_wall_clock_seconds must be greater than zero''))
      else Inr \<lparr>rn_has_checkpointer = checkpointer, rn_has_sre = sre, rn_has_graph = graph, rn_max_wall = max_wall\<rparr>)"

record run_config =
  cf_thread_id :: string
  cf_sre :: bool
  cf_graph :: bool
  cf_metrics :: "run_metrics option"

definition build_config :: "runner \<Rightarrow> string \<Rightarrow> run_metrics option \<Rightarrow> run_config" where
  "build_config R incident_id metrics =
     \<lparr>cf_thread_id = incident_id, cf_sre = rn_has_sre R, cf_graph = rn_has_graph R, cf_metrics = metrics\<rparr>"

definition text_dict :: "pyval \<Rightarrow> exn + (string, string) dict" where
  "text_dict v =
     (case v of
        PDict d \<Rightarrow> map_res (\<lambda>(k, x). bind_res (text_field x) (\<lambda>t. Inr (k, t))) d
      | _ \<Rightarrow> Inl (ValidationError ''Input should be a valid dictionary''))"

text \<open>\<open>IncidentMetadata(...)\<close> from the alert\<close>

definition metadata_of :: "string \<Rightarrow> pydict \<Rightarrow> exn + incident_metadata" where
  "metadata_of incident_id alert =
     (let field = (\<lambda>k. text_field (dget_or alert k (PStr [])))
      in bind_res (field ''alert_name'') (\<lambda>name.
         bind_res (field ''service'') (\<lambda>service.
         bind_res (field ''namespace'') (\<lambda>namespace.
         bind_res (field ''severity'') (\<lambda>severity.
         bind_res (field ''started_at'') (\<lambda>started.
         bind_res (field ''fingerprint'') (\<lambda>fingerprint.
         bind_res (field ''description'') (\<lambda>description.
         bind_res (text_dict (dget_or alert ''labels'' (PDict []))) (\<lambda>labels.
         bind_res (text_dict (dget_or alert ''annotations'' (PDict []))) (\<lambda>annotations.
         Inr \<lparr>im_incident_id = incident_id, im_alert_name = name, im_service = service, im_namespace = namespace,
              im_severity = severity, im_started_at = started, im_fingerprint = fingerprint,
              im_description = description, im_labels = labels, im_annotations = annotations\<rparr>))))))))))"

text \<open>The budget is the default of \<open>create_initial_state\<close>.\<close>

definition prepare_incident ::
  "runner \<Rightarrow> string \<Rightarrow> rat \<Rightarrow> pydict \<Rightarrow> exn + string \<times> agent_state \<times> run_config \<times> run_metrics" where
  "prepare_incident R uuid now alert =
     bind_res (metadata_of uuid alert) (\<lambda>m.
       Inr (uuid, create_initial_state now m 3, build_config R uuid (Some zero_metrics), zero_metrics))"

section \<open>Running the graph\<close>

text \<open>A stream ends after a time, or never, by itself, with an interrupt or with an exception.\<close>

datatype stream_end = StreamDone | StreamInterrupted | StreamRaised exn

definition run_timeout :: "runner \<Rightarrow> rat" where
  "run_timeout R = max 1 (of_int (rn_max_wall R) - 5)"

definition wait_for :: "rat \<Rightarrow> rat option \<Rightarrow> stream_end \<Rightarrow> stream_end" where
  "wait_for limit takes e =
     (case takes of
        Some t \<Rightarrow> if t \<le> limit then e else StreamRaised (PyError (TimeoutError []))
      | None \<Rightarrow> StreamRaised (PyError (TimeoutError [])))"

definition execute_graph :: "runner \<Rightarrow> rat option \<Rightarrow> stream_end \<Rightarrow> exn + unit" where
  "execute_graph R takes e =
     (case wait_for (run_timeout R) takes e of
        StreamDone \<Rightarrow> Inr ()
      | StreamInterrupted \<Rightarrow> Inr ()
      | StreamRaised x \<Rightarrow> Inl x)"

definition run_incident :: "runner \<Rightarrow> string \<Rightarrow> rat \<Rightarrow> pydict \<Rightarrow> rat option \<Rightarrow> stream_end \<Rightarrow> exn + string" where
  "run_incident R uuid now alert takes e =
     bind_res (prepare_incident R uuid now alert) (\<lambda>_.
     bind_res (execute_graph R takes e) (\<lambda>_. Inr uuid))"

text \<open>Background tasks: their names, with what is left of each, if it ends at all.\<close>

record bg_task =
  bt_name :: string
  bt_left :: "rat option"

definition schedule_incident ::
  "runner \<Rightarrow> string \<Rightarrow> rat \<Rightarrow> pydict \<Rightarrow> rat option \<Rightarrow> bg_task list \<Rightarrow> (exn + string) \<times> bg_task list" where
  "schedule_incident R uuid now alert takes tasks =
     (case prepare_incident R uuid now alert of
        Inl e \<Rightarrow> (Inl e, tasks)
      | Inr _ \<Rightarrow> (Inr uuid, tasks @ [\<lparr>bt_name = ''autosre-incident-'' @ uuid, bt_left = takes\<rparr>]))"

definition on_task_done :: "string \<Rightarrow> bg_task list \<Rightarrow> bg_task list" where
  "on_task_done name tasks = filter (\<lambda>t. bt_name t \<noteq> name) tasks"

definition ends_within :: "rat \<Rightarrow> bg_task \<Rightarrow> bool" where
  "ends_within timeout t = (case bt_left t of None \<Rightarrow> False | Some left \<Rightarrow> left \<le> timeout)"

text \<open>The tasks that completed and those that were cancelled, with the tasks left.\<close>

definition shutdown_runner :: "rat \<Rightarrow> bg_task list \<Rightarrow> exn + string list \<times> string list \<times> bg_task list" where
  "shutdown_runner timeout tasks =
     (if timeout \<le> 0 then Inl (PyError (ValueError ''timeout must be greater than zero''))
      else let (completed, pending) = (filter (ends_within timeout) tasks, filter (\<lambda>t. \<not> ends_within timeout t) tasks);
               names = map bt_name (completed @ pending)
           in Inr (map bt_name completed, map bt_name pending, fold on_task_done names tasks))"

section \<open>Reading\<close>

datatype saver = NoSaver | NoConnection | PoolConnection bool | PlainConnection bool | OtherConnection string

datatype read_event = Acquire | Query | Commit | Release

text \<open>A query on the checkpointer's connection; the flag is its autocommit mode, and a failing commit
  is suppressed.\<close>

definition read_connection :: "saver \<Rightarrow> exn + 'a \<Rightarrow> read_event list \<times> (exn + 'a)" where
  "read_connection s answer =
     (case s of
        NoSaver \<Rightarrow> ([], Inl (PyError (RuntimeError ''checkpointer is not configured'')))
      | NoConnection \<Rightarrow> ([], Inl (PyError (RuntimeError (''checkpointer has no '' @ [CHR 0x27] @ ''conn'' @ [CHR 0x27] @ '' attribute''))))
      | PoolConnection auto \<Rightarrow> ([Acquire, Query] @ (if auto then [] else [Commit]) @ [Release], answer)
      | PlainConnection auto \<Rightarrow> (Query # (if auto then [] else [Commit]), answer)
      | OtherConnection ty \<Rightarrow> ([], Inl (PyError (RuntimeError (''checkpointer.conn has unsupported type: '' @ ty)))))"

definition extract_thread_id :: "(pyval \<Rightarrow> string) \<Rightarrow> pyval \<Rightarrow> string option" where
  "extract_thread_id rp row =
     (let v = (case row of
                 PDict d \<Rightarrow> dget_or d ''thread_id'' PNone
               | PList (x # _) \<Rightarrow> x
               | PStr (c # _) \<Rightarrow> PStr [c]
               | _ \<Rightarrow> PNone)
      in if v = PNone then None
         else let t = str_strip (py_str rp v) in if t = [] then None else Some t)"

definition get_incident_state :: "(string \<Rightarrow> exn + pyval) \<Rightarrow> string \<Rightarrow> exn + pyval" where
  "get_incident_state aget_state incident_id =
     (if incident_id = [] then Inr PNone
      else case aget_state incident_id of
             Inr st \<Rightarrow> Inr st
           | Inl e \<Rightarrow> if caught_by_exception e then Inr PNone else Inl e)"

fun load_states :: "(string \<Rightarrow> exn + pyval) \<Rightarrow> string list \<Rightarrow> exn + (string \<times> pyval) list" where
  "load_states aget_state [] = Inr []"
| "load_states aget_state (t # ts) =
     (case aget_state t of
        Inr st \<Rightarrow> bind_res (load_states aget_state ts) (\<lambda>xs. Inr (if st = PNone then xs else (t, st) # xs))
      | Inl e \<Rightarrow> if caught_by_exception e then load_states aget_state ts else Inl e)"

text \<open>\<open>rows\<close> is the answer to the query for the most recent threads; a failing query gives no incidents.\<close>

definition runner_list_incidents ::
  "(pyval \<Rightarrow> string) \<Rightarrow> saver \<Rightarrow> (int \<Rightarrow> exn + pyval list) \<Rightarrow> (string \<Rightarrow> exn + pyval) \<Rightarrow> int \<Rightarrow> exn + (string \<times> pyval) list" where
  "runner_list_incidents rp s rows aget_state limit =
     (if limit \<le> 0 then Inl (PyError (ValueError ''limit must be greater than zero''))
      else if s = NoSaver then Inr []
      else case snd (read_connection s (rows limit)) of
             Inl e \<Rightarrow> if caught_by_exception e then Inr [] else Inl e
           | Inr rs \<Rightarrow> load_states aget_state (List.map_filter (extract_thread_id rp) rs))"

section \<open>Approval\<close>

datatype approval = Declined | Resumed pyval

text \<open>\<open>current\<close> is the checkpoint read; \<open>Resumed\<close> carries the value the resumed graph gets.\<close>

definition approve_checkpoint :: "string \<Rightarrow> bool \<Rightarrow> string \<Rightarrow> exn + pyval \<Rightarrow> exn + approval" where
  "approve_checkpoint incident_id approved comment current =
     (if incident_id = [] then Inr Declined
      else case current of
             Inl e \<Rightarrow> if caught_by_exception e then Inr Declined else Inl e
           | Inr st \<Rightarrow>
               (let vs = state_values st
                in if st = PNone \<or> vs = [] then Inr Declined
                   else if \<not> truthy (dget_or vs ''requires_human_approval'' (PBool False)) then Inr Declined
                   else if value_at vs ''approval_granted'' \<noteq> PNone then Inr Declined
                   else Inr (Resumed (PDict [(''approved'', PBool approved), (''comment'', PStr comment)]))))"

text \<open>The resumption in the background: only what \<open>except Exception\<close> lets through ends the task with an
  exception.\<close>

definition resume_graph :: "runner \<Rightarrow> rat option \<Rightarrow> stream_end \<Rightarrow> exn + unit" where
  "resume_graph R takes e =
     (case wait_for (of_int (rn_max_wall R)) takes e of
        StreamRaised x \<Rightarrow> if caught_by_exception x then Inr () else Inl x
      | _ \<Rightarrow> Inr ())"

text \<open>What the webhook is told, and the tasks.\<close>

definition runner_approve_incident ::
  "string \<Rightarrow> bool \<Rightarrow> string \<Rightarrow> exn + pyval \<Rightarrow> rat option \<Rightarrow> bg_task list \<Rightarrow> (exn + bool) \<times> bg_task list" where
  "runner_approve_incident incident_id approved comment current takes tasks =
     (case approve_checkpoint incident_id approved comment current of
        Inl e \<Rightarrow> (Inl e, tasks)
      | Inr Declined \<Rightarrow> (Inr False, tasks)
      | Inr (Resumed _) \<Rightarrow> (Inr True, tasks @ [\<lparr>bt_name = ''autosre-resume-'' @ incident_id, bt_left = takes\<rparr>]))"

section \<open>What a checkpoint shows\<close>

definition dump_proposed :: "proposed_action \<Rightarrow> pydict" where
  "dump_proposed p =
     [(''tool_name'', PStr (pa_tool_name p)), (''tool_args'', PDict (pa_tool_args p)),
      (''risk_tier'', PInt (pa_risk_tier p)), (''rationale'', PStr (pa_rationale p)),
      (''requires_approval'', PBool (pa_requires_approval p))]"

definition checkpoint_values :: "agent_state \<Rightarrow> pydict" where
  "checkpoint_values s =
     [(''messages'', PList (map PDict (s_messages s))), (''incident_metadata'', PDict (dump_metadata (s_metadata s))),
      (''hypotheses'', PList (map PDict (s_hypotheses s))),
      (''proposed_actions'', PList (map (PDict \<circ> dump_proposed) (s_proposed s))),
      (''executed_actions'', PList (map (PDict \<circ> dump_executed) (s_executed s))),
      (''current_phase'', PStr (phase_name (s_phase s))), (''iteration_count'', PInt (s_iteration_count s)),
      (''iteration_budget'', PInt (s_iteration_budget s)), (''last_top_confidence'', PFloat (s_last_top_confidence s)),
      (''stagnation_count'', PInt (s_stagnation_count s)), (''action_attempts'', PInt (s_action_attempts s)),
      (''requires_human_approval'', PBool (s_requires_approval s)),
      (''approval_granted'', opt_value PBool (s_approval_granted s)),
      (''approval_comment'', opt_value PStr (s_approval_comment s)),
      (''approval_requested_at'', opt_value (PFloat \<circ> Fin) (s_approval_requested_at s)),
      (''tokens_used'', PInt (s_tokens_used s)), (''prompt_tokens'', PInt (s_prompt_tokens s)),
      (''completion_tokens'', PInt (s_completion_tokens s)), (''cost_usd'', PFloat (Fin (s_cost s))),
      (''estimated_paid_cost_usd'', PFloat (Fin (s_estimated_cost s))),
      (''model_usage'', usage_dict (s_model_usage s)), (''wall_clock_seconds'', PFloat (Fin (s_wall_clock s))),
      (''backoff_seconds'', PFloat (Fin (s_backoff s))), (''active_seconds'', PFloat (Fin (s_active s))),
      (''approval_wait_seconds'', PFloat (Fin (s_approval_wait s))), (''started_at'', PFloat (Fin (s_started_at s))),
      (''status'', PStr (s_status s)), (''llm_latency_seconds'', opt_value (PFloat \<circ> Fin) (s_llm_latency s))]"

text \<open>\<open>StateSnapshot\<close>\<close>

definition snapshot :: "agent_state \<Rightarrow> pyval" where
  "snapshot s = PObj [(''values'', PDict (checkpoint_values s))]"

lemma state_values_snapshot [simp]: "state_values (snapshot s) = checkpoint_values s"
  by (simp add: state_values_def snapshot_def)

lemma snapshot_neq [simp]: "snapshot s \<noteq> PNone" "checkpoint_values s \<noteq> []"
  by (simp_all add: snapshot_def checkpoint_values_def)

definition decision_value :: "bool \<Rightarrow> string \<Rightarrow> pyval" where
  "decision_value approved comment = PDict [(''approved'', PBool approved), (''comment'', PStr comment)]"

lemma approve_snapshot:
  "approve_checkpoint i approved comment (Inr (snapshot s)) =
     Inr (if i \<noteq> [] \<and> s_requires_approval s \<and> s_approval_granted s = None
          then Resumed (decision_value approved comment) else Declined)"
  by (cases "s_approval_granted s")
    (simp_all add: approve_checkpoint_def checkpoint_values_def value_at_def decision_value_def opt_value_def dget_or_dget Let_def)

lemma decision_value_approves: "decision_approves (decision_value approved comment) = approved"
  by (simp add: decision_approves_def decision_value_def)

section \<open>Every pending approval can be decided\<close>

lemma decide_step:
  fixes inp :: node_input
  assumes "config_inv cx m (Paused s)" "ni_decision inp = Some (decision_value approved comment)"
  shows "\<exists>s'. gstep cx (Paused s) [HumanDecision (decision_value approved comment)]
      (At (if approved then Execute else Complete) s') \<and> s_approval_granted s' = Some approved"
proof -
  obtain p where p: "s_proposed s = [p]" and asked: "s_approval_requested_at s \<noteq> None"
    and req: "s_requires_approval s" "s_approval_granted s = None"
    using assms(1) by (auto simp: acting_def)
  obtain ev r where node: "approve_node cx inp s = (ev, r)" by (cases "approve_node cx inp s")
  then have "gstep cx (Paused s) (HumanDecision (decision_value approved comment) # ev) (follow Approve r s)"
    using assms(2) by (intro gresume) simp_all
  moreover have "ev = [] \<and> (\<exists>s'. follow Approve r s = At (if approved then Execute else Complete) s' \<and>
      s_approval_granted s' = Some approved)"
    using node p asked req assms(2)
    by (auto simp: approve_node_def decision_value_approves follow_def route_after_approval_def finish_with_def Let_def)
  ultimately show ?thesis by auto
qed

text \<open>C35: No approval is lost. When a run of the graph from a fresh incident waits for a decision, the runner's check of the checkpoint accepts either decision under any identifier, the value it resumes the graph with is read as that decision, the graph has a step on it that needs nothing else, the step records the decision and goes on to execution or to completion, and what can still follow is bounded. As the check reads the checkpoint only, it accepts any number of decisions, also contrary ones, until the resumed graph has written a new one.\<close>

theorem pending_approval_decidable:
  fixes inp :: node_input
  assumes "run (gstep cx) (start_config now m b) n tr (Paused s)" "i \<noteq> []"
    and "ni_decision inp = Some (decision_value approved comment)"
  shows "approve_checkpoint i approved comment (Inr (snapshot s)) = Inr (Resumed (decision_value approved comment)) \<and>
    approve_checkpoint i (\<not> approved) comment' (Inr (snapshot s)) = Inr (Resumed (decision_value (\<not> approved) comment')) \<and>
    (\<exists>s'. gstep cx (Paused s) [HumanDecision (decision_value approved comment)]
            (At (if approved then Execute else Complete) s') \<and> s_approval_granted s' = Some approved \<and>
      (\<forall>k tr' d. run (gstep cx) (At (if approved then Execute else Complete) s') k tr' d \<longrightarrow>
         k < 6 * nat (gc_max_attempts cx - s_action_attempts s) + 3))"
proof -
  have inv: "config_inv cx m (Paused s)" using graph_run.run_inv [OF assms(1) start_inv] .
  then have checks: "s_requires_approval s" "s_approval_granted s = None" by simp_all
  from decide_step [OF inv assms(3)] obtain s' where
    step: "gstep cx (Paused s) [HumanDecision (decision_value approved comment)] (At (if approved then Execute else Complete) s')"
    and granted: "s_approval_granted s' = Some approved" by blast
  let ?d = "At (if approved then Execute else Complete) s'"
  have after: "config_inv cx m ?d" "steps_left cx ?d < steps_left cx (Paused s)"
    using graph_run.inv_step [OF inv step] graph_run.decreases [OF inv step] by blast+
  have limit: "steps_left cx (Paused s) = 6 * nat (gc_max_attempts cx - s_action_attempts s) + 3"
    by (simp add: attempts_left_def)
  have "k < 6 * nat (gc_max_attempts cx - s_action_attempts s) + 3" if "run (gstep cx) ?d k tr' d" for k tr' d
    using graph_run.run_bound [OF that after(1)] after(2) limit by linarith
  with step granted checks assms(2) show ?thesis by (auto simp: approve_snapshot)
qed

lemma demo_pauses:
  obtains n tr s where "run (gstep demo_context) (start_config 1 demo_incident 1) n tr (Paused s)"
proof -
  have "case demo_steps demo_context 10 demo_yes 6 demo_start of (n, tr, d) \<Rightarrow> (case d of Paused s \<Rightarrow> True | _ \<Rightarrow> False)"
    by code_simp
  moreover obtain n tr d where r: "demo_steps demo_context 10 demo_yes 6 demo_start = (n, tr, d)" by (metis prod_cases3)
  ultimately obtain s where "d = Paused s" by (cases d) simp_all
  with demo_steps_run [OF r] that show thesis by (simp add: demo_start_def)
qed

lemma pending_approval_decidable_witness:
  "\<exists>n tr s s'. run (gstep demo_context) (start_config 1 demo_incident 1) n tr (Paused s) \<and>
     approve_checkpoint ''INC-1'' True ''ok'' (Inr (snapshot s)) = Inr (Resumed (decision_value True ''ok'')) \<and>
     gstep demo_context (Paused s) [HumanDecision (decision_value True ''ok'')] (At Execute s')"
proof -
  obtain n tr s where r: "run (gstep demo_context) (start_config 1 demo_incident 1) n tr (Paused s)" by (rule demo_pauses)
  from pending_approval_decidable [OF r, where i = "''INC-1''" and inp = "demo_input 20 (Some (decision_value True ''ok''))"
      and approved = True and comment = "''ok''" and comment' = "''no''"]
  have "approve_checkpoint ''INC-1'' True ''ok'' (Inr (snapshot s)) = Inr (Resumed (decision_value True ''ok'')) \<and>
     (\<exists>s'. gstep demo_context (Paused s) [HumanDecision (decision_value True ''ok'')] (At Execute s'))"
    by (auto simp: demo_input_def)
  with r show ?thesis by blast
qed

section \<open>An accepted alert is the incident\<close>

definition alert_metadata :: "string \<Rightarrow> alert_payload \<Rightarrow> incident_metadata" where
  "alert_metadata uuid a =
     \<lparr>im_incident_id = uuid, im_alert_name = al_alert_name a, im_service = al_service a,
      im_namespace = al_namespace a, im_severity = al_severity a, im_started_at = al_started_at a,
      im_fingerprint = al_fingerprint a, im_description = al_description a, im_labels = al_labels a,
      im_annotations = al_annotations a\<rparr>"

lemma text_dict_texts [simp]: "text_dict (PDict (map (\<lambda>(k, v). (k, PStr v)) d)) = Inr d"
proof -
  have "map_res (\<lambda>(k, x). bind_res (text_field x) (\<lambda>t. Inr (k, t))) (map (\<lambda>(k, v). (k, PStr v)) d) = Inr d"
    by (induction d) (auto simp: text_field_def)
  then show ?thesis by (simp add: text_dict_def)
qed

lemma metadata_of_alert: "metadata_of uuid (dump_alert a) = Inr (alert_metadata uuid a)"
  by (simp add: metadata_of_def dump_alert_def alert_metadata_def text_field_def Let_def dget_or_dget)

text \<open>C36: What the webhook accepts is what the graph works on. For the alert the webhook hands over, the runner builds the incident with exactly its fields under the new identifier, and the graph starts with it at triage, under that thread; so in every run of it each executor call is in the alert's namespace, with a tool its category allows and at most Tier 1, and each registry call is in its namespace.\<close>

theorem alert_becomes_incident:
  assumes "run (gstep cx) (At Triage (create_initial_state now (alert_metadata uuid a) 3)) n tr d"
  shows "prepare_incident R uuid now (dump_alert a) =
      Inr (uuid, create_initial_state now (alert_metadata uuid a) 3, build_config R uuid (Some zero_metrics), zero_metrics) \<and>
    start_config now (alert_metadata uuid a) 3 = At Triage (create_initial_state now (alert_metadata uuid a) 3) \<and>
    cf_thread_id (build_config R uuid (Some zero_metrics)) = uuid \<and>
    list_all (effect_ok cx (alert_metadata uuid a)) tr"
proof -
  have start: "start_config now (alert_metadata uuid a) 3 = At Triage (create_initial_state now (alert_metadata uuid a) 3)"
    by (simp add: start_config_def route_initial_phase_def create_initial_state_def)
  have inv: "config_inv cx (alert_metadata uuid a) (At Triage (create_initial_state now (alert_metadata uuid a) 3))"
    using start_inv [of cx "alert_metadata uuid a" now 3] by (simp add: start)
  have "list_all (effect_ok cx (alert_metadata uuid a)) tr"
    by (rule graph_run.trace_all [OF assms inv]) (use step_effects_ok in \<open>auto simp: list_all_iff\<close>)
  with start show ?thesis
    by (simp add: prepare_incident_def metadata_of_alert build_config_def)
qed

definition cpu_alert :: alert_payload where
  "cpu_alert = \<lparr>al_alert_name = ''HighCPU'', al_service = ''order'', al_namespace = ''rivulet'', al_severity = ''critical'',
     al_started_at = ''t0'', al_fingerprint = ''f'', al_description = [],
     al_labels = [(''category'', ''cpu_saturation'')], al_annotations = []\<rparr>"

lemma alert_becomes_incident_witness:
  "\<exists>n tr s. run (gstep demo_context) (At Triage (create_initial_state 1 (alert_metadata ''INC-1'' cpu_alert) 3)) n tr (Ended s) \<and>
     length (calls_seen tr) = 3 \<and> list_all (effect_ok demo_context (alert_metadata ''INC-1'' cpu_alert)) tr"
proof -
  let ?c = "At Triage (create_initial_state 1 (alert_metadata ''INC-1'' cpu_alert) 3)"
  have "case demo_steps demo_context 10 demo_yes 12 ?c of (n, tr, d) \<Rightarrow>
      length (calls_seen tr) = 3 \<and> (case d of Ended s \<Rightarrow> True | _ \<Rightarrow> False)"
    by code_simp
  moreover obtain n tr d where r: "demo_steps demo_context 10 demo_yes 12 ?c = (n, tr, d)" by (metis prod_cases3)
  ultimately obtain s where "d = Ended s" "length (calls_seen tr) = 3" by (cases d) simp_all
  with demo_steps_run [OF r] alert_becomes_incident [OF demo_steps_run [OF r]] show ?thesis by blast
qed

section \<open>The console's reads\<close>

lemma metric_int_PInt [simp]: "metric_int (PInt i) = Inr i"
  by (simp add: metric_int_def py_int_def)

lemma usage_entry_dict [simp]: "usage_entry [(''calls'', PInt c), (''tokens'', PInt t)] = Inr (c, t)"
  by (simp add: usage_entry_def dget_or_dget)

lemma as_model_usage_dict: "\<exists>u'. as_model_usage (usage_dict u) = Inr u'"
proof -
  have "\<exists>u'. as_model_usage_from (map (\<lambda>(m, c, t). (m, PDict [(''calls'', PInt c), (''tokens'', PInt t)])) u) acc = Inr u'" for acc
    by (induction u arbitrary: acc) auto
  then show ?thesis by (simp add: as_model_usage_def usage_dict_def)
qed

lemma common_fields_snapshot: "\<exists>fs. common_fields M i (checkpoint_values s) = Inr fs"
proof -
  obtain u where u: "as_model_usage (usage_dict (s_model_usage s)) = Inr u" using as_model_usage_dict by blast
  have dicts: "dict_list (map (PDict \<circ> f) xs) = Inr (PList (map (PDict \<circ> f) xs))" for f :: "'a \<Rightarrow> pydict" and xs
    by (simp add: dict_list_def list_all_iff)
  show ?thesis
    by (simp add: common_fields_def count_fields_def checkpoint_values_def list_at_def value_at_def dget_or_dget u dicts)
qed

lemma summary_snapshot: "\<exists>x. extract_summary M i (checkpoint_values s) = Inr x"
  using common_fields_snapshot [of M i s] by (auto simp: extract_summary_def)

lemma violations_snapshot: "\<exists>n. count_safety_violations (map (PDict \<circ> dump_executed) es) = Inr n"
  by (induction es) (auto simp: dump_executed_def value_at_def dget_or_dget)

lemma add_incident_snapshot: "\<exists>a'. add_incident M (checkpoint_values s) a = Inr a'"
proof -
  obtain u where u: "as_model_usage (usage_dict (s_model_usage s)) = Inr u" using as_model_usage_dict by blast
  obtain n where n: "count_safety_violations (map (PDict \<circ> dump_executed) (s_executed s)) = Inr n"
    using violations_snapshot by blast
  have reads: "dget_or (checkpoint_values s) ''tokens_used'' d = PInt (s_tokens_used s)"
    "dget_or (checkpoint_values s) ''prompt_tokens'' d = PInt (s_prompt_tokens s)"
    "dget_or (checkpoint_values s) ''completion_tokens'' d = PInt (s_completion_tokens s)"
    "dget_or (checkpoint_values s) ''model_usage'' d = usage_dict (s_model_usage s)"
    "list_at (checkpoint_values s) ''executed_actions'' = map (PDict \<circ> dump_executed) (s_executed s)" for d
    by (simp_all add: checkpoint_values_def dget_or_dget list_at_def value_at_def)
  show ?thesis by (simp add: add_incident_def reads u n Let_def)
qed

text \<open>A checkpointer as \<open>aget_state\<close> documents it: an exception, no state, a state snapshot without
  values (a thread that is unknown or has only just been started), or one with the values of a graph
  state, whatever its other fields.\<close>

definition checkpointer :: "(string \<Rightarrow> exn + pyval) \<Rightarrow> bool" where
  "checkpointer aget_state \<longleftrightarrow>
     (\<forall>t. case aget_state t of
        Inl e \<Rightarrow> caught_by_exception e | Inr v \<Rightarrow> state_values v \<in> insert [] (range checkpoint_values))"

definition all_snapshots :: "(string \<times> pyval) list \<Rightarrow> bool" where
  "all_snapshots states \<longleftrightarrow> list_all (\<lambda>(t, v). state_values v \<in> insert [] (range checkpoint_values)) states"

text \<open>What the runner keeps of a thread: what it could read of it, unless that is nothing.\<close>

definition readable :: "(string \<Rightarrow> exn + pyval) \<Rightarrow> string \<Rightarrow> (string \<times> pyval) option" where
  "readable aget_state t =
     (case aget_state t of Inr v \<Rightarrow> if v = PNone then None else Some (t, v) | Inl e \<Rightarrow> None)"

lemma load_states_checkpointer:
  assumes "checkpointer aget_state"
  shows "load_states aget_state ts = Inr (List.map_filter (readable aget_state) ts) \<and>
    all_snapshots (List.map_filter (readable aget_state) ts)"
proof (induction ts)
  case (Cons t ts)
  have t: "case aget_state t of
      Inl e \<Rightarrow> caught_by_exception e | Inr v \<Rightarrow> state_values v \<in> insert [] (range checkpoint_values)"
    using assms by (simp add: checkpointer_def)
  from Cons t show ?case
    by (cases "aget_state t") (auto simp: all_snapshots_def readable_def map_filter_simps)
qed (simp add: all_snapshots_def map_filter_simps)

lemma non_empty_snapshots:
  "all_snapshots states \<Longrightarrow> list_all (\<lambda>(i, vs). vs \<in> range checkpoint_values) (non_empty_states states)"
  by (auto simp: all_snapshots_def non_empty_states_def list_all_iff)

lemma map_res_all2: "(\<And>x. x \<in> set xs \<Longrightarrow> \<exists>y. f x = Inr y \<and> P x y) \<Longrightarrow> \<exists>ys. map_res f xs = Inr ys \<and> list_all2 P xs ys"
proof (induction xs)
  case (Cons x xs)
  from Cons.prems [of x] obtain y where "f x = Inr y" "P x y" by auto
  moreover from Cons obtain ys where "map_res f xs = Inr ys \<and> list_all2 P xs ys" by auto
  ultimately show ?case by auto
qed simp

lemma summary_names: "extract_summary M i vs = Inr x \<Longrightarrow> dget x ''incident_id'' = Some (PStr i)"
  by (auto simp: extract_summary_def common_fields_def bind_res_Inr_iff dget_def Let_def)

lemma snapshots_summarised:
  assumes "all_snapshots states"
  shows "\<exists>xs. map_res (\<lambda>(i, vs). extract_summary M i vs) (non_empty_states states) = Inr xs \<and>
    list_all2 (\<lambda>p x. dget x ''incident_id'' = Some (PStr (fst p))) (non_empty_states states) xs"
proof (rule map_res_all2)
  fix p assume "p \<in> set (non_empty_states states)"
  then obtain i s where p: "p = (i, checkpoint_values s)"
    using non_empty_snapshots [OF assms] by (cases p) (auto simp: list_all_iff)
  from summary_snapshot [of M i s] summary_names
  show "\<exists>x. (\<lambda>(i, vs). extract_summary M i vs) p = Inr x \<and> dget x ''incident_id'' = Some (PStr (fst p))"
    unfolding p by fastforce
qed

lemma add_incidents_total:
  "list_all (\<lambda>(i, vs). vs \<in> range checkpoint_values) sts \<Longrightarrow> \<exists>a'. add_incidents M sts a = Inr a'"
proof (induction M sts a rule: add_incidents.induct)
  case (2 M i vs rest a)
  then obtain s where vs: "vs = checkpoint_values s" by auto
  obtain b where "add_incident M vs a = Inr b" using add_incident_snapshot vs by blast
  with 2 show ?case by simp
qed simp

lemma snapshots_added:
  "all_snapshots states \<Longrightarrow> \<exists>a. add_incidents M (non_empty_states states) empty_summary = Inr a"
  by (intro add_incidents_total non_empty_snapshots)

lemma report_snapshot:
  assumes "state_values v = checkpoint_values s" "\<And>b. ml_bool M (PBool b) = Inr b"
  shows "\<exists>x. get_incident_report M i (Inr v) = Inr x"
proof -
  obtain fs where fs: "common_fields M i (checkpoint_values s) = Inr fs" using common_fields_snapshot by blast
  have hyps: "dict_list (list_at (checkpoint_values s) ''hypotheses'') = Inr (PList (map PDict (s_hypotheses s)))"
    by (simp add: checkpoint_values_def list_at_def value_at_def dget_or_dget dict_list_def list_all_iff)
  have granted: "value_at (checkpoint_values s) ''approval_granted'' = opt_value PBool (s_approval_granted s)"
    by (simp add: checkpoint_values_def value_at_def dget_or_dget)
  have "v \<noteq> PNone" using assms(1) snapshot_neq(2) [of s] by (cases v) (simp_all add: state_values_def)
  then show ?thesis
    by (cases "s_approval_granted s")
      (simp_all add: get_incident_report_def raised_def fs hyps granted opt_value_def assms Let_def)
qed

text \<open>The threads the query answers, none when there is no connection to ask or it fails.\<close>

definition threads_asked :: "(pyval \<Rightarrow> string) \<Rightarrow> saver \<Rightarrow> exn + pyval list \<Rightarrow> string list" where
  "threads_asked rp sv answer =
     (case answer of
        Inl e \<Rightarrow> []
      | Inr rs \<Rightarrow>
          (case sv of
             PoolConnection auto \<Rightarrow> List.map_filter (extract_thread_id rp) rs
           | PlainConnection auto \<Rightarrow> List.map_filter (extract_thread_id rp) rs
           | _ \<Rightarrow> []))"

lemma runner_lists:
  assumes "checkpointer aget_state" "0 < limit" "case rows limit of Inl e \<Rightarrow> caught_by_exception e | Inr _ \<Rightarrow> True"
  shows "runner_list_incidents rp sv rows aget_state limit =
    Inr (List.map_filter (readable aget_state) (threads_asked rp sv (rows limit)))"
  using load_states_checkpointer [OF assms(1)] assms(2,3)
  by (cases sv; cases "rows limit")
    (auto simp: runner_list_incidents_def read_connection_def caught_by_exception_def threads_asked_def map_filter_simps)

text \<open>C37: Nothing that goes wrong with the checkpointer breaks the console. Against a checkpointer that answers a thread with a state snapshot, with or without values, with nothing or with an ordinary exception, and whatever becomes of the query for the threads, the listing of incidents, the summary of the metrics and the report of any incident are answered, none of them with a server error. The runner keeps the threads asked for that could be read, in order; the listing has one entry for each of them whose snapshot has values, under its thread; the summary counts all of them, those without values too; and a report is there exactly when its thread could be read and has values, and is 404 otherwise.\<close>

theorem console_reads_total:
  assumes "checkpointer aget_state" "0 < limit" "case rows limit of Inl e \<Rightarrow> caught_by_exception e | Inr _ \<Rightarrow> True"
    and "\<And>b. ml_bool M (PBool b) = Inr b"
  shows "let states = List.map_filter (readable aget_state) (threads_asked rp sv (rows limit)) in
      runner_list_incidents rp sv rows aget_state limit = Inr states \<and>
      (\<exists>items. list_incidents M None (Inr states) = Inr [(''items'', PList (map PDict items)), (''total'', PInt (int (length items)))] \<and>
        list_all2 (\<lambda>p x. dget x ''incident_id'' = Some (PStr (fst p))) (filter (\<lambda>(t, v). state_values v \<noteq> []) states) items) \<and>
      (\<exists>summary. get_metrics_summary M (Inr states) = Inr summary \<and>
        dget summary ''total_incidents'' = Some (PInt (int (length states)))) \<and>
      (case get_incident_report M i (get_incident_state aget_state i) of
         Inr _ \<Rightarrow> i \<noteq> [] \<and> (case aget_state i of Inr v \<Rightarrow> state_values v \<noteq> [] | Inl e \<Rightarrow> False)
       | Inl e \<Rightarrow> e = HTTPException 404 (''Incident '' @ i @ '' not found'') \<and>
           (i = [] \<or> (case aget_state i of Inr v \<Rightarrow> state_values v = [] | Inl e \<Rightarrow> True)))"
proof -
  define states where "states = List.map_filter (readable aget_state) (threads_asked rp sv (rows limit))"
  have all: "all_snapshots states" unfolding states_def using load_states_checkpointer [OF assms(1)] by blast
  from snapshots_summarised [OF this, of M] obtain items where
    items: "map_res (\<lambda>(i, vs). extract_summary M i vs) (non_empty_states states) = Inr items"
      "list_all2 (\<lambda>p x. dget x ''incident_id'' = Some (PStr (fst p))) (non_empty_states states) items" by blast
  have "non_empty_states states = map (\<lambda>(t, v). (t, state_values v)) (filter (\<lambda>(t, v). state_values v \<noteq> []) states)"
    by (induction states) (auto simp: non_empty_states_def)
  with items(2) have named: "list_all2 (\<lambda>p x. dget x ''incident_id'' = Some (PStr (fst p)))
      (filter (\<lambda>(t, v). state_values v \<noteq> []) states) items"
    by (simp add: list.rel_map split_beta)
  from snapshots_added [OF all, of M] obtain a where a: "add_incidents M (non_empty_states states) empty_summary = Inr a"
    by blast
  have report: "case get_incident_report M i (get_incident_state aget_state i) of
         Inr _ \<Rightarrow> i \<noteq> [] \<and> (case aget_state i of Inr v \<Rightarrow> state_values v \<noteq> [] | Inl e \<Rightarrow> False)
       | Inl e \<Rightarrow> e = HTTPException 404 (''Incident '' @ i @ '' not found'') \<and>
           (i = [] \<or> (case aget_state i of Inr v \<Rightarrow> state_values v = [] | Inl e \<Rightarrow> True))"
  proof (cases "i = []")
    case True
    then show ?thesis by (simp add: get_incident_state_def get_incident_report_def raised_def)
  next
    case False
    from assms(1) have "case aget_state i of
        Inl e \<Rightarrow> caught_by_exception e | Inr v \<Rightarrow> state_values v \<in> insert [] (range checkpoint_values)"
      by (simp add: checkpointer_def)
    then consider e where "aget_state i = Inl e" "caught_by_exception e"
      | v where "aget_state i = Inr v" "state_values v = []"
      | v s where "aget_state i = Inr v" "state_values v = checkpoint_values s"
      by (auto split: sum.splits)
    then show ?thesis
    proof cases
      case (3 v s)
      from report_snapshot [of v s M i] 3(2) assms(4)
      obtain x where "get_incident_report M i (Inr v) = Inr x" by blast
      with 3 False show ?thesis by (simp add: get_incident_state_def)
    qed (use False in \<open>simp_all add: get_incident_state_def get_incident_report_def raised_def\<close>)
  qed
  have "list_incidents M None (Inr states) = Inr [(''items'', PList (map PDict items)), (''total'', PInt (int (length items)))]"
    by (simp add: list_incidents_def as_500_def items(1) Let_def)
  moreover have "get_metrics_summary M (Inr states) = Inr (summary_response (length states) a)"
    by (simp add: get_metrics_summary_def as_500_def a)
  moreover have "dget (summary_response (length states) a) ''total_incidents'' = Some (PInt (int (length states)))"
    by (simp add: summary_response_def Let_def)
  ultimately show ?thesis
    using runner_lists [where rows = rows and aget_state = aget_state and limit = limit and rp = rp and sv = sv, OF assms(1-3)] named report unfolding Let_def states_def [symmetric] by blast
qed

text \<open>Three threads: one of a graph state, one just started whose snapshot has no values, and one whose
  checkpoint cannot be read.\<close>

definition demo_threads :: "string \<Rightarrow> exn + pyval" where
  "demo_threads t =
     (if t = ''INC-1'' then Inr (snapshot (create_initial_state 1 demo_incident 3))
      else if t = ''INC-2'' then Inr (PObj [(''values'', PDict []), (''next'', PList [])])
      else Inl (PyError (RuntimeError ''gone'')))"

lemma demo_threads_checkpointer: "checkpointer demo_threads"
  by (auto simp: checkpointer_def demo_threads_def caught_by_exception_def state_values_def [of "PObj _"])

definition demo_rows :: "int \<Rightarrow> exn + pyval list" where
  "demo_rows n = Inr (map (\<lambda>t. PDict [(''thread_id'', PStr t)]) [''INC-1'', ''INC-2'', ''INC-3''])"

lemma console_reads_total_witness:
  "\<exists>states item summary. runner_list_incidents (\<lambda>_. []) (PlainConnection False) demo_rows demo_threads 5 = Inr states \<and>
     map fst states = [''INC-1'', ''INC-2''] \<and>
     list_incidents demo_metrics None (Inr states) = Inr [(''items'', PList [PDict item]), (''total'', PInt 1)] \<and>
     dget item ''incident_id'' = Some (PStr ''INC-1'') \<and>
     get_metrics_summary demo_metrics (Inr states) = Inr summary \<and> dget summary ''total_incidents'' = Some (PInt 2)"
proof -
  have lib: "ml_bool demo_metrics (PBool b) = Inr b" for b by (simp add: demo_metrics_def)
  have threads: "threads_asked (\<lambda>_. []) (PlainConnection False) (demo_rows 5) = [''INC-1'', ''INC-2'', ''INC-3'']"
    by (simp add: threads_asked_def demo_rows_def map_filter_simps extract_thread_id_def dget_or_dget Let_def
        py_str_def no_space_strip is_space_def)
  have states: "List.map_filter (readable demo_threads) [''INC-1'', ''INC-2'', ''INC-3''] =
      [(''INC-1'', snapshot (create_initial_state 1 demo_incident 3)),
       (''INC-2'', PObj [(''values'', PDict []), (''next'', PList [])])]"
    by (simp add: map_filter_simps readable_def demo_threads_def)
  have empty: "state_values (PObj [(''values'', PDict []), (''next'', PList [])]) = []"
    by (simp add: state_values_def)
  have rows: "case demo_rows 5 of Inl e \<Rightarrow> caught_by_exception e | Inr _ \<Rightarrow> True" by (simp add: demo_rows_def)
  have "0 < (5 :: int)" by simp
  from console_reads_total [where aget_state = demo_threads and rows = demo_rows and limit = 5 and M = demo_metrics
      and rp = "\<lambda>_. []" and sv = "PlainConnection False" and i = "''INC-1''", OF demo_threads_checkpointer this rows lib, unfolded threads states Let_def]
  show ?thesis
    by (auto simp: empty list_all2_Cons1)
qed

section \<open>The time a run may take\<close>

lemma execute_graph_in_time:
  "execute_graph R takes e = Inr u \<Longrightarrow> \<exists>t. takes = Some t \<and> t \<le> run_timeout R \<and> (e = StreamDone \<or> e = StreamInterrupted)"
  by (auto simp: execute_graph_def wait_for_def split: option.splits stream_end.splits if_splits)

lemma run_timeout_bounds: "1 \<le> run_timeout R \<and> (6 \<le> rn_max_wall R \<longrightarrow> run_timeout R = of_int (rn_max_wall R) - 5)"
  by (auto simp: run_timeout_def)

text \<open>A query on a connection outside autocommit is followed by a commit.\<close>

lemma read_commits:
  "s = PlainConnection False \<or> s = PoolConnection False \<Longrightarrow>
     \<exists>xs ys. fst (read_connection s answer) = xs @ [Query, Commit] @ ys"
  by (auto simp: read_connection_def intro: exI [of _ "[]"] exI [of _ "[Acquire]"])

text \<open>After a shutdown no task it saw is left, and each was completed or cancelled.\<close>

lemma shutdown_drains:
  assumes "shutdown_runner timeout tasks = Inr (completed, cancelled, left)"
  shows "left = [] \<and> mset (completed @ cancelled) = mset (map bt_name tasks)"
proof -
  have drop: "fold on_task_done names ts = filter (\<lambda>t. bt_name t \<notin> set names) ts" for names ts
    by (induction names arbitrary: ts) (auto simp: on_task_done_def intro: filter_cong)
  have "mset (filter (ends_within timeout) tasks) + mset (filter (\<lambda>t. \<not> ends_within timeout t) tasks) = mset tasks"
    by (induction tasks) auto
  then have "mset (map bt_name (filter (ends_within timeout) tasks)) +
      mset (map bt_name (filter (\<lambda>t. \<not> ends_within timeout t) tasks)) = mset (map bt_name tasks)"
    by (metis image_mset_union mset_map)
  moreover have "filter (\<lambda>t. bt_name t \<notin> bt_name ` {t \<in> set tasks. ends_within timeout t} \<union>
      bt_name ` {t \<in> set tasks. \<not> ends_within timeout t}) tasks = []"
    by (auto simp: filter_empty_conv)
  ultimately show ?thesis
    using assms by (auto simp: shutdown_runner_def drop image_Un [symmetric] filter_empty_conv split: if_splits)
qed

end
