(* ===== verification/Access.thy ===== *)
theory Access
  imports Runner
begin

text \<open>
  The config of a run as the nodes read it: \<open>_build_config\<close> of \<^verbatim>\<open>api/runner.py\<close> as the mapping it
  returns, and the readers \<open>get_graph_context\<close> (\<^verbatim>\<open>core/graph_helpers.py\<close>), \<open>_get_run_metrics\<close>,
  \<open>_get_sre_context\<close> and \<open>_incident_metadata\<close> (\<^verbatim>\<open>core/graph_nodes.py\<close>). A reader accepts any value in the
  place of the config; the other theories work with the record \<open>run_config\<close>.
\<close>

datatype config_value =
    CMapping "(string \<times> config_value) list"
  | CMetrics run_metrics
  | CGraphContext graph_context
  | CSreContext
  | CText string
  | CNone

definition config_get :: "(string \<times> config_value) list \<Rightarrow> string \<Rightarrow> config_value" where
  "config_get d k = dget_or d k CNone"

definition get_graph_context :: "config_value \<Rightarrow> py_error + graph_context" where
  "get_graph_context v =
     (case v of
        CMapping d \<Rightarrow>
          (case (case config_get d ''configurable'' of CNone \<Rightarrow> CMapping [] | CText [] \<Rightarrow> CMapping [] | w \<Rightarrow> w) of
             CMapping c \<Rightarrow>
               (case config_get c ''graph_context'' of
                  CGraphContext cx \<Rightarrow> Inr cx
                | _ \<Rightarrow> Inl (ValueError ''GraphContext must be provided in config['configurable']['graph_context']''))
           | _ \<Rightarrow> Inl (ValueError ''config['configurable'] must be a mapping''))
      | _ \<Rightarrow> Inl (ValueError ''RunnableConfig must be a mapping''))"

definition get_run_metrics :: "config_value \<Rightarrow> run_metrics option" where
  "get_run_metrics v =
     (case v of
        CMapping d \<Rightarrow>
          (case config_get d ''configurable'' of
             CMapping c \<Rightarrow> (case config_get c ''run_metrics'' of CMetrics m \<Rightarrow> Some m | _ \<Rightarrow> None)
           | _ \<Rightarrow> None)
      | _ \<Rightarrow> None)"

text \<open>Whether there is one.\<close>

definition get_sre_context :: "config_value \<Rightarrow> bool" where
  "get_sre_context v =
     (case v of
        CMapping d \<Rightarrow>
          (case config_get d ''configurable'' of
             CMapping c \<Rightarrow> config_get c ''sre_context'' = CSreContext
           | _ \<Rightarrow> False)
      | _ \<Rightarrow> False)"

definition metadata_in :: "pydict \<Rightarrow> pydict" where
  "metadata_in state = (case dget_or state ''incident_metadata'' PNone of PDict d \<Rightarrow> d | _ \<Rightarrow> [])"

text \<open>\<open>_build_config\<close>: the keys are there when the runner has what belongs under them.\<close>

definition config_mapping :: "graph_context \<Rightarrow> run_config \<Rightarrow> config_value" where
  "config_mapping cx c =
     CMapping [(''configurable'', CMapping
       ([(''thread_id'', CText (cf_thread_id c))] @
        (if cf_sre c then [(''sre_context'', CSreContext)] else []) @
        (if cf_graph c then [(''graph_context'', CGraphContext cx)] else []) @
        (case cf_metrics c of None \<Rightarrow> [] | Some m \<Rightarrow> [(''run_metrics'', CMetrics m)])))]"

text \<open>What the runner puts in is what a node reads.\<close>

lemma config_read_back:
  "get_run_metrics (config_mapping cx (build_config R i m)) = m"
  "get_sre_context (config_mapping cx (build_config R i m)) \<longleftrightarrow> rn_has_sre R"
  "rn_has_graph R \<Longrightarrow> get_graph_context (config_mapping cx (build_config R i m)) = Inr cx"
  "\<not> rn_has_graph R \<Longrightarrow> \<exists>e. get_graph_context (config_mapping cx (build_config R i m)) = Inl e"
  by (auto simp: get_run_metrics_def get_sre_context_def get_graph_context_def config_mapping_def build_config_def config_get_def
      split: option.splits)

lemma metadata_in_checkpoint: "metadata_in (checkpoint_values s) = dump_metadata (s_metadata s)"
  by (simp add: metadata_in_def checkpoint_values_def)

end
