(* ===== verification/Endpoint.thy ===== *)
theory Endpoint
  imports Config Regex
begin

text \<open>
  What the telemetry of \<^verbatim>\<open>telemetry/otel.py\<close> builds and filters: the collector's address, the resource and
  the exporter, the log filter, and the patched methods of a span. The reading and writing of URLs by
  \<^verbatim>\<open>urllib.parse\<close> is written out for ASCII text; the check of an address in brackets, which the library
  leaves to \<^verbatim>\<open>ipaddress\<close>, is an argument. The version is that of the package.
\<close>

section \<open>Reading and writing a URL\<close>

record url =
  u_scheme :: string
  u_netloc :: string
  u_path :: string
  u_params :: string
  u_query :: string
  u_fragment :: string

definition dropped_char :: "char \<Rightarrow> bool" where
  "dropped_char c = (c \<in> {CHR 0x09, CHR 0x0A, CHR 0x0D})"

definition scheme_char :: "char \<Rightarrow> bool" where
  "scheme_char c = (is_alpha c \<or> is_digit c \<or> c \<in> {CHR ''+'', CHR ''-'', CHR ''.''})"

definition read_scheme :: "string \<Rightarrow> string \<times> string" where
  "read_scheme u =
     (case split_once (CHR '':'') u of
        (s, Some rest) \<Rightarrow> if s \<noteq> [] \<and> is_alpha (hd s) \<and> list_all scheme_char s then (str_lower s, rest) else ([], u)
      | (s, None) \<Rightarrow> ([], u))"

definition ends_netloc :: "char \<Rightarrow> bool" where
  "ends_netloc c = (c \<in> {CHR ''/'', CHR ''?'', CHR ''#''})"

definition read_netloc :: "string \<Rightarrow> string \<times> string" where
  "read_netloc u =
     (if str_startswith u ''//'' then (takeWhile (\<lambda>c. \<not> ends_netloc c) (drop 2 u), dropWhile (\<lambda>c. \<not> ends_netloc c) (drop 2 u))
      else ([], u))"

definition cut :: "char \<Rightarrow> string \<Rightarrow> string \<times> string" where
  "cut c s = (case split_once c s of (a, None) \<Rightarrow> (a, []) | (a, Some b) \<Rightarrow> (a, b))"

text \<open>The parameters stand behind the first semicolon of the last segment.\<close>

definition last_segment :: "string \<Rightarrow> string" where
  "last_segment path = rev (takeWhile (\<lambda>c. c \<noteq> CHR ''/'') (rev path))"

definition before_last :: "string \<Rightarrow> string" where
  "before_last path = rev (dropWhile (\<lambda>c. c \<noteq> CHR ''/'') (rev path))"

definition split_params :: "string \<Rightarrow> string \<times> string" where
  "split_params path = (case cut (CHR '';'') (last_segment path) of (a, params) \<Rightarrow> (before_last path @ a, params))"

definition uses_params :: "string list" where
  "uses_params = [[], ''ftp'', ''hdl'', ''prospero'', ''http'', ''imap'', ''https'', ''shttp'', ''rtsp'', ''rtsps'',
     ''rtspu'', ''sip'', ''sips'', ''mms'', ''sftp'', ''tel'']"

definition urlparse :: "(string \<Rightarrow> py_error option) \<Rightarrow> string \<Rightarrow> py_error + url" where
  "urlparse brackets text =
     (let u = filter (\<lambda>c. \<not> dropped_char c) (dropWhile (\<lambda>c. of_char c \<le> (32 :: nat)) text);
          (scheme, rest) = read_scheme u;
          (netloc, rest) = read_netloc rest
      in if (CHR ''['' \<in> set netloc) \<noteq> (CHR '']'' \<in> set netloc) then Inl (ValueError ''Invalid IPv6 URL'')
         else case (if CHR ''['' \<in> set netloc then brackets netloc else None) of
                Some e \<Rightarrow> Inl e
              | None \<Rightarrow>
                  (let (rest, fragment) = cut (CHR ''#'') rest;
                       (path, query) = cut (CHR ''?'') rest;
                       (path, params) = (if scheme \<in> set uses_params then split_params path else (path, []))
                   in Inr \<lparr>u_scheme = scheme, u_netloc = netloc, u_path = path, u_params = params,
                           u_query = query, u_fragment = fragment\<rparr>))"

text \<open>\<open>urlunparse\<close> of a URL with a host.\<close>

definition with_part :: "char \<Rightarrow> string \<Rightarrow> string" where
  "with_part c s = (if s = [] then [] else c # s)"

definition urlunparse :: "url \<Rightarrow> string" where
  "urlunparse u =
     (let path = u_path u @ with_part (CHR '';'') (u_params u);
          path = (if path \<noteq> [] \<and> hd path \<noteq> CHR ''/'' then CHR ''/'' # path else path)
      in u_scheme u @ ''://'' @ u_netloc u @ path @ with_part (CHR ''?'') (u_query u) @ with_part (CHR ''#'') (u_fragment u))"

section \<open>The address of the collector\<close>

definition strip_char :: "char \<Rightarrow> string \<Rightarrow> string" where
  "strip_char c s = rstrip_char c (dropWhile (\<lambda>x. x = c) s)"

definition final_path :: "string \<Rightarrow> string \<Rightarrow> string" where
  "final_path current signal =
     (let normal = rstrip_char (CHR ''/'') current
      in if normal = rstrip_char (CHR ''/'') signal \<or> str_endswith normal (rstrip_char (CHR ''/'') signal)
         then (if current = [] then signal else current)
         else if normal \<noteq> [] then normal @ signal else signal)"

definition build_endpoint :: "(string \<Rightarrow> py_error option) \<Rightarrow> string \<Rightarrow> string \<Rightarrow> py_error + string" where
  "build_endpoint brackets base signal_path =
     (if base = [] \<or> str_strip base = [] then Inl (ValueError ''OTLP endpoint must not be empty'')
      else bind_res (urlparse brackets (str_strip base)) (\<lambda>u.
        if u_scheme u \<notin> {''http'', ''https''} \<or> u_netloc u = []
        then Inl (ValueError (''OTLP endpoint must be an absolute HTTP(S) URL: '' @ repr_str (str_strip base)))
        else let signal = CHR ''/'' # strip_char (CHR ''/'') signal_path
             in if signal = ''/'' then Inl (ValueError ''OTLP signal path must not be empty'')
                else Inr (urlunparse (u\<lparr>u_path := final_path (u_path u) signal\<rparr>))))"

section \<open>The resource and the exporter\<close>

definition required_resource_attributes :: "string list" where
  "required_resource_attributes = [''service.name'', ''service.namespace'', ''deployment.environment.name'', ''service.version'']"

definition build_resource :: "string \<Rightarrow> settings \<Rightarrow> (string, string) dict" where
  "build_resource version s =
     [(''service.name'', ot_service_name (st_otel s)), (''service.namespace'', ''autosre''),
      (''deployment.environment.name'', st_environment s),
      (''service.version'', if version = [] then ''unknown'' else version)]"

record exporter =
  xp_endpoint :: string
  xp_headers :: "(string, string) dict option"
  xp_timeout :: nat

definition otlp_export_timeout_seconds :: nat where
  "otlp_export_timeout_seconds = 10"

definition build_exporter :: "(string \<Rightarrow> py_error option) \<Rightarrow> settings \<Rightarrow> py_error + exporter" where
  "build_exporter brackets s =
     bind_res (build_endpoint brackets (ot_endpoint (st_otel s)) ''/v1/traces'') (\<lambda>endpoint.
       let headers = parsed_headers (ot_headers (st_otel s))
       in Inr \<lparr>xp_endpoint = endpoint, xp_headers = (if headers = [] then None else Some headers),
               xp_timeout = otlp_export_timeout_seconds\<rparr>)"

section \<open>The log filter\<close>

definition lit :: "string \<Rightarrow> rx" where
  "lit s = foldr (\<lambda>c r. Cat (Class ((=) c)) r) s Nothing"

definition decimal_rx :: rx where
  "decimal_rx = cat [some_of is_digit, lit ''.'', some_of is_digit]"

definition noisy_log_patterns :: "rx list" where
  "noisy_log_patterns =
     [cat [lit ''confidence '', decimal_rx, lit '' < '', decimal_rx],
      ilit ''confidence below threshold'', ilit ''confidence too low'', lit ''Top hypothesis confidence'',
      cat [ilit ''Propose LLM call failed'', Many (\<lambda>c. c \<noteq> CHR 0x0A), ilit ''confidence''],
      ilit ''LLM unavailable or low confidence'', ilit ''Fallback action for category'', ilit ''Using fallback action'',
      lit ''Pausing for HITL approval'', lit ''HITL wait time'', lit ''HITL decision received'',
      lit ''Recording approval_requested_at'', lit ''Approval already granted'', lit ''Approval already denied'',
      lit ''GraphInterrupt'']"

definition noise_filter :: "string \<Rightarrow> bool" where
  "noise_filter message = list_all (\<lambda>p. \<not> found p message) noisy_log_patterns"

definition noisy_loggers :: "string list" where
  "noisy_loggers = [''autosre.core.graph_nodes'', ''autosre.api.runner'', ''autosre.core.graph_helpers'', ''langgraph'',
     ''langgraph.errors'']"

text \<open>How many filters of this class each logger has; each patched class carries a mark of its own.\<close>

definition add_once :: "string \<Rightarrow> (string \<Rightarrow> nat) \<Rightarrow> string \<Rightarrow> nat" where
  "add_once name counts = (if counts name = 0 then counts(name := 1) else counts)"

definition install_noise_filters :: "(string \<Rightarrow> nat) \<Rightarrow> string \<Rightarrow> nat" where
  "install_noise_filters counts = fold add_once noisy_loggers counts"

section \<open>The patched span\<close>

datatype status_code = Unset | Ok | Error

datatype span_status = CodeOnly status_code | Status status_code "string option"

datatype span_exception = GraphInterrupt | OtherException string

text \<open>What reaches the methods that were replaced, and the flag on the span, where a span may carry one.\<close>

record trace_span =
  sp_custom :: bool
  sp_suppress :: bool
  sp_exceptions :: "span_exception list"
  sp_statuses :: "(span_status \<times> string option) list"

definition set_suppress :: "bool \<Rightarrow> trace_span \<Rightarrow> trace_span" where
  "set_suppress b s = (if sp_custom s then s\<lparr>sp_suppress := b\<rparr> else s)"

definition filtered_record_exception :: "span_exception \<Rightarrow> trace_span \<Rightarrow> trace_span" where
  "filtered_record_exception e s =
     (if e = GraphInterrupt then set_suppress True s else s\<lparr>sp_exceptions := sp_exceptions s @ [e]\<rparr>)"

definition status_text :: "span_status \<Rightarrow> string option \<Rightarrow> string" where
  "status_text st description =
     (let desc = (case description of Some d \<Rightarrow> d | None \<Rightarrow> [])
      in if desc = [] then (case st of Status c (Some d) \<Rightarrow> d | _ \<Rightarrow> []) else desc)"

definition mentions_interrupt :: "string \<Rightarrow> bool" where
  "mentions_interrupt desc = (str_contains desc ''GraphInterrupt'' \<or> str_contains desc ''Interrupt('')"

definition is_error_status :: "span_status \<Rightarrow> bool" where
  "is_error_status st = (case st of CodeOnly c \<Rightarrow> c = Error | Status c d \<Rightarrow> c = Error)"

definition filtered_set_status :: "span_status \<Rightarrow> string option \<Rightarrow> trace_span \<Rightarrow> trace_span" where
  "filtered_set_status st description s =
     (if mentions_interrupt (status_text st description) then set_suppress False s
      else if is_error_status st \<and> sp_suppress s then set_suppress False s
      else s\<lparr>sp_statuses := sp_statuses s @ [(st, description)]\<rparr>)"

section \<open>A URL that was read is written and read back\<close>

lemma until_append:
  "c \<notin> set b \<Longrightarrow> takeWhile (\<lambda>x. x \<noteq> c) (b @ r) = b @ takeWhile (\<lambda>x. x \<noteq> c) r \<and> dropWhile (\<lambda>x. x \<noteq> c) (b @ r) = dropWhile (\<lambda>x. x \<noteq> c) r"
  by (induction b) auto

lemma cut_append: "c \<notin> set a \<Longrightarrow> cut c (a @ c # b) = (a, b)"
  by (simp add: cut_def split_once_append)

lemma cut_absent: "c \<notin> set a \<Longrightarrow> cut c a = (a, [])"
proof -
  assume "c \<notin> set a"
  then have "dropWhile (\<lambda>x. x \<noteq> c) a = []" by (induction a) auto
  then show ?thesis by (simp only: cut_def split_once_def list.case prod.case option.case)
qed

lemma cut_part: "c \<notin> set a \<Longrightarrow> cut c (a @ with_part c b) = (a, b)"
  by (simp add: with_part_def cut_append cut_absent)

lemma cut_parts: "cut c s = (a, b) \<Longrightarrow> c \<notin> set a \<and> set a \<subseteq> set s \<and> set b \<subseteq> set s \<and> (\<exists>r. s = a @ r)"
proof -
  assume cut: "cut c s = (a, b)"
  have s: "s = takeWhile (\<lambda>x. x \<noteq> c) s @ dropWhile (\<lambda>x. x \<noteq> c) s" by simp
  have "c \<notin> set (takeWhile (\<lambda>x. x \<noteq> c) s)" by (auto dest: set_takeWhileD)
  moreover have "dropWhile (\<lambda>x. x \<noteq> c) s = [] \<Longrightarrow> takeWhile (\<lambda>x. x \<noteq> c) s = s" using s by simp
  moreover have "set (tl (dropWhile (\<lambda>x. x \<noteq> c) s)) \<subseteq> set s"
    by (metis list.set_sel(2) set_dropWhileD subsetI tl_Nil)
  ultimately show ?thesis
    using cut s by (cases "dropWhile (\<lambda>x. x \<noteq> c) s") (auto simp: cut_def split_once_def dest: set_takeWhileD)
qed

lemma segments: "before_last path @ last_segment path = path" "CHR ''/'' \<notin> set (last_segment path)"
  "before_last path = [] \<or> last (before_last path) = CHR ''/''"
proof -
  have "rev (before_last path @ last_segment path) = rev path" by (simp add: before_last_def last_segment_def)
  then show "before_last path @ last_segment path = path" by (metis rev_rev_ident)
  show "CHR ''/'' \<notin> set (last_segment path)" by (auto simp: last_segment_def dest: set_takeWhileD)
  show "before_last path = [] \<or> last (before_last path) = CHR ''/''"
    using hd_dropWhile [of "\<lambda>c. c \<noteq> CHR ''/''" "rev path"] by (auto simp: before_last_def last_rev)
qed

lemma last_segment_slash [simp]: "CHR ''/'' \<notin> set b \<Longrightarrow> last_segment (a @ CHR ''/'' # b) = b"
  using until_append [of "CHR ''/''" "rev b" "CHR ''/'' # rev a"] by (simp add: last_segment_def)

lemma last_segment_append:
  "CHR ''/'' \<notin> set b \<Longrightarrow> last_segment (path @ b) = last_segment path @ b \<and> before_last (path @ b) = before_last path"
  using until_append [of "CHR ''/''" "rev b" "rev path"] by (simp add: last_segment_def before_last_def)

lemma split_params_part:
  assumes "CHR '';'' \<notin> set (last_segment path)" "CHR ''/'' \<notin> set params"
  shows "split_params (path @ with_part (CHR '';'') params) = (path, params)"
proof -
  have "CHR ''/'' \<notin> set (with_part (CHR '';'') params)" using assms(2) by (simp add: with_part_def)
  from last_segment_append [OF this, of path] show ?thesis
    using cut_part [OF assms(1), of params] segments(1) [of path] by (simp add: split_params_def)
qed

text \<open>What a URL that can be read back has.\<close>

definition url_ok :: "(string \<Rightarrow> py_error option) \<Rightarrow> url \<Rightarrow> bool" where
  "url_ok brackets u \<longleftrightarrow>
     u_scheme u \<in> {''http'', ''https''} \<and> u_netloc u \<noteq> [] \<and> list_all (\<lambda>c. \<not> ends_netloc c) (u_netloc u) \<and>
     (CHR ''['' \<in> set (u_netloc u)) = (CHR '']'' \<in> set (u_netloc u)) \<and>
     (CHR ''['' \<in> set (u_netloc u) \<longrightarrow> brackets (u_netloc u) = None) \<and>
     (u_path u = [] \<or> hd (u_path u) = CHR ''/'') \<and> set (u_path u) \<inter> {CHR ''?'', CHR ''#''} = {} \<and>
     CHR '';'' \<notin> set (last_segment (u_path u)) \<and>
     set (u_params u) \<inter> {CHR ''/'', CHR ''?'', CHR ''#''} = {} \<and> CHR ''#'' \<notin> set (u_query u) \<and>
     (\<forall>c \<in> set (u_netloc u @ u_path u @ u_params u @ u_query u @ u_fragment u). \<not> dropped_char c)"

lemma scheme_ok: "u \<in> {''http'', ''https''} \<Longrightarrow>
  u \<noteq> [] \<and> hd u = CHR ''h'' \<and> CHR '':'' \<notin> set u \<and> is_alpha CHR ''h'' \<and> list_all scheme_char u \<and> str_lower u = u \<and>
  u \<in> set uses_params \<and> (\<forall>c \<in> set u. \<not> dropped_char c)"
  by (auto simp: is_alpha_def scheme_char_def str_lower_def lower_char_def uses_params_def dropped_char_def Let_def)

lemma netloc_until:
  assumes "list_all (\<lambda>c. \<not> ends_netloc c) n" "r = [] \<or> ends_netloc (hd r)"
  shows "read_netloc (''//'' @ n @ r) = (n, r)"
proof -
  have "takeWhile (\<lambda>c. \<not> ends_netloc c) (n @ r) = n @ takeWhile (\<lambda>c. \<not> ends_netloc c) r"
    "dropWhile (\<lambda>c. \<not> ends_netloc c) (n @ r) = dropWhile (\<lambda>c. \<not> ends_netloc c) r"
    using assms(1) by (induction n) auto
  moreover have "takeWhile (\<lambda>c. \<not> ends_netloc c) r = []" "dropWhile (\<lambda>c. \<not> ends_netloc c) r = r"
    using assms(2) by (cases r; simp)+
  ultimately show ?thesis by (simp add: read_netloc_def str_startswith_def)
qed

lemma urlparse_urlunparse:
  assumes ok: "url_ok brackets u" and path: "u_path u \<noteq> []"
  shows "urlparse brackets (urlunparse u) = Inr u"
proof -
  let ?tail = "u_path u @ with_part (CHR '';'') (u_params u) @ with_part (CHR ''?'') (u_query u) @ with_part (CHR ''#'') (u_fragment u)"
  let ?body = "u_path u @ with_part (CHR '';'') (u_params u)"
  have slash: "hd (u_path u) = CHR ''/''" using ok path by (simp add: url_ok_def)
  then have whole: "urlunparse u = u_scheme u @ CHR '':'' # ''//'' @ u_netloc u @ ?tail"
    using path by (simp add: urlunparse_def Let_def)
  have scheme: "u_scheme u \<in> {''http'', ''https''}" using ok by (simp add: url_ok_def)
  note s = scheme_ok [OF scheme]
  have "\<not> dropped_char CHR '':'' \<and> \<not> dropped_char CHR ''/'' \<and> \<not> dropped_char CHR '';'' \<and> \<not> dropped_char CHR ''?'' \<and> \<not> dropped_char CHR ''#''"
    by (simp add: dropped_char_def)
  then have "\<forall>c \<in> set (urlunparse u). \<not> dropped_char c"
    unfolding whole using ok s by (auto simp: url_ok_def with_part_def)
  then have clean: "filter (\<lambda>c. \<not> dropped_char c) (urlunparse u) = urlunparse u" by (rule filter_True)
  have start: "dropWhile (\<lambda>c. of_char c \<le> (32 :: nat)) (urlunparse u) = urlunparse u"
    using scheme unfolding whole by auto
  have sch: "read_scheme (urlunparse u) = (u_scheme u, ''//'' @ u_netloc u @ ?tail)"
    using s unfolding whole by (simp add: read_scheme_def split_once_append)
  have "?tail = [] \<or> ends_netloc (hd ?tail)"
    using path slash by (cases "u_path u") (simp_all add: ends_netloc_def)
  then have net: "read_netloc (''//'' @ u_netloc u @ ?tail) = (u_netloc u, ?tail)"
    using ok by (intro netloc_until) (simp_all add: url_ok_def)
  have "CHR ''#'' \<notin> set (?body @ with_part (CHR ''?'') (u_query u))" "CHR ''?'' \<notin> set ?body"
    using ok by (auto simp: url_ok_def with_part_def)
  then have frag: "cut (CHR ''#'') ?tail = (?body @ with_part (CHR ''?'') (u_query u), u_fragment u)"
    and query: "cut (CHR ''?'') (?body @ with_part (CHR ''?'') (u_query u)) = (?body, u_query u)"
    using cut_part [of "CHR ''#''" "?body @ with_part (CHR ''?'') (u_query u)" "u_fragment u"] cut_part [of "CHR ''?''" ?body "u_query u"]
    by simp_all
  have par: "split_params ?body = (u_path u, u_params u)"
    using ok by (intro split_params_part) (auto simp: url_ok_def)
  show ?thesis
    using ok s unfolding urlparse_def Let_def start clean sch net prod.case frag query
    by (simp add: par url_ok_def)
qed

text \<open>What was read has the parts of a URL that can be read back.\<close>

lemma read_scheme_rest: "read_scheme u = (s, r) \<Longrightarrow> set r \<subseteq> set u"
proof -
  assume r: "read_scheme u = (s, r)"
  obtain a b where c: "split_once CHR '':'' u = (a, b)" by (cases "split_once CHR '':'' u")
  have "set y \<subseteq> set u" if "b = Some y" for y
    using c that cut_parts [of "CHR '':''" u a y] by (simp add: cut_def)
  with r c show ?thesis by (auto simp: read_scheme_def split: option.splits if_splits)
qed

lemma read_netloc_rest: "read_netloc u = (n, r) \<Longrightarrow> n \<noteq> [] \<Longrightarrow>
  list_all (\<lambda>c. \<not> ends_netloc c) n \<and> (r = [] \<or> ends_netloc (hd r)) \<and> set n \<subseteq> set u \<and> set r \<subseteq> set u"
proof -
  assume r: "read_netloc u = (n, r)" "n \<noteq> []"
  then have n: "n = takeWhile (\<lambda>c. \<not> ends_netloc c) (drop 2 u)" "r = dropWhile (\<lambda>c. \<not> ends_netloc c) (drop 2 u)"
    by (auto simp: read_netloc_def split: if_splits)
  then show ?thesis
    using hd_dropWhile [of "\<lambda>c. \<not> ends_netloc c" "drop 2 u"]
    by (auto simp: list_all_iff dest: set_takeWhileD set_dropWhileD in_set_dropD)
qed

lemma split_params_parts:
  assumes "split_params path = (a, params)"
  shows "CHR '';'' \<notin> set (last_segment a) \<and> CHR ''/'' \<notin> set params \<and> set a \<subseteq> set path \<and> set params \<subseteq> set path
    \<and> (\<exists>r. path = a @ r)"
proof -
  obtain b where b: "cut CHR '';'' (last_segment path) = (b, params)" "a = before_last path @ b"
    using assms by (auto simp: split_params_def split: prod.splits)
  note c = cut_parts [OF b(1)] and s = segments [of path]
  then have no: "CHR ''/'' \<notin> set b" "CHR ''/'' \<notin> set params" by blast+
  have "last_segment a = b"
  proof (cases "before_last path" rule: rev_cases)
    case Nil
    then show ?thesis using last_segment_append [OF no(1), of "[]"] b(2) by (simp add: last_segment_def)
  next
    case (snoc xs x)
    then show ?thesis using s(3) b(2) no(1) by simp
  qed
  moreover have "set (before_last path) \<union> set (last_segment path) = set path" by (metis s(1) set_append)
  moreover have "\<exists>r. path = a @ r" using c s(1) b(2) by (metis append.assoc)
  ultimately show ?thesis using b(2) c no by auto
qed

lemma urlparse_ok:
  assumes "urlparse brackets t = Inr u" "u_scheme u \<in> {''http'', ''https''}" "u_netloc u \<noteq> []"
  shows "url_ok brackets u"
proof -
  define v where "v = filter (\<lambda>c. \<not> dropped_char c) (dropWhile (\<lambda>c. of_char c \<le> (32 :: nat)) t)"
  obtain s r where r: "read_scheme v = (s, r)" by (cases "read_scheme v")
  obtain n r1 where n: "read_netloc r = (n, r1)" by (cases "read_netloc r")
  obtain r2 f where f: "cut CHR ''#'' r1 = (r2, f)" by (cases "cut CHR ''#'' r1")
  obtain p q where q: "cut CHR ''?'' r2 = (p, q)" by (cases "cut CHR ''?'' r2")
  obtain a ps where ps: "split_params p = (a, ps)" by (cases "split_params p")
  have b: "(CHR ''['' \<in> set n) = (CHR '']'' \<in> set n)" "CHR ''['' \<in> set n \<longrightarrow> brackets n = None"
    and sch: "u_scheme u = s"
    using assms(1) unfolding urlparse_def Let_def v_def [symmetric] r n f q prod.case
    by (auto split: if_splits option.splits prod.splits)
  then have "s \<in> set uses_params" using scheme_ok assms(2) by metis
  then have u: "u = \<lparr>u_scheme = s, u_netloc = n, u_path = a, u_params = ps, u_query = q, u_fragment = f\<rparr>"
    using assms(1) b unfolding urlparse_def Let_def v_def [symmetric] r n f q prod.case
    by (auto simp: ps split: if_splits option.splits)
  have "n \<noteq> []" using u assms(3) by simp
  note N = read_netloc_rest [OF n this] and F = cut_parts [OF f] and Q = cut_parts [OF q] and P = split_params_parts [OF ps]
  have "set n \<subseteq> set v" "set r1 \<subseteq> set v" using read_scheme_rest [OF r] N by blast+
  moreover have "set f \<subseteq> set r1" "set r2 \<subseteq> set r1" "set q \<subseteq> set r2" "set p \<subseteq> set r2" "set a \<subseteq> set p" "set ps \<subseteq> set p"
    using F Q P by blast+
  ultimately have "set (n @ a @ ps @ q @ f) \<subseteq> set v" unfolding set_append by blast
  then have "\<forall>c \<in> set (n @ a @ ps @ q @ f). \<not> dropped_char c" by (auto simp: v_def)
  moreover have "a = [] \<or> hd a = CHR ''/''"
  proof -
    from F Q P obtain x where x: "r1 = a @ x" by auto
    show ?thesis
    proof (cases a)
      case (Cons c cs)
      then have "ends_netloc c" "c \<noteq> CHR ''?''" "c \<noteq> CHR ''#''" using x N F Q P by auto
      then show ?thesis using Cons by (simp add: ends_netloc_def)
    qed simp
  qed
  moreover have "set a \<inter> {CHR ''?'', CHR ''#''} = {}" "set ps \<inter> {CHR ''/'', CHR ''?'', CHR ''#''} = {}" "CHR ''#'' \<notin> set q"
    using F Q P by auto
  ultimately show ?thesis using assms(2,3) N P b by (simp add: url_ok_def u)
qed

section \<open>The address of the collector\<close>

lemma traces_signal: "CHR ''/'' # strip_char (CHR ''/'') ''/v1/traces'' = ''/v1/traces''"
  by (simp add: strip_char_def rstrip_char_def)

lemma rstrip_traces [simp]: "rstrip_char (CHR ''/'') (a @ ''/v1/traces'') = a @ ''/v1/traces''"
  "rstrip_char (CHR ''/'') ''/v1/traces'' = ''/v1/traces''"
  by (simp_all add: rstrip_char_def)

lemma rstrip_char_prefix: "prefix (rstrip_char c s) s"
  unfolding rstrip_char_def by (metis rev_rev_ident suffix_dropWhile suffix_to_prefix)

lemma final_path_traces:
  "final_path p ''/v1/traces'' =
     (if suffix ''/v1/traces'' (rstrip_char (CHR ''/'') p) then p else rstrip_char (CHR ''/'') p @ ''/v1/traces'')"
proof (cases "suffix ''/v1/traces'' (rstrip_char (CHR ''/'') p)")
  case True
  then have "p \<noteq> []" by (auto simp: rstrip_char_def)
  with True show ?thesis by (simp only: final_path_def Let_def str_endswith_def rstrip_traces simp_thms if_True if_False)
next
  case False
  then have "rstrip_char (CHR ''/'') p \<noteq> ''/v1/traces''" by auto
  with False show ?thesis
    by (cases "rstrip_char (CHR ''/'') p = []") (simp_all add: final_path_def Let_def str_endswith_def)
qed

lemma suffix_traces: "suffix ''/v1/traces'' (a @ ''/v1/traces'')"
  by (rule suffixI) (rule refl)

lemma final_path_ends: "suffix ''/v1/traces'' (rstrip_char (CHR ''/'') (final_path p ''/v1/traces''))"
  by (simp only: final_path_traces rstrip_traces suffix_traces split: if_split) simp

lemma final_path_again: "final_path (final_path p ''/v1/traces'') ''/v1/traces'' = final_path p ''/v1/traces''"
  using final_path_ends [of p] by (simp only: final_path_traces [of "final_path p ''/v1/traces''"] if_True)

lemma with_final_path:
  assumes "url_ok brackets u"
  shows "url_ok brackets (u\<lparr>u_path := final_path (u_path u) ''/v1/traces''\<rparr>) \<and> final_path (u_path u) ''/v1/traces'' \<noteq> []"
proof (cases "suffix ''/v1/traces'' (rstrip_char (CHR ''/'') (u_path u))")
  case True
  then have "final_path (u_path u) ''/v1/traces'' = u_path u" "u_path u \<noteq> []"
    by (simp_all only: final_path_traces if_True) (auto simp: rstrip_char_def)
  then show ?thesis using assms by simp
next
  case False
  define a where "a = rstrip_char (CHR ''/'') (u_path u)"
  have path: "final_path (u_path u) ''/v1/traces'' = a @ ''/v1/traces''" using False by (simp only: final_path_traces if_False a_def)
  have seg: "last_segment (a @ ''/v1/traces'') = ''traces''"
    using last_segment_slash [of "''traces''" "a @ ''/v1''"] by simp
  have pre: "prefix a (u_path u)" unfolding a_def by (rule rstrip_char_prefix)
  then have sub: "set a \<subseteq> set (u_path u)" and h: "a = [] \<or> hd a = hd (u_path u) \<and> u_path u \<noteq> []"
    by (auto simp: prefix_def)
  have u: "u_path u = [] \<or> hd (u_path u) = CHR ''/''" "CHR ''?'' \<notin> set (u_path u)" "CHR ''#'' \<notin> set (u_path u)"
    "\<forall>c \<in> set (u_path u). \<not> dropped_char c"
    using assms unfolding url_ok_def by simp_all
  have "a = [] \<or> hd a = CHR ''/''" using h u(1) by metis
  then have slash: "hd (a @ ''/v1/traces'') = CHR ''/''" by (cases a) simp_all
  have no: "set (a @ ''/v1/traces'') \<inter> {CHR ''?'', CHR ''#''} = {}" using sub u(2,3) by (simp add: subset_iff) blast
  have clean: "\<forall>c \<in> set (a @ ''/v1/traces''). \<not> dropped_char c" using sub u(4) by (simp add: dropped_char_def subset_iff)
  show ?thesis
    using assms slash no clean unfolding url_ok_def path by (simp add: seg ball_Un)
qed

text \<open>The collector's address is normalised once. An accepted address is read as an absolute HTTP URL, and what is built is read as the same URL with nothing but the path changed; its path, less the slashes at its end, ends in the signal path, and begins with the given one, less those slashes, or is the given one. Building it again from the result gives the result, provided the result does not end in a space (a query or fragment of spaces would be stripped the second time).\<close>

lemma endpoint_normalised:
  assumes "build_endpoint brackets base ''/v1/traces'' = Inr e"
  shows "\<exists>u p. urlparse brackets (str_strip base) = Inr u \<and> u_scheme u \<in> {''http'', ''https''} \<and> u_netloc u \<noteq> [] \<and>
    urlparse brackets e = Inr (u\<lparr>u_path := p\<rparr>) \<and>
    suffix ''/v1/traces'' (rstrip_char (CHR ''/'') p) \<and>
    (p = u_path u \<or> p = rstrip_char (CHR ''/'') (u_path u) @ ''/v1/traces'') \<and>
    (str_strip e = e \<longrightarrow> build_endpoint brackets e ''/v1/traces'' = Inr e)"
proof -
  from assms obtain u where u: "urlparse brackets (str_strip base) = Inr u" "u_scheme u \<in> {''http'', ''https''}" "u_netloc u \<noteq> []"
    and e: "e = urlunparse (u\<lparr>u_path := final_path (u_path u) ''/v1/traces''\<rparr>)"
    unfolding build_endpoint_def traces_signal by (auto simp: bind_res_Inr_iff split: if_splits)
  let ?p = "final_path (u_path u) ''/v1/traces''"
  have again: "urlparse brackets e = Inr (u\<lparr>u_path := ?p\<rparr>)"
    unfolding e using with_final_path [OF urlparse_ok [OF u]] by (intro urlparse_urlunparse) simp_all
  have "e \<noteq> []" unfolding e using u(2) by (auto simp: urlunparse_def Let_def)
  then have "build_endpoint brackets e ''/v1/traces'' = Inr e" if "str_strip e = e"
    unfolding build_endpoint_def traces_signal using that u(2,3) again e by (simp add: final_path_again)
  moreover have "?p = u_path u \<or> ?p = rstrip_char (CHR ''/'') (u_path u) @ ''/v1/traces''"
    by (simp add: final_path_traces)
  ultimately show ?thesis using u again final_path_ends by blast
qed

lemma endpoint_normalised_witness:
  "build_endpoint (\<lambda>_. None) '' http://c:4318/t/?a=1 '' ''/v1/traces'' = Inr ''http://c:4318/t/v1/traces?a=1'' \<and>
   build_endpoint (\<lambda>_. None) ''http://c:4318/t/v1/traces?a=1'' ''/v1/traces'' = Inr ''http://c:4318/t/v1/traces?a=1''"
proof -
  have e: "build_endpoint (\<lambda>_. None) '' http://c:4318/t/?a=1 '' ''/v1/traces'' = Inr ''http://c:4318/t/v1/traces?a=1''"
    "str_strip ''http://c:4318/t/v1/traces?a=1'' = ''http://c:4318/t/v1/traces?a=1''" by code_simp+
  from endpoint_normalised [OF e(1)] e show ?thesis by blast
qed

section \<open>What the patched span passes on\<close>

datatype span_op = RecordException span_exception | SetStatus span_status "string option"

fun span_step :: "span_op \<Rightarrow> trace_span \<Rightarrow> trace_span" where
  "span_step (RecordException e) s = filtered_record_exception e s"
| "span_step (SetStatus st d) s = filtered_set_status st d s"

definition new_span :: "bool \<Rightarrow> trace_span" where
  "new_span custom = \<lparr>sp_custom = custom, sp_suppress = False, sp_exceptions = [], sp_statuses = []\<rparr>"

definition spanned :: "bool \<Rightarrow> span_op list \<Rightarrow> trace_span" where
  "spanned custom ops = fold span_step ops (new_span custom)"

text \<open>An operation that ends the effect of an interrupt, and one that an interrupt before it is still in force
  for.\<close>

fun ends_interrupt :: "span_op \<Rightarrow> bool" where
  "ends_interrupt (SetStatus st d) \<longleftrightarrow> mentions_interrupt (status_text st d) \<or> is_error_status st"
| "ends_interrupt (RecordException e) \<longleftrightarrow> False"

definition interrupted :: "span_op list \<Rightarrow> bool" where
  "interrupted ops \<longleftrightarrow> (\<exists>xs ys. ops = xs @ RecordException GraphInterrupt # ys \<and> \<not> list_ex ends_interrupt ys)"

lemma interrupted_snoc:
  "interrupted (ops @ [x]) \<longleftrightarrow> x = RecordException GraphInterrupt \<or> interrupted ops \<and> \<not> ends_interrupt x"
proof
  assume "interrupted (ops @ [x])"
  then obtain xs ys where o: "ops @ [x] = xs @ RecordException GraphInterrupt # ys" "\<not> list_ex ends_interrupt ys"
    by (auto simp: interrupted_def)
  then show "x = RecordException GraphInterrupt \<or> interrupted ops \<and> \<not> ends_interrupt x"
    by (cases ys rule: rev_cases) (auto simp: interrupted_def)
next
  assume x: "x = RecordException GraphInterrupt \<or> interrupted ops \<and> \<not> ends_interrupt x"
  show "interrupted (ops @ [x])"
  proof (cases "x = RecordException GraphInterrupt")
    case True
    then show ?thesis unfolding interrupted_def by (intro exI [of _ ops] exI [of _ "[]"]) simp
  next
    case False
    with x obtain xs ys where "ops = xs @ RecordException GraphInterrupt # ys" "\<not> list_ex ends_interrupt ys" "\<not> ends_interrupt x"
      by (auto simp: interrupted_def)
    then show ?thesis unfolding interrupted_def by (intro exI [of _ xs] exI [of _ "ys @ [x]"]) simp
  qed
qed

lemma spanned_snoc: "spanned c (ops @ [x]) = span_step x (spanned c ops)"
  by (simp add: spanned_def)

lemma span_flag: "sp_custom (spanned c ops) = c \<and> sp_suppress (spanned c ops) = (c \<and> interrupted ops)"
proof (induction ops rule: rev_induct)
  case Nil
  show ?case by (simp add: spanned_def new_span_def interrupted_def)
next
  case (snoc x ops)
  then show ?case
    by (cases x) (auto simp: spanned_snoc interrupted_snoc filtered_record_exception_def filtered_set_status_def set_suppress_def)
qed

text \<open>The exceptions passed on are those that are no interrupt. A status is dropped if its description mentions an
  interrupt, or if it is the first error after one was recorded, on a span that can carry the flag; every other status
  is passed on, in order.\<close>

lemma span_exceptions:
  "sp_exceptions (spanned c ops) = [e. RecordException e \<leftarrow> ops, e \<noteq> GraphInterrupt]"
proof (induction ops rule: rev_induct)
  case (snoc x ops)
  then show ?case
    by (cases x) (auto simp: spanned_snoc filtered_record_exception_def filtered_set_status_def set_suppress_def)
qed (simp add: spanned_def new_span_def)

lemma span_statuses:
  "sp_statuses (spanned c (ops @ [SetStatus st d])) = sp_statuses (spanned c ops) @
     (if mentions_interrupt (status_text st d) \<or> is_error_status st \<and> c \<and> interrupted ops then [] else [(st, d)])"
  using span_flag [of c ops] by (auto simp: spanned_snoc filtered_set_status_def set_suppress_def)

text \<open>The mark of an interrupt is a word in the description, so an unrelated failure can carry it.\<close>

lemma unrelated_status_dropped:
  "sp_statuses (spanned True [SetStatus (Status Error (Some ''KeyboardInterrupt()'')) None]) = []"
  by code_simp

section \<open>The log filter and the resource\<close>

lemma runs_lit: "runs (lit s) (b, t, g) \<noteq> [] \<longleftrightarrow> prefix s t"
proof (induction s arbitrary: b t g)
  case Nil
  then show ?case by (simp add: lit_def)
next
  case (Cons c s)
  have "lit (c # s) = Cat (Class ((=) c)) (lit s)" by (simp add: lit_def)
  then show ?case using Cons by (cases t) (auto simp: skip_def)
qed

lemma found_lit: "found (lit s) m \<longleftrightarrow> str_contains m s"
proof -
  have "search_from (lit s) b m \<noteq> None \<longleftrightarrow> sublist s m" for b
  proof (induction m arbitrary: b)
    case Nil
    then show ?case using runs_lit [of s b "[]" "[]"] by (auto split: list.splits)
  next
    case (Cons c m)
    then show ?case using runs_lit [of s b "c # m" "[]"] by (auto simp: sublist_Cons_right split: list.splits)
  qed
  then show ?thesis by (simp add: found_def search_def str_contains_def)
qed

text \<open>A record is dropped for the words alone, whatever its level: one that reports an error and names the
  interrupt, too.\<close>

lemma interrupt_records_dropped: "str_contains m ''GraphInterrupt'' \<Longrightarrow> \<not> noise_filter m"
  by (simp add: noise_filter_def noisy_log_patterns_def found_lit)

lemma install_once: "\<forall>n. c n \<le> 1 \<Longrightarrow>
  install_noise_filters c n = (if n \<in> set noisy_loggers then 1 else c n) \<and>
  install_noise_filters (install_noise_filters c) = install_noise_filters c"
proof -
  assume c: "\<forall>n. c n \<le> 1"
  have "fold add_once ns c n = (if n \<in> set ns then 1 else c n)" if "\<forall>n. c n \<le> 1" for ns c n
    using that
  proof (induction ns arbitrary: c)
    case (Cons x ns)
    then have x: "\<forall>n. add_once x c n \<le> 1" by (simp add: add_once_def)
    have "add_once x c n = (if n = x then 1 else c n)"
      using Cons.prems le_antisym [of "c x" 1] by (auto simp: add_once_def)
    then show ?case using Cons.IH [OF x] by auto
  qed simp
  then have i: "install_noise_filters c n = (if n \<in> set noisy_loggers then 1 else c n)" if "\<forall>n. c n \<le> 1" for c n
    using that unfolding install_noise_filters_def by blast
  then have "\<forall>n. install_noise_filters c n \<le> 1" using c by simp
  then show ?thesis using i [OF c] i by (auto simp: fun_eq_iff)
qed

lemma resource_attributes:
  "dkeys (build_resource version s) = required_resource_attributes \<and> dget (build_resource version s) ''service.version'' \<noteq> Some []"
  by (simp add: build_resource_def required_resource_attributes_def dkeys_def)

end
