(* ===== verification/Telemetry.thy ===== *)
theory Telemetry
  imports Endpoint Runs
begin

text \<open>
  The life of the telemetry singleton, \<^verbatim>\<open>telemetry/otel.py\<close>: installing the provider with its processors and
  instrumentors, attaching applications, and the shutdown, over the process-wide state. Every call runs under one
  lock, so a process is a sequence of calls. What OpenTelemetry answers (the current provider, the acceptance of
  ours, the failure of an instrumentor) is given with each call; its constructors are taken not to raise. A provider
  and an application are numbers.
\<close>

section \<open>The process state\<close>

datatype processor = Primary "exporter option" | ConsoleExporter

datatype tel_event =
    ProviderMade nat
  | ProcessorAdded nat processor
  | ProviderOffered nat
  | InstrumentorOn string
  | AppOn nat
  | AppOff nat
  | InstrumentorOff string
  | Flushed nat
  | ProviderDown nat

record telemetry_state =
  ts_provider :: "nat option"
  ts_initialized :: bool
  ts_ever :: bool
  ts_instrumentors :: "string list"
  ts_apps :: "nat list"
  ts_filters :: "string \<Rightarrow> nat"
  ts_patched :: "string \<Rightarrow> nat"

definition fresh_telemetry :: telemetry_state where
  "fresh_telemetry = \<lparr>ts_provider = None, ts_initialized = False, ts_ever = False, ts_instrumentors = [], ts_apps = [],
     ts_filters = (\<lambda>_. 0), ts_patched = (\<lambda>_. 0)\<rparr>"

definition reset_runtime_state :: "telemetry_state \<Rightarrow> telemetry_state" where
  "reset_runtime_state s = s\<lparr>ts_provider := None, ts_initialized := False, ts_instrumentors := [], ts_apps := []\<rparr>"

section \<open>Initialisation\<close>

text \<open>What the libraries answer: whether the current provider is the proxy, the new provider, whether it is the
  global one after it was offered, which instrumentors attach, and whether LangGraph can be imported.\<close>

record init_world =
  iw_proxy :: bool
  iw_new :: nat
  iw_accepted :: bool
  iw_attaches :: "string \<Rightarrow> bool"
  iw_langgraph :: bool
  iw_brackets :: "string \<Rightarrow> py_error option"

definition instrumentor_specs :: "string list" where
  "instrumentor_specs = [''LiteLLMInstrumentor'', ''LangChainInstrumentor'', ''PsycopgInstrumentor'']"

definition configure_instrumentors :: "init_world \<Rightarrow> string list" where
  "configure_instrumentors W = filter (iw_attaches W) instrumentor_specs"

definition span_classes :: "string list" where
  "span_classes = [''opentelemetry.trace.Span'', ''opentelemetry.sdk.trace.Span'']"

definition patch_span_record_exception :: "bool \<Rightarrow> (string \<Rightarrow> nat) \<Rightarrow> string \<Rightarrow> nat" where
  "patch_span_record_exception langgraph patched = (if langgraph then fold add_once span_classes patched else patched)"

definition init_telemetry ::
  "init_world \<Rightarrow> settings \<Rightarrow> bool \<Rightarrow> bool \<Rightarrow> telemetry_state \<Rightarrow> tel_event list \<times> (exn + unit) \<times> telemetry_state" where
  "init_telemetry W settings exporter_override enable_console s =
     (let failed = (\<lambda>ev msg. (ev, Inl (PyError (RuntimeError msg)), s)); p = iw_new W
      in if ts_initialized s then failed [] ''init_telemetry() called more than once''
         else if ts_ever s then failed [] ''init_telemetry() cannot be reinitialized after shutdown in the same process''
         else if \<not> iw_proxy W
         then failed [] ''A global TracerProvider is already installed; telemetry must be initialized before it''
         else case (if exporter_override then Inr None
                    else bind_res (build_exporter (iw_brackets W) settings) (\<lambda>x. Inr (Some x))) of
                Inl e \<Rightarrow> ([ProviderMade p], Inl (PyError e), s)
              | Inr x \<Rightarrow>
                  (let ev = [ProviderMade p, ProcessorAdded p (Primary x)] @
                         (if enable_console \<and> \<not> exporter_override then [ProcessorAdded p ConsoleExporter] else []) @
                         [ProviderOffered p]
                   in if \<not> iw_accepted W
                      then failed (ev @ [ProviderDown p])
                             ''OpenTelemetry rejected this TracerProvider because another provider was installed concurrently''
                      else let attached = configure_instrumentors W
                           in (ev @ map InstrumentorOn attached, Inr (),
                               s\<lparr>ts_provider := Some p, ts_ever := True, ts_instrumentors := attached, ts_initialized := True,
                                 ts_filters := install_noise_filters (ts_filters s),
                                 ts_patched := patch_span_record_exception (iw_langgraph W) (ts_patched s)\<rparr>)))"

section \<open>Applications and the shutdown\<close>

definition instrument_fastapi :: "exn option \<Rightarrow> nat \<Rightarrow> telemetry_state \<Rightarrow> tel_event list \<times> (exn + unit) \<times> telemetry_state" where
  "instrument_fastapi answer app s =
     (if \<not> ts_initialized s \<or> ts_provider s = None
      then ([], Inl (PyError (RuntimeError ''init_telemetry() must be called before instrument_fastapi()'')), s)
      else if app \<in> set (ts_apps s) then ([], Inr (), s)
      else case answer of
             Some e \<Rightarrow> ([], Inl e, s)
           | None \<Rightarrow> ([AppOn app], Inr (), s\<lparr>ts_apps := ts_apps s @ [app]\<rparr>))"

text \<open>\<open>importable\<close>: the FastAPI instrumentor can be imported. A failing detachment is logged and passed over, as are
  a failing flush and a failing shutdown of the provider.\<close>

definition shutdown_fastapi_apps :: "bool \<Rightarrow> telemetry_state \<Rightarrow> tel_event list" where
  "shutdown_fastapi_apps importable s = (if importable then map AppOff (rev (ts_apps s)) else [])"

definition shutdown_instrumentors :: "telemetry_state \<Rightarrow> tel_event list" where
  "shutdown_instrumentors s = map InstrumentorOff (rev (ts_instrumentors s))"

definition shutdown_telemetry :: "bool \<Rightarrow> telemetry_state \<Rightarrow> tel_event list \<times> telemetry_state" where
  "shutdown_telemetry importable s =
     (if \<not> ts_initialized s then ([], s)
      else (shutdown_fastapi_apps importable s @ shutdown_instrumentors s @
              (case ts_provider s of None \<Rightarrow> [] | Some p \<Rightarrow> [Flushed p, ProviderDown p]),
            reset_runtime_state s))"

text \<open>What a clean-up relies on: a resource that is closed is not active, and closing it again changes nothing.\<close>

locale closable =
  fixes active :: "'s \<Rightarrow> bool" and close :: "'a \<Rightarrow> 's \<Rightarrow> 's"
  assumes closes: "\<not> active (close a s)"
    and idle: "\<not> active s \<Longrightarrow> close a s = s"
begin

lemma close_again: "close a (close b s) = close b s"
  using closes idle by blast

end

interpretation telemetry: closable ts_initialized "\<lambda>importable s. snd (shutdown_telemetry importable s)"
  by unfold_locales (auto simp: shutdown_telemetry_def reset_runtime_state_def)

text \<open>A process calls these in any order.\<close>

inductive tel_step :: "telemetry_state \<Rightarrow> tel_event list \<Rightarrow> telemetry_state \<Rightarrow> bool" where
  tel_init: "init_telemetry W settings override console s = (ev, r, s') \<Longrightarrow> tel_step s ev s'"
| tel_app: "instrument_fastapi answer app s = (ev, r, s') \<Longrightarrow> tel_step s ev s'"
| tel_down: "shutdown_telemetry importable s = (ev, s') \<Longrightarrow> tel_step s ev s'"

inductive_cases tel_stepE: "tel_step s ev s'"

section \<open>The life of a process\<close>

text \<open>Attempts that failed made providers that got no instrumentor; those that were offered were shut down again.\<close>

definition failed_attempts :: "tel_event list \<Rightarrow> bool" where
  "failed_attempts tr \<longleftrightarrow>
     list_all (\<lambda>e. case e of ProviderMade p \<Rightarrow> True | ProcessorAdded p x \<Rightarrow> True | ProviderOffered p \<Rightarrow> True
                     | ProviderDown p \<Rightarrow> True | _ \<Rightarrow> False) tr \<and>
     (\<forall>p. count_list tr (ProviderOffered p) = count_list tr (ProviderDown p))"

definition installation :: "nat \<Rightarrow> processor list \<Rightarrow> string list \<Rightarrow> tel_event list" where
  "installation p xs ins = ProviderMade p # map (ProcessorAdded p) xs @ ProviderOffered p # map InstrumentorOn ins"

definition teardown :: "bool \<Rightarrow> nat \<Rightarrow> string list \<Rightarrow> nat list \<Rightarrow> tel_event list" where
  "teardown importable p ins apps =
     (if importable then map AppOff (rev apps) else []) @ map InstrumentorOff (rev ins) @ [Flushed p, ProviderDown p]"

text \<open>What a process has done: failed attempts; then at most one installation, with applications attached after it;
  then at most one teardown of it.\<close>

definition telemetry_life :: "telemetry_state \<Rightarrow> tel_event list \<Rightarrow> bool" where
  "telemetry_life s tr \<longleftrightarrow>
     (\<exists>failed. failed_attempts failed \<and>
        (if \<not> ts_ever s then \<not> ts_initialized s \<and> ts_apps s = [] \<and> tr = failed
         else \<exists>p xs ins apps. xs \<noteq> [] \<and> subseq ins instrumentor_specs \<and> distinct apps \<and>
           (if ts_initialized s
            then ts_provider s = Some p \<and> ts_instrumentors s = ins \<and> ts_apps s = apps \<and>
                 tr = failed @ installation p xs ins @ map AppOn apps
            else \<exists>importable. tr = failed @ installation p xs ins @ map AppOn apps @ teardown importable p ins apps)))"

lemma count_processors [simp]: "count_list (map (ProcessorAdded q) xs) (ProviderOffered p) = 0"
  "count_list (map (ProcessorAdded q) xs) (ProviderDown p) = 0"
  by (induction xs) auto

lemma failed_append: "failed_attempts a \<Longrightarrow> failed_attempts b \<Longrightarrow> failed_attempts (a @ b)"
  by (simp add: failed_attempts_def)

lemma failed_events: "failed_attempts []" "failed_attempts [ProviderMade p]"
  "failed_attempts (ProviderMade p # map (ProcessorAdded p) xs @ [ProviderOffered p, ProviderDown p])"
  by (auto simp: failed_attempts_def list_all_iff)

lemma init_cases:
  assumes "init_telemetry W settings override console s = (ev, r, s')"
  obtains "ev = []" "s' = s" "\<exists>e. r = Inl e"
  | "\<not> ts_ever s" "\<not> ts_initialized s" "failed_attempts ev" "s' = s" "\<exists>e. r = Inl e"
  | p xs where "\<not> ts_ever s" "\<not> ts_initialized s" "xs \<noteq> []" "r = Inr ()"
      "ev = installation p xs (configure_instrumentors W)"
      "s' = s\<lparr>ts_provider := Some p, ts_ever := True, ts_instrumentors := configure_instrumentors W, ts_initialized := True,
              ts_filters := install_noise_filters (ts_filters s),
              ts_patched := patch_span_record_exception (iw_langgraph W) (ts_patched s)\<rparr>"
proof (cases "ts_initialized s \<or> ts_ever s \<or> \<not> iw_proxy W")
  case True
  with assms show ?thesis by (intro that(1)) (auto simp: init_telemetry_def Let_def split: if_splits)
next
  case False
  define x where "x = (if override then Inr None else bind_res (build_exporter (iw_brackets W) settings) (\<lambda>x. Inr (Some x)))"
  have init: "init_telemetry W settings override console s =
    (case x of Inl e \<Rightarrow> ([ProviderMade (iw_new W)], Inl (PyError e), s) | Inr x \<Rightarrow>
       (let xs = Primary x # (if console \<and> \<not> override then [ConsoleExporter] else []);
            ev = ProviderMade (iw_new W) # map (ProcessorAdded (iw_new W)) xs @ [ProviderOffered (iw_new W)]
        in if \<not> iw_accepted W
           then (ev @ [ProviderDown (iw_new W)], Inl (PyError (RuntimeError
                   ''OpenTelemetry rejected this TracerProvider because another provider was installed concurrently'')), s)
           else (installation (iw_new W) xs (configure_instrumentors W), Inr (),
             s\<lparr>ts_provider := Some (iw_new W), ts_ever := True, ts_instrumentors := configure_instrumentors W, ts_initialized := True,
               ts_filters := install_noise_filters (ts_filters s),
               ts_patched := patch_span_record_exception (iw_langgraph W) (ts_patched s)\<rparr>)))"
    using False by (simp add: init_telemetry_def x_def [symmetric] Let_def installation_def split: sum.split)
  show ?thesis
  proof (cases x)
    case (Inl e)
    with init assms False show ?thesis by (intro that(2)) (auto simp: failed_events)
  next
    case (Inr y)
    let ?xs = "Primary y # (if console \<and> \<not> override then [ConsoleExporter] else [])"
    show ?thesis
    proof (cases "iw_accepted W")
      case True
      with init assms False Inr show ?thesis by (intro that(3) [of ?xs "iw_new W"]) (auto simp: Let_def)
    next
      case rejected: False
      then have "ev = ProviderMade (iw_new W) # map (ProcessorAdded (iw_new W)) ?xs @ [ProviderOffered (iw_new W), ProviderDown (iw_new W)]"
        "s' = s" "\<exists>e. r = Inl e" using init assms Inr by (simp_all only: sum.case Let_def if_True not_False_eq_True) auto
      with False failed_events(3) [of "iw_new W" ?xs] show ?thesis by (intro that(2)) auto
    qed
  qed
qed

lemma life_init:
  assumes "init_telemetry W settings override console s = (ev, r, s')" "telemetry_life s tr"
  shows "telemetry_life s' (tr @ ev)"
  using assms(1)
proof (cases rule: init_cases)
  case 1
  with assms(2) show ?thesis by simp
next
  case 2
  with assms(2) show ?thesis by (auto simp: telemetry_life_def intro: failed_append)
next
  case (3 p xs)
  then have "failed_attempts tr" "ts_apps s = []" using assms(2) by (auto simp: telemetry_life_def)
  moreover have "subseq (configure_instrumentors W) instrumentor_specs" by (simp add: configure_instrumentors_def)
  ultimately show ?thesis
    unfolding telemetry_life_def using 3
    by (intro exI [of _ tr]) (auto intro!: exI [of _ p] exI [of _ xs])
qed

lemma life_app:
  assumes "instrument_fastapi answer app s = (ev, r, s')" "telemetry_life s tr"
  shows "telemetry_life s' (tr @ ev)"
proof (cases "ts_initialized s \<and> ts_provider s \<noteq> None \<and> app \<notin> set (ts_apps s) \<and> answer = None")
  case False
  with assms show ?thesis by (auto simp: instrument_fastapi_def split: if_splits option.splits)
next
  case True
  then have e: "ev = [AppOn app]" "s' = s\<lparr>ts_apps := ts_apps s @ [app]\<rparr>" using assms(1) by (auto simp: instrument_fastapi_def)
  from assms(2) True obtain failed p xs where
    "failed_attempts failed" "ts_ever s" "xs \<noteq> []" "subseq (ts_instrumentors s) instrumentor_specs" "distinct (ts_apps s)"
    "ts_provider s = Some p" "tr = failed @ installation p xs (ts_instrumentors s) @ map AppOn (ts_apps s)"
    by (auto simp: telemetry_life_def split: if_splits)
  with True e show ?thesis
    unfolding telemetry_life_def by (intro exI [of _ failed]) (auto intro!: exI [of _ p] exI [of _ xs])
qed

lemma life_down:
  assumes "shutdown_telemetry importable s = (ev, s')" "telemetry_life s tr"
  shows "telemetry_life s' (tr @ ev)"
proof (cases "ts_initialized s")
  case False
  with assms show ?thesis by (simp add: shutdown_telemetry_def)
next
  case True
  with assms(2) obtain failed p xs where
    l: "failed_attempts failed" "ts_ever s" "xs \<noteq> []" "subseq (ts_instrumentors s) instrumentor_specs" "distinct (ts_apps s)"
    "ts_provider s = Some p" "tr = failed @ installation p xs (ts_instrumentors s) @ map AppOn (ts_apps s)"
    by (auto simp: telemetry_life_def split: if_splits)
  then have "ev = teardown importable p (ts_instrumentors s) (ts_apps s)" "s' = reset_runtime_state s"
    using assms(1) True
    by (auto simp: shutdown_telemetry_def shutdown_fastapi_apps_def shutdown_instrumentors_def teardown_def)
  with l show ?thesis
    unfolding telemetry_life_def reset_runtime_state_def
    by (intro exI [of _ failed]) (auto intro!: exI [of _ p] exI [of _ xs] exI [of _ "ts_instrumentors s"] exI [of _ "ts_apps s"])
qed

text \<open>Filters and patches are there at most once, and once there has been an installation every other is refused.\<close>

definition counted_once :: "telemetry_state \<Rightarrow> bool" where
  "counted_once s \<longleftrightarrow> (\<forall>n. ts_filters s n \<le> 1 \<and> ts_patched s n \<le> 1)"

lemma add_once_le: "\<forall>n. c n \<le> 1 \<Longrightarrow> fold add_once ns c n \<le> 1"
  by (induction ns arbitrary: c) (simp_all add: add_once_def)

lemma once_step: "tel_step s ev s' \<Longrightarrow> counted_once s \<Longrightarrow> counted_once s'"
proof (erule tel_stepE)
  fix W settings override console r
  assume "init_telemetry W settings override console s = (ev, r, s')" "counted_once s"
  then show "counted_once s'"
    by (elim init_cases)
      (auto simp: counted_once_def install_noise_filters_def patch_span_record_exception_def intro!: add_once_le [unfolded One_nat_def])
qed (auto simp: counted_once_def instrument_fastapi_def shutdown_telemetry_def reset_runtime_state_def split: if_splits option.splits)

lemma no_second_init: "ts_ever s \<Longrightarrow> \<exists>e. init_telemetry W settings override console s = ([], Inl e, s)"
  by (cases "ts_initialized s") (simp_all add: init_telemetry_def Let_def)

lemma life_step: "tel_step s ev s' \<Longrightarrow> telemetry_life s tr \<Longrightarrow> telemetry_life s' (tr @ ev)"
  by (erule tel_stepE) (blast intro: life_init life_app life_down)+

text \<open>C38: Telemetry is installed once in a process and taken down in the order it went up. Whatever a process calls, and whatever the libraries answer, what it has done is: attempts that failed, each provider of which that was offered was shut down; then at most one installation, with the instrumentors that attached in the declared order and every application attached once, after it; then at most one teardown, which detaches the applications and then the instrumentors newest first, flushes and shuts the same provider down. After an installation every other is refused without an effect, also after the teardown; no log filter is added and no span class patched twice.\<close>

theorem telemetry_lifecycle:
  assumes "run tel_step fresh_telemetry n tr s"
  shows "telemetry_life s tr \<and>
    (ts_ever s \<longrightarrow> (\<forall>W settings override console. \<exists>e. init_telemetry W settings override console s = ([], Inl e, s))) \<and>
    (\<forall>name. ts_filters s name \<le> 1 \<and> ts_patched s name \<le> 1)"
proof -
  have start: "telemetry_life fresh_telemetry []" "counted_once fresh_telemetry"
    using failed_events(1) by (simp_all add: telemetry_life_def fresh_telemetry_def counted_once_def)
  have "telemetry_life s tr \<and> counted_once s" if "run tel_step c n tr s" "telemetry_life c []" "counted_once c" for c
    using that
    by (induction rule: run.induct) (simp, blast intro: once_step life_step)
  with assms start no_second_init show ?thesis by (auto simp: counted_once_def)
qed

definition demo_world :: init_world where
  "demo_world = \<lparr>iw_proxy = True, iw_new = 1, iw_accepted = True, iw_attaches = (\<lambda>n. n \<noteq> ''LangChainInstrumentor''),
     iw_langgraph = True, iw_brackets = (\<lambda>_. None)\<rparr>"

definition demo_trace :: "tel_event list" where
  "demo_trace = [ProviderMade 1, ProcessorAdded 1 (Primary None), ProviderOffered 1, InstrumentorOn ''LiteLLMInstrumentor'',
     InstrumentorOn ''PsycopgInstrumentor'', AppOn 7, AppOn 8, AppOff 8, AppOff 7, InstrumentorOff ''PsycopgInstrumentor'',
     InstrumentorOff ''LiteLLMInstrumentor'', Flushed 1, ProviderDown 1]"

lemma demo_life: "\<exists>s. run tel_step fresh_telemetry 5 demo_trace s \<and> ts_ever s \<and> \<not> ts_initialized s"
proof -
  fix settings :: settings
  let ?s0 = "fresh_telemetry"
  let ?s1 = "snd (snd (init_telemetry demo_world settings True False ?s0))"
  let ?s2 = "snd (snd (instrument_fastapi None 7 ?s1))"
  let ?s3 = "snd (snd (instrument_fastapi None 8 ?s2))"
  let ?s4 = "snd (shutdown_telemetry True ?s3)"
  have init: "tel_step x (fst (init_telemetry demo_world settings True False x)) (snd (snd (init_telemetry demo_world settings True False x)))"
    and app: "tel_step x (fst (instrument_fastapi None a x)) (snd (snd (instrument_fastapi None a x)))"
    and down: "tel_step x (fst (shutdown_telemetry True x)) (snd (shutdown_telemetry True x))" for x a
    by (rule tel_init, simp add: prod_eq_iff, rule tel_app, simp add: prod_eq_iff, rule tel_down, simp)
  have idem: "?s2 = snd (snd (instrument_fastapi None 7 ?s2))" by (simp add: instrument_fastapi_def)
  have "run tel_step ?s0 (Suc 0) ([] @ fst (init_telemetry demo_world settings True False ?s0)) ?s1"
    by (rule run_step, rule run_start, rule init)
  then have "run tel_step ?s0 (Suc (Suc 0)) (([] @ fst (init_telemetry demo_world settings True False ?s0)) @ fst (instrument_fastapi None 7 ?s1)) ?s2"
    by (rule run_step) (rule app)
  then have "run tel_step ?s0 (Suc (Suc (Suc 0)))
      ((([] @ fst (init_telemetry demo_world settings True False ?s0)) @ fst (instrument_fastapi None 7 ?s1)) @ fst (instrument_fastapi None 7 ?s2))
      (snd (snd (instrument_fastapi None 7 ?s2)))"
    by (rule run_step) (rule app)
  then have "run tel_step ?s0 (Suc (Suc (Suc (Suc 0))))
      (((([] @ fst (init_telemetry demo_world settings True False ?s0)) @ fst (instrument_fastapi None 7 ?s1)) @ fst (instrument_fastapi None 7 ?s2))
        @ fst (instrument_fastapi None 8 ?s2)) ?s3"
    unfolding idem [symmetric] by (rule run_step) (rule app)
  then have "run tel_step ?s0 (Suc (Suc (Suc (Suc (Suc 0)))))
    ((((([] @ fst (init_telemetry demo_world settings True False ?s0)) @ fst (instrument_fastapi None 7 ?s1))
       @ fst (instrument_fastapi None 7 ?s2)) @ fst (instrument_fastapi None 8 ?s2)) @ fst (shutdown_telemetry True ?s3)) ?s4"
    by (rule run_step) (rule down)
  moreover have "fst (init_telemetry demo_world settings True False ?s0) @ fst (instrument_fastapi None 7 ?s1)
       @ fst (instrument_fastapi None 7 ?s2) @ fst (instrument_fastapi None 8 ?s2) @ fst (shutdown_telemetry True ?s3) = demo_trace"
    "ts_ever ?s4" "\<not> ts_initialized ?s4"
    by (simp_all add: init_telemetry_def fresh_telemetry_def demo_world_def instrument_fastapi_def Let_def demo_trace_def
      configure_instrumentors_def instrumentor_specs_def shutdown_telemetry_def shutdown_fastapi_apps_def
      shutdown_instrumentors_def reset_runtime_state_def)
  ultimately show ?thesis by (intro exI [of _ ?s4]) (simp add: eval_nat_numeral)
qed

lemma telemetry_lifecycle_witness:
  "\<exists>s. run tel_step fresh_telemetry 5 demo_trace s \<and> telemetry_life s demo_trace \<and>
     (\<forall>W settings override console. \<exists>e. init_telemetry W settings override console s = ([], Inl e, s))"
proof -
  from demo_life obtain s where s: "run tel_step fresh_telemetry 5 demo_trace s" "ts_ever s" by blast
  with telemetry_lifecycle [OF s(1)] show ?thesis by blast
qed

end
