(* ===== verification/App.thy ===== *)
theory App
  imports Telemetry Runner Eviction Gateway Webhook
begin

text \<open>
  The application, \<^verbatim>\<open>api/main.py\<close>: the thirteen steps of the start-up with the exit stack they fill, what the
  deployed graph is given, the unwinding at the end, the factory, and the two probes of \<^verbatim>\<open>api/routes.py\<close>. What the
  clients answer at each step and when, what a clean-up raises and how the served application ends are arguments.
\<close>

section \<open>The start-up\<close>

datatype resource = TelemetryR | PgPoolR | ValkeyR | OpenObserveR | SaverR | RunnerR

datatype app_event = Registered resource | Served | Released resource

record startup =
  su_events :: "app_event list"
  su_stack :: "resource list"
  su_waited :: rat
  su_telemetry :: telemetry_state

type_synonym 'a starting = "startup \<Rightarrow> (exn + 'a) \<times> startup"

text \<open>A step may end in an exception; what it registered before stays registered.\<close>

definition and_then :: "'a starting \<Rightarrow> ('a \<Rightarrow> 'b starting) \<Rightarrow> 'b starting" where
  "and_then m f u = (case m u of (Inl e, u') \<Rightarrow> (Inl e, u') | (Inr x, u') \<Rightarrow> f x u')"

definition answered :: "exn + 'a \<Rightarrow> 'a starting" where
  "answered r u = (r, u)"

definition raise_if :: "exn option \<Rightarrow> unit starting" where
  "raise_if e = answered (case e of None \<Rightarrow> Inr () | Some x \<Rightarrow> Inl x)"

definition value_or_raise :: "py_error + 'a \<Rightarrow> 'a starting" where
  "value_or_raise r = answered (case r of Inl e \<Rightarrow> Inl (PyError e) | Inr x \<Rightarrow> Inr x)"

text \<open>\<open>stack.callback\<close>, \<open>push_async_callback\<close> and \<open>enter_async_context\<close>\<close>

definition push :: "resource \<Rightarrow> unit starting" where
  "push r u = (Inr (), u\<lparr>su_events := su_events u @ [Registered r], su_stack := r # su_stack u\<rparr>)"

text \<open>\<open>asyncio.wait_for\<close>: an answer after a time, if it comes. What is awaited is taken to end as soon as it is
  cancelled: Python waits for that, so a client that delays its cancellation makes the wait longer than the limit.\<close>

definition timed_out :: "rat \<Rightarrow> rat option \<times> exn option \<Rightarrow> rat \<times> exn option" where
  "timed_out limit a =
     (case a of (Some t, e) \<Rightarrow> if t \<le> limit then (t, e) else (limit, Some (PyError (TimeoutError [])))
      | (None, e) \<Rightarrow> (limit, Some (PyError (TimeoutError []))))"

definition await_within :: "rat \<Rightarrow> rat option \<times> exn option \<Rightarrow> exn option starting" where
  "await_within limit a u = (case timed_out limit a of (t, e) \<Rightarrow> (Inr e, u\<lparr>su_waited := su_waited u + t\<rparr>))"

definition k8s_init_timeout :: rat where
  "k8s_init_timeout = 10"

definition pg_saver_timeout :: rat where
  "pg_saver_timeout = 15"

definition runner_shutdown_timeout :: rat where
  "runner_shutdown_timeout = 30"

record startup_world =
  uw_telemetry :: init_world
  uw_instrument :: "exn option"
  uw_pool :: "exn option"
  uw_pool_open :: "rat option \<times> exn option"
  uw_redis :: "exn option"
  uw_openobserve :: "exn option"
  uw_k8s :: "rat option \<times> exn option"
  uw_saver :: "rat option \<times> exn option"
  uw_saver_setup :: "rat option \<times> exn option"
  uw_router_lib :: router_lib
  uw_now :: rat
  uw_tools :: tool_env
  uw_repr :: "pyval \<Rightarrow> string"
  uw_sha :: "string \<Rightarrow> string"
  uw_cost :: cost_env
  uw_show_exn :: "exn \<Rightarrow> string"

record valkey_config =
  vc_host :: string
  vc_port :: int
  vc_password :: "string option"
  vc_tls :: bool

definition read_valkey :: "environment \<Rightarrow> py_error + valkey_config" where
  "read_valkey env =
     (let port = text_or env ''AUTOSRE_VALKEY__PORT'' ''6379''
      in case int_of_text port of
           None \<Rightarrow> Inl (ValueError (''invalid literal for int() with base 10: '' @ repr_str port))
         | Some n \<Rightarrow>
             Inr \<lparr>vc_host = text_or env ''AUTOSRE_VALKEY__HOST'' ''valkey.rivulet.svc.cluster.local'', vc_port = n,
                  vc_password = (case env ''AUTOSRE_VALKEY__PASSWORD'' of Some p \<Rightarrow> if p = [] then None else Some p | None \<Rightarrow> None),
                  vc_tls = (str_lower (text_or env ''AUTOSRE_VALKEY__TLS'' ''false'') = ''true'')\<rparr>)"

text \<open>The executor of the deployment: a registry and a policy, and no snapshot, verifier, rollback or audit hook.\<close>

definition deployed_executor :: "startup_world \<Rightarrow> tools \<Rightarrow> engine \<Rightarrow> executor" where
  "deployed_executor W reg eng =
     \<lparr>x_registry = reg, x_policy = classify (uw_repr W) eng, x_snapshots = [], x_verifiers = [], x_rollbacks = [],
      x_audit_hook = False, x_hash = hash_args (uw_sha W) (uw_repr W),
      x_json = stable_json (j_dumps (std_json (uw_repr W)) audit_style) (uw_repr W), x_show_exn = uw_show_exn W\<rparr>"

text \<open>\<open>GraphContext(...)\<close>: three thresholds are set from the settings, the other fields keep their defaults.\<close>

definition deployed_context :: "startup_world \<Rightarrow> settings \<Rightarrow> tools \<Rightarrow> executor \<Rightarrow> graph_context" where
  "deployed_context W s reg x =
     \<lparr>gc_registry = reg, gc_executor = x, gc_json = std_json (uw_repr W), gc_cost = uw_cost W,
      gc_prompt = graph_prompt (std_json (uw_repr W)) reg, gc_sre = True,
      gc_initial_budget = 3, gc_stagnation_limit = 2, gc_max_attempts = 2,
      gc_confidence_propose = sf_confidence_propose (st_safety s),
      gc_confidence_fast_path = sf_confidence_fast_path (st_safety s), gc_min_improvement = 5 / 100\<rparr>"

record parts =
  pt_valkey :: valkey_config
  pt_k8s :: bool
  pt_router :: "router \<times> router_state"
  pt_registry :: tools
  pt_engine :: engine
  pt_executor :: executor
  pt_evictor :: evictor
  pt_context :: graph_context
  pt_runner :: runner

definition start_telemetry :: "startup_world \<Rightarrow> settings \<Rightarrow> nat \<Rightarrow> unit starting" where
  "start_telemetry W s app =
     and_then (\<lambda>u. case init_telemetry (uw_telemetry W) s False False (su_telemetry u) of
                     (_, r, ts) \<Rightarrow> (r, u\<lparr>su_telemetry := ts\<rparr>)) (\<lambda>_.
     and_then (push TelemetryR) (\<lambda>_ u.
       case instrument_fastapi (uw_instrument W) app (su_telemetry u) of
         (_, r, ts) \<Rightarrow> (r, u\<lparr>su_telemetry := ts\<rparr>)))"

text \<open>The pool is pushed before it is opened, so that a failing opening closes it.\<close>

definition start_pool :: "startup_world \<Rightarrow> unit starting" where
  "start_pool W =
     and_then (raise_if (uw_pool W)) (\<lambda>_.
     and_then (push PgPoolR) (\<lambda>_.
     and_then (await_within 15 (uw_pool_open W)) raise_if))"

definition start_valkey :: "startup_world \<Rightarrow> environment \<Rightarrow> valkey_config starting" where
  "start_valkey W env =
     and_then (value_or_raise (read_valkey env)) (\<lambda>c.
     and_then (raise_if (uw_redis W)) (\<lambda>_.
     and_then (push ValkeyR) (\<lambda>_. answered (Inr c))))"

definition start_openobserve :: "startup_world \<Rightarrow> unit starting" where
  "start_openobserve W = and_then (raise_if (uw_openobserve W)) (\<lambda>_. push OpenObserveR)"

text \<open>The only optional resource: an ordinary failure or a timeout leaves the agent without it.\<close>

definition start_k8s :: "startup_world \<Rightarrow> bool starting" where
  "start_k8s W =
     and_then (await_within k8s_init_timeout (uw_k8s W)) (\<lambda>e.
       case e of
         None \<Rightarrow> answered (Inr True)
       | Some x \<Rightarrow> answered (if caught_by_exception x then Inr False else Inl x))"

definition start_saver :: "startup_world \<Rightarrow> unit starting" where
  "start_saver W =
     and_then (await_within pg_saver_timeout (uw_saver W)) (\<lambda>e.
     and_then (raise_if e) (\<lambda>_.
     and_then (push SaverR) (\<lambda>_.
     and_then (await_within 10 (uw_saver_setup W)) raise_if)))"

definition start_up :: "startup_world \<Rightarrow> settings \<Rightarrow> environment \<Rightarrow> nat \<Rightarrow> parts starting" where
  "start_up W s env app =
     and_then (start_telemetry W s app) (\<lambda>_.
     and_then (start_pool W) (\<lambda>_.
     and_then (start_valkey W env) (\<lambda>valkey.
     and_then (start_openobserve W) (\<lambda>_.
     and_then (start_k8s W) (\<lambda>k8s.
     and_then (start_saver W) (\<lambda>_.
     and_then (value_or_raise (make_router (uw_router_lib W) (st_llm s) 6000
                 (sf_max_llm_calls_per_incident (st_safety s)) (uw_now W))) (\<lambda>router.
     and_then (answered (build_default_registry (uw_tools W))) (\<lambda>registry.
     and_then (value_or_raise (make_engine (uw_repr W) None (PInt 1) None)) (\<lambda>engine.
     and_then (value_or_raise (make_executor (deployed_executor W registry engine) 10)) (\<lambda>executor.
     and_then (value_or_raise (make_evictor 2000 50000 450)) (\<lambda>evictor.
     and_then (answered (make_runner True True True (sf_max_wall_clock_seconds (st_safety s)))) (\<lambda>runner.
     and_then (push RunnerR) (\<lambda>_.
       answered (Inr \<lparr>pt_valkey = valkey, pt_k8s = k8s, pt_router = router, pt_registry = registry, pt_engine = engine,
         pt_executor = executor, pt_evictor = evictor, pt_context = deployed_context W s registry executor,
         pt_runner = runner\<rparr>))))))))))))))"

section \<open>The unwinding\<close>

text \<open>\<open>AsyncExitStack\<close> runs every callback, the newest first; an exception of one takes the place of the one in
  flight. The telemetry shutdown raises nothing.\<close>

fun unwind ::
  "(resource \<Rightarrow> exn option) \<Rightarrow> bool \<Rightarrow> resource list \<Rightarrow> exn option \<Rightarrow> telemetry_state \<Rightarrow>
     app_event list \<times> exn option \<times> telemetry_state" where
  "unwind close importable [] e ts = ([], e, ts)"
| "unwind close importable (r # rs) e ts =
     (let (e', ts') = (if r = TelemetryR then (e, snd (shutdown_telemetry importable ts))
                       else (case close r of None \<Rightarrow> (e, ts) | Some x \<Rightarrow> (Some x, ts)));
          (ev, e'', ts'') = unwind close importable rs e' ts'
      in (Released r # ev, e'', ts''))"

record ending =
  en_events :: "app_event list"
  en_raised :: "exn option"
  en_telemetry :: telemetry_state
  en_started :: "exn + parts"
  en_waited :: rat

definition lifespan ::
  "startup_world \<Rightarrow> settings \<Rightarrow> environment \<Rightarrow> nat \<Rightarrow> exn option \<Rightarrow> (resource \<Rightarrow> exn option) \<Rightarrow> bool \<Rightarrow>
     telemetry_state \<Rightarrow> ending" where
  "lifespan W s env app body close importable ts =
     (let (r, u) = start_up W s env app \<lparr>su_events = [], su_stack = [], su_waited = 0, su_telemetry = ts\<rparr>;
          (served, e) = (case r of Inl x \<Rightarrow> ([], Some x) | Inr _ \<Rightarrow> ([Served], body));
          (ev, e', ts') = unwind close importable (su_stack u) e (su_telemetry u)
      in \<lparr>en_events = su_events u @ served @ ev, en_raised = e', en_telemetry = ts', en_started = r,
          en_waited = su_waited u\<rparr>)"

section \<open>The factory and the probes\<close>

record application =
  ap_settings :: settings
  ap_paused :: bool
  ap_pause_reason :: "string option"
  ap_cors_origins :: "string list"
  ap_api_key :: string

text \<open>The settings given, or those of the cache, which a failure leaves empty.\<close>

definition create_app ::
  "env_lib \<Rightarrow> environment \<Rightarrow> settings option \<Rightarrow> settings option \<Rightarrow> (exn + application) \<times> settings option" where
  "create_app L env given cache =
     (let (r, cache') = (case given of Some s \<Rightarrow> (Inr s, cache)
             | None \<Rightarrow> (case get_settings L env cache of (Inl e, c) \<Rightarrow> (Inl e, reset_settings_cache c) | (Inr s, c) \<Rightarrow> (Inr s, c)))
      in (bind_res r (\<lambda>s. Inr \<lparr>ap_settings = s, ap_paused = False, ap_pause_reason = None,
             ap_cors_origins = resolve_cors_origins (text_or env ''AUTOSRE_CORS_ORIGINS'' []),
             ap_api_key = configured_key (Some (text_or env ''AUTOSRE_API_KEY'' [])) []\<rparr>), cache'))"

definition create_app_factory :: "env_lib \<Rightarrow> environment \<Rightarrow> settings option \<Rightarrow> (exn + application) \<times> settings option" where
  "create_app_factory L env cache = create_app L env None cache"

definition healthz :: "app_state \<Rightarrow> pydict" where
  "healthz st = [(''status'', PStr ''ok''), (''version'', PStr ''0.1.4''), (''paused'', PBool (as_paused st))]"

text \<open>The pool and what the query on it raised.\<close>

definition readyz :: "(exn \<Rightarrow> string) \<Rightarrow> (exn option) option \<Rightarrow> exn + int \<times> pydict" where
  "readyz shown pool =
     (let reply = (\<lambda>check. let ready = (check = ''ready'')
                   in Inr (if ready then 200 else 503,
                           [(''status'', PStr (if ready then ''ready'' else ''not_ready'')),
                            (''checks'', PDict [(''postgres'', PStr check)])]))
      in case pool of
           None \<Rightarrow> reply ''not_configured''
         | Some None \<Rightarrow> reply ''ready''
         | Some (Some e) \<Rightarrow> if caught_by_exception e then reply (''error: '' @ shown e) else Inl e)"

section \<open>What a step registers and how long it waits\<close>

text \<open>\<open>registers m rs t\<close>: the step registers a beginning of \<open>rs\<close>, all of it if it succeeds, waits at most \<open>t\<close>,
  and does not leave telemetry initialised without registering its shutdown.\<close>

definition registers :: "'a starting \<Rightarrow> resource list \<Rightarrow> rat \<Rightarrow> bool" where
  "registers m rs t \<longleftrightarrow>
     (\<forall>u r u'. m u = (r, u') \<longrightarrow>
        (\<exists>qs. prefix qs rs \<and> (\<forall>x. r = Inr x \<longrightarrow> qs = rs) \<and>
          su_events u' = su_events u @ map Registered qs \<and> su_stack u' = rev qs @ su_stack u \<and>
          su_waited u' \<le> su_waited u + t \<and>
          (ts_initialized (su_telemetry u') \<longrightarrow> ts_initialized (su_telemetry u) \<or> TelemetryR \<in> set qs)))"

named_theorems starting

lemma registers_then [starting]:
  assumes "registers m rs t" "\<And>x. registers (f x) ss t'" "0 \<le> t'"
  shows "registers (and_then m f) (rs @ ss) (t + t')"
  unfolding registers_def
proof (intro allI impI)
  fix u r u''
  assume run: "and_then m f u = (r, u'')"
  obtain q u' where m: "m u = (q, u')" by fastforce
  from assms(1) m obtain qs where qs: "prefix qs rs" "\<forall>x. q = Inr x \<longrightarrow> qs = rs"
    "su_events u' = su_events u @ map Registered qs" "su_stack u' = rev qs @ su_stack u" "su_waited u' \<le> su_waited u + t"
    "ts_initialized (su_telemetry u') \<longrightarrow> ts_initialized (su_telemetry u) \<or> TelemetryR \<in> set qs"
    unfolding registers_def by blast
  show "\<exists>qs. prefix qs (rs @ ss) \<and> (\<forall>x. r = Inr x \<longrightarrow> qs = rs @ ss) \<and>
      su_events u'' = su_events u @ map Registered qs \<and> su_stack u'' = rev qs @ su_stack u \<and>
      su_waited u'' \<le> su_waited u + (t + t') \<and>
      (ts_initialized (su_telemetry u'') \<longrightarrow> ts_initialized (su_telemetry u) \<or> TelemetryR \<in> set qs)"
  proof (cases q)
    case (Inl e)
    with run m have "r = Inl e" "u'' = u'" by (auto simp: and_then_def)
    with qs assms(3) show ?thesis by (intro exI [of _ qs]) (auto intro: prefix_order.trans)
  next
    case (Inr x)
    with run m have "f x u' = (r, u'')" by (simp add: and_then_def)
    with assms(2) obtain ps where ps: "prefix ps ss" "\<forall>x. r = Inr x \<longrightarrow> ps = ss"
      "su_events u'' = su_events u' @ map Registered ps" "su_stack u'' = rev ps @ su_stack u'" "su_waited u'' \<le> su_waited u' + t'"
      "ts_initialized (su_telemetry u'') \<longrightarrow> ts_initialized (su_telemetry u') \<or> TelemetryR \<in> set ps"
      unfolding registers_def by blast
    then show ?thesis using qs Inr by (intro exI [of _ "rs @ ps"]) auto
  qed
qed

lemma registers_answered: "registers (answered r) [] 0"
  by (simp add: registers_def answered_def)

lemma registers_simple [starting]: "registers (answered r) [] 0" "registers (raise_if e) [] 0"
  "registers (value_or_raise v) [] 0"
  by (simp_all add: registers_answered raise_if_def value_or_raise_def)

lemma registers_push [starting]: "registers (push r) [r] 0"
  by (simp add: registers_def push_def)

lemma registers_await [starting]: "registers (await_within limit a) [] limit"
  by (cases a; cases "fst a") (auto simp: registers_def await_within_def timed_out_def)

lemma registers_telemetry: "registers (start_telemetry W s app) [TelemetryR] 0"
  unfolding registers_def
proof (intro allI impI)
  fix u r u'
  assume run: "start_telemetry W s app u = (r, u')"
  obtain ev q ts where init: "init_telemetry (uw_telemetry W) s False False (su_telemetry u) = (ev, q, ts)" by (metis prod_cases3)
  obtain ev' q' ts' where inst: "instrument_fastapi (uw_instrument W) app ts = (ev', q', ts')" by (metis prod_cases3)
  show "\<exists>qs. prefix qs [TelemetryR] \<and> (\<forall>x. r = Inr x \<longrightarrow> qs = [TelemetryR]) \<and>
      su_events u' = su_events u @ map Registered qs \<and> su_stack u' = rev qs @ su_stack u \<and> su_waited u' \<le> su_waited u + 0 \<and>
      (ts_initialized (su_telemetry u') \<longrightarrow> ts_initialized (su_telemetry u) \<or> TelemetryR \<in> set qs)"
  proof (cases q)
    case (Inl e)
    with init have "ts = su_telemetry u" by (auto elim: init_cases)
    with run init Inl show ?thesis by (intro exI [of _ "[]"]) (auto simp: start_telemetry_def and_then_def)
  next
    case (Inr x)
    with run init inst show ?thesis
      by (intro exI [of _ "[TelemetryR]"]) (auto simp: start_telemetry_def and_then_def push_def)
  qed
qed

lemma registers_pool: "registers (start_pool W) ([] @ [PgPoolR] @ [] @ []) (0 + (0 + (15 + 0)))"
  unfolding start_pool_def by (intro starting) simp_all

lemma registers_valkey: "registers (start_valkey W env) ([] @ [] @ [ValkeyR] @ []) (0 + (0 + (0 + 0)))"
  unfolding start_valkey_def by (intro starting) simp_all

lemma registers_openobserve: "registers (start_openobserve W) ([] @ [OpenObserveR]) (0 + 0)"
  unfolding start_openobserve_def by (intro starting) simp_all

lemma registers_k8s: "registers (start_k8s W) ([] @ []) (10 + 0)"
proof -
  have "registers (case e of None \<Rightarrow> answered (Inr True) | Some x \<Rightarrow> answered (if caught_by_exception x then Inr False else Inl x)) [] 0"
    for e by (cases e) (simp_all add: starting)
  then show ?thesis
    unfolding start_k8s_def k8s_init_timeout_def by (intro starting) simp_all
qed

lemma registers_saver: "registers (start_saver W) ([] @ [] @ [SaverR] @ [] @ []) (15 + (0 + (0 + (10 + 0))))"
  unfolding start_saver_def pg_saver_timeout_def by (intro starting) simp_all

definition all_resources :: "resource list" where
  "all_resources = [TelemetryR, PgPoolR, ValkeyR, OpenObserveR, SaverR, RunnerR]"

lemma registers_start_up: "registers (start_up W s env app) all_resources 50"
proof -
  have "registers (start_up W s env app)
    ([TelemetryR] @ ([] @ [PgPoolR] @ [] @ []) @ ([] @ [] @ [ValkeyR] @ []) @ ([] @ [OpenObserveR]) @ ([] @ []) @
      ([] @ [] @ [SaverR] @ [] @ []) @ [] @ [] @ [] @ [] @ [] @ [] @ [RunnerR] @ [])
    (0 + ((0 + (0 + (15 + 0))) + ((0 + (0 + (0 + 0))) + ((0 + 0) + ((10 + 0) + ((15 + (0 + (0 + (10 + 0)))) +
      (0 + (0 + (0 + (0 + (0 + (0 + (0 + 0)))))))))))))"
    unfolding start_up_def
    by (intro registers_telemetry registers_pool registers_valkey registers_openobserve registers_k8s registers_saver starting) simp_all
  then show ?thesis by (simp add: all_resources_def)
qed

section \<open>The end of the application\<close>

lemma unwind_stack:
  "unwind close importable rs e ts = (ev, e', ts') \<Longrightarrow>
     ev = map Released rs \<and> (e' = e \<or> (\<exists>r \<in> set rs. close r = e' \<and> e' \<noteq> None))"
proof (induction rs arbitrary: e ts ev e' ts')
  case (Cons r rs)
  define first where "first = (if r = TelemetryR then (e, snd (shutdown_telemetry importable ts))
      else (case close r of None \<Rightarrow> (e, ts) | Some x \<Rightarrow> (Some x, ts)))"
  obtain e1 ts1 where one: "first = (e1, ts1)" by fastforce
  then have e1: "e1 = e \<or> close r = e1 \<and> e1 \<noteq> None" by (auto simp: first_def split: if_splits option.splits)
  obtain ev2 e2 ts2 where rest: "unwind close importable rs e1 ts1 = (ev2, e2, ts2)" by (metis prod_cases3)
  have "ev = Released r # ev2" "e' = e2"
    using Cons.prems rest unfolding unwind.simps first_def [symmetric] one by simp_all
  with Cons.IH [OF rest] e1 show ?case by auto
qed simp

lemma unwind_telemetry:
  "unwind close importable rs e ts = (ev, e', ts') \<Longrightarrow> ts_initialized ts \<longrightarrow> TelemetryR \<in> set rs \<Longrightarrow> \<not> ts_initialized ts'"
proof (induction rs arbitrary: e ts ev e' ts')
  case (Cons r rs)
  then show ?case
    by (cases "r = TelemetryR")
      (fastforce simp: Let_def telemetry.closes split: if_splits option.splits prod.splits)+
qed simp

text \<open>C39: The application leaves nothing open. Whatever the clients answer, at whichever step the start-up fails, however the served application ends and whatever the clean-up raises, the resources registered are a beginning of the six in their order, all of them if the start-up succeeds; requests are served only then and between the two phases; every registered resource is released exactly once, in reverse, telemetry last, and telemetry is not left initialised. What is raised is the failure of the start-up or of the application, unless a clean-up that raises takes its place. With clients that end as soon as they are cancelled, the waits of the start-up take fifty seconds at most.\<close>

theorem lifespan_unwinds:
  assumes "\<not> ts_initialized ts" "E = lifespan W s env app body close importable ts"
  shows "(\<exists>rs. prefix rs [TelemetryR, PgPoolR, ValkeyR, OpenObserveR, SaverR, RunnerR] \<and>
      (case en_started E of
         Inl e \<Rightarrow> en_events E = map Registered rs @ map Released (rev rs)
       | Inr p \<Rightarrow> rs = [TelemetryR, PgPoolR, ValkeyR, OpenObserveR, SaverR, RunnerR] \<and>
           en_events E = map Registered rs @ [Served] @ map Released (rev rs)) \<and>
      (en_raised E = (case en_started E of Inl e \<Rightarrow> Some e | Inr p \<Rightarrow> body) \<or>
       (\<exists>r \<in> set rs. close r = en_raised E \<and> en_raised E \<noteq> None))) \<and>
    \<not> ts_initialized (en_telemetry E) \<and> en_waited E \<le> 50"
proof -
  define u where "u = \<lparr>su_events = [], su_stack = [], su_waited = 0, su_telemetry = ts\<rparr>"
  obtain r u' where up: "start_up W s env app u = (r, u')" by fastforce
  define e where "e = (case r of Inl x \<Rightarrow> Some x | Inr p \<Rightarrow> body)"
  obtain ev e' ts' where un: "unwind close importable (su_stack u') e (su_telemetry u') = (ev, e', ts')" by (metis prod_cases3)
  obtain qs where qs: "prefix qs all_resources" "\<forall>p. r = Inr p \<longrightarrow> qs = all_resources"
    "su_events u' = map Registered qs" "su_stack u' = rev qs" "su_waited u' \<le> 50"
    "ts_initialized (su_telemetry u') \<longrightarrow> TelemetryR \<in> set qs"
    using registers_start_up [of W s env app] up assms(1) unfolding registers_def u_def by fastforce
  have E: "en_events E = su_events u' @ (case r of Inl x \<Rightarrow> [] | Inr p \<Rightarrow> [Served]) @ ev" "en_raised E = e'" "en_telemetry E = ts'"
    "en_started E = r" "en_waited E = su_waited u'"
    using up un assms(2) unfolding lifespan_def u_def [symmetric] e_def by (cases r; simp)+
  have "ev = map Released (rev qs)" "e' = e \<or> (\<exists>r \<in> set qs. close r = e' \<and> e' \<noteq> None)"
    using unwind_stack [OF un] qs(4) by auto
  moreover have "\<not> ts_initialized ts'" using unwind_telemetry [OF un] qs(4,6) by simp
  ultimately show ?thesis
    using qs E by (intro conjI exI [of _ qs]) (auto simp: e_def all_resources_def split: sum.splits)
qed

section \<open>What is deployed\<close>

lemma and_then_Inr: "and_then m f u = (Inr y, v) \<longleftrightarrow> (\<exists>x w. m u = (Inr x, w) \<and> f x w = (Inr y, v))"
  by (auto simp: and_then_def split: prod.splits sum.splits)

lemma answered_Inr: "answered r u = (Inr y, v) \<longleftrightarrow> r = Inr y \<and> v = u"
  by (auto simp: answered_def)

lemma value_Inr: "value_or_raise r u = (Inr y, v) \<longleftrightarrow> r = Inr y \<and> v = u"
  by (auto simp: value_or_raise_def answered_def split: sum.splits)

lemma and_thenE: "and_then m f u = (Inr y, v) \<Longrightarrow> (\<And>x w. m u = (Inr x, w) \<Longrightarrow> f x w = (Inr y, v) \<Longrightarrow> P) \<Longrightarrow> P"
  by (auto simp: and_then_Inr)

lemma start_up_parts:
  assumes "start_up W s env app u = (Inr p, u')"
  shows "pt_context p = deployed_context W s (pt_registry p) (deployed_executor W (pt_registry p) (pt_engine p))"
    "build_default_registry (uw_tools W) = Inr (pt_registry p)"
    "make_router (uw_router_lib W) (st_llm s) 6000 (sf_max_llm_calls_per_incident (st_safety s)) (uw_now W) = Inr (pt_router p)"
    "make_runner True True True (sf_max_wall_clock_seconds (st_safety s)) = Inr (pt_runner p)"
    "make_engine (uw_repr W) None (PInt 1) None = Inr (pt_engine p)"
proof -
  from assms obtain reg eng x r valkey k8s router evictor where
    "build_default_registry (uw_tools W) = Inr reg" "make_engine (uw_repr W) None (PInt 1) None = Inr eng"
    "make_executor (deployed_executor W reg eng) 10 = Inr x"
    "make_router (uw_router_lib W) (st_llm s) 6000 (sf_max_llm_calls_per_incident (st_safety s)) (uw_now W) = Inr router"
    "make_runner True True True (sf_max_wall_clock_seconds (st_safety s)) = Inr r"
    "\<lparr>pt_valkey = valkey, pt_k8s = k8s, pt_router = router, pt_registry = reg, pt_engine = eng, pt_executor = x,
       pt_evictor = evictor, pt_context = deployed_context W s reg x, pt_runner = r\<rparr> = p"
    unfolding start_up_def by (elim and_thenE) (simp only: answered_Inr value_Inr sum.inject, blast)
  then show "pt_context p = deployed_context W s (pt_registry p) (deployed_executor W (pt_registry p) (pt_engine p))"
    "build_default_registry (uw_tools W) = Inr (pt_registry p)"
    "make_router (uw_router_lib W) (st_llm s) 6000 (sf_max_llm_calls_per_incident (st_safety s)) (uw_now W) = Inr (pt_router p)"
    "make_runner True True True (sf_max_wall_clock_seconds (st_safety s)) = Inr (pt_runner p)"
    "make_engine (uw_repr W) None (PInt 1) None = Inr (pt_engine p)"
    by (auto simp: make_executor_def)
qed

text \<open>Without hooks an execution is the dispatch, or nothing.\<close>

definition bare :: "executor \<Rightarrow> bool" where
  "bare x \<longleftrightarrow> x_snapshots x = [] \<and> x_verifiers x = [] \<and> x_rollbacks x = [] \<and> \<not> x_audit_hook x"

lemma bare_refusal [simp]: "bare x \<Longrightarrow> audit_refusal x inc t args tier why st err = []" "bare x \<Longrightarrow> audit_result x inc args r = []"
  by (simp_all add: audit_refusal_def audit_result_def safe_audit_def bare_def)

lemma bare_finish [simp]: "bare x \<Longrightarrow> fst (finish x ck inc t args roll r) = []"
  by (auto simp: finish_def maybe_rollback_def Let_def bare_def audit_result_def safe_audit_def split: prod.splits sum.splits)

lemma bare_verifiers: "bare x \<Longrightarrow> x_verifiers x = []"
  by (simp add: bare_def)

lemma bare_dispatch: "bare x \<Longrightarrow> fst (dispatch_step x ck inc t args r) = [Dispatch t args]"
  by (auto simp: dispatch_step_def Let_def reraise_def verify_step_def bare_verifiers split: sum.split pyval.split)

lemma bare_execute:
  assumes "bare x"
  shows "fst (execute x ck inc a) \<in> {[], [Dispatch (pa_tool_name a) (pa_tool_args a)]}"
proof -
  have "x_snapshots x = []" using assms by (simp add: bare_def)
  then have "fst (snapshot_step x ck inc t args r) = [Dispatch t args]" for t args r
    using bare_dispatch [OF assms] by (simp add: snapshot_step_def)
  then show ?thesis using assms by (simp add: execute_def Let_def split: sum.split option.split)
qed

definition bare_effect :: "effect \<Rightarrow> bool" where
  "bare_effect x =
     (case x of ExecutorCall p a ev \<Rightarrow> ev = [] \<or> ev = [Dispatch (pa_tool_name a) (pa_tool_args a)] | _ \<Rightarrow> True)"

lemma bare_node:
  assumes "bare (gc_executor cx)" "run_node cx n inp s = (ev, r)"
  shows "list_all bare_effect ev"
proof -
  consider "n = Investigate" | "n = Execute" | "n \<notin> {Investigate, Execute}" by auto
  then show ?thesis
  proof cases
    case 1
    with assms(2) investigate_result [of cx inp s ev r] show ?thesis
      by (auto simp: list_all_iff is_registry_call_def bare_effect_def split: effect.splits)
  next
    case 2
    with assms have "ev = [] \<or> (\<exists>p a. ev = [ExecutorCall p a (fst (execute (gc_executor cx) (ni_clock inp) None a))])"
      by (auto simp: execute_node_def Let_def split_beta split: if_splits sum.splits exec_error.splits list.splits)
    then show ?thesis using bare_execute [OF assms(1)] by (auto simp: bare_effect_def)
  next
    case 3
    with quiet_nodes [OF assms(2)] show ?thesis by simp
  qed
qed

lemma bare_step: "gstep cx c ev d \<Longrightarrow> bare (gc_executor cx) \<Longrightarrow> list_all bare_effect ev"
  by (erule gstep.cases) (auto simp: bare_effect_def dest: bare_node bare_node [of cx Approve])

text \<open>C40: What limits the deployed agent. Whatever the settings, the agent that starts gives a run of the graph at most three calls through the registry and two calls of the executor; of the safety settings the two wall-clock and model-call limits and two confidence thresholds arrive, while the iteration budget, the stagnation limit, the action attempts and the improvement threshold keep the defaults of the class. Its executor has no snapshot, verifier, rollback or audit hook, so all an executor call does is to dispatch the action or nothing: no execution of the deployed agent is audited, verified or rolled back.\<close>

theorem deployed_limits:
  assumes "start_up W s env app u = (Inr p, u')"
    and "run (gstep (pt_context p)) (start_config now m b) n tr d"
  shows "length (filter is_registry_call tr) \<le> 3 \<and> length (filter is_executor_call tr) \<le> 2 \<and> list_all bare_effect tr \<and>
    gc_initial_budget (pt_context p) = 3 \<and> gc_stagnation_limit (pt_context p) = 2 \<and> gc_max_attempts (pt_context p) = 2 \<and>
    gc_min_improvement (pt_context p) = 5 / 100 \<and>
    gc_confidence_propose (pt_context p) = sf_confidence_propose (st_safety s) \<and>
    gc_confidence_fast_path (pt_context p) = sf_confidence_fast_path (st_safety s) \<and>
    rn_max_wall (pt_runner p) = sf_max_wall_clock_seconds (st_safety s) \<and>
    r_max_calls (fst (pt_router p)) = sf_max_llm_calls_per_incident (st_safety s)"
proof -
  note parts = start_up_parts [OF assms(1)]
  have cx: "gc_initial_budget (pt_context p) = 3" "gc_max_attempts (pt_context p) = 2" "bare (gc_executor (pt_context p))"
    by (simp_all add: parts(1) deployed_context_def deployed_executor_def bare_def)
  have "rounds_of (pt_context p) d + length (filter is_registry_call tr) \<le> rounds_of (pt_context p) (start_config now m b)"
    "attempts_of (pt_context p) d + length (filter is_executor_call tr) \<le> attempts_of (pt_context p) (start_config now m b)"
    by (rule graph_run.trace_count [OF assms(2) start_inv]; auto dest: step_spends simp: spends_def)+
  moreover have "list_all bare_effect tr"
    by (rule graph_run.trace_all [OF assms(2) start_inv]) (use bare_step cx(3) in \<open>auto simp: list_all_iff\<close>)
  moreover have "r_max_calls (fst (pt_router p)) = sf_max_llm_calls_per_incident (st_safety s)"
    using parts(3) by (cases "pt_router p") (auto simp: make_router_def Let_def bind_res_Inr_iff split: if_splits)
  moreover have "rn_max_wall (pt_runner p) = sf_max_wall_clock_seconds (st_safety s)"
    using parts(4) by (cases "pt_runner p") (auto simp: make_runner_def split: if_splits)
  ultimately show ?thesis
    using parts(1) by (simp add: start_measures round_limit_def cx deployed_context_def)
qed

section \<open>A deployment that starts\<close>

definition answers_in :: "rat \<Rightarrow> rat option \<times> exn option \<Rightarrow> bool" where
  "answers_in limit a \<longleftrightarrow> (\<exists>t \<le> limit. a = (Some t, None))"

definition succeeds :: "'a starting \<Rightarrow> bool" where
  "succeeds m \<longleftrightarrow> (\<forall>u. \<exists>x w. m u = (Inr x, w))"

named_theorems succeeding

lemma succeeds_then: "succeeds m \<Longrightarrow> (\<And>x. succeeds (f x)) \<Longrightarrow> succeeds (and_then m f)"
  by (simp add: succeeds_def and_then_Inr) blast

lemma and_then_first: "m u = (Inr x, w) \<Longrightarrow> succeeds (f x) \<Longrightarrow> \<exists>y v. and_then m f u = (Inr y, v)"
  by (simp add: succeeds_def and_then_def)

lemma succeeds_simple [succeeding]: "succeeds (answered (Inr x))" "succeeds (raise_if None)" "succeeds (push r)"
  "succeeds (value_or_raise (Inr x))"
  by (simp_all add: succeeds_def answered_def raise_if_def push_def value_or_raise_def)

lemma succeeds_await: "answers_in limit a \<Longrightarrow> succeeds (f None) \<Longrightarrow> succeeds (and_then (await_within limit a) f)"
  by (auto simp: succeeds_def and_then_def answers_in_def await_within_def timed_out_def)

lemma engine_and_evictor: "\<exists>eng. make_engine rp None (PInt 1) None = Inr eng" "\<exists>ev. make_evictor 2000 50000 450 = Inr ev"
  by (simp_all add: make_engine_def risk_tier_of_def nonempty_str_def make_evictor_def)

text \<open>With validated settings and clients that answer in time the agent starts, with or without Kubernetes.\<close>

lemma start_up_succeeds:
  assumes "\<exists>ev ts. init_telemetry (uw_telemetry W) s False False (su_telemetry u) = (ev, Inr (), ts)" "uw_instrument W = None"
    "uw_pool W = None" "answers_in 15 (uw_pool_open W)" "read_valkey env = Inr v" "uw_redis W = None"
    "uw_openobserve W = None" "\<forall>e. snd (timed_out 10 (uw_k8s W)) = Some e \<longrightarrow> caught_by_exception e"
    "answers_in 15 (uw_saver W)" "answers_in 10 (uw_saver_setup W)" "llm_in_range (st_llm s)" "safety_in_range (st_safety s)"
    "str_strip (lc_model_coordinator (st_llm s)) \<noteq> []" "str_strip (lc_model_worker (st_llm s)) \<noteq> []"
  shows "\<exists>p u'. start_up W s env app u = (Inr p, u')"
proof -
  have one: "\<exists>w. start_telemetry W s app u = (Inr (), w)"
  proof -
    from assms(1) obtain ev ts where i: "init_telemetry (uw_telemetry W) s False False (su_telemetry u) = (ev, Inr (), ts)" by blast
    then have "ts_initialized ts" "ts_provider ts \<noteq> None" by (auto elim!: init_cases)
    with i assms(2) show ?thesis by (auto simp: start_telemetry_def and_then_def push_def instrument_fastapi_def)
  qed
  have two: "succeeds (start_pool W)"
    unfolding start_pool_def assms(3) by (intro succeeds_then succeeds_await assms(4) succeeding)
  have three: "succeeds (start_valkey W env)"
    unfolding start_valkey_def assms(5,6) by (intro succeeds_then succeeding)
  have four: "succeeds (start_openobserve W)"
    unfolding start_openobserve_def assms(7) by (intro succeeds_then succeeding)
  have five: "succeeds (start_k8s W)"
    using assms(8)
    by (auto simp: succeeds_def start_k8s_def and_then_def await_within_def answered_def k8s_init_timeout_def split: prod.splits option.splits)
  have six: "succeeds (start_saver W)"
    unfolding start_saver_def pg_saver_timeout_def by (intro succeeds_await succeeds_then assms(9,10) succeeding)
  from assms(12) have calls: "0 < sf_max_llm_calls_per_incident (st_safety s)" "0 < sf_max_wall_clock_seconds (st_safety s)"
    by (simp_all add: safety_in_range_def)
  with validated_router [of "st_llm s" 6000] assms(11,13,14) obtain R rs where
    router: "make_router (uw_router_lib W) (st_llm s) 6000 (sf_max_llm_calls_per_incident (st_safety s)) (uw_now W) = Inr (R, rs)"
    by fastforce
  obtain ev where evictor: "make_evictor 2000 50000 450 = Inr ev" using engine_and_evictor by blast
  obtain eng where engine: "make_engine (uw_repr W) None (PInt 1) None = Inr eng" using engine_and_evictor by blast
  have runner: "make_runner True True True (sf_max_wall_clock_seconds (st_safety s)) = Inr
      \<lparr>rn_has_checkpointer = True, rn_has_sre = True, rn_has_graph = True, rn_max_wall = sf_max_wall_clock_seconds (st_safety s)\<rparr>"
    using calls by (simp add: make_runner_def)
  have executor: "make_executor x 10 = Inr x" for x by (simp add: make_executor_def)
  from one obtain w where w: "start_telemetry W s app u = (Inr (), w)" by blast
  show ?thesis
    unfolding start_up_def router build_default_registry_eq engine executor evictor runner
    by (rule and_then_first, rule w) (intro two three four five six succeeds_then succeeding)
qed

text \<open>A deployment on the default settings, without a cluster, whose tools answer that they did nothing.\<close>

definition demo_startup :: startup_world where
  "demo_startup = \<lparr>uw_telemetry = demo_world, uw_instrument = None, uw_pool = None, uw_pool_open = (Some 1, None),
     uw_redis = None, uw_openobserve = None, uw_k8s = (None, None), uw_saver = (Some 1, None), uw_saver_setup = (Some 1, None),
     uw_router_lib = \<lparr>lib_encode = length, lib_dumps = (\<lambda>_. None), lib_repr = (\<lambda>_. []), lib_search = (\<lambda>_ _. False),
       lib_compiles = (\<lambda>_. True)\<rparr>,
     uw_now = 0, uw_tools = \<lparr>te_input = (\<lambda>n. Inr), te_output = (\<lambda>n. Inr),
       te_handler = (\<lambda>n v. Returned (PDict [(''success'', PBool False)])), te_schema = (\<lambda>n. [])\<rparr>,
     uw_repr = (\<lambda>_. []), uw_sha = (\<lambda>s. s),
     uw_cost = \<lparr>ce_litellm = None, ce_env_rates = (0, 0)\<rparr>,
     uw_show_exn = (\<lambda>_. [])\<rparr>"

definition demo_settings :: settings where
  "demo_settings = \<lparr>st_llm = default_llm ''k'',
     st_prices = \<lparr>pc_model_coordinator = [], pc_input_coordinator = 0, pc_output_coordinator = 0, pc_input_worker = 0,
       pc_output_worker = 0\<rparr>,
     st_eval = read_eval (\<lambda>_. None), st_postgres = default_postgres ''p'', st_webhook_secret = ''w'',
     st_openobserve = \<lparr>oc_email = [], oc_password = [], oc_url = []\<rparr>, st_otel = read_otel (\<lambda>_. None),
     st_safety = default_safety, st_admin_secret = None, st_environment = default_environment\<rparr>"

definition first_startup :: startup where
  "first_startup = \<lparr>su_events = [], su_stack = [], su_waited = 0, su_telemetry = fresh_telemetry\<rparr>"

lemma demo_telemetry: "\<exists>ev ts. init_telemetry (uw_telemetry demo_startup) demo_settings False False fresh_telemetry = (ev, Inr (), ts)"
proof -
  have "build_exporter (\<lambda>_. None) demo_settings = Inr \<lparr>xp_endpoint = ''http://localhost:4318/v1/traces'', xp_headers = None, xp_timeout = 10\<rparr>"
    by code_simp
  then show ?thesis by (simp add: init_telemetry_def demo_startup_def demo_world_def fresh_telemetry_def Let_def)
qed

lemma demo_starts: "\<exists>p u'. start_up demo_startup demo_settings (\<lambda>_. None) 7 first_startup = (Inr p, u')"
proof (rule start_up_succeeds)
  show "\<exists>ev ts. init_telemetry (uw_telemetry demo_startup) demo_settings False False (su_telemetry first_startup) = (ev, Inr (), ts)"
    using demo_telemetry by (simp add: first_startup_def)
  show "read_valkey (\<lambda>_. None) = Inr \<lparr>vc_host = ''valkey.rivulet.svc.cluster.local'', vc_port = 6379, vc_password = None, vc_tls = False\<rparr>"
    by code_simp
  show "llm_in_range (st_llm demo_settings)" "safety_in_range (st_safety demo_settings)" by code_simp+
  show "str_strip (lc_model_coordinator (st_llm demo_settings)) \<noteq> []" "str_strip (lc_model_worker (st_llm demo_settings)) \<noteq> []"
    by code_simp+
qed (simp_all add: demo_startup_def answers_in_def timed_out_def caught_by_exception_def)

definition demo_deployed :: graph_context where
  "demo_deployed =
     (let reg = map (\<lambda>t. (ts_name t, tool_of_spec (uw_tools demo_startup) t)) default_tool_specs
      in deployed_context demo_startup demo_settings reg (deployed_executor demo_startup reg default_engine))"

definition quiet_incident :: incident_metadata where
  "quiet_incident = demo_incident\<lparr>im_labels := [(''category'', ''false_positive'')]\<rparr>"

lemma demo_deployed_run:
  "case demo_steps demo_deployed 10 demo_yes 2 (start_config 1 quiet_incident 1) of (n, tr, d) \<Rightarrow> n = 2 \<and> tr = []"
  by code_simp

lemma deployed_limits_witness:
  "\<exists>p u' tr d. start_up demo_startup demo_settings (\<lambda>_. None) 7 first_startup = (Inr p, u') \<and>
     run (gstep (pt_context p)) (start_config 1 quiet_incident 1) 2 tr d \<and> tr = [] \<and>
     gc_max_attempts (pt_context p) = 2 \<and> sf_max_action_attempts (st_safety demo_settings) = 1"
proof -
  obtain p u' where start: "start_up demo_startup demo_settings (\<lambda>_. None) 7 first_startup = (Inr p, u')" using demo_starts by blast
  note parts = start_up_parts [OF start]
  have "make_engine (uw_repr demo_startup) None (PInt 1) None = Inr default_engine"
    by (simp add: make_engine_def risk_tier_of_def nonempty_str_def default_engine_def str_of_def)
  then have cx: "pt_context p = demo_deployed"
    using parts(1,2,5) by (simp add: build_default_registry_eq demo_deployed_def Let_def)
  obtain n tr d where r: "demo_steps demo_deployed 10 demo_yes 2 (start_config 1 quiet_incident 1) = (n, tr, d)" by (metis prod_cases3)
  with demo_deployed_run have "n = 2" "tr = []" by simp_all
  moreover from demo_steps_run [OF r] have "run (gstep (pt_context p)) (start_config 1 quiet_incident 1) n tr d"
    by (simp add: cx)
  moreover have "sf_max_action_attempts (st_safety demo_settings) = 1" by (simp add: demo_settings_def default_safety_def)
  ultimately show ?thesis using deployed_limits [OF start] start by blast
qed

text \<open>A start-up that fails at the second step: the pool does not open in time.\<close>

lemma lifespan_unwinds_witness:
  "\<exists>E. E = lifespan (demo_startup\<lparr>uw_pool_open := (None, None)\<rparr>) demo_settings (\<lambda>_. None) 7 None (\<lambda>_. None) True fresh_telemetry \<and>
     en_events E = [Registered TelemetryR, Registered PgPoolR, Released PgPoolR, Released TelemetryR] \<and>
     en_raised E = Some (PyError (TimeoutError [])) \<and> en_waited E = 15 \<and> \<not> ts_initialized (en_telemetry E)"
proof -
  let ?W = "demo_startup\<lparr>uw_pool_open := (None, None)\<rparr>"
  obtain E where E: "E = lifespan ?W demo_settings (\<lambda>_. None) 7 None (\<lambda>_. None) True fresh_telemetry" by simp
  have fresh: "\<not> ts_initialized fresh_telemetry" by (simp add: fresh_telemetry_def)
  from demo_telemetry obtain ev ts where i: "init_telemetry (uw_telemetry demo_startup) demo_settings False False fresh_telemetry = (ev, Inr (), ts)"
    by blast
  then have ts: "ts_initialized ts" "ts_provider ts \<noteq> None" "ts_apps ts = []" by (auto elim!: init_cases simp: fresh_telemetry_def)
  have "uw_telemetry ?W = uw_telemetry demo_startup" "uw_instrument ?W = None" "uw_pool ?W = None" "uw_pool_open ?W = (None, None)"
    by (simp_all add: demo_startup_def)
  then have "en_events E = [Registered TelemetryR, Registered PgPoolR, Released PgPoolR, Released TelemetryR] \<and>
      en_raised E = Some (PyError (TimeoutError [])) \<and> en_waited E = 15"
    using i ts unfolding E lifespan_def start_up_def
    by (simp add: and_then_def start_telemetry_def start_pool_def push_def instrument_fastapi_def raise_if_def answered_def
        await_within_def timed_out_def Let_def)
  with lifespan_unwinds [OF fresh E] E show ?thesis by blast
qed

section \<open>The factory and the probes\<close>

text \<open>The factory fails only with the settings, and then leaves the cache empty; what it makes is not paused and
  lets no wildcard origin in.\<close>

lemma app_created:
  assumes "create_app L env given cache = (r, cache')"
  shows "case r of
      Inl e \<Rightarrow> given = None \<and> fst (get_settings L env cache) = Inl e \<and> cache' = None
    | Inr a \<Rightarrow> (case given of Some s \<Rightarrow> ap_settings a = s \<and> cache' = cache
          | None \<Rightarrow> fst (get_settings L env cache) = Inr (ap_settings a) \<and> cache' = Some (ap_settings a)) \<and>
        \<not> ap_paused a \<and> ''*'' \<notin> set (ap_cors_origins a) \<and> ap_cors_origins a \<noteq> []"
proof -
  have "''*'' \<notin> set (resolve_cors_origins t)" "resolve_cors_origins t \<noteq> []" for t
    using cors_origins_usable [of t] by (auto simp: list_all_iff)
  then show ?thesis
    using assms by (auto simp: create_app_def Let_def get_settings_def reset_settings_cache_def split: option.splits sum.splits prod.splits)
qed

lemma ready_iff: "readyz shown pool = Inr (200, body) \<longrightarrow> pool = Some None"
  "caught_by_exception e \<Longrightarrow> \<exists>body. readyz shown (Some (Some e)) = Inr (503, body)"
  by (auto simp: readyz_def Let_def split: option.splits if_splits)

text \<open>The timeout the runner's shutdown is registered with is one it accepts.\<close>

lemma deployed_shutdown: "\<exists>completed cancelled. shutdown_runner runner_shutdown_timeout tasks = Inr (completed, cancelled, [])"
proof -
  have "\<exists>completed cancelled left. shutdown_runner runner_shutdown_timeout tasks = Inr (completed, cancelled, left)"
    by (simp add: shutdown_runner_def runner_shutdown_timeout_def Let_def)
  then show ?thesis using shutdown_drains by blast
qed

end
