(* ===== verification/Protocol.thy ===== *)
theory Protocol
  imports Incident
begin

text \<open>
  What the graph of \<^verbatim>\<open>core/graph.py\<close> promises, without its state: a protocol of eight stages with the rounds and
  attempts left and whether a human approved. The graph is a refinement of it: every run of the graph, seen
  through \<open>stage_of\<close> and \<open>move_of\<close>, is a run of the protocol, whose guarantees are proved on the protocol alone.
\<close>

section \<open>The protocol\<close>

datatype stage =
    Diagnosing nat nat
  | Deciding nat bool
  | Asking nat
  | Acting nat bool
  | Reviewing nat bool
  | Closing
  | Over

datatype move = Look | Answer bool | Act bool

text \<open>A round looks once at most; an action is taken by one attempt, and one of a high tier only once approved; only
  an unapproved proposal is asked about, and the answer decides; a stage may fail in any of its steps.\<close>

inductive protocol :: "stage \<Rightarrow> move list \<Rightarrow> stage \<Rightarrow> bool" where
  investigates: "ms = [] \<or> ms = [Look] \<Longrightarrow> protocol (Diagnosing (Suc r) a) ms (Diagnosing r a)"
| reflects: "protocol (Diagnosing r a) [] (Diagnosing r a)"
| diagnosed: "protocol (Diagnosing r a) [] (Deciding a False)"
| abandons: "protocol (Diagnosing r a) [] Closing"
| considers: "protocol (Deciding a approved) [] (Deciding a approved)"
| asks: "protocol (Deciding a False) [] (Asking a)"
| clears: "protocol (Deciding a approved) [] (Acting a approved)"
| gives_up: "protocol (Deciding a approved) [] Closing"
| approves: "protocol (Asking a) [Answer True] (Acting a True)"
| declines: "protocol (Asking a) [Answer False] Closing"
| acts: "ms = [] \<or> (\<exists>high. ms = [Act high] \<and> (high \<longrightarrow> approved)) \<Longrightarrow> protocol (Acting (Suc a) approved) ms (Reviewing a approved)"
| cannot_act: "protocol (Acting a approved) [] (Reviewing a approved)"
| retries: "protocol (Reviewing a approved) [] (Deciding a approved)"
| reviewed: "protocol (Reviewing a approved) [] Closing"
| closes: "protocol Closing [] Over"
| fails: "protocol c ms d \<Longrightarrow> protocol c ms Over"

text \<open>The guarantees, on the protocol alone.\<close>

fun looks_left :: "stage \<Rightarrow> nat" where
  "looks_left (Diagnosing r a) = r"
| "looks_left _ = 0"

fun acts_left :: "stage \<Rightarrow> nat" where
  "acts_left (Diagnosing r a) = a"
| "acts_left (Deciding a p) = a"
| "acts_left (Asking a) = a"
| "acts_left (Acting a p) = a"
| "acts_left (Reviewing a p) = a"
| "acts_left _ = 0"

fun is_approved :: "stage \<Rightarrow> bool" where
  "is_approved (Deciding a p) = p"
| "is_approved (Acting a p) = p"
| "is_approved (Reviewing a p) = p"
| "is_approved _ = False"

definition is_act :: "move \<Rightarrow> bool" where
  "is_act m = (case m of Act high \<Rightarrow> True | _ \<Rightarrow> False)"

lemma protocol_step:
  assumes "protocol c ms d"
  shows "length (filter ((=) Look) ms) + looks_left d \<le> looks_left c \<and> length (filter is_act ms) + acts_left d \<le> acts_left c \<and>
    (is_approved d \<longrightarrow> is_approved c \<or> ms = [Answer True]) \<and> (Act True \<in> set ms \<longrightarrow> is_approved c \<and> ms = [Act True])"
  using assms by (induction rule: protocol.induct) (auto simp: is_act_def)

lemma protocol_run:
  assumes "run protocol c n tr d" "\<not> is_approved c"
  shows "length (filter ((=) Look) tr) + looks_left d \<le> looks_left c \<and> length (filter is_act tr) + acts_left d \<le> acts_left c \<and>
    (is_approved d \<longrightarrow> Answer True \<in> set tr) \<and> (\<forall>xs ys. tr = xs @ Act True # ys \<longrightarrow> Answer True \<in> set xs)"
  using assms
proof (induction rule: run.induct)
  case (run_step c n tr d ev e)
  note s = protocol_step [OF run_step.hyps(2)]
  have "Answer True \<in> set xs" if split: "tr @ ev = xs @ Act True # ys" for xs ys
  proof (cases "Act True \<in> set ev")
    case True
    with s have "is_approved d" "ev = [Act True]" by auto
    with run_step have tr: "Answer True \<in> set tr" by blast
    show ?thesis
    proof (cases ys rule: rev_cases)
      case Nil
      with split \<open>ev = [Act True]\<close> tr show ?thesis by simp
    next
      case (snoc zs z)
      with split \<open>ev = [Act True]\<close> have "tr = xs @ Act True # zs" by simp
      with run_step show ?thesis by blast
    qed
  next
    case False
    with split obtain zs where "tr = xs @ Act True # zs"
      by (auto simp: append_eq_append_conv2 append_eq_Cons_conv Cons_eq_append_conv)
    with run_step show ?thesis by blast
  qed
  with s run_step show ?case by auto
qed simp

section \<open>The graph seen as the protocol\<close>

definition move_of :: "effect \<Rightarrow> move" where
  "move_of x =
     (case x of
        RegistryCall name args called \<Rightarrow> Look
      | ExecutorCall p a ev \<Rightarrow> Act (2 \<le> pa_risk_tier p)
      | HumanDecision v \<Rightarrow> Answer (decision_approves v))"

fun stage_of :: "graph_context \<Rightarrow> config \<Rightarrow> stage" where
  "stage_of cx (At n s) =
     (let a = attempts_left cx s; p = already_approved s
      in case n of
           Triage \<Rightarrow> Diagnosing (nat (round_limit cx)) (nat (gc_max_attempts cx))
         | Investigate \<Rightarrow> Diagnosing (rounds_left cx s) a
         | Hypothesize \<Rightarrow> Diagnosing (rounds_left cx s) a
         | Propose \<Rightarrow> Deciding a p
         | Approve \<Rightarrow> Deciding a p
         | Execute \<Rightarrow> Acting a p
         | Verify_Phase \<Rightarrow> Reviewing a p
         | Complete \<Rightarrow> Closing)"
| "stage_of cx (Paused s) = Asking (attempts_left cx s)"
| "stage_of cx (Ended s) = Over"
| "stage_of cx (Crashed e) = Over"

text \<open>While the diagnosis runs nothing has been approved.\<close>

fun unasked :: "config \<Rightarrow> bool" where
  "unasked (At n s) \<longleftrightarrow> n \<in> {Triage, Investigate, Hypothesize} \<longrightarrow> \<not> already_approved s"
| "unasked _ \<longleftrightarrow> True"

definition protocol_inv :: "graph_context \<Rightarrow> incident_metadata \<Rightarrow> config \<Rightarrow> bool" where
  "protocol_inv cx m c \<longleftrightarrow> config_inv cx m c \<and> unasked c"

definition refines :: "graph_context \<Rightarrow> config \<Rightarrow> effect list \<Rightarrow> config \<Rightarrow> bool" where
  "refines cx c ev d \<longleftrightarrow> protocol (stage_of cx c) (map move_of ev) (stage_of cx d) \<and> unasked d"

lemmas stage_defs = refines_def follow_def rounds_left_def attempts_left_def already_approved_def

lemma crash_refines:
  assumes "protocol (stage_of cx c) (map move_of ev) x"
  shows "refines cx c ev (Crashed e)"
  using fails [OF assms] by (simp add: refines_def)

lemma triage_refines:
  assumes "protocol_inv cx m (At Triage s)" "triage_node cx inp s = (ev, r)"
  shows "refines cx (At Triage s) ev (follow Triage r s)"
  using assms(1) triage_result [OF assms(2)]
  by (cases r) (auto simp: stage_defs protocol_inv_def same_case_def route_after_triage_def
      intro: reflects abandons fails [OF reflects])

lemma look_once:
  assumes "length ev \<le> max_tools_per_iteration" "list_all is_registry_call ev"
  shows "map move_of ev = [] \<or> map move_of ev = [Look]"
  using assms by (cases ev) (auto simp: max_tools_per_iteration_def is_registry_call_def move_of_def split: effect.splits)

lemma investigate_refines:
  assumes "protocol_inv cx m (At Investigate s)" "investigate_node cx inp s = (ev, r)"
  shows "refines cx (At Investigate s) ev (follow Investigate r s)"
proof -
  from assms(1) have lim: "s_iteration_count s < round_limit cx" and no: "\<not> already_approved s"
    by (auto simp: protocol_inv_def)
  then obtain k where k: "rounds_left cx s = Suc k" unfolding rounds_left_def by (metis diff_gt_0_iff_gt gr0_implies_Suc zero_less_nat_eq)
  note res = investigate_result [OF assms(2)]
  have step: "protocol (Diagnosing (Suc k) (attempts_left cx s)) (map move_of ev) (Diagnosing k (attempts_left cx s))"
    using res look_once by (intro investigates) blast
  show ?thesis
  proof (cases r)
    case (Go s')
    with res k have "rounds_left cx s' = k" "attempts_left cx s' = attempts_left cx s" "\<not> already_approved s'"
      using no by (auto simp: rounds_left_def attempts_left_def already_approved_def same_case_def)
    with step k Go show ?thesis by (simp add: refines_def follow_def)
  next
    case (Crash e)
    with step k show ?thesis by (auto simp: follow_def intro!: crash_refines)
  qed (use res in simp)
qed

lemma hypothesize_refines:
  assumes "protocol_inv cx m (At Hypothesize s)" "hypothesize_node cx inp s = (ev, r)"
  shows "refines cx (At Hypothesize s) ev (follow Hypothesize r s)"
  using assms(1) hypothesize_result [OF assms(2)]
  by (cases r) (auto simp: stage_defs protocol_inv_def same_case_def route_after_hypothesize_def
      intro: reflects diagnosed fails [OF reflects])

lemma propose_refines:
  assumes "protocol_inv cx m (At Propose s)" "propose_node cx inp s = (ev, r)"
  shows "refines cx (At Propose s) ev (follow Propose r s)"
  using propose_result [OF assms(2)]
  by (cases r) (auto simp: stage_defs same_progress_def proposes_def route_after_propose_def
      intro: considers clears gives_up fails [OF considers])

lemma approve_refines:
  assumes "protocol_inv cx m (At Approve s)" "ni_decision inp = None" "approve_node cx inp s = (ev, r)"
  shows "refines cx (At Approve s) ev (follow Approve r s)"
proof -
  from assms(1) obtain p where "s_requires_approval s" "s_proposed s = [p]" by (auto simp: protocol_inv_def acting_def)
  moreover from this have "s_approval_granted s = Some True \<Longrightarrow> \<exists>s'. r = Go s' \<and> s_phase s' = Execute"
    using assms(3) by (auto simp: approve_node_def already_approved_def finish_with_def Let_def split: if_splits)
  ultimately show ?thesis using approve_result [OF assms(3), of p] assms(2)
    by (cases r; cases "s_approval_granted s = Some True") (auto simp: stage_defs route_after_approval_def intro: considers clears gives_up asks)
qed

lemma resume_refines:
  assumes "protocol_inv cx m (Paused s)" "ni_decision inp = Some v" "approve_node cx inp s = (ev, r)"
  shows "refines cx (Paused s) (HumanDecision v # ev) (follow Approve r s)"
proof -
  from assms(1) obtain p where p: "s_requires_approval s" "s_proposed s = [p]" "s_approval_granted s = None"
    "s_approval_requested_at s \<noteq> None" by (auto simp: protocol_inv_def acting_def)
  with assms(2,3) show ?thesis
    by (cases "decision_approves v")
      (auto simp: stage_defs route_after_approval_def approve_node_def finish_with_def Let_def move_of_def intro: approves declines split: option.splits)
qed

lemma execute_refines:
  assumes "protocol_inv cx m (At Execute s)" "execute_node cx inp s = (ev, r)"
  shows "refines cx (At Execute s) ev (follow Execute r s)"
proof -
  from assms(1) obtain p where p: "acting cx s p" "already_approved s \<or> pa_risk_tier p \<le> 1" by (auto simp: protocol_inv_def)
  show ?thesis
  proof (cases "gc_sre cx")
    case True
    with p(1) have res: "case action_to_run s p of
       Inl e \<Rightarrow> ev = [] \<and> r = Crash e
     | Inr a \<Rightarrow> ev = [ExecutorCall p a (fst (execute (gc_executor cx) (ni_clock inp) None a))]"
      "case r of
         Go s' \<Rightarrow> s_action_attempts s' = s_action_attempts s + 1 \<and> s_approval_granted s' = s_approval_granted s
       | Pause v \<Rightarrow> False | Crash e \<Rightarrow> True"
      using execute_result [OF assms(2), of p] by (auto simp: acting_def split: node_result.splits)
    from p(1) obtain k where k: "attempts_left cx s = Suc k"
      unfolding acting_def attempts_left_def by (metis diff_gt_0_iff_gt gr0_implies_Suc zero_less_nat_eq)
    have ms: "map move_of ev = [] \<or> (\<exists>high. map move_of ev = [Act high] \<and> (high \<longrightarrow> already_approved s))"
      using res(1) p(2) by (auto simp: move_of_def split: sum.splits)
    have step: "protocol (Acting (Suc k) (already_approved s)) (map move_of ev) (Reviewing k (already_approved s))"
      using ms by (rule acts)
    show ?thesis
    proof (cases r)
      case (Go s')
      with res(2) k have "attempts_left cx s' = k" "already_approved s' = already_approved s"
        by (auto simp: attempts_left_def already_approved_def)
      with step k Go show ?thesis by (simp add: refines_def follow_def)
    next
      case (Crash e)
      with step k show ?thesis by (auto simp: follow_def intro!: crash_refines)
    qed (use res(2) in simp)
  next
    case False
    with execute_stops [OF assms(2)] show ?thesis
      by (auto simp: stage_defs finish_with_def intro: cannot_act)
  qed
qed

lemma verify_refines:
  assumes "protocol_inv cx m (At Verify_Phase s)" "verify_node cx inp s = (ev, r)"
  shows "refines cx (At Verify_Phase s) ev (follow Verify_Phase r s)"
  using verify_result [OF assms(2)]
  by (auto simp: stage_defs route_after_verify_def intro: retries reviewed)

lemma complete_refines:
  assumes "complete_node cx inp s = (ev, r)"
  shows "refines cx (At Complete s) ev (follow Complete r s)"
  using assms by (auto simp: complete_node_def refines_def follow_def Let_def intro: closes)

lemma gstep_refines:
  assumes "protocol_inv cx m c" "gstep cx c ev d"
  shows "refines cx c ev d"
  using assms(2)
proof cases
  case (gnode inp n s r)
  with assms(1) show ?thesis
    by (cases n) (auto simp del: stage_of.simps intro: triage_refines investigate_refines hypothesize_refines propose_refines
        approve_refines execute_refines verify_refines complete_refines)
next
  case (gresume inp v s ev' r)
  with assms(1) show ?thesis by (auto simp del: stage_of.simps intro: resume_refines)
qed

interpretation graph_protocol: simulation "gstep cx" "protocol_inv cx m" protocol "stage_of cx" move_of for cx m
proof
  fix c ev d
  assume c: "protocol_inv cx m c" "gstep cx c ev d"
  have "config_inv cx m d" using graph_run.inv_step [of cx m c ev d] c by (simp add: protocol_inv_def)
  with gstep_refines [OF c] show "protocol_inv cx m d" "protocol (stage_of cx c) (map move_of ev) (stage_of cx d)"
    by (simp_all add: protocol_inv_def refines_def)
qed

lemma protocol_start:
  "protocol_inv cx m (start_config now m b)"
  "stage_of cx (start_config now m b) = Diagnosing (nat (max 3 (gc_initial_budget cx))) (nat (gc_max_attempts cx))"
  using start_inv [of cx m now b]
  by (simp_all add: protocol_inv_def start_config_def create_initial_state_def route_initial_phase_def already_approved_def
      round_limit_def Let_def)

text \<open>C6: The graph is a refinement of the approval protocol. Every run of the graph from a fresh incident, whatever the model, the tools, the clocks and the reviewers answer, is step by step a run of the protocol that starts diagnosing with max(3, B) rounds and A attempts, each call and decision being the move the protocol makes: a look, an answer, an action of a high tier or not. So the looks are bounded by the rounds, the actions by the attempts, and before the first action of a high tier a human has answered yes.\<close>

theorem graph_refines_protocol:
  assumes "run (gstep cx) (start_config now m b) n tr d"
  shows "run protocol (Diagnosing (nat (max 3 (gc_initial_budget cx))) (nat (gc_max_attempts cx))) n (map move_of tr) (stage_of cx d) \<and>
    length (filter ((=) Look) (map move_of tr)) \<le> nat (max 3 (gc_initial_budget cx)) \<and>
    length (filter is_act (map move_of tr)) \<le> nat (gc_max_attempts cx) \<and>
    (\<forall>xs ys. map move_of tr = xs @ Act True # ys \<longrightarrow> Answer True \<in> set xs)"
proof -
  have "run protocol (Diagnosing (nat (max 3 (gc_initial_budget cx))) (nat (gc_max_attempts cx))) n (map move_of tr) (stage_of cx d)"
    using graph_protocol.run_refines [OF assms protocol_start(1)] by (simp add: protocol_start(2))
  with protocol_run [OF this] show ?thesis by auto
qed

lemma graph_refines_protocol_witness:
  "\<exists>tr s. run (gstep demo_context) (start_config 1 demo_incident 1) 10 tr (Ended s) \<and>
     map move_of tr = [Look, Answer True, Act True] \<and> run protocol (Diagnosing 3 2) 10 [Look, Answer True, Act True] Over"
proof -
  have "case demo_steps demo_context 10 demo_yes 12 demo_start of (n, tr, d) \<Rightarrow>
      n = 10 \<and> map move_of tr = [Look, Answer True, Act True] \<and> (case d of Ended s \<Rightarrow> True | _ \<Rightarrow> False)" by code_simp
  moreover obtain n tr d where r: "demo_steps demo_context 10 demo_yes 12 demo_start = (n, tr, d)" by (metis prod_cases3)
  ultimately obtain s where "n = 10" "d = Ended s" and moves: "map move_of tr = [Look, Answer True, Act True]"
    by (auto split: config.splits)
  with demo_steps_run [OF r] have run: "run (gstep demo_context) (start_config 1 demo_incident 1) 10 tr (Ended s)"
    by (simp add: demo_start_def)
  have "gc_initial_budget demo_context = 2" "gc_max_attempts demo_context = 2" by (simp_all add: demo_context_def)
  with graph_refines_protocol [OF run] moves have "run protocol (Diagnosing 3 2) 10 [Look, Answer True, Act True] Over" by simp
  with run moves show ?thesis by (intro exI [of _ tr] exI [of _ s] conjI)
qed

end
