(* ===== verification/Spec2Isabelle.thy ===== *)
theory Spec2Isabelle
  imports Incident Fallbacks Builtin ToolModels Backends Eviction Metrics Responses Gateway Config Sandbox Access App Protocol
begin

text \<open>
  AutoSRE is an incident-response agent: an alert starts a run of a graph of eight nodes
  (\<^verbatim>\<open>src/agents/src/autosre/core/graph.py\<close>) in which a language model
  investigates with read-only tools, proposes one remediation, asks a human when the remediation is
  Tier 2, and executes it through a gate. This library models that core and proves what keeps it
  safe. Paths below are relative to \<^verbatim>\<open>src/agents/src/autosre/\<close>.

  \<^bold>\<open>Parts and theories.\<close>

  \<^item> \<open>Prelude\<close>, \<open>PyValue\<close>: dictionaries with insertion order, results, rounding; the
    Python values the code passes around, with the numeric and text conversions it uses. Floats are
    rationals with two infinities and NaN, so rounding of sums is not modelled, comparison with NaN is.
  \<^item> \<open>Policy\<close> (\<^verbatim>\<open>safety/policy.py\<close>): tiers, rules, \<open>classify\<close>; the locale
    \<open>policy_gate\<close> is what the executor relies on, interpreted on \<open>classify\<close>.
  \<^item> \<open>Actions\<close> (\<^verbatim>\<open>core/state.py\<close>): exceptions, incident, actions, run metrics.
  \<^item> \<open>Registry\<close> (\<^verbatim>\<open>tools/registry.py\<close>): tools and validated dispatch; the locale
    \<open>named_store\<close> is interpreted on the registry. \<open>Tools\<close>: the declared input models, names and
    tiers of the four tool modules, and the default registry.
  \<^item> \<open>Executor\<close> (\<^verbatim>\<open>safety/executor.py\<close>): the pipeline from lookup to audit. An
    execution is a list of events and a result or an error.
  \<^item> \<open>Windows\<close>: the sliding windows, circuit breaker (\<^verbatim>\<open>core/router.py\<close>), rate
    limiter and fingerprint index (\<^verbatim>\<open>api/routes.py\<close>), on one locale
    \<open>sliding_window\<close>.
  \<^item> \<open>Router\<close> (\<^verbatim>\<open>core/router.py\<close>): error taxonomy, quotas, rotation, backoff and
    the call loop, with the provider's replies and the clock as an environment.
  \<^item> \<open>Helpers\<close> (\<^verbatim>\<open>core/graph_helpers.py\<close>): reading a model's answer, hypotheses,
    idempotency. \<open>Cost\<close> (\<^verbatim>\<open>core/cost.py\<close>). \<open>Json\<close> is what the sources use of Python's \<open>json\<close>, with its
    round trip (locale \<open>written_text\<close> for what the parts of a written value keep); \<open>Grammar\<close> is the grammar of
    JSON texts, all of which the reader takes; \<open>Answers\<close> gives the
    helpers that library: a model's answer is read back as written, and the digest of a call's arguments
    (\<open>_hash_args\<close>) identifies them up to key order.
  \<^item> \<open>State\<close>, \<open>Prompts\<close>, \<open>Nodes\<close>, \<open>Propose\<close>, \<open>Actuate\<close>
    (\<^verbatim>\<open>core/graph_nodes.py\<close>): the graph state, the four system prompts and the nodes, each a function of the
    run's context, its input and the state, giving the tool calls made and a new state, a pause or
    a crash.
  \<^item> \<open>Runs\<close>: runs of a step relation and the locale \<open>measured_steps\<close>. \<open>Graph\<close>: routing and
    wiring as the step relation \<open>gstep\<close>, its invariant, measure and the interpretation.
  \<^item> \<open>Incident\<close>: whole runs, and a concrete incident on which their properties are applied.
    \<open>Fallbacks\<close>: the fallback table against tools and policy. \<open>Protocol\<close>: what the graph promises as a
    protocol of its own, which the graph refines (locale \<open>simulation\<close> of \<open>Runs\<close>).

  \<^item> \<open>Handlers\<close>, \<open>Kubernetes\<close>, \<open>Databases\<close>, \<open>Observability\<close>, \<open>Builtin\<close> (\<^verbatim>\<open>tools/\<close>): the seventeen tool
    handlers as programs over the requests they make, the reading of quantities, and the handler each
    registration binds. \<open>Models\<close>, \<open>ToolModels\<close>: the declared output models, which every report conforms to.
    \<open>Backends\<close>: the statements of \<open>terminate_backend\<close> over a server's activity view, and which sessions it signals.
  \<^item> \<open>Regex\<close>, \<open>Eviction\<close> (\<^verbatim>\<open>core/context.py\<close>): the patterns as backtracking matchers and both eviction passes.
  \<^item> \<open>Webhook\<close>, \<open>Metrics\<close> (\<^verbatim>\<open>api/routes.py\<close>): alert and approval webhooks with their signatures, the admin
    switches, reports, summaries and time series. \<open>Responses\<close>: the declared response models, which the
    answers conform to. \<open>Gateway\<close> (\<^verbatim>\<open>api/middleware.py\<close>): the shared key, the page
    it is put into, reserved paths.
  \<^item> \<open>Runner\<close> (\<^verbatim>\<open>api/runner.py\<close>): an alert becomes a run, bounded by the wall clock; checkpoints are read, paused
    runs resumed, background tasks drained. \<open>Access\<close>: what a node reads from the config the runner built.
  \<^item> \<open>Config\<close> (\<^verbatim>\<open>config.py\<close>): every section of the settings with its variables, defaults and ranges, the
    cache, the database URLs.
  \<^item> \<open>Sandbox\<close> (\<^verbatim>\<open>core/codeact.py\<close>): the checks on a script's tree, the restricted names, the worker and its
    parent.
  \<^item> \<open>Endpoint\<close>, \<open>Telemetry\<close> (\<^verbatim>\<open>telemetry/otel.py\<close>): the collector's address, log filter and patched span; the
    life of the singleton as the relation \<open>tel_step\<close>, with the locale \<open>closable\<close> for its clean-up.
  \<^item> \<open>App\<close> (\<^verbatim>\<open>api/main.py\<close>): the start-up as a composition of steps that register clean-ups, what it deploys,
    its unwinding, the factory and the probes.

  \<^bold>\<open>How they interact.\<close> The nodes ask the router through \<open>ni_ask\<close> (its answer to a list
  of messages), call tools through the registry (\<open>investigate_node\<close>) or through the executor
  (\<open>execute_node\<close>), and the executor asks the policy (\<open>x_policy\<close>) and the registry. What a node
  reads from outside is its \<open>node_input\<close>, arbitrary at every step of a run: no property of a run
  assumes anything of the model, the tools, the clocks or the reviewers. An alert passes the gate
  (\<open>api_key_gate\<close>), the webhook (\<open>trigger_incident\<close>, with the limiter and the fingerprint index) and the
  runner (\<open>prepare_incident\<close>), which starts \<open>gstep\<close> on the state \<open>start_config\<close> has; a decision passes
  \<open>approve_incident\<close> and \<open>approve_checkpoint\<close> and resumes it. The start-up (\<open>start_up\<close>) builds the registry,
  policy, executor, router, evictor, graph context and runner with the definitions of their theories
  and the settings \<open>make_settings\<close> reads.

  \<^bold>\<open>What is shown.\<close> The policy accepts exactly the described calls; the executor dispatches
  exactly behind its gate, in order, with one audit; the registry validates in and out; the router
  keeps its budget; answers are parsed as specified and read back as written; the model is offered the
  tools of the tiers the phase is for, and what an alert can put into the first prompt is bounded
  line by line; runs end within
  \<open>2 max(3, B) + 6 (A + 1) + 4\<close> node runs (B the triage budget, A the attempts: two node runs a
  round, six an attempt), call tools within their budgets, only with guarded arguments, and call a
  Tier-2 tool only after an approving decision. The last section below shows where this stops:
  the investigation can run any registered tool, a status does not depend on verification, an
  approval is not spent by the execution it was given for.

  Around the core: a handler's requests are those of its tier and on its target, and its report has the
  declared shape; the termination of database sessions signals only those its filters allow; eviction keeps the
  messages and bounds tool results; the webhook starts an incident exactly for an accepted, unpaused,
  unreserved alert; the routes that need the key are those that have it, and the key cannot leave its
  script; a pending approval can be decided, and the console reads whatever the checkpointer answers;
  settings stay in their ranges; sandboxed code is checked at every node and its process is gone
  afterwards; telemetry is installed once and taken down in order; the start-up unwinds from any
  failure. \<open>App.deployed_limits\<close> says which of the limits above a deployment has.

  \<^bold>\<open>Arguments of the model.\<close> Pydantic's validation functions, tool handlers, snapshot, verify and
  rollback handlers, \<open>json\<close> (\<open>std_json\<close> of theory \<open>Answers\<close> in the deployment), \<open>repr\<close>, hashing, LiteLLM and its price table, the tokenizer, regular
  expression search in the router, clocks, the prompts of a context (\<open>graph_prompt\<close> of theory \<open>Prompts\<close> in the
  deployment, so the properties of runs hold for any); the Kubernetes, Postgres, Valkey and HTTP clients;
  HMAC; dates read from text; the Python parser and what a script does; the checkpointer and the end of
  a graph stream; the conversion of environment variables to numbers; the OpenTelemetry libraries. Their
  records are \<open>tool_env\<close>, \<open>executor\<close>, \<open>json_lib\<close>, \<open>router_lib\<close>, \<open>llm_env\<close>, \<open>cost_env\<close>, \<open>graph_context\<close>,
  \<open>handler_lib\<close>, \<open>text_lib\<close>, \<open>web_lib\<close>, \<open>metrics_lib\<close>, \<open>env_lib\<close>, \<open>sandbox_world\<close>, \<open>init_world\<close>,
  \<open>startup_world\<close>. LangGraph is the relation \<open>gstep\<close>: one node at a time, an edge after it, a paused
  node run again from its start on resume.

  \<^bold>\<open>What is assumed of the servers.\<close> Properties of runs assume nothing. Three properties of clients name
  the documented behaviour they rest on: \<open>postgres\<close> (the SQL is answered as written; statements may fail,
  a signalled session may linger, others come and go), \<open>key_store\<close> (the answers of Valkey to the commands used;
  \<open>INFO keyspace\<close> lists any databases with further fields) and \<open>checkpointer\<close> (a snapshot, with or without
  values, nothing, or an ordinary exception).

  \<^bold>\<open>Not modelled.\<close> LangGraph's recursion limit and persistence; the delivery of requests by the web
  framework and the serving of static files; the content of log lines and span attributes; the depth and digit limits of Python's \<open>json\<close>; the
  rounding of floating-point sums; text outside the Latin alphabet where a function is said to be for
  ASCII; the interleaving of two requests inside a handler between its awaits, except where a
  check and a commit are separate definitions (\<open>admit\<close> and \<open>commit\<close>); a client that delays its cancellation
  beyond a time limit, a worker process that does not end after its message, a cancelled audit hook, and
  an input model that raises anything but a ValidationError. Migrations, dashboards, the
  user interface and the infrastructure are data or other languages.
\<close>

section \<open>Where the guarantees stop\<close>

text \<open>Three facts that span the components and bound what the properties above promise.\<close>

lemma registry_call_runs:
  assumes "dget reg t = Some tool" "t_input_model tool (PDict args) = Inr v"
  shows "fst (snd (registry_execute js er reg t (PDict args)))"
  using assms by (simp add: registry_execute_def get_tool_def split_beta Let_def run_tool_called)

text \<open>C7: an investigation is not read-only. Whatever tool of the registry the model's answer names
  first, with arguments its input model accepts once a tool of a namespace has the incident's, the
  investigate node runs its handler on them: the registered tier is not consulted, no policy,
  approval or audit lies between. (The tools offered to the model are the Tier-0 ones; its answer is
  not checked against them.)\<close>

theorem investigate_runs_any_tool:
  assumes "gc_sre cx" "read_only_tools (gc_registry cx) \<noteq> []"
    "select_calls cx inp s = Inr (PDict call # calls, u)"
    "dget call ''name'' = Some (PStr t)" "dget call ''args'' = Some (PDict args)"
    "dget (gc_registry cx) t = Some tool"
    "clamped = (if t \<in> set tools_with_namespace \<and> im_namespace (s_metadata s) \<noteq> []
       then dset ''namespace'' (PStr (im_namespace (s_metadata s))) args else args)"
    "t_input_model tool (PDict clamped) = Inr v"
  shows "fst (investigate_node cx inp s) = [RegistryCall (PStr t) clamped True]"
proof -
  let ?ns = "if im_namespace (s_metadata s) = [] then None else Some (im_namespace (s_metadata s))"
  have clamp: "clamp_namespace args ?ns t = clamped"
    unfolding assms(7) by (simp add: clamp_namespace_def)
  have "fst (snd (registry_execute (x_json (gc_executor cx)) (x_show_exn (gc_executor cx)) (gc_registry cx) t (PDict clamped)))"
    using assms(6,8) by (rule registry_call_runs)
  moreover have "dget_or call ''name'' (PStr []) = PStr t" "py_dict_of (dget_or call ''args'' (PDict [])) = args"
    using assms(4,5) by (simp_all add: dget_or_def dget_def py_dict_of_def)
  ultimately have "fst (run_call cx ?ns call) = [RegistryCall (PStr t) clamped True]"
    using assms(1) clamp by (simp add: run_call_def Let_def hashable_def call_outcome_def split_beta)
  then have "fst (run_calls cx ?ns (take max_tools_per_iteration (PDict call # calls))) = [RegistryCall (PStr t) clamped True]"
    by (simp add: max_tools_per_iteration_def split_beta Let_def split: sum.splits prod.splits)
  then obtain r where r: "run_calls cx ?ns (take max_tools_per_iteration (PDict call # calls))
      = ([RegistryCall (PStr t) clamped True], r)"
    by (metis prod.collapse)
  show ?thesis
    unfolding investigate_node_def Let_def assms(3) using assms(2)
    by (simp only: if_False sum.case prod.case r fst_conv) (simp split: sum.split)
qed

text \<open>An answer that names the Tier-2 tool that scales a deployment, in another namespace: the handler
  runs, in the namespace of the incident.\<close>

definition answered_args :: pydict where
  "answered_args = [(''namespace'', PStr ''other''), (''name'', PStr ''order''), (''replicas'', PInt 9), (''reason'', PStr ''load'')]"

definition scale_answer :: pyval where
  "scale_answer =
    PDict [(''choices'', PList [PDict [(''message'', PDict [(''content'',
      PDict [(''tools'', PList [PDict [(''name'', PStr ''scale_deployment''), (''args'', PDict answered_args)]])])])]])]"

definition demo_answering :: "pyval \<Rightarrow> node_input" where
  "demo_answering v = (demo_input 10 None)\<lparr>ni_ask := (\<lambda>_. Inr (v, ''m''))\<rparr>"

definition demo_state :: agent_state where
  "demo_state = create_initial_state 1 demo_incident 3"

lemma investigate_runs_any_tool_witness:
  "fst (investigate_node demo_context (demo_answering scale_answer) demo_state)
     = [RegistryCall (PStr ''scale_deployment'') (dset ''namespace'' (PStr ''rivulet'') answered_args) True]"
proof -
  let ?call = "[(''name'', PStr ''scale_deployment''), (''args'', PDict answered_args)]"
  have "(case select_calls demo_context (demo_answering scale_answer) demo_state of
      Inr (cs, u) \<Rightarrow> cs = [PDict ?call] | Inl e \<Rightarrow> False)"
    by code_simp
  then obtain u where sel: "select_calls demo_context (demo_answering scale_answer) demo_state = Inr ([PDict ?call], u)"
    by (auto split: sum.splits prod.splits)
  have "map t_name (read_only_tools demo_registry) = [''list_pods'']" by code_simp
  then have ro: "read_only_tools (gc_registry demo_context) \<noteq> []" by (auto simp: demo_context_def)
  let ?tool = "tool_of_spec demo_env
      \<lparr>ts_name = ''scale_deployment'', ts_description = ''scale'', ts_risk_tier = 2, ts_fields = scale_deployment_input\<rparr>"
  have tool: "dget (gc_registry demo_context) ''scale_deployment'' = Some ?tool"
    by (simp add: demo_context_def demo_registry_def)
  have "args_ok scale_deployment_input (dset ''namespace'' (PStr ''rivulet'') answered_args)" by code_simp
  then have inp: "t_input_model ?tool (PDict (dset ''namespace'' (PStr ''rivulet'') answered_args))
      = Inr (PDict (dset ''namespace'' (PStr ''rivulet'') answered_args))"
    by (simp add: tool_of_spec_def demo_env_def)
  show ?thesis
    by (rule investigate_runs_any_tool [OF _ ro sel _ _ tool _ inp])
      (simp_all add: demo_context_def demo_state_def create_initial_state_def demo_incident_def tools_with_namespace_def Let_def)
qed

text \<open>The status of an incident does not depend on verification. After the verify node and the
  complete node the status is a function of the state before both: resolved exactly when some
  recorded action succeeded and no approval is outstanding, also when the verify node has just
  failed the incident because the action's verification did not pass.\<close>

lemma status_ignores_verification:
  "\<exists>s1 s2. verify_node cx inp s = ([], Go s1) \<and> complete_node cx inp' s1 = ([], Go s2) \<and>
     s_status s2 = final_status s \<and>
     (s_status s2 = ''resolved'' \<longleftrightarrow>
        list_ex ea_success (s_executed s) \<and> \<not> (s_requires_approval s \<and> s_approval_granted s = None))"
proof -
  obtain s1 where v: "verify_node cx inp s = ([], Go s1)" "s_executed s1 = s_executed s"
      "s_requires_approval s1 = s_requires_approval s" "s_approval_granted s1 = s_approval_granted s"
    by (auto simp: verify_node_def Let_def split: option.splits bool.splits)
  then have "final_status s1 = final_status s" by (simp add: final_status_def)
  moreover obtain s2 where "complete_node cx inp' s1 = ([], Go s2)" "s_status s2 = final_status s1"
    by (simp add: complete_node_def Let_def)
  moreover have "final_status s = ''resolved'' \<longleftrightarrow>
        list_ex ea_success (s_executed s) \<and> \<not> (s_requires_approval s \<and> s_approval_granted s = None)"
    by (simp add: final_status_def)
  ultimately show ?thesis using v(1) by metis
qed

text \<open>The part of the graph an approved incident can still reach, and the one effect it can have.\<close>

fun cleared :: "config \<Rightarrow> bool" where
  "cleared (At n s) = (already_approved s \<and> n \<in> {Propose, Approve, Execute, Verify_Phase, Complete})"
| "cleared (Paused s) = False"
| "cleared (Ended s) = already_approved s"
| "cleared (Crashed e) = True"

definition unasked_call :: "effect \<Rightarrow> bool" where
  "unasked_call x =
     (case x of ExecutorCall p a ev \<Rightarrow> pa_tool_name a = pa_tool_name p \<and> pa_tool_args a = pa_tool_args p \<and>
        pa_risk_tier a = 1 \<and> \<not> pa_requires_approval a
      | _ \<Rightarrow> False)"

lemma approved_action:
  "already_approved s \<Longrightarrow> \<exists>a. action_to_run s p = Inr a \<and> pa_tool_name a = pa_tool_name p \<and>
     pa_tool_args a = pa_tool_args p \<and> pa_risk_tier a = 1 \<and> \<not> pa_requires_approval a"
  by (simp add: action_to_run_def make_proposed_def)

lemma approved_execute:
  assumes "already_approved s" "execute_node cx inp s = (ev, r)"
  shows "list_all unasked_call ev \<and> cleared (follow Execute r s)"
proof (cases "s_proposed s")
  case Nil
  with assms show ?thesis
    by (auto simp: execute_node_def follow_def already_approved_def)
next
  case (Cons p ps)
  from approved_action [OF assms(1), of p] obtain a where a: "action_to_run s p = Inr a" "pa_tool_name a = pa_tool_name p"
      "pa_tool_args a = pa_tool_args p" "pa_risk_tier a = 1" "\<not> pa_requires_approval a" by blast
  then have call: "unasked_call (ExecutorCall p a x)" for x by (simp add: unasked_call_def)
  show ?thesis
    using assms Cons a(1) call
    by (auto simp: execute_node_def Let_def split_beta follow_def already_approved_def
        split: if_splits sum.splits exec_error.splits)
qed

lemma approved_approve:
  assumes "already_approved s" "approve_node cx inp s = (ev, r)"
  shows "ev = [] \<and> (\<exists>s'. r = Go s' \<and> s_phase s' = Execute \<and> already_approved s' \<and>
    s_proposed s' = s_proposed s \<and> follow Approve r s = At Execute s')"
  using assms by (auto simp: approve_node_def already_approved_def follow_def route_after_approval_def split: if_splits)

lemma cleared_step:
  assumes "cleared c" "gstep cx c ev d"
  shows "cleared d \<and> list_all unasked_call ev"
  using assms(2)
proof cases
  case (gnode inp n s r)
  have ok: "already_approved s" "n \<in> {Propose, Approve, Execute, Verify_Phase, Complete}" using assms(1) gnode by auto
  then consider "n = Propose" | "n = Approve" | "n = Execute" | "n = Verify_Phase" | "n = Complete" by auto
  then show ?thesis
  proof cases
    case 1
    with gnode ok propose_result [of cx inp s ev r] show ?thesis
      by (cases r) (auto simp: follow_def same_progress_def already_approved_def route_after_propose_def)
  next
    case 2
    with gnode ok approved_approve [of s cx inp ev r] show ?thesis by auto
  next
    case 3
    with gnode ok approved_execute [of s cx inp ev r] show ?thesis by auto
  next
    case 4
    with gnode ok verify_result [of cx inp s ev r] show ?thesis
      by (auto simp: follow_def already_approved_def route_after_verify_def)
  next
    case 5
    with gnode ok show ?thesis
      by (auto simp: complete_node_def Let_def follow_def already_approved_def)
  qed
next
  case (gresume inp v s ev' r)
  with assms(1) show ?thesis by simp
qed

lemma cleared_run:
  assumes "run (gstep cx) c n tr d" "cleared c"
  shows "cleared d \<and> list_all unasked_call tr"
  using assms by (induction rule: run.induct) (auto dest: cleared_step)

text \<open>The decision itself: a paused configuration that is resumed with an approving value.\<close>

lemma approval_clears:
  assumes "config_inv cx m c" "gstep cx c (HumanDecision v # ev) d" "decision_approves v"
  shows "cleared d \<and> ev = []"
  using assms(2)
proof cases
  case (gnode inp n s r)
  consider "n = Execute" | "n = Investigate" | "n \<notin> {Investigate, Execute}" by auto
  then show ?thesis
  proof cases
    case 1
    with gnode assms(1) obtain p where "acting cx s p" by auto
    with execute_result [of cx inp s _ r p] execute_stops [of cx inp s _ r] gnode 1 show ?thesis
      by (cases "gc_sre cx") (auto simp: acting_def split: sum.splits)
  next
    case 2
    with gnode investigate_result [of cx inp s _ r] show ?thesis
      by (auto simp: is_registry_call_def)
  next
    case 3
    with gnode quiet_nodes [of cx n inp s _ r] show ?thesis by simp
  qed
next
  case (gresume inp s r)
  with assms(1) obtain p where "s_requires_approval s" "s_proposed s = [p]" "s_approval_granted s = None"
      "s_approval_requested_at s \<noteq> None" by (auto simp: acting_def)
  with gresume assms(3) show ?thesis
    by (auto simp: approve_node_def Let_def follow_def route_after_approval_def already_approved_def)
qed

text \<open>C21: an approval is never spent. After a decision that approved, a run never pauses again,
  consults no reviewer and calls no tool but through the executor, and every call of the executor,
  whatever tier its proposal declares, is made for a Tier-1 action without an approval flag; a
  proposal that reaches the approve node goes on to the execute node as it is.\<close>

theorem approval_is_reused:
  assumes "run (gstep cx) (start_config now m b) n tr d" "gstep cx d (HumanDecision v # ev) c"
    "decision_approves v" "run (gstep cx) c k tr' e"
  shows "ev = [] \<and> (\<forall>s. e \<noteq> Paused s) \<and>
    list_all (\<lambda>x. \<exists>p a y. x = ExecutorCall p a y \<and> pa_tool_name a = pa_tool_name p \<and>
      pa_tool_args a = pa_tool_args p \<and> pa_risk_tier a = 1 \<and> \<not> pa_requires_approval a) tr' \<and>
    (\<forall>s ev' e'. e = At Approve s \<and> gstep cx e ev' e' \<longrightarrow>
       ev' = [] \<and> (\<exists>s'. e' = At Execute s' \<and> s_proposed s' = s_proposed s))"
proof -
  from graph_run.run_inv [OF assms(1) start_inv] have "config_inv cx m d" .
  from approval_clears [OF this assms(2,3)] have c: "cleared c" "ev = []" by auto
  from cleared_run [OF assms(4) this(1)] have e: "cleared e" "list_all unasked_call tr'" by auto
  have "list_all (\<lambda>x. \<exists>p a y. x = ExecutorCall p a y \<and> pa_tool_name a = pa_tool_name p \<and>
      pa_tool_args a = pa_tool_args p \<and> pa_risk_tier a = 1 \<and> \<not> pa_requires_approval a) tr'"
    using e(2) by (rule list.pred_mono_strong) (auto simp: unasked_call_def split: effect.splits)
  moreover have "ev' = [] \<and> (\<exists>s'. e' = At Execute s' \<and> s_proposed s' = s_proposed s)"
    if "e = At Approve s" "gstep cx e ev' e'" for s ev' e'
  proof -
    have "already_approved s" using that(1) e(1) by simp
    from approved_approve [OF this] that(2) show ?thesis unfolding that(1) by (elim gstep_AtE) fastforce
  qed
  ultimately show ?thesis using c e(1) by auto
qed

text \<open>A run with given inputs, one a step: a node gets one without a decision, a paused graph one
  with a decision.\<close>

fun replay :: "graph_context \<Rightarrow> node_input list \<Rightarrow> config \<Rightarrow> nat \<times> effect list \<times> config" where
  "replay cx [] c = (0, [], c)"
| "replay cx (i # is) c =
     (case c of
        At n s \<Rightarrow>
          (let (ev, r) = run_node cx n (i\<lparr>ni_decision := None\<rparr>) s;
               (m, tr, d) = replay cx is (follow n r s)
           in (Suc m, ev @ tr, d))
      | Paused s \<Rightarrow>
          (case ni_decision i of
             None \<Rightarrow> (0, [], c)
           | Some v \<Rightarrow>
               (let (ev, r) = run_node cx Approve i s;
                    (m, tr, d) = replay cx is (follow Approve r s)
                in (Suc m, HumanDecision v # ev @ tr, d)))
      | _ \<Rightarrow> (0, [], c))"

lemma replay_run: "replay cx is c = (n, tr, d) \<Longrightarrow> run (gstep cx) c n tr d"
proof (induction "is" arbitrary: c n tr d)
  case Nil
  then show ?case by (simp add: run_start)
next
  case (Cons i "is")
  show ?case
  proof (cases c)
    case (At p s)
    obtain ev r where node: "run_node cx p (i\<lparr>ni_decision := None\<rparr>) s = (ev, r)" by fastforce
    obtain m tr' d' where rest: "replay cx is (follow p r s) = (m, tr', d')" by (metis prod_cases3)
    have "gstep cx c ev (follow p r s)" unfolding At using node by (intro gnode) simp_all
    from run_trans [OF Cons.IH [OF rest] run_one [of "gstep cx", OF this]] show ?thesis
      using Cons.prems At node rest by simp
  next
    case (Paused s)
    show ?thesis
    proof (cases "ni_decision i")
      case None
      then show ?thesis using Cons.prems Paused run_start by auto
    next
      case (Some v)
      obtain ev r where node: "run_node cx Approve i s = (ev, r)" by fastforce
      obtain m tr' d' where rest: "replay cx is (follow Approve r s) = (m, tr', d')" by (metis prod_cases3)
      have "gstep cx c (HumanDecision v # ev) (follow Approve r s)"
        unfolding Paused using Some node by (intro gresume) simp_all
      from run_trans [OF Cons.IH [OF rest] run_one [of "gstep cx", OF this]] show ?thesis
        using Cons.prems Paused node rest Some by simp
    qed
  qed (use Cons.prems run_start in auto)
qed

text \<open>The concrete incident again, but the model's first proposal, to flush the cache, fails after
  one decision for it; then the model proposes to scale a deployment, a Tier-2 action of another
  tool, which reaches the executor unasked.\<close>

definition failing_env :: tool_env where
  "failing_env = demo_env\<lparr>te_handler := (\<lambda>n v.
     if n = ''flush_all'' then Raised (PyError (RuntimeError ''r'')) else Returned (PDict [(''success'', PBool True)]))\<rparr>"

definition failing_registry :: tools where
  "failing_registry =
    [(''flush_all'', tool_of_spec failing_env
       \<lparr>ts_name = ''flush_all'', ts_description = ''flush'', ts_risk_tier = 2, ts_fields = flush_all_input\<rparr>),
     (''scale_deployment'', tool_of_spec failing_env
       \<lparr>ts_name = ''scale_deployment'', ts_description = ''scale'', ts_risk_tier = 2,
        ts_fields = scale_deployment_input\<rparr>)]"

definition failing_context :: graph_context where
  "failing_context =
    demo_context\<lparr>gc_registry := failing_registry, gc_executor := demo_executor\<lparr>x_registry := failing_registry\<rparr>,
      gc_confidence_propose := 0\<rparr>"

definition proposal_of :: "string \<Rightarrow> pydict \<Rightarrow> pyval" where
  "proposal_of t args =
    PDict [(''choices'', PList [PDict [(''message'', PDict [(''content'',
      PDict [(''tool_name'', PStr t), (''tool_args'', PDict args), (''risk_tier'', PInt 2)])])]])]"

definition asked :: "pyval option \<Rightarrow> node_input" where
  "asked = demo_input 10"

definition proposing :: "string \<Rightarrow> pydict \<Rightarrow> node_input" where
  "proposing t args = (asked None)\<lparr>ni_ask := (\<lambda>_. Inr (proposal_of t args, ''m''))\<rparr>"

definition first_proposal :: "node_input list" where
  "first_proposal = replicate 3 (asked None) @ [proposing ''flush_all'' [(''reason'', PStr ''r'')], asked None, asked None]"

definition second_proposal :: "node_input list" where
  "second_proposal =
    [asked None, asked None,
     proposing ''scale_deployment'' [(''namespace'', PStr ''n''), (''name'', PStr ''o''), (''replicas'', PInt 2), (''reason'', PStr ''r'')],
     asked None, asked None]"

definition plain_incident :: incident_metadata where
  "plain_incident = demo_incident\<lparr>im_labels := []\<rparr>"

text \<open>The state in which the graph waits for the decision.\<close>

definition waiting_state :: agent_state where
  "waiting_state =
    (create_initial_state 1 plain_incident 1)\<lparr>
      s_hypotheses := [triage_fallback (create_initial_state 1 plain_incident 1)],
      s_proposed := [\<lparr>pa_tool_name = ''flush_all'', pa_tool_args = [(''reason'', PStr ''r'')], pa_risk_tier = 2,
         pa_rationale = [], pa_requires_approval = True\<rparr>],
      s_phase := Approve, s_iteration_count := 1, s_iteration_budget := 1, s_last_top_confidence := Fin (1 / 5),
      s_requires_approval := True, s_approval_requested_at := Some 10, s_tokens_used := 24,
      s_prompt_tokens := 21, s_completion_tokens := 3, s_model_usage := [(''m'', 1, 9)]\<rparr>"

lemma first_proposal_waits:
  "replay failing_context first_proposal (start_config 1 plain_incident 1) = (6, [], Paused waiting_state)"
  by code_simp

lemma second_proposal_runs:
  "(case replay failing_context (asked (Some demo_yes) # second_proposal) (Paused waiting_state) of
      (n, tr, d) \<Rightarrow> n = 6 \<and> calls_seen tr =
        [(''decision'', 0, 0), (''flush_all'', 2, 1), (''scale_deployment'', 2, 1)])" by code_simp

lemma approval_is_reused_witness:
  "\<exists>c tr' e. run (gstep failing_context) (start_config 1 plain_incident 1) 6 [] (Paused waiting_state) \<and>
     gstep failing_context (Paused waiting_state) [HumanDecision demo_yes] c \<and>
     run (gstep failing_context) c 5 tr' e \<and>
     calls_seen tr' = [(''flush_all'', 2, 1), (''scale_deployment'', 2, 1)] \<and> (\<forall>s. e \<noteq> Paused s)"
proof -
  obtain ev r where appr: "approve_node failing_context (asked (Some demo_yes)) waiting_state = (ev, r)" by fastforce
  then have ev: "ev = []" by (simp add: approve_node_def)
  let ?c = "follow Approve r waiting_state"
  obtain k tr' e where later: "replay failing_context second_proposal ?c = (k, tr', e)" by (metis prod_cases3)
  have "ni_decision (asked (Some demo_yes)) = Some demo_yes" by (simp add: asked_def demo_input_def)
  then have "k = 5" "calls_seen tr' = [(''flush_all'', 2, 1), (''scale_deployment'', 2, 1)]"
    using second_proposal_runs appr later ev by (simp_all add: calls_seen_def)
  moreover have step: "gstep failing_context (Paused waiting_state) [HumanDecision demo_yes] ?c"
    using appr ev by (intro gresume [where inp = "asked (Some demo_yes)"]) (simp_all add: asked_def demo_input_def)
  moreover have yes: "decision_approves demo_yes" by (simp add: decision_approves_def demo_yes_def)
  moreover note replay_run [OF first_proposal_waits] replay_run [OF later]
  ultimately show ?thesis
    using approval_is_reused [of failing_context 1 plain_incident 1 6 "[]" "Paused waiting_state" demo_yes "[]" ?c 5 tr' e]
    by blast
qed

end
